(* ===== verification/Vibe_Prelude.thy ===== *)
theory Vibe_Prelude
  imports Main "HOL-Library.Word"
begin

unbundle bit_operations_syntax

text \<open>
  Shared material of the development: the machine integer types of \<^verbatim>\<open>efi.h\<close>
  (\<^verbatim>\<open>UINT8\<close> to \<^verbatim>\<open>UINT64\<close>, \<^verbatim>\<open>UINTN\<close>), the collections of simplification
  rules the component proofs draw on, the compare-and-swap instruction both C files use, and
  generic facts about fixed-length arrays and 64-bit words that several components need.
\<close>

section \<open>Machine integers\<close>

type_synonym u8 = "8 word"
type_synonym u16 = "16 word"
type_synonym u32 = "32 word"
type_synonym u64 = "64 word"

named_theorems c_const \<open>values of the enumerators and macros of the C sources\<close>
named_theorems slot_ops \<open>defining equations of the request slot operations\<close>
named_theorems ctx_ops \<open>defining equations of the AP context operations\<close>

section \<open>Compare and swap\<close>

text \<open>
  The effect of the locked \<^verbatim>\<open>cmpxchgl\<close> instruction on the addressed word: the result
  pairs the zero flag (the return value of the C wrapper) with the new contents.
\<close>

definition cmpxchg_u32 :: "u32 \<Rightarrow> u32 \<Rightarrow> u32 \<Rightarrow> bool \<times> u32" where
  "cmpxchg_u32 cur expected desired =
     (if cur = expected then (True, desired) else (False, cur))"

lemma cmpxchg_u32_hit [simp]: "cmpxchg_u32 e e d = (True, d)"
  by (simp add: cmpxchg_u32_def)

lemma cmpxchg_u32_miss [simp]: "c \<noteq> e \<Longrightarrow> cmpxchg_u32 c e d = (False, c)"
  by (simp add: cmpxchg_u32_def)

section \<open>Arrays of a fixed length\<close>

text \<open>
  A C array of \<open>n\<close> elements is a list of length \<open>n\<close>. A loop that writes every
  element from its index is \<open>map f [0..<n]\<close>; the loops of the sources that read and write the
  same array are folds over the index list.
\<close>

lemma list_eq_by_nth:
  "length xs = length ys \<Longrightarrow> (\<And>i. i < length xs \<Longrightarrow> xs ! i = ys ! i) \<Longrightarrow> xs = ys"
  by (rule nth_equalityI) auto

lemma find_upt_unique:
  assumes "P i" "i < n" "\<And>j. j < n \<Longrightarrow> P j \<Longrightarrow> j = i"
  shows "find P [0..<n] = Some i"
proof -
  have "\<not> P j" if "j < i" for j using that assms(2) assms(3) [of j] by auto
  then show ?thesis
    unfolding find_Some_iff using assms(1,2) by (intro exI [of _ i]) simp
qed

lemma take_update_beyond: "n \<le> i \<Longrightarrow> take n (xs[i := x]) = take n xs"
  by (rule take_update_cancel)

lemma take_Suc_update: "i < length xs \<Longrightarrow> take (Suc i) (xs[i := x]) = take i xs @ [x]"
  by (simp add: take_Suc_conv_app_nth)

lemma fold_length_invariant:
  "(\<And>x s. length (f x s) = length s) \<Longrightarrow> length (fold f xs s) = length s"
  by (induction xs arbitrary: s) auto

lemma fold_invariant_set:
  "P s \<Longrightarrow> (\<And>x s. x \<in> set xs \<Longrightarrow> P s \<Longrightarrow> P (f x s)) \<Longrightarrow> P (fold f xs s)"
  by (induction xs arbitrary: s) auto

lemma fold_update_nth:
  "length es = n \<Longrightarrow> fold (\<lambda>i es. es[i := f i (es ! i)]) [0..<k] es =
     map (\<lambda>i. if i < k then f i (es ! i) else es ! i) [0..<n]"
proof (induction k)
  case 0
  then show ?case by (auto intro: nth_equalityI)
next
  case (Suc k)
  then show ?case by (auto simp: list_eq_iff_nth_eq nth_list_update less_Suc_eq)
qed

section \<open>Words\<close>

lemma unat_less_self_conv: "(a::'a::len word) < b \<longleftrightarrow> unat a < unat b"
  by (rule word_less_nat_alt)

lemma unat_bound_len: "unat (a::'a::len word) < 2 ^ LENGTH('a)"
  by simp

lemma unat_Suc_word:
  assumes "(a::'a::len word) < b"
  shows "unat (a + 1) = Suc (unat a)"
proof -
  have "Suc (unat a) < 2 ^ LENGTH('a)"
    using assms unat_bound_len [of b] unfolding word_less_nat_alt by linarith
  then show ?thesis
    by (simp add: unat_word_ariths)
qed

lemma unat_ucast_up:
  assumes "LENGTH('a::len) \<le> LENGTH('b::len)"
  shows "unat (ucast (x::'a word) :: 'b word) = unat x"
proof -
  have "unat x < 2 ^ LENGTH('b)"
    using unat_bound_len [of x] power_increasing [OF assms, of "2::nat"] by linarith
  then show ?thesis
    by (simp add: unsigned_ucast_eq take_bit_nat_eq_self)
qed

lemma unat_ucast_up_simps [simp]:
  "unat (ucast (a::u8) :: u32) = unat a" "unat (ucast (a::u8) :: u64) = unat a"
  "unat (ucast (b::u16) :: u64) = unat b" "unat (ucast (c::u32) :: u64) = unat c"
  by (rule unat_ucast_up, simp)+

lemma word_of_nat_unat: "word_of_nat (unat a) = (a::'a::len word)"
  by simp

section \<open>Bit masks\<close>

lemma unat_and_mask: "unat ((a::'a::len word) AND mask n) = unat a mod 2 ^ n"
  by (metis take_bit_eq_mask take_bit_eq_mod unsigned_take_bit_eq)

lemma unat_and_not_mask: "unat ((a::'a::len word) AND NOT (mask n)) = unat a - unat a mod 2 ^ n"
proof -
  have "(a AND NOT (mask n)) AND (a AND mask n) = 0"
    by (rule bit_eqI) (auto simp: bit_simps)
  then have "(a AND NOT (mask n)) + (a AND mask n) = (a AND NOT (mask n)) OR (a AND mask n)"
    by (rule disjunctive_add_eq_or)
  also have "\<dots> = a"
    by (rule bit_eqI) (auto simp: bit_simps)
  finally have "a AND NOT (mask n) = a - (a AND mask n)"
    by (simp add: algebra_simps)
  then show ?thesis
    by (simp add: unat_sub word_and_le2 unat_and_mask)
qed

lemma unat_and_not_mask_div: "unat ((a::'a::len word) AND NOT (mask n)) = unat a div 2 ^ n * 2 ^ n"
  by (simp add: unat_and_not_mask minus_mod_eq_div_mult)

end
