(* ===== verification/Ap_Request.thy ===== *)
theory Ap_Request
  imports Vibe_Prelude
begin

text \<open>
  The request slots and outboxes of \<^verbatim>\<open>kernel/ap_request.h\<close> and
  \<^verbatim>\<open>kernel/ap_request.c\<close>: the mailbox through which the boot processor (BSP) hands a
  request to an application processor (AP) and reads the reply, and the bounded outbox in which a
  service collects follow-up requests. Every struct is a record with the fields of the C struct,
  every function takes the objects its pointer arguments address and returns their new contents.
  A pointer the C code tests against null is an option.
\<close>

section \<open>Constants\<close>

definition AP_REQUEST_SERVICE_PING :: u64 where
  [c_const]: "AP_REQUEST_SERVICE_PING = 0x41502d5356430001"

definition AP_REQUEST_INTERFACE_PING :: u64 where
  [c_const]: "AP_REQUEST_INTERFACE_PING = 0x41502d4946430001"

definition AP_REQUEST_SERVICE_COUNTER :: u64 where
  [c_const]: "AP_REQUEST_SERVICE_COUNTER = 0x41502d5356430002"

definition AP_REQUEST_INTERFACE_COUNTER_INCREMENT :: u64 where
  [c_const]: "AP_REQUEST_INTERFACE_COUNTER_INCREMENT = 0x41502d4946430002"

definition AP_REQUEST_OUTBOX_CAPACITY :: u32 where
  [c_const]: "AP_REQUEST_OUTBOX_CAPACITY = 4"

definition AP_REQUEST_ID_HIGH_DEFAULT :: u64 where
  [c_const]: "AP_REQUEST_ID_HIGH_DEFAULT = 0x41502d50494e4721"

definition AP_REQUEST_STATUS_EMPTY :: u32 where [c_const]: "AP_REQUEST_STATUS_EMPTY = 0"
definition AP_REQUEST_STATUS_PENDING :: u32 where [c_const]: "AP_REQUEST_STATUS_PENDING = 1"
definition AP_REQUEST_STATUS_RUNNING :: u32 where [c_const]: "AP_REQUEST_STATUS_RUNNING = 2"
definition AP_REQUEST_STATUS_DONE :: u32 where [c_const]: "AP_REQUEST_STATUS_DONE = 3"
definition AP_REQUEST_STATUS_TIMEOUT :: u32 where [c_const]: "AP_REQUEST_STATUS_TIMEOUT = 4"
definition AP_REQUEST_STATUS_BAD_OP :: u32 where [c_const]: "AP_REQUEST_STATUS_BAD_OP = 5"
definition AP_REQUEST_STATUS_FAULT :: u32 where [c_const]: "AP_REQUEST_STATUS_FAULT = 6"
definition AP_REQUEST_STATUS_SKIPPED :: u32 where [c_const]: "AP_REQUEST_STATUS_SKIPPED = 7"

definition AP_REQUEST_OP_NONE :: u32 where [c_const]: "AP_REQUEST_OP_NONE = 0"
definition AP_REQUEST_OP_PING :: u32 where [c_const]: "AP_REQUEST_OP_PING = 1"
definition AP_REQUEST_OP_COUNTER :: u32 where [c_const]: "AP_REQUEST_OP_COUNTER = 2"

section \<open>Data\<close>

record ap_request_header_t =
  rq_source_cpu :: u32
  rq_target_cpu :: u32
  rq_opcode :: u32
  rq_sequence :: u32
  rq_service_id :: u64
  rq_interface_id :: u64
  rq_id_high :: u64
  rq_id_low :: u64
  rq_parent_id_high :: u64
  rq_parent_id_low :: u64
  rq_reply_service_id :: u64
  rq_reply_interface_id :: u64
  rq_payload_addr :: u64
  rq_payload_len :: u32
  rq_flags :: u32

record ap_reply_header_t =
  rp_result_code :: u32
  rp_fault_code :: u32
  rp_request_id_high :: u64
  rp_request_id_low :: u64
  rp_result_cs :: u64
  rp_result_tr :: u64

record ap_request_metrics_t =
  mt_handled_count :: u32
  mt_wait_loops :: u32

record ap_request_envelope_t =
  ev_parent_id_high :: u64
  ev_parent_id_low :: u64
  ev_reply_service_id :: u64
  ev_reply_interface_id :: u64
  ev_payload_addr :: u64
  ev_payload_len :: u32
  ev_flags :: u32

record ap_request_plan_t =
  pl_opcode :: u32
  pl_service_id :: u64
  pl_interface_id :: u64
  pl_sequence :: u32
  pl_envelope :: ap_request_envelope_t

record ap_request_outbox_t =
  ob_count :: u32
  ob_entries :: "ap_request_plan_t list"

record ap_request_slot_t =
  slot_state :: u32
  slot_request :: ap_request_header_t
  slot_reply :: ap_reply_header_t
  slot_metrics :: ap_request_metrics_t

section \<open>Request slots\<close>

definition reset_ap_request_slot :: "ap_request_slot_t \<Rightarrow> ap_request_slot_t" where
  [slot_ops]: "reset_ap_request_slot slot = slot\<lparr>
     slot_state := AP_REQUEST_STATUS_EMPTY,
     slot_request := (slot_request slot)\<lparr>
       rq_source_cpu := 0, rq_target_cpu := 0, rq_opcode := AP_REQUEST_OP_NONE,
       rq_sequence := 0, rq_service_id := 0, rq_interface_id := 0, rq_id_high := 0,
       rq_id_low := 0, rq_parent_id_high := 0, rq_parent_id_low := 0,
       rq_reply_service_id := 0, rq_reply_interface_id := 0, rq_payload_addr := 0,
       rq_payload_len := 0, rq_flags := 0\<rparr>,
     slot_reply := (slot_reply slot)\<lparr>
       rp_result_code := 0, rp_fault_code := 0, rp_request_id_high := 0,
       rp_request_id_low := 0, rp_result_cs := 0, rp_result_tr := 0\<rparr>,
     slot_metrics := (slot_metrics slot)\<lparr>mt_handled_count := 0, mt_wait_loops := 0\<rparr>\<rparr>"

definition envelope_or_zero :: "ap_request_envelope_t option \<Rightarrow>
    (ap_request_envelope_t \<Rightarrow> 'w::len word) \<Rightarrow> 'w word" where
  [slot_ops]: "envelope_or_zero envelope fld = (case envelope of Some e \<Rightarrow> fld e | None \<Rightarrow> 0)"

definition prepare_ap_request_slot_with_envelope ::
    "ap_request_slot_t \<Rightarrow> u32 \<Rightarrow> u32 \<Rightarrow> u64 \<Rightarrow> u64 \<Rightarrow> u32 \<Rightarrow>
     ap_request_envelope_t option \<Rightarrow> ap_request_slot_t" where
  [slot_ops]: "prepare_ap_request_slot_with_envelope slot target_cpu opcode service_id interface_id
     sequence envelope = slot\<lparr>
     slot_metrics := (slot_metrics slot)\<lparr>mt_handled_count := 0\<rparr>,
     slot_request := (slot_request slot)\<lparr>
       rq_source_cpu := 0, rq_target_cpu := target_cpu, rq_opcode := opcode,
       rq_sequence := sequence, rq_service_id := service_id, rq_interface_id := interface_id,
       rq_id_high := AP_REQUEST_ID_HIGH_DEFAULT, rq_id_low := ucast sequence,
       rq_parent_id_high := envelope_or_zero envelope ev_parent_id_high,
       rq_parent_id_low := envelope_or_zero envelope ev_parent_id_low,
       rq_reply_service_id := envelope_or_zero envelope ev_reply_service_id,
       rq_reply_interface_id := envelope_or_zero envelope ev_reply_interface_id,
       rq_payload_addr := envelope_or_zero envelope ev_payload_addr,
       rq_payload_len := envelope_or_zero envelope ev_payload_len,
       rq_flags := envelope_or_zero envelope ev_flags\<rparr>\<rparr>"

definition prepare_ap_request_slot ::
    "ap_request_slot_t \<Rightarrow> u32 \<Rightarrow> u32 \<Rightarrow> u64 \<Rightarrow> u64 \<Rightarrow> u32 \<Rightarrow> ap_request_slot_t" where
  [slot_ops]: "prepare_ap_request_slot slot target_cpu opcode service_id interface_id sequence =
     prepare_ap_request_slot_with_envelope slot target_cpu opcode service_id interface_id
       sequence None"

definition prepare_ap_request_slot_from_plan ::
    "ap_request_slot_t \<Rightarrow> u32 \<Rightarrow> ap_request_plan_t \<Rightarrow> ap_request_slot_t" where
  [slot_ops]: "prepare_ap_request_slot_from_plan slot target_cpu plan =
     prepare_ap_request_slot_with_envelope slot target_cpu (pl_opcode plan) (pl_service_id plan)
       (pl_interface_id plan) (pl_sequence plan) (Some (pl_envelope plan))"

definition copy_ap_request_slot ::
    "ap_request_slot_t \<Rightarrow> ap_request_slot_t \<Rightarrow> ap_request_slot_t" where
  [slot_ops]: "copy_ap_request_slot dst src = dst\<lparr>
     slot_state := slot_state src,
     slot_request := (slot_request dst)\<lparr>
       rq_source_cpu := rq_source_cpu (slot_request src),
       rq_target_cpu := rq_target_cpu (slot_request src),
       rq_opcode := rq_opcode (slot_request src),
       rq_sequence := rq_sequence (slot_request src),
       rq_service_id := rq_service_id (slot_request src),
       rq_interface_id := rq_interface_id (slot_request src),
       rq_id_high := rq_id_high (slot_request src),
       rq_id_low := rq_id_low (slot_request src),
       rq_parent_id_high := rq_parent_id_high (slot_request src),
       rq_parent_id_low := rq_parent_id_low (slot_request src),
       rq_reply_service_id := rq_reply_service_id (slot_request src),
       rq_reply_interface_id := rq_reply_interface_id (slot_request src),
       rq_payload_addr := rq_payload_addr (slot_request src),
       rq_payload_len := rq_payload_len (slot_request src),
       rq_flags := rq_flags (slot_request src)\<rparr>,
     slot_reply := (slot_reply dst)\<lparr>
       rp_result_code := rp_result_code (slot_reply src),
       rp_fault_code := rp_fault_code (slot_reply src),
       rp_request_id_high := rp_request_id_high (slot_reply src),
       rp_request_id_low := rp_request_id_low (slot_reply src),
       rp_result_cs := rp_result_cs (slot_reply src),
       rp_result_tr := rp_result_tr (slot_reply src)\<rparr>,
     slot_metrics := (slot_metrics dst)\<lparr>
       mt_handled_count := mt_handled_count (slot_metrics src),
       mt_wait_loops := mt_wait_loops (slot_metrics src)\<rparr>\<rparr>"

section \<open>Outboxes\<close>

definition copy_ap_request_plan ::
    "ap_request_plan_t \<Rightarrow> ap_request_plan_t \<Rightarrow> ap_request_plan_t" where
  [slot_ops]: "copy_ap_request_plan dst src = dst\<lparr>
     pl_opcode := pl_opcode src,
     pl_service_id := pl_service_id src,
     pl_interface_id := pl_interface_id src,
     pl_sequence := pl_sequence src,
     pl_envelope := (pl_envelope dst)\<lparr>
       ev_parent_id_high := ev_parent_id_high (pl_envelope src),
       ev_parent_id_low := ev_parent_id_low (pl_envelope src),
       ev_reply_service_id := ev_reply_service_id (pl_envelope src),
       ev_reply_interface_id := ev_reply_interface_id (pl_envelope src),
       ev_payload_addr := ev_payload_addr (pl_envelope src),
       ev_payload_len := ev_payload_len (pl_envelope src),
       ev_flags := ev_flags (pl_envelope src)\<rparr>\<rparr>"

text \<open>The eleven stores of zero that clear one outbox entry.\<close>

definition clear_ap_request_plan :: "ap_request_plan_t \<Rightarrow> ap_request_plan_t" where
  [slot_ops]: "clear_ap_request_plan entry = entry\<lparr>
     pl_opcode := 0, pl_service_id := 0, pl_interface_id := 0, pl_sequence := 0,
     pl_envelope := (pl_envelope entry)\<lparr>
       ev_parent_id_high := 0, ev_parent_id_low := 0, ev_reply_service_id := 0,
       ev_reply_interface_id := 0, ev_payload_addr := 0, ev_payload_len := 0,
       ev_flags := 0\<rparr>\<rparr>"

fun reset_ap_request_outbox :: "ap_request_outbox_t option \<Rightarrow> ap_request_outbox_t option" where
  "reset_ap_request_outbox None = None"
| "reset_ap_request_outbox (Some outbox) = Some (outbox\<lparr>
     ob_count := 0,
     ob_entries := fold (\<lambda>i es. es[i := clear_ap_request_plan (es ! i)])
       [0..<unat AP_REQUEST_OUTBOX_CAPACITY] (ob_entries outbox)\<rparr>)"

fun copy_ap_request_outbox ::
    "ap_request_outbox_t option \<Rightarrow> ap_request_outbox_t option \<Rightarrow> ap_request_outbox_t option" where
  "copy_ap_request_outbox None src = None"
| "copy_ap_request_outbox (Some dst) None = reset_ap_request_outbox (Some dst)"
| "copy_ap_request_outbox (Some dst) (Some src) =
     (let count = (if ob_count src > AP_REQUEST_OUTBOX_CAPACITY
                   then AP_REQUEST_OUTBOX_CAPACITY else ob_count src)
      in Some (dst\<lparr>
        ob_count := count,
        ob_entries := fold (\<lambda>i es.
            if i < unat count
            then es[i := copy_ap_request_plan (es ! i) (ob_entries src ! i)]
            else es[i := clear_ap_request_plan (es ! i)])
          [0..<unat AP_REQUEST_OUTBOX_CAPACITY] (ob_entries dst)\<rparr>))"

fun append_ap_request_outbox ::
    "ap_request_outbox_t option \<Rightarrow> ap_request_plan_t option \<Rightarrow>
     bool \<times> ap_request_outbox_t option" where
  "append_ap_request_outbox None plan = (False, None)"
| "append_ap_request_outbox (Some outbox) None = (False, Some outbox)"
| "append_ap_request_outbox (Some outbox) (Some plan) =
     (if ob_count outbox \<ge> AP_REQUEST_OUTBOX_CAPACITY then (False, Some outbox)
      else (True, Some (outbox\<lparr>
        ob_entries := (ob_entries outbox)[unat (ob_count outbox) :=
          copy_ap_request_plan (ob_entries outbox ! unat (ob_count outbox)) plan],
        ob_count := ob_count outbox + 1\<rparr>)))"

fun complete_ap_request_done_with_outbox ::
    "ap_request_slot_t option \<Rightarrow> ap_request_outbox_t option \<Rightarrow> ap_request_outbox_t option \<Rightarrow>
     bool \<times> ap_request_slot_t option \<times> ap_request_outbox_t option" where
  "complete_ap_request_done_with_outbox None committed scratch =
     (False, None, reset_ap_request_outbox committed)"
| "complete_ap_request_done_with_outbox (Some slot) committed scratch =
     (let committed = copy_ap_request_outbox committed scratch;
          (swapped, state) =
            cmpxchg_u32 (slot_state slot) AP_REQUEST_STATUS_RUNNING AP_REQUEST_STATUS_DONE;
          slot = slot\<lparr>slot_state := state\<rparr>
      in if \<not> swapped then (False, Some slot, reset_ap_request_outbox committed)
         else (True, Some slot, committed))"

section \<open>Slots: what reset, prepare and copy leave behind\<close>

text \<open>The slot every reset produces, whatever was in the slot before.\<close>

definition zero_slot :: ap_request_slot_t where
  "zero_slot = \<lparr>slot_state = 0,
     slot_request = \<lparr>rq_source_cpu = 0, rq_target_cpu = 0, rq_opcode = 0, rq_sequence = 0,
       rq_service_id = 0, rq_interface_id = 0, rq_id_high = 0, rq_id_low = 0,
       rq_parent_id_high = 0, rq_parent_id_low = 0, rq_reply_service_id = 0,
       rq_reply_interface_id = 0, rq_payload_addr = 0, rq_payload_len = 0, rq_flags = 0\<rparr>,
     slot_reply = \<lparr>rp_result_code = 0, rp_fault_code = 0, rp_request_id_high = 0,
       rp_request_id_low = 0, rp_result_cs = 0, rp_result_tr = 0\<rparr>,
     slot_metrics = \<lparr>mt_handled_count = 0, mt_wait_loops = 0\<rparr>\<rparr>"

lemma reset_ap_request_slot_zero: "reset_ap_request_slot slot = zero_slot"
  by (simp add: reset_ap_request_slot_def zero_slot_def c_const)

lemma copy_ap_request_slot_eq: "copy_ap_request_slot dst src = src"
  by (simp add: copy_ap_request_slot_def)

lemma copy_ap_request_plan_eq [simp]: "copy_ap_request_plan dst src = src"
  by (simp add: copy_ap_request_plan_def)

definition zero_plan :: ap_request_plan_t where
  "zero_plan = \<lparr>pl_opcode = 0, pl_service_id = 0, pl_interface_id = 0, pl_sequence = 0,
     pl_envelope = \<lparr>ev_parent_id_high = 0, ev_parent_id_low = 0, ev_reply_service_id = 0,
       ev_reply_interface_id = 0, ev_payload_addr = 0, ev_payload_len = 0, ev_flags = 0\<rparr>\<rparr>"

lemma clear_ap_request_plan_eq [simp]: "clear_ap_request_plan p = zero_plan"
  by (simp add: clear_ap_request_plan_def zero_plan_def)

text \<open>Reading a plan back from the request header of a slot.\<close>

definition plan_of_slot :: "ap_request_slot_t \<Rightarrow> ap_request_plan_t" where
  "plan_of_slot slot = (let r = slot_request slot in
     \<lparr>pl_opcode = rq_opcode r, pl_service_id = rq_service_id r,
      pl_interface_id = rq_interface_id r, pl_sequence = rq_sequence r,
      pl_envelope = \<lparr>ev_parent_id_high = rq_parent_id_high r, ev_parent_id_low = rq_parent_id_low r,
        ev_reply_service_id = rq_reply_service_id r,
        ev_reply_interface_id = rq_reply_interface_id r,
        ev_payload_addr = rq_payload_addr r, ev_payload_len = rq_payload_len r,
        ev_flags = rq_flags r\<rparr>\<rparr>)"

lemma plan_of_prepared_slot:
  "plan_of_slot (prepare_ap_request_slot_from_plan slot cpu plan) = plan"
  by (simp add: plan_of_slot_def slot_ops)

lemma prepare_from_plan_frame [simp]:
  "slot_state (prepare_ap_request_slot_from_plan slot cpu plan) = slot_state slot"
  "slot_reply (prepare_ap_request_slot_from_plan slot cpu plan) = slot_reply slot"
  "mt_wait_loops (slot_metrics (prepare_ap_request_slot_from_plan slot cpu plan)) =
     mt_wait_loops (slot_metrics slot)"
  by (simp_all add: slot_ops)

section \<open>Outboxes: a bounded queue\<close>

text \<open>
  An outbox is well formed when its array has the declared length and its count is within
  the capacity; what it holds is the prefix of the array of that length.
\<close>

definition outbox_wf :: "ap_request_outbox_t option \<Rightarrow> bool" where
  "outbox_wf ob = (case ob of None \<Rightarrow> False
     | Some o' \<Rightarrow> length (ob_entries o') = 4 \<and> ob_count o' \<le> AP_REQUEST_OUTBOX_CAPACITY)"

definition outbox_plans :: "ap_request_outbox_t option \<Rightarrow> ap_request_plan_t list" where
  "outbox_plans ob = (case ob of None \<Rightarrow> []
     | Some o' \<Rightarrow> take (unat (ob_count o')) (ob_entries o'))"

text \<open>
  The contract of an outbox, as its clients use it: a reset empties it, an append adds the
  plan at the end and reports success while there is room, and a full outbox refuses and stays as
  it was.
\<close>

locale bounded_outbox =
  fixes reset :: "'o \<Rightarrow> 'o"
    and append :: "'o \<Rightarrow> 'e \<Rightarrow> bool \<times> 'o"
    and plans :: "'o \<Rightarrow> 'e list"
    and wf :: "'o \<Rightarrow> bool"
    and cap :: nat
  assumes wf_reset: "wf ob \<Longrightarrow> wf (reset ob)"
    and plans_reset: "wf ob \<Longrightarrow> plans (reset ob) = []"
    and plans_le: "wf ob \<Longrightarrow> length (plans ob) \<le> cap"
    and wf_append: "wf ob \<Longrightarrow> wf (snd (append ob e))"
    and append_room: "wf ob \<Longrightarrow> length (plans ob) < cap \<Longrightarrow>
          fst (append ob e) \<and> plans (snd (append ob e)) = plans ob @ [e]"
    and append_full: "wf ob \<Longrightarrow> length (plans ob) = cap \<Longrightarrow> append ob e = (False, ob)"
begin

lemma plans_append:
  assumes "wf ob"
  shows "plans (snd (append ob e)) = take cap (plans ob @ [e])"
proof (cases "length (plans ob) < cap")
  case True
  with append_room [OF assms True] show ?thesis by simp
next
  case False
  then have "length (plans ob) = cap" using plans_le [OF assms] by simp
  with append_full [OF assms] show ?thesis by simp
qed

lemma wf_append_all: "wf ob \<Longrightarrow> wf (fold (\<lambda>e ob. snd (append ob e)) es ob)"
  by (induction es arbitrary: ob) (auto intro: wf_append)

lemma plans_append_all:
  "wf ob \<Longrightarrow> plans (fold (\<lambda>e ob. snd (append ob e)) es ob) = take cap (plans ob @ es)"
proof (induction es arbitrary: ob)
  case Nil
  then show ?case by (simp add: plans_le)
next
  case (Cons e es)
  have "plans (fold (\<lambda>e ob. snd (append ob e)) es (snd (append ob e))) =
      take cap (take cap (plans ob @ [e]) @ es)"
    using Cons.IH [OF wf_append [OF Cons.prems]] by (simp add: plans_append [OF Cons.prems])
  also have "\<dots> = take cap (plans ob @ e # es)"
    by (cases "length (plans ob) < cap") auto
  finally show ?case by simp
qed

lemma append_accepts: "wf ob \<Longrightarrow> fst (append ob e) \<longleftrightarrow> length (plans ob) < cap"
  using append_room [of ob e] append_full [of ob e] plans_le [of ob]
  by (cases "length (plans ob) < cap") auto

end

text \<open>An outbox that can also be published by copying it into another one.\<close>

locale committed_outbox = bounded_outbox +
  fixes commit :: "'a \<Rightarrow> 'a \<Rightarrow> 'a"
  assumes wf_commit: "wf dst \<Longrightarrow> wf src \<Longrightarrow> wf (commit dst src)"
    and plans_commit: "wf dst \<Longrightarrow> wf src \<Longrightarrow> plans (commit dst src) = plans src"
begin

lemma commit_discard: "wf dst \<Longrightarrow> wf src \<Longrightarrow> plans (reset (commit dst src)) = []"
  by (simp add: plans_reset wf_commit)

end

text \<open>The loops over the four entries, as list expressions.\<close>

lemma unat_outbox_capacity [simp]: "unat AP_REQUEST_OUTBOX_CAPACITY = 4"
  by (simp add: c_const)

lemma clear_entries_eq:
  "length es = 4 \<Longrightarrow> fold (\<lambda>i es. es[i := zero_plan]) [0..<4] es = replicate 4 zero_plan"
  using fold_update_nth [where f = "\<lambda>_ _. zero_plan" and k = 4 and es = es]
  by (auto intro: nth_equalityI)

lemma reset_outbox_eq:
  "length (ob_entries ob) = 4 \<Longrightarrow> reset_ap_request_outbox (Some ob) =
     Some (ob\<lparr>ob_count := 0, ob_entries := replicate 4 zero_plan\<rparr>)"
  by (simp add: clear_entries_eq)

lemma copy_entries_eq:
  assumes "length es = 4"
  shows "fold (\<lambda>i es. if i < c then es[i := copy_ap_request_plan (es ! i) (src ! i)]
       else es[i := clear_ap_request_plan (es ! i)]) [0..<4] es =
     map (\<lambda>i. if i < c then src ! i else zero_plan) [0..<4]"
proof -
  let ?f = "\<lambda>i e. if i < c then src ! i else zero_plan"
  have "(\<lambda>i es. if i < c then es[i := copy_ap_request_plan (es ! i) (src ! i)]
       else es[i := clear_ap_request_plan (es ! i)]) = (\<lambda>i es. es[i := ?f i (es ! i)])"
    by (intro ext) simp
  moreover have "fold (\<lambda>i es. es[i := ?f i (es ! i)]) [0..<4] es = map (\<lambda>i. ?f i (es ! i)) [0..<4]"
    using fold_update_nth [OF assms, where f = ?f and k = 4] by (auto intro: nth_equalityI)
  ultimately show ?thesis by simp
qed

lemma copy_outbox_eq:
  assumes "length (ob_entries dst) = 4"
  shows "copy_ap_request_outbox (Some dst) (Some src) =
     (let c = min (ob_count src) AP_REQUEST_OUTBOX_CAPACITY in
      Some (dst\<lparr>ob_count := c, ob_entries :=
        map (\<lambda>i. if i < unat c then ob_entries src ! i else zero_plan) [0..<4]\<rparr>))"
  using copy_entries_eq [OF assms, where c = 4 and src = "ob_entries src"]
    copy_entries_eq [OF assms, where c = "unat (ob_count src)" and src = "ob_entries src"]
  by (simp add: Let_def min_def not_less)

lemma take_map_prefix:
  "c \<le> n \<Longrightarrow> n \<le> length xs \<Longrightarrow>
     take c (map (\<lambda>i. if i < c then xs ! i else z) [0..<n]) = take c xs"
  by (rule nth_equalityI) auto

lemma unat_le_4: "(c::u32) \<le> AP_REQUEST_OUTBOX_CAPACITY \<longleftrightarrow> unat c \<le> 4"
  by (simp add: word_le_nat_alt)

interpretation outbox: committed_outbox reset_ap_request_outbox
  "\<lambda>ob e. append_ap_request_outbox ob (Some e)" outbox_plans outbox_wf 4 copy_ap_request_outbox
proof unfold_locales
  fix ob e
  assume wf: "outbox_wf ob"
  then obtain o' where ob: "ob = Some o'" and len: "length (ob_entries o') = 4"
    and cnt: "ob_count o' \<le> AP_REQUEST_OUTBOX_CAPACITY"
    by (auto simp: outbox_wf_def split: option.splits)
  show "outbox_wf (reset_ap_request_outbox ob)" "outbox_plans (reset_ap_request_outbox ob) = []"
    using len by (simp_all add: ob reset_outbox_eq outbox_wf_def outbox_plans_def
        del: reset_ap_request_outbox.simps)
  show "length (outbox_plans ob) \<le> 4"
    using len by (simp add: ob outbox_plans_def)
  have full: "length (outbox_plans ob) = unat (ob_count o')"
    using len cnt by (simp add: ob outbox_plans_def unat_le_4)
  have inc: "unat (ob_count o' + 1) = Suc (unat (ob_count o'))"
    if "unat (ob_count o') < 4"
    using that by (intro unat_Suc_word [where b = 4]) (simp add: word_less_nat_alt)
  show "outbox_wf (snd (append_ap_request_outbox ob (Some e)))"
    using len cnt inc by (auto simp: ob outbox_wf_def unat_le_4 not_le word_less_nat_alt)
  show "fst (append_ap_request_outbox ob (Some e)) \<and>
      outbox_plans (snd (append_ap_request_outbox ob (Some e))) = outbox_plans ob @ [e]"
    if "length (outbox_plans ob) < 4"
    using that len inc unfolding full
    by (simp add: ob outbox_plans_def word_le_nat_alt take_Suc_update)
  show "append_ap_request_outbox ob (Some e) = (False, ob)" if "length (outbox_plans ob) = 4"
    using that unfolding full by (simp add: ob word_le_nat_alt)
next
  fix dst src
  assume dst: "outbox_wf dst" and src: "outbox_wf src"
  then obtain d s where ds: "dst = Some d" "src = Some s"
    and len: "length (ob_entries d) = 4" "length (ob_entries s) = 4"
    and cnt: "ob_count s \<le> AP_REQUEST_OUTBOX_CAPACITY"
    by (auto simp: outbox_wf_def split: option.splits)
  from cnt have c: "min (ob_count s) AP_REQUEST_OUTBOX_CAPACITY = ob_count s" by simp
  show "outbox_wf (copy_ap_request_outbox dst src)"
    using len cnt by (simp add: ds copy_outbox_eq Let_def outbox_wf_def del: copy_ap_request_outbox.simps)
  show "outbox_plans (copy_ap_request_outbox dst src) = outbox_plans src"
    using len cnt
    by (simp add: ds copy_outbox_eq Let_def c outbox_plans_def take_map_prefix unat_le_4
        del: copy_ap_request_outbox.simps)
qed

section \<open>Properties\<close>

text \<open>
  C20. Completion with an outbox commits exactly when the request is still running: a request
  in state RUNNING becomes DONE, every other field of its slot is kept, and the committed outbox
  then holds the plans of the scratch outbox; in any other state (the BSP timed the request out,
  say) the slot is left as it was and nothing stays committed.
\<close>

theorem complete_done_commits_iff_running:
  assumes "outbox_wf committed" and "outbox_wf scratch"
  shows "complete_ap_request_done_with_outbox (Some slot) committed scratch =
    (if slot_state slot = AP_REQUEST_STATUS_RUNNING
     then (True, Some (slot\<lparr>slot_state := AP_REQUEST_STATUS_DONE\<rparr>),
           copy_ap_request_outbox committed scratch)
     else (False, Some slot,
           reset_ap_request_outbox (copy_ap_request_outbox committed scratch))) \<and>
    outbox_plans (copy_ap_request_outbox committed scratch) = outbox_plans scratch \<and>
    outbox_plans (reset_ap_request_outbox (copy_ap_request_outbox committed scratch)) = []"
  using outbox.plans_commit [OF assms] outbox.commit_discard [OF assms]
  by (simp add: Let_def)

definition example_outbox :: "ap_request_outbox_t option" where
  "example_outbox = Some \<lparr>ob_count = 2, ob_entries =
     [zero_plan\<lparr>pl_sequence := 7\<rparr>, zero_plan\<lparr>pl_sequence := 8\<rparr>, zero_plan, zero_plan]\<rparr>"

lemma example_outbox_wf: "outbox_wf example_outbox"
  by (simp add: example_outbox_def outbox_wf_def c_const)

lemma example_outbox_plans:
  "outbox_plans example_outbox = [zero_plan\<lparr>pl_sequence := 7\<rparr>, zero_plan\<lparr>pl_sequence := 8\<rparr>]"
  by (simp add: example_outbox_def outbox_plans_def)

theorem complete_done_commits_iff_running_witness:
  "fst (complete_ap_request_done_with_outbox (Some (zero_slot\<lparr>slot_state := 2\<rparr>))
     example_outbox example_outbox)"
  using complete_done_commits_iff_running [OF example_outbox_wf example_outbox_wf,
      of "zero_slot\<lparr>slot_state := 2\<rparr>"]
  by (simp add: c_const del: complete_ap_request_done_with_outbox.simps)

text \<open>
  C21. An outbox is a bounded first-in first-out queue: appending any sequence of plans to a
  freshly reset outbox keeps exactly the first four of them, in order, and a further append is
  accepted exactly while fewer than four are held.
\<close>

theorem outbox_keeps_first_four:
  assumes "outbox_wf ob"
  shows "outbox_plans (fold (\<lambda>e ob. snd (append_ap_request_outbox ob (Some e))) es
           (reset_ap_request_outbox ob)) = take 4 es \<and>
    (fst (append_ap_request_outbox
       (fold (\<lambda>e ob. snd (append_ap_request_outbox ob (Some e))) es (reset_ap_request_outbox ob))
       (Some e)) \<longleftrightarrow> length es < 4)"
proof -
  have wf: "outbox_wf (reset_ap_request_outbox ob)"
    using assms by (rule outbox.wf_reset)
  have plans: "outbox_plans (fold (\<lambda>e ob. snd (append_ap_request_outbox ob (Some e))) es
      (reset_ap_request_outbox ob)) = take 4 es"
    using outbox.plans_append_all [OF wf] outbox.plans_reset [OF assms] by simp
  show ?thesis
    using plans outbox.append_accepts [OF outbox.wf_append_all [OF wf]] by auto
qed

theorem outbox_keeps_first_four_witness:
  "outbox_plans (fold (\<lambda>e ob. snd (append_ap_request_outbox ob (Some e)))
     [zero_plan\<lparr>pl_sequence := 1\<rparr>, zero_plan\<lparr>pl_sequence := 2\<rparr>, zero_plan, zero_plan, zero_plan]
     (reset_ap_request_outbox example_outbox)) =
   [zero_plan\<lparr>pl_sequence := 1\<rparr>, zero_plan\<lparr>pl_sequence := 2\<rparr>, zero_plan, zero_plan]"
  using outbox_keeps_first_four [OF example_outbox_wf,
      of "[zero_plan\<lparr>pl_sequence := 1\<rparr>, zero_plan\<lparr>pl_sequence := 2\<rparr>, zero_plan, zero_plan, zero_plan]"]
  by simp

text \<open>
  A slot that was reset and prepared from a plan carries the plan unchanged: reading the
  request header back gives the plan, the reply and the state are still the empty ones, the
  request is identified by the fixed high word and the plan's sequence number, and it is addressed
  from the boot processor to the given CPU.
\<close>

theorem prepared_slot_carries_plan:
  "let slot' = prepare_ap_request_slot_from_plan (reset_ap_request_slot slot) cpu plan in
     plan_of_slot slot' = plan \<and> slot_state slot' = AP_REQUEST_STATUS_EMPTY \<and>
     slot_reply slot' = slot_reply zero_slot \<and> slot_metrics slot' = slot_metrics zero_slot \<and>
     rq_id_high (slot_request slot') = AP_REQUEST_ID_HIGH_DEFAULT \<and>
     unat (rq_id_low (slot_request slot')) = unat (pl_sequence plan) \<and>
     rq_source_cpu (slot_request slot') = 0 \<and> rq_target_cpu (slot_request slot') = cpu"
  unfolding Let_def plan_of_prepared_slot reset_ap_request_slot_zero
  by (simp add: slot_ops zero_slot_def c_const)

end
