(* ===== verification/Build_Config.thy ===== *)
theory Build_Config
  imports Ap_Request
begin

text \<open>
  The build-time configuration. The kernel is specialised by preprocessor macros that
  \<^verbatim>\<open>kernel/test-builds\<close> and the smoke tests override on the command line; each of them is
  a field of one record, and \<open>default_build\<close> has the values the sources define when
  nothing is overridden. The theorems hold for every configuration unless they say otherwise.
\<close>

text \<open>The three macros that choose one request of the plan.\<close>

record request_macros =
  REQUEST_OPCODE :: u32
  REQUEST_SERVICE_ID :: u64
  REQUEST_INTERFACE_ID :: u64

record build_config =
  VIBE_AP_REQUEST_FAULT_TEST :: u32
  VIBE_AP_PING_SERVICE_OWNER_INDEX :: u32
  VIBE_AP_COUNTER_SERVICE_OWNER_INDEX :: u32
  VIBE_AP_REQUEST_TARGET_INDEX :: u32
  AP_REQUEST_TIMEOUT_LOOPS :: u32
  BSP_WAIT_TIMER_TIMEOUT_STEP :: u32
  VIBE_FAULT_TEST :: u32
  VIBE_AP_FAULT_TEST :: u32
  VIBE_AP_REQUESTS :: "request_macros list"

definition VIBE_AP_REQUEST_FAULT_TEST_NONE :: u32 where
  [c_const]: "VIBE_AP_REQUEST_FAULT_TEST_NONE = 0"

definition VIBE_AP_REQUEST_FAULT_TEST_UD2 :: u32 where
  [c_const]: "VIBE_AP_REQUEST_FAULT_TEST_UD2 = 1"

definition VIBE_AP_REQUEST_FAULT_TEST_HANG :: u32 where
  [c_const]: "VIBE_AP_REQUEST_FAULT_TEST_HANG = 2"

definition AP_REQUEST_TARGET_SCHEDULER :: u32 where
  [c_const]: "AP_REQUEST_TARGET_SCHEDULER = 0xffffffff"

definition VIBE_FAULT_TEST_UD2 :: u32 where [c_const]: "VIBE_FAULT_TEST_UD2 = 1"
definition VIBE_FAULT_TEST_PF :: u32 where [c_const]: "VIBE_FAULT_TEST_PF = 2"
definition VIBE_AP_FAULT_TEST_UD2 :: u32 where [c_const]: "VIBE_AP_FAULT_TEST_UD2 = 1"
definition VIBE_AP_FAULT_TEST_PF :: u32 where [c_const]: "VIBE_AP_FAULT_TEST_PF = 2"

text \<open>The requests the macros name by default: two batches of a ping, two increments and a ping.\<close>

definition ping_macros :: request_macros where
  "ping_macros = \<lparr>REQUEST_OPCODE = AP_REQUEST_OP_PING, REQUEST_SERVICE_ID = AP_REQUEST_SERVICE_PING,
     REQUEST_INTERFACE_ID = AP_REQUEST_INTERFACE_PING\<rparr>"

definition counter_macros :: request_macros where
  "counter_macros = \<lparr>REQUEST_OPCODE = AP_REQUEST_OP_COUNTER, REQUEST_SERVICE_ID = AP_REQUEST_SERVICE_COUNTER,
     REQUEST_INTERFACE_ID = AP_REQUEST_INTERFACE_COUNTER_INCREMENT\<rparr>"

definition default_requests :: "request_macros list" where
  "default_requests = [ping_macros, counter_macros, counter_macros, ping_macros,
     ping_macros, counter_macros, counter_macros, ping_macros]"

definition default_build :: build_config where
  [c_const]: "default_build = \<lparr>
     VIBE_AP_REQUEST_FAULT_TEST = 0,
     VIBE_AP_PING_SERVICE_OWNER_INDEX = 0,
     VIBE_AP_COUNTER_SERVICE_OWNER_INDEX = 0,
     VIBE_AP_REQUEST_TARGET_INDEX = AP_REQUEST_TARGET_SCHEDULER,
     AP_REQUEST_TIMEOUT_LOOPS = 100000000,
     BSP_WAIT_TIMER_TIMEOUT_STEP = 100000,
     VIBE_FAULT_TEST = 0,
     VIBE_AP_FAULT_TEST = 0,
     VIBE_AP_REQUESTS = default_requests\<rparr>"

end
