(* ===== verification/Ap_Services.thy ===== *)
theory Ap_Services
  imports Build_Config
begin

text \<open>
  The services an AP offers (\<^verbatim>\<open>kernel/ap_services.h\<close>,
  \<^verbatim>\<open>kernel/ap_services.c\<close>): the two request handlers, the registry that maps a service
  and interface identifier to a handler and an owner, and the lookups over it. A service context
  holds the objects its pointers address: the handled and counter words of the AP context and the
  outbox of the service.
\<close>

section \<open>Data\<close>

record ap_service_context_t =
  sc_request_handled_count :: u32
  sc_counter_value :: u32
  sc_outbox :: "ap_request_outbox_t option"

datatype ap_service_lookup_status_t =
    AP_SERVICE_LOOKUP_OK
  | AP_SERVICE_LOOKUP_UNKNOWN_SERVICE
  | AP_SERVICE_LOOKUP_UNKNOWN_INTERFACE

text \<open>
  What running a piece of handler code on an AP comes to: it returns a value, it raises a
  processor exception with the given vector (control passes to the fault entry of the IDT), or it
  spins for ever with interrupts disabled.
\<close>

datatype 'a execution = Returns 'a | Faults u64 | Hangs

text \<open>The selector registers a handler reports: \<^verbatim>\<open>CS\<close> and the task register.\<close>

record cpu_selectors =
  sel_cs :: u16
  sel_tr :: u16

definition read_cs :: "cpu_selectors \<Rightarrow> u16" where
  [slot_ops]: "read_cs sel = sel_cs sel"

definition read_tr :: "cpu_selectors \<Rightarrow> u16" where
  [slot_ops]: "read_tr sel = sel_tr sel"

type_synonym ap_request_handler_t =
  "ap_service_context_t \<Rightarrow> ap_request_slot_t \<Rightarrow>
   (ap_service_context_t \<times> ap_request_slot_t) execution"

record ap_service_registry_entry_t =
  re_service_id :: u64
  re_interface_id :: u64
  re_owner_context_index :: u32
  re_handler :: ap_request_handler_t

section \<open>Handlers\<close>

text \<open>
  The test hook is compiled to \<^verbatim>\<open>ud2\<close> (invalid opcode, vector 6), to an endless loop
  or to nothing, depending on the build.
\<close>

definition run_ap_request_test_hook :: "build_config \<Rightarrow> bool \<Rightarrow> unit execution" where
  [slot_ops]: "run_ap_request_test_hook cfg hang_enabled =
     (if VIBE_AP_REQUEST_FAULT_TEST cfg = VIBE_AP_REQUEST_FAULT_TEST_UD2 then Faults 6
      else if VIBE_AP_REQUEST_FAULT_TEST cfg = VIBE_AP_REQUEST_FAULT_TEST_HANG
      then (if \<not> hang_enabled then Returns () else Hangs)
      else Returns ())"

definition note_ap_request_handled :: "ap_service_context_t \<Rightarrow> ap_service_context_t \<times> u32" where
  [slot_ops]: "note_ap_request_handled ctx =
     (let ctx = ctx\<lparr>sc_request_handled_count := sc_request_handled_count ctx + 1\<rparr>
      in (ctx, sc_request_handled_count ctx))"

definition ap_handle_ping_request :: "build_config \<Rightarrow> cpu_selectors \<Rightarrow> ap_request_handler_t" where
  [slot_ops]: "ap_handle_ping_request cfg sel ctx slot =
     (case run_ap_request_test_hook cfg True of
        Faults v \<Rightarrow> Faults v
      | Hangs \<Rightarrow> Hangs
      | Returns _ \<Rightarrow>
          (let reply = (slot_reply slot)\<lparr>
                 rp_result_cs := ucast (read_cs sel), rp_result_tr := ucast (read_tr sel),
                 rp_result_code := 0, rp_fault_code := 0\<rparr>;
               (ctx, handled) = note_ap_request_handled ctx
           in Returns (ctx, slot\<lparr>slot_reply := reply,
                slot_metrics := (slot_metrics slot)\<lparr>mt_handled_count := handled\<rparr>\<rparr>)))"

definition ap_handle_counter_increment ::
    "build_config \<Rightarrow> cpu_selectors \<Rightarrow> ap_request_handler_t" where
  [slot_ops]: "ap_handle_counter_increment cfg sel ctx slot =
     (case run_ap_request_test_hook cfg False of
        Faults v \<Rightarrow> Faults v
      | Hangs \<Rightarrow> Hangs
      | Returns _ \<Rightarrow>
          (let ctx = ctx\<lparr>sc_counter_value := sc_counter_value ctx + 1\<rparr>;
               reply = (slot_reply slot)\<lparr>
                 rp_result_cs := ucast (read_cs sel), rp_result_tr := ucast (read_tr sel),
                 rp_result_code := sc_counter_value ctx, rp_fault_code := 0\<rparr>;
               (ctx, handled) = note_ap_request_handled ctx
           in Returns (ctx, slot\<lparr>slot_reply := reply,
                slot_metrics := (slot_metrics slot)\<lparr>mt_handled_count := handled\<rparr>\<rparr>)))"

section \<open>Registry and lookups\<close>

definition ap_service_registry ::
    "build_config \<Rightarrow> cpu_selectors \<Rightarrow> ap_service_registry_entry_t list" where
  "ap_service_registry cfg sel =
     [\<lparr>re_service_id = AP_REQUEST_SERVICE_PING, re_interface_id = AP_REQUEST_INTERFACE_PING,
       re_owner_context_index = VIBE_AP_PING_SERVICE_OWNER_INDEX cfg,
       re_handler = ap_handle_ping_request cfg sel\<rparr>,
      \<lparr>re_service_id = AP_REQUEST_SERVICE_COUNTER,
       re_interface_id = AP_REQUEST_INTERFACE_COUNTER_INCREMENT,
       re_owner_context_index = VIBE_AP_COUNTER_SERVICE_OWNER_INDEX cfg,
       re_handler = ap_handle_counter_increment cfg sel\<rparr>]"

text \<open>The loops of the lookups, over the entries still to be visited.\<close>

fun find_ap_service_from ::
    "ap_service_registry_entry_t list \<Rightarrow> u64 \<Rightarrow> u64 \<Rightarrow> ap_service_registry_entry_t option" where
  "find_ap_service_from [] service_id interface_id = None"
| "find_ap_service_from (e # es) service_id interface_id =
     (if re_service_id e = service_id \<and> re_interface_id e = interface_id then Some e
      else find_ap_service_from es service_id interface_id)"

definition find_ap_service ::
    "build_config \<Rightarrow> cpu_selectors \<Rightarrow> u64 \<Rightarrow> u64 \<Rightarrow> ap_service_registry_entry_t option" where
  "find_ap_service cfg sel service_id interface_id =
     find_ap_service_from (ap_service_registry cfg sel) service_id interface_id"

fun classify_ap_service_from ::
    "ap_service_registry_entry_t list \<Rightarrow> u64 \<Rightarrow> u64 \<Rightarrow> bool \<Rightarrow> ap_service_lookup_status_t" where
  "classify_ap_service_from [] service_id interface_id service_seen =
     (if service_seen then AP_SERVICE_LOOKUP_UNKNOWN_INTERFACE
      else AP_SERVICE_LOOKUP_UNKNOWN_SERVICE)"
| "classify_ap_service_from (e # es) service_id interface_id service_seen =
     (if re_service_id e \<noteq> service_id
      then classify_ap_service_from es service_id interface_id service_seen
      else if re_interface_id e = interface_id then AP_SERVICE_LOOKUP_OK
      else classify_ap_service_from es service_id interface_id True)"

definition classify_ap_service_lookup ::
    "build_config \<Rightarrow> cpu_selectors \<Rightarrow> u64 \<Rightarrow> u64 \<Rightarrow> ap_service_lookup_status_t" where
  "classify_ap_service_lookup cfg sel service_id interface_id =
     classify_ap_service_from (ap_service_registry cfg sel) service_id interface_id False"

text \<open>
  The owner is stored through the pointer only when the lookup succeeds and the pointer is
  not null; the second component of the result is the pointee afterwards.
\<close>

definition ap_service_owner_context_index ::
    "build_config \<Rightarrow> cpu_selectors \<Rightarrow> u64 \<Rightarrow> u64 \<Rightarrow> u32 option \<Rightarrow>
     ap_service_lookup_status_t \<times> u32 option" where
  "ap_service_owner_context_index cfg sel service_id interface_id owner_context_index =
     (case find_ap_service cfg sel service_id interface_id of
        Some entry \<Rightarrow> (AP_SERVICE_LOOKUP_OK,
          map_option (\<lambda>_. re_owner_context_index entry) owner_context_index)
      | None \<Rightarrow> (classify_ap_service_lookup cfg sel service_id interface_id, owner_context_index))"

definition find_ap_request_handler ::
    "build_config \<Rightarrow> cpu_selectors \<Rightarrow> u64 \<Rightarrow> u64 \<Rightarrow> ap_request_handler_t option" where
  "find_ap_request_handler cfg sel service_id interface_id =
     (case find_ap_service cfg sel service_id interface_id of
        Some entry \<Rightarrow> Some (re_handler entry) | None \<Rightarrow> None)"

definition ap_dispatch_miss_result_code ::
    "build_config \<Rightarrow> cpu_selectors \<Rightarrow> u64 \<Rightarrow> u64 \<Rightarrow> u32" where
  "ap_dispatch_miss_result_code cfg sel service_id interface_id =
     (if classify_ap_service_lookup cfg sel service_id interface_id =
           AP_SERVICE_LOOKUP_UNKNOWN_SERVICE
      then ucast service_id else ucast interface_id)"

section \<open>Service contexts\<close>

fun prepare_ap_service_context ::
    "ap_service_context_t option \<Rightarrow> u32 \<Rightarrow> u32 \<Rightarrow> ap_request_outbox_t option \<Rightarrow>
     ap_service_context_t option" where
  "prepare_ap_service_context None handled counter outbox = None"
| "prepare_ap_service_context (Some ctx) handled counter outbox =
     Some (ctx\<lparr>sc_request_handled_count := handled, sc_counter_value := counter,
       sc_outbox := reset_ap_request_outbox outbox\<rparr>)"

fun ap_service_enqueue_request ::
    "ap_service_context_t option \<Rightarrow> ap_request_plan_t option \<Rightarrow>
     bool \<times> ap_service_context_t option" where
  "ap_service_enqueue_request None plan = (False, None)"
| "ap_service_enqueue_request (Some ctx) plan =
     (let (ok, outbox) = append_ap_request_outbox (sc_outbox ctx) plan
      in (ok, Some (ctx\<lparr>sc_outbox := outbox\<rparr>)))"

section \<open>The handler contract\<close>

text \<open>
  What the request loop relies on in a handler: when it returns, it has counted one more
  handled request (and stored that count in the slot), reported no fault, and left alone
  everything the loop owns: the slot state, the request header and the reply's request identifier.
\<close>

locale request_handler =
  fixes handler :: ap_request_handler_t
  assumes handled_once: "handler ctx slot = Returns (ctx', slot') \<Longrightarrow>
      sc_request_handled_count ctx' = sc_request_handled_count ctx + 1 \<and>
      mt_handled_count (slot_metrics slot') = sc_request_handled_count ctx'"
    and no_fault: "handler ctx slot = Returns (ctx', slot') \<Longrightarrow> rp_fault_code (slot_reply slot') = 0"
    and keeps_state: "handler ctx slot = Returns (ctx', slot') \<Longrightarrow> slot_state slot' = slot_state slot"
    and keeps_request: "handler ctx slot = Returns (ctx', slot') \<Longrightarrow>
      slot_request slot' = slot_request slot \<and>
      rp_request_id_high (slot_reply slot') = rp_request_id_high (slot_reply slot) \<and>
      rp_request_id_low (slot_reply slot') = rp_request_id_low (slot_reply slot) \<and>
      mt_wait_loops (slot_metrics slot') = mt_wait_loops (slot_metrics slot)"
    and keeps_wf: "handler ctx slot = Returns (ctx', slot') \<Longrightarrow> outbox_wf (sc_outbox ctx) \<Longrightarrow>
      outbox_wf (sc_outbox ctx')"
begin

text \<open>A reply whose identifier matched the request before the handler still matches after it.\<close>

lemma answers_its_request:
  "handler ctx slot = Returns (ctx', slot') \<Longrightarrow>
   rp_request_id_high (slot_reply slot) = rq_id_high (slot_request slot) \<Longrightarrow>
   rp_request_id_low (slot_reply slot) = rq_id_low (slot_request slot) \<Longrightarrow>
   rp_request_id_high (slot_reply slot') = rq_id_high (slot_request slot') \<and>
   rp_request_id_low (slot_reply slot') = rq_id_low (slot_request slot')"
  using keeps_request [of ctx slot ctx' slot'] by simp

end

lemmas handler_defs = ap_handle_ping_request_def ap_handle_counter_increment_def
  note_ap_request_handled_def read_cs_def read_tr_def

interpretation ping: request_handler "ap_handle_ping_request cfg sel"
  by unfold_locales (auto simp: handler_defs Let_def split: execution.splits)

interpretation counter: request_handler "ap_handle_counter_increment cfg sel"
  by unfold_locales (auto simp: handler_defs Let_def split: execution.splits)

section \<open>The registry as a directory\<close>

text \<open>
  The contract of a service directory: lookup and classification agree on one set of keys.
\<close>

locale service_directory =
  fixes find :: "'k \<Rightarrow> 'k \<Rightarrow> 'e option"
    and classify :: "'k \<Rightarrow> 'k \<Rightarrow> ap_service_lookup_status_t"
    and keys :: "('k \<times> 'k) set"
  assumes find_iff: "find s i = None \<longleftrightarrow> (s, i) \<notin> keys"
    and classify_ok: "classify s i = AP_SERVICE_LOOKUP_OK \<longleftrightarrow> (s, i) \<in> keys"
    and classify_interface: "classify s i = AP_SERVICE_LOOKUP_UNKNOWN_INTERFACE \<longleftrightarrow>
          (s, i) \<notin> keys \<and> (\<exists>j. (s, j) \<in> keys)"
begin

lemma classify_service:
  "classify s i = AP_SERVICE_LOOKUP_UNKNOWN_SERVICE \<longleftrightarrow> (\<forall>j. (s, j) \<notin> keys)"
  by (cases "classify s i") (use classify_ok [of s i] classify_interface [of s i] in auto)

lemma hit_or_classified_miss:
  "(find s i \<noteq> None \<and> classify s i = AP_SERVICE_LOOKUP_OK) \<or>
   (find s i = None \<and> (classify s i = AP_SERVICE_LOOKUP_UNKNOWN_SERVICE \<or>
                        classify s i = AP_SERVICE_LOOKUP_UNKNOWN_INTERFACE))"
  using find_iff [of s i] classify_ok [of s i] by (cases "classify s i") auto

end

lemma find_ap_service_from_None:
  "find_ap_service_from es s i = None \<longleftrightarrow>
     (s, i) \<notin> (\<lambda>e. (re_service_id e, re_interface_id e)) ` set es"
  by (induction es) auto

lemma find_ap_service_from_Some:
  "find_ap_service_from es s i = Some e \<Longrightarrow> e \<in> set es \<and> re_service_id e = s \<and> re_interface_id e = i"
  by (induction es) (auto split: if_splits)

lemma classify_ap_service_from_eq:
  "classify_ap_service_from es s i seen =
     (if (s, i) \<in> (\<lambda>e. (re_service_id e, re_interface_id e)) ` set es then AP_SERVICE_LOOKUP_OK
      else if seen \<or> s \<in> re_service_id ` set es then AP_SERVICE_LOOKUP_UNKNOWN_INTERFACE
      else AP_SERVICE_LOOKUP_UNKNOWN_SERVICE)"
  by (induction es arbitrary: seen) auto

definition service_keys :: "(u64 \<times> u64) set" where
  "service_keys = {(AP_REQUEST_SERVICE_PING, AP_REQUEST_INTERFACE_PING),
     (AP_REQUEST_SERVICE_COUNTER, AP_REQUEST_INTERFACE_COUNTER_INCREMENT)}"

lemma registry_keys:
  "(\<lambda>e. (re_service_id e, re_interface_id e)) ` set (ap_service_registry cfg sel) = service_keys"
  "re_service_id ` set (ap_service_registry cfg sel) = fst ` service_keys"
  by (simp_all add: ap_service_registry_def service_keys_def)

interpretation registry: service_directory "find_ap_service cfg sel"
  "classify_ap_service_lookup cfg sel" service_keys
  by unfold_locales
    (auto simp: find_ap_service_def classify_ap_service_lookup_def find_ap_service_from_None
      classify_ap_service_from_eq registry_keys image_iff)

text \<open>Every handler the registry hands out meets the handler contract.\<close>

lemma registered_handler_contract:
  "find_ap_request_handler cfg sel s i = Some h \<Longrightarrow> request_handler h"
  unfolding find_ap_request_handler_def find_ap_service_def
  by (auto simp: ap_service_registry_def ping.request_handler_axioms counter.request_handler_axioms
      split: option.splits if_splits dest!: find_ap_service_from_Some)

lemma find_handler_iff:
  "find_ap_request_handler cfg sel s i = None \<longleftrightarrow> (s, i) \<notin> service_keys"
  using registry.find_iff [of cfg sel s i]
  by (auto simp: find_ap_request_handler_def split: option.splits)

lemma find_handler_ping:
  "find_ap_request_handler cfg sel AP_REQUEST_SERVICE_PING AP_REQUEST_INTERFACE_PING =
     Some (ap_handle_ping_request cfg sel)"
  by (simp add: find_ap_request_handler_def find_ap_service_def ap_service_registry_def)

lemma find_handler_counter:
  "find_ap_request_handler cfg sel AP_REQUEST_SERVICE_COUNTER
     AP_REQUEST_INTERFACE_COUNTER_INCREMENT = Some (ap_handle_counter_increment cfg sel)"
  by (simp add: find_ap_request_handler_def find_ap_service_def ap_service_registry_def c_const)

section \<open>Properties\<close>

text \<open>
  C34. The lookups agree with one another for every identifier pair: either a handler is
  found, the owner lookup reports success and stores the owner of that very entry, or no handler
  is found, the caller's owner variable is untouched, and the status says whether the service
  itself or only its interface is unknown.
\<close>

theorem service_lookups_agree:
  "(case find_ap_service cfg sel s i of
      Some e \<Rightarrow> re_service_id e = s \<and> re_interface_id e = i \<and>
        find_ap_request_handler cfg sel s i = Some (re_handler e) \<and>
        classify_ap_service_lookup cfg sel s i = AP_SERVICE_LOOKUP_OK \<and>
        ap_service_owner_context_index cfg sel s i (Some x) =
          (AP_SERVICE_LOOKUP_OK, Some (re_owner_context_index e))
    | None \<Rightarrow> find_ap_request_handler cfg sel s i = None \<and>
        ap_service_owner_context_index cfg sel s i (Some x) =
          ((if s = AP_REQUEST_SERVICE_PING \<or> s = AP_REQUEST_SERVICE_COUNTER
            then AP_SERVICE_LOOKUP_UNKNOWN_INTERFACE else AP_SERVICE_LOOKUP_UNKNOWN_SERVICE),
           Some x))"
proof (cases "find_ap_service cfg sel s i")
  case None
  then have miss: "(s, i) \<notin> service_keys" by (simp add: registry.find_iff)
  have "classify_ap_service_lookup cfg sel s i =
      (if s = AP_REQUEST_SERVICE_PING \<or> s = AP_REQUEST_SERVICE_COUNTER
       then AP_SERVICE_LOOKUP_UNKNOWN_INTERFACE else AP_SERVICE_LOOKUP_UNKNOWN_SERVICE)"
    using miss registry.classify_interface [of cfg sel s i] registry.classify_service [of cfg sel s i]
    by (auto simp: service_keys_def)
  with None show ?thesis
    by (simp add: find_ap_request_handler_def ap_service_owner_context_index_def)
next
  case (Some e)
  then have "classify_ap_service_lookup cfg sel s i = AP_SERVICE_LOOKUP_OK"
    using registry.hit_or_classified_miss [of cfg sel s i] by simp
  with Some show ?thesis
    using find_ap_service_from_Some [of "ap_service_registry cfg sel" s i e]
    by (simp add: find_ap_service_def find_ap_request_handler_def
        ap_service_owner_context_index_def)
qed

text \<open>
  A request that no handler accepts is answered with the low half of the identifier that
  could not be resolved: the service identifier when no entry has that service, the interface
  identifier when the service exists but the interface does not.
\<close>

theorem dispatch_miss_names_unknown_identifier:
  assumes "find_ap_request_handler cfg sel s i = None"
  shows "ap_dispatch_miss_result_code cfg sel s i =
    (if s = AP_REQUEST_SERVICE_PING \<or> s = AP_REQUEST_SERVICE_COUNTER then ucast i else ucast s)"
  using assms registry.classify_service [of cfg sel s i] find_handler_iff [of cfg sel s i]
  by (auto simp: ap_dispatch_miss_result_code_def service_keys_def)

theorem dispatch_miss_names_unknown_identifier_witness:
  "ap_dispatch_miss_result_code default_build \<lparr>sel_cs = 8, sel_tr = 24\<rparr> 0x41502d53564300ff 5 =
     0x564300ff"
proof -
  have "find_ap_request_handler default_build \<lparr>sel_cs = 8, sel_tr = 24\<rparr> 0x41502d53564300ff 5 = None"
    by (simp add: find_handler_iff service_keys_def c_const)
  from dispatch_miss_names_unknown_identifier [OF this] show ?thesis
    by (simp add: c_const)
qed

text \<open>
  A counter increment run without a test hook adds one to the counter, modulo
  \<open>2 ^ 32\<close>, and replies with the new value, no fault and the selectors of the CPU it ran on;
  it counts one more handled request, and it changes nothing of the slot but the reply and the
  handled count.
\<close>

theorem counter_increment_counts:
  assumes "VIBE_AP_REQUEST_FAULT_TEST cfg = VIBE_AP_REQUEST_FAULT_TEST_NONE"
  shows "\<exists>ctx' slot'. ap_handle_counter_increment cfg sel ctx slot = Returns (ctx', slot') \<and>
    unat (sc_counter_value ctx') = (unat (sc_counter_value ctx) + 1) mod 2 ^ 32 \<and>
    unat (sc_request_handled_count ctx') = (unat (sc_request_handled_count ctx) + 1) mod 2 ^ 32 \<and>
    sc_outbox ctx' = sc_outbox ctx \<and>
    slot' = slot\<lparr>
      slot_reply := (slot_reply slot)\<lparr>rp_result_code := sc_counter_value ctx', rp_fault_code := 0,
        rp_result_cs := ucast (sel_cs sel), rp_result_tr := ucast (sel_tr sel)\<rparr>,
      slot_metrics := (slot_metrics slot)\<lparr>mt_handled_count := sc_request_handled_count ctx'\<rparr>\<rparr>"
  using assms
  by (simp add: slot_ops Let_def VIBE_AP_REQUEST_FAULT_TEST_NONE_def
      VIBE_AP_REQUEST_FAULT_TEST_UD2_def VIBE_AP_REQUEST_FAULT_TEST_HANG_def unat_word_ariths)

theorem counter_increment_counts_witness:
  "\<exists>ctx' slot'. ap_handle_counter_increment default_build \<lparr>sel_cs = 8, sel_tr = 24\<rparr>
     \<lparr>sc_request_handled_count = 4, sc_counter_value = 0xffffffff, sc_outbox = None\<rparr> zero_slot =
       Returns (ctx', slot') \<and> unat (sc_counter_value ctx') = 0"
proof -
  have "VIBE_AP_REQUEST_FAULT_TEST default_build = VIBE_AP_REQUEST_FAULT_TEST_NONE"
    by (simp add: c_const)
  from counter_increment_counts [OF this, of "\<lparr>sel_cs = 8, sel_tr = 24\<rparr>"
      "\<lparr>sc_request_handled_count = 4, sc_counter_value = 0xffffffff, sc_outbox = None\<rparr>" zero_slot]
  show ?thesis by auto
qed

end
