(* ===== verification/Cpu_Tables.thy ===== *)
theory Cpu_Tables
  imports Vibe_Prelude
begin

text \<open>
  The descriptor tables of a processor (\<^verbatim>\<open>kernel/kernel.c\<close>): the GDT with its 16-byte TSS
  descriptor, the TSS with the two interrupt stacks, and the interrupt gates of the BSP and of the
  APs. Addresses of objects are the address of the structure plus the field offset of the packed
  layout. The contents of the interrupt stacks are raw storage and have no field here.
\<close>

section \<open>Data\<close>

record idt_entry_t =
  ig_offset_low :: u16
  ig_selector :: u16
  ig_ist :: u8
  ig_type_attr :: u8
  ig_offset_mid :: u16
  ig_offset_high :: u32
  ig_zero :: u32

record descriptor_table_ptr_t =
  dt_limit :: u16
  dt_base :: u64

record tss64_t =
  tss_reserved0 :: u32
  tss_rsp :: "u64 list"
  tss_reserved1 :: u64
  tss_ist :: "u64 list"
  tss_reserved2 :: u64
  tss_reserved3 :: u16
  tss_io_map_base :: u16

record cpu_local_t =
  cpu_id :: u32
  cpu_loaded_tr :: u16
  cpu_tss_ready :: u8
  cpu_reserved :: u8
  cpu_gdt :: "u64 list"
  cpu_tss :: tss64_t

definition KERNEL_CODE_SELECTOR :: u16 where [c_const]: "KERNEL_CODE_SELECTOR = 0x08"
definition KERNEL_DATA_SELECTOR :: u16 where [c_const]: "KERNEL_DATA_SELECTOR = 0x10"
definition KERNEL_TSS_SELECTOR :: u16 where [c_const]: "KERNEL_TSS_SELECTOR = 0x18"
definition CPU_GDT_ENTRIES :: nat where [c_const]: "CPU_GDT_ENTRIES = 5"
definition CPU_IST_FAULT :: nat where [c_const]: "CPU_IST_FAULT = 1"
definition CPU_IST_DOUBLE_FAULT :: nat where [c_const]: "CPU_IST_DOUBLE_FAULT = 2"
definition CPU_FAULT_STACK_SIZE :: u64 where [c_const]: "CPU_FAULT_STACK_SIZE = 16 * 1024"
definition AP_REQUEST_KICK_IPI_VECTOR :: u32 where [c_const]: "AP_REQUEST_KICK_IPI_VECTOR = 0xf0"
definition AP_REQUEST_IPI_VECTOR :: u32 where [c_const]: "AP_REQUEST_IPI_VECTOR = 0xf1"
definition AP_IDLE_TIMER_VECTOR :: u32 where [c_const]: "AP_IDLE_TIMER_VECTOR = 0xf2"
definition BSP_WAIT_TIMER_VECTOR :: u32 where [c_const]: "BSP_WAIT_TIMER_VECTOR = 0xf3"
definition LAPIC_SPURIOUS_VECTOR :: u32 where [c_const]: "LAPIC_SPURIOUS_VECTOR = 0xff"

text \<open>
  Field offsets in \<^verbatim>\<open>cpu_local_t\<close>: the GDT follows eight bytes of scalars, the packed
  104-byte TSS follows the 40-byte GDT, and the two stacks are aligned to 16 bytes.
\<close>

definition cpu_gdt_addr :: "u64 \<Rightarrow> u64" where "cpu_gdt_addr cpu = cpu + 8"
definition cpu_tss_addr :: "u64 \<Rightarrow> u64" where "cpu_tss_addr cpu = cpu + 48"
definition cpu_fault_stack_addr :: "u64 \<Rightarrow> u64" where "cpu_fault_stack_addr cpu = cpu + 160"
definition cpu_double_fault_stack_addr :: "u64 \<Rightarrow> u64" where
  "cpu_double_fault_stack_addr cpu = cpu + 160 + CPU_FAULT_STACK_SIZE"
definition sizeof_tss :: nat where [c_const]: "sizeof_tss = 104"

section \<open>GDT and TSS\<close>

definition set_tss_descriptor :: "u64 list \<Rightarrow> nat \<Rightarrow> u64 \<Rightarrow> u32 \<Rightarrow> u64 list" where
  "set_tss_descriptor gdt index base limit =
     (let low = 0;
          low = low OR ucast (limit AND 0xffff);
          low = low OR push_bit 16 (base AND 0x00ffffff);
          low = low OR push_bit 40 0x89;
          low = low OR push_bit 48 (ucast (drop_bit 16 limit AND 0x0f));
          low = low OR push_bit 56 (drop_bit 24 base AND 0xff);
          gdt = gdt[index := low]
      in gdt[index + 1 := drop_bit 32 base AND 0xffffffff])"

definition zero_tss :: tss64_t where
  "zero_tss = \<lparr>tss_reserved0 = 0, tss_rsp = replicate 3 0, tss_reserved1 = 0,
     tss_ist = replicate 7 0, tss_reserved2 = 0, tss_reserved3 = 0, tss_io_map_base = 0\<rparr>"

definition zero_cpu_local :: cpu_local_t where
  "zero_cpu_local = \<lparr>cpu_id = 0, cpu_loaded_tr = 0, cpu_tss_ready = 0, cpu_reserved = 0,
     cpu_gdt = replicate CPU_GDT_ENTRIES 0, cpu_tss = zero_tss\<rparr>"

text \<open>\<open>cpu\<close> is the address of the structure, which is zeroed first.\<close>

definition init_cpu_local :: "u64 \<Rightarrow> u32 \<Rightarrow> cpu_local_t" where
  "init_cpu_local cpu id' =
     (let gdt = (cpu_gdt zero_cpu_local)[0 := 0x0000000000000000, 1 := 0x00af9a000000ffff,
            2 := 0x00cf92000000ffff];
          ist = (tss_ist zero_tss)[
            CPU_IST_FAULT - 1 := cpu_fault_stack_addr cpu + CPU_FAULT_STACK_SIZE,
            CPU_IST_DOUBLE_FAULT - 1 := cpu_double_fault_stack_addr cpu + CPU_FAULT_STACK_SIZE];
          gdt = set_tss_descriptor gdt (unat KERNEL_TSS_SELECTOR div 8) (cpu_tss_addr cpu)
            (word_of_nat (sizeof_tss - 1))
      in zero_cpu_local\<lparr>cpu_id := id', cpu_gdt := gdt,
           cpu_tss := zero_tss\<lparr>tss_ist := ist, tss_io_map_base := word_of_nat sizeof_tss\<rparr>,
           cpu_tss_ready := 1\<rparr>)"

text \<open>
  Loading the tables: the processor takes the GDT pointer and the TSS selector, and the task
  register reads back as the loaded selector.
\<close>

record cpu_registers =
  cr_gdtr :: descriptor_table_ptr_t
  cr_idtr :: descriptor_table_ptr_t
  cr_cs :: u16
  cr_ds :: u16
  cr_tr :: u16

definition load_cpu_tables :: "u64 \<Rightarrow> cpu_local_t \<Rightarrow> cpu_registers \<Rightarrow> cpu_local_t \<times> cpu_registers" where
  "load_cpu_tables cpu local regs =
     (let regs = regs\<lparr>
            cr_gdtr := \<lparr>dt_limit = word_of_nat (8 * CPU_GDT_ENTRIES - 1), dt_base = cpu_gdt_addr cpu\<rparr>,
            cr_cs := 0x08, cr_ds := 0x10, cr_tr := KERNEL_TSS_SELECTOR\<rparr>
      in (local\<lparr>cpu_loaded_tr := cr_tr regs\<rparr>, regs))"

section \<open>Interrupt gates\<close>

definition set_idt_gate_in ::
    "idt_entry_t list \<Rightarrow> u32 \<Rightarrow> u64 \<Rightarrow> u16 \<Rightarrow> u8 \<Rightarrow> u8 \<Rightarrow> idt_entry_t list" where
  "set_idt_gate_in table vector addr selector ist type_attr = table[unat vector := \<lparr>
     ig_offset_low = ucast (addr AND 0xffff),
     ig_selector = selector,
     ig_ist = ist AND 0x7,
     ig_type_attr = type_attr,
     ig_offset_mid = ucast (drop_bit 16 addr AND 0xffff),
     ig_offset_high = ucast (drop_bit 32 addr),
     ig_zero = 0\<rparr>]"

text \<open>The addresses of the interrupt entry points.\<close>

record isr_addresses =
  isr_breakpoint :: u64
  isr_fault_ud :: u64
  isr_fault_df :: u64
  isr_fault_gp :: u64
  isr_fault_pf :: u64
  isr_unhandled :: u64
  isr_ap_request_kick_ipi :: u64
  isr_ap_request_ipi :: u64
  isr_ap_idle_timer :: u64
  isr_bsp_wait_timer :: u64
  isr_spurious_interrupt :: u64
  isr_ap_fault_ud :: u64
  isr_ap_fault_df :: u64
  isr_ap_fault_gp :: u64
  isr_ap_fault_pf :: u64
  isr_ap_unhandled :: u64

definition load_idt_entries :: "u64 \<Rightarrow> cpu_registers \<Rightarrow> cpu_registers" where
  "load_idt_entries table regs =
     regs\<lparr>cr_idtr := \<lparr>dt_limit = word_of_nat (16 * 256 - 1), dt_base = table\<rparr>\<rparr>"

text \<open>The loop that points all 256 gates at one handler, followed by the special gates.\<close>

definition set_all_idt_gates ::
    "idt_entry_t list \<Rightarrow> u64 \<Rightarrow> u16 \<Rightarrow> idt_entry_t list" where
  "set_all_idt_gates table addr selector =
     fold (\<lambda>vector table. set_idt_gate_in table (word_of_nat vector) addr selector 0 0x8e) [0..<256] table"

type_synonym idt_gate = "u32 \<times> u64 \<times> u16 \<times> u8 \<times> u8"

definition set_idt_gates :: "idt_gate list \<Rightarrow> idt_entry_t list \<Rightarrow> idt_entry_t list" where
  "set_idt_gates gates table =
     fold (\<lambda>(vector, addr, selector, ist, type_attr) table.
       set_idt_gate_in table vector addr selector ist type_attr) gates table"

definition bsp_idt_gates :: "isr_addresses \<Rightarrow> u16 \<Rightarrow> idt_gate list" where
  "bsp_idt_gates isr cs = [
     (3, isr_breakpoint isr, cs, 0, 0xef),
     (6, isr_fault_ud isr, cs, word_of_nat CPU_IST_FAULT, 0x8e),
     (8, isr_fault_df isr, cs, word_of_nat CPU_IST_DOUBLE_FAULT, 0x8e),
     (13, isr_fault_gp isr, cs, word_of_nat CPU_IST_FAULT, 0x8e),
     (14, isr_fault_pf isr, cs, word_of_nat CPU_IST_FAULT, 0x8e),
     (AP_REQUEST_KICK_IPI_VECTOR, isr_ap_request_kick_ipi isr, cs, 0, 0x8e),
     (AP_REQUEST_IPI_VECTOR, isr_ap_request_ipi isr, cs, 0, 0x8e),
     (BSP_WAIT_TIMER_VECTOR, isr_bsp_wait_timer isr, cs, 0, 0x8e),
     (LAPIC_SPURIOUS_VECTOR, isr_spurious_interrupt isr, cs, 0, 0x8e)]"

definition install_bsp_idt ::
    "isr_addresses \<Rightarrow> u64 \<Rightarrow> idt_entry_t list \<Rightarrow> cpu_registers \<Rightarrow> idt_entry_t list \<times> cpu_registers" where
  "install_bsp_idt isr idt_addr table regs =
     (let cs = cr_cs regs;
          table = set_all_idt_gates table (isr_unhandled isr) cs;
          table = set_idt_gates (bsp_idt_gates isr cs) table
      in (table, load_idt_entries idt_addr regs))"

definition ap_idt_gates :: "isr_addresses \<Rightarrow> idt_gate list" where
  "ap_idt_gates isr = [
     (6, isr_ap_fault_ud isr, KERNEL_CODE_SELECTOR, word_of_nat CPU_IST_FAULT, 0x8e),
     (8, isr_ap_fault_df isr, KERNEL_CODE_SELECTOR, word_of_nat CPU_IST_DOUBLE_FAULT, 0x8e),
     (13, isr_ap_fault_gp isr, KERNEL_CODE_SELECTOR, word_of_nat CPU_IST_FAULT, 0x8e),
     (14, isr_ap_fault_pf isr, KERNEL_CODE_SELECTOR, word_of_nat CPU_IST_FAULT, 0x8e),
     (AP_REQUEST_KICK_IPI_VECTOR, isr_ap_request_kick_ipi isr, KERNEL_CODE_SELECTOR, 0, 0x8e),
     (AP_IDLE_TIMER_VECTOR, isr_ap_idle_timer isr, KERNEL_CODE_SELECTOR, 0, 0x8e),
     (LAPIC_SPURIOUS_VECTOR, isr_spurious_interrupt isr, KERNEL_CODE_SELECTOR, 0, 0x8e)]"

definition init_ap_idt :: "isr_addresses \<Rightarrow> idt_entry_t list \<Rightarrow> idt_entry_t list" where
  "init_ap_idt isr table =
     set_idt_gates (ap_idt_gates isr)
       (set_all_idt_gates table (isr_ap_unhandled isr) KERNEL_CODE_SELECTOR)"

section \<open>What the processor reads from the tables\<close>

text \<open>The base, limit and type the processor extracts from a 16-byte system descriptor.\<close>

definition tss_descriptor_base :: "u64 \<Rightarrow> u64 \<Rightarrow> u64" where
  "tss_descriptor_base low high = (drop_bit 16 low AND 0xffffff) OR
     push_bit 24 (drop_bit 56 low AND 0xff) OR push_bit 32 (high AND 0xffffffff)"

definition tss_descriptor_limit :: "u64 \<Rightarrow> u64" where
  "tss_descriptor_limit low = (low AND 0xffff) OR push_bit 16 (drop_bit 48 low AND 0xf)"

definition tss_descriptor_access :: "u64 \<Rightarrow> u64" where
  "tss_descriptor_access low = drop_bit 40 low AND 0xff"

text \<open>The handler address, selector, stack index and attributes of a gate.\<close>

definition gate_address :: "idt_entry_t \<Rightarrow> u64" where
  "gate_address e = ucast (ig_offset_low e) OR push_bit 16 (ucast (ig_offset_mid e)) OR
     push_bit 32 (ucast (ig_offset_high e))"

definition gate_view :: "idt_entry_t \<Rightarrow> u64 \<times> u16 \<times> u8 \<times> u8" where
  "gate_view e = (gate_address e, ig_selector e, ig_ist e, ig_type_attr e)"

lemma low_masks:
  "(0xff::'a::len word) = mask 8" "(0xffff::'a::len word) = mask 16" "(0xffffff::'a::len word) = mask 24"
  "(0xffffffff::'a::len word) = mask 32" "(0xf::'a::len word) = mask 4"
  by (simp_all add: mask_eq_exp_minus_1)

lemma split_address:
  fixes a :: u64
  shows "(a AND mask 24) OR push_bit 24 (drop_bit 24 a AND mask 8) OR
      push_bit 32 (drop_bit 32 a AND mask 32) = a"
proof (rule bit_word_eqI)
  show "bit ((a AND mask 24) OR push_bit 24 (drop_bit 24 a AND mask 8) OR
      push_bit 32 (drop_bit 32 a AND mask 32)) n = bit a n" if "n < LENGTH(64)" for n
    using that by (cases "n < 32") (auto simp: bit_simps)
qed

lemma tss_fields:
  fixes base access :: u64 and limit :: u32
  defines "low \<equiv> (((0 OR ucast (limit AND mask 16)) OR push_bit 16 (base AND mask 24)) OR
      push_bit 40 (access AND mask 8) OR push_bit 48 (ucast (drop_bit 16 limit AND mask 4))) OR
      push_bit 56 (drop_bit 24 base AND mask 8)"
  shows "drop_bit 16 low AND mask 24 = base AND mask 24"
    and "drop_bit 56 low AND mask 8 = drop_bit 24 base AND mask 8"
    and "low AND mask 16 = ucast (limit AND mask 16)"
    and "drop_bit 48 low AND mask 4 = ucast (drop_bit 16 limit AND mask 4)"
    and "drop_bit 40 low AND mask 8 = access AND mask 8"
  by (rule bit_word_eqI; auto simp: low_def bit_simps)+

lemma split_limit:
  fixes limit :: u32
  shows "ucast (limit AND mask 16) OR push_bit 16 (ucast (drop_bit 16 limit AND mask 4)) =
    (ucast (limit AND mask 20) :: u64)"
  by (rule bit_word_eqI) (auto simp: bit_simps)

lemma set_tss_descriptor_fields:
  assumes "index + 1 < length gdt"
  shows "tss_descriptor_base (set_tss_descriptor gdt index base limit ! index)
      (set_tss_descriptor gdt index base limit ! (index + 1)) = base"
    and "tss_descriptor_limit (set_tss_descriptor gdt index base limit ! index) =
      ucast (limit AND mask 20)"
    and "tss_descriptor_access (set_tss_descriptor gdt index base limit ! index) = 0x89"
proof -
  let ?low = "(((0 OR ucast (limit AND mask 16)) OR push_bit 16 (base AND mask 24)) OR
      push_bit 40 (0x89 AND mask 8) OR push_bit 48 (ucast (drop_bit 16 limit AND mask 4))) OR
      push_bit 56 (drop_bit 24 base AND mask 8)"
  have 89: "(0x89 :: u64) AND mask 8 = 0x89" by (simp flip: low_masks)
  have nth: "set_tss_descriptor gdt index base limit ! index = ?low"
    "set_tss_descriptor gdt index base limit ! (index + 1) = drop_bit 32 base AND mask 32"
    using assms by (simp_all add: set_tss_descriptor_def Let_def 89 or.assoc flip: low_masks)
  note fields = tss_fields [where access = "0x89", of limit base]
  show "tss_descriptor_base (set_tss_descriptor gdt index base limit ! index)
      (set_tss_descriptor gdt index base limit ! (index + 1)) = base"
    unfolding tss_descriptor_base_def low_masks nth fields and.assoc and.idem
    by (rule split_address)
  show "tss_descriptor_limit (set_tss_descriptor gdt index base limit ! index) = ucast (limit AND mask 20)"
    unfolding tss_descriptor_limit_def low_masks nth fields by (rule split_limit)
  show "tss_descriptor_access (set_tss_descriptor gdt index base limit ! index) = 0x89"
    unfolding tss_descriptor_access_def low_masks nth fields by (rule 89)
qed

lemma gate_address_roundtrip:
  fixes addr :: u64
  shows "(ucast (ucast (addr AND 0xffff) :: u16) :: u64) OR push_bit 16 (ucast (ucast (drop_bit 16 addr AND 0xffff) :: u16)) OR
    push_bit 32 (ucast (ucast (drop_bit 32 addr) :: u32)) = addr"
proof (rule bit_word_eqI)
  fix n
  assume n: "n < LENGTH(64)"
  then show "bit ((ucast (ucast (addr AND 0xffff) :: u16) :: u64) OR
      push_bit 16 (ucast (ucast (drop_bit 16 addr AND 0xffff) :: u16)) OR
      push_bit 32 (ucast (ucast (drop_bit 32 addr) :: u32))) n = bit addr n"
    unfolding low_masks
    by (cases "n < 16"; cases "n < 32") (auto simp: bit_simps)
qed

lemma set_idt_gate_in_nth:
  assumes "unat vector < length table"
  shows "gate_view (set_idt_gate_in table vector addr selector ist type_attr ! i) =
    (if i = unat vector then (addr, selector, ist AND 7, type_attr) else gate_view (table ! i))"
  using assms by (simp add: set_idt_gate_in_def gate_view_def gate_address_def gate_address_roundtrip)

lemma length_set_idt_gate_in [simp]:
  "length (set_idt_gate_in table vector addr selector ist type_attr) = length table"
  by (simp add: set_idt_gate_in_def)

lemma length_set_idt_gates [simp]: "length (set_idt_gates gates table) = length table"
  unfolding set_idt_gates_def by (induction gates arbitrary: table) auto

lemma set_idt_gates_nth:
  assumes "\<forall>g \<in> set gates. unat (fst g) < length table"
  shows "gate_view (set_idt_gates gates table ! v) =
    (case map_of (map (\<lambda>(vector, a, s, i, t). (unat vector, a, s, i AND 7, t)) (rev gates)) v of
       None \<Rightarrow> gate_view (table ! v) | Some g \<Rightarrow> g)"
  using assms
proof (induction gates rule: rev_induct)
  case (snoc g gates)
  obtain vector a s i t where g: "g = (vector, a, s, i, t)" by (cases g)
  have "unat vector < length (set_idt_gates gates table)" using snoc.prems by (simp add: g)
  then show ?case
    using snoc by (simp add: g set_idt_gates_def set_idt_gate_in_nth)
qed (simp add: set_idt_gates_def)

lemma set_all_idt_gates_nth:
  assumes "length table = 256" "v < 256"
  shows "gate_view (set_all_idt_gates table addr selector ! v) = (addr, selector, 0, 0x8e)"
    and "length (set_all_idt_gates table addr selector) = 256"
proof -
  let ?f = "\<lambda>n. fold (\<lambda>vector table. set_idt_gate_in table (word_of_nat vector) addr selector 0 0x8e) [0..<n] table"
  have "length (?f n) = 256 \<and> (\<forall>v<n. gate_view (?f n ! v) = (addr, selector, 0, 0x8e))" if "n \<le> 256" for n
    using that
  proof (induction n)
    case (Suc n)
    have n: "unat (word_of_nat n :: u32) = n" using Suc.prems by (simp add: unat_of_nat)
    then show ?case
      using Suc by (auto simp: set_idt_gate_in_nth less_Suc_eq)
  qed (simp add: assms)
  from this [of 256] assms(2) show "gate_view (set_all_idt_gates table addr selector ! v) = (addr, selector, 0, 0x8e)"
    "length (set_all_idt_gates table addr selector) = 256"
    by (simp_all add: set_all_idt_gates_def)
qed

lemma replicate_small:
  "replicate 5 x = [x, x, x, x, x]" "replicate 7 x = [x, x, x, x, x, x, x]"
  by (simp_all add: numeral_eq_Suc)

lemma update_small:
  "[a, b, c, d, e][2 := x] = [a, b, x, d, e]" "[a, b, c, d, e][3 := x] = [a, b, c, x, e]"
  "[a, b, c, d, e][4 := x] = [a, b, c, d, x]" "take 3 [a, b, c, d, e] = [a, b, c]"
  by (simp_all add: numeral_eq_Suc)

section \<open>Properties\<close>

text \<open>
  After the initialisation of a processor's tables the GDT holds the null, 64-bit code and
  data descriptors and, in the last two words, a descriptor from which the processor reads exactly
  the address and size of that processor's own TSS as an available 64-bit TSS; the first two
  interrupt stack slots of the TSS are the tops of the processor's two fault stacks.
\<close>

theorem init_cpu_local_tables:
  "let l = init_cpu_local cpu n in
     cpu_id l = n \<and> cpu_tss_ready l = 1 \<and> length (cpu_gdt l) = CPU_GDT_ENTRIES \<and>
     take 3 (cpu_gdt l) = [0, 0x00af9a000000ffff, 0x00cf92000000ffff] \<and>
     tss_descriptor_base (cpu_gdt l ! 3) (cpu_gdt l ! 4) = cpu_tss_addr cpu \<and>
     tss_descriptor_limit (cpu_gdt l ! 3) = 103 \<and> tss_descriptor_access (cpu_gdt l ! 3) = 0x89 \<and>
     tss_ist (cpu_tss l) = [cpu + 160 + 0x4000, cpu + 160 + 0x8000, 0, 0, 0, 0, 0]"
proof -
  let ?gdt = "[0, 0x00af9a000000ffff, 0x00cf92000000ffff, 0, 0] :: u64 list"
  have gdt: "cpu_gdt (init_cpu_local cpu n) = set_tss_descriptor ?gdt 3 (cpu_tss_addr cpu) 103"
    by (simp add: init_cpu_local_def Let_def zero_cpu_local_def c_const replicate_small update_small)
  have "ucast ((103::u32) AND mask 20) = (103::u64)" by (simp add: mask_eq_exp_minus_1)
  moreover have "take 3 (set_tss_descriptor ?gdt 3 (cpu_tss_addr cpu) 103) =
      [0, 0x00af9a000000ffff, 0x00cf92000000ffff]"
    by (simp add: set_tss_descriptor_def Let_def update_small)
  moreover have "tss_ist (cpu_tss (init_cpu_local cpu n)) = [cpu + 160 + 0x4000, cpu + 160 + 0x8000, 0, 0, 0, 0, 0]"
    by (simp add: init_cpu_local_def Let_def zero_tss_def c_const replicate_small
        cpu_fault_stack_addr_def cpu_double_fault_stack_addr_def)
  moreover have "cpu_id (init_cpu_local cpu n) = n" "cpu_tss_ready (init_cpu_local cpu n) = 1"
    "length (cpu_gdt (init_cpu_local cpu n)) = CPU_GDT_ENTRIES"
    by (simp_all add: init_cpu_local_def Let_def zero_cpu_local_def set_tss_descriptor_def)
  ultimately show ?thesis
    using set_tss_descriptor_fields [of 3 ?gdt "cpu_tss_addr cpu" 103] by (simp add: Let_def gdt)
qed

text \<open>
  Every gate of an AP's interrupt table leads where it should: the four faults to the AP fault
  entries on their own interrupt stacks (the double fault on the second one), the kick interrupt, the
  idle timer and the spurious vector to their handlers on the current stack, and every other vector
  to the handler that halts. All gates use the kernel code selector and are present interrupt gates.
\<close>

theorem init_ap_idt_gates:
  assumes "length table = 256" "v < 256"
  shows "gate_view (init_ap_idt isr table ! v) =
    (if v = 6 then (isr_ap_fault_ud isr, 8, 1, 0x8e)
     else if v = 8 then (isr_ap_fault_df isr, 8, 2, 0x8e)
     else if v = 13 then (isr_ap_fault_gp isr, 8, 1, 0x8e)
     else if v = 14 then (isr_ap_fault_pf isr, 8, 1, 0x8e)
     else if v = 0xf0 then (isr_ap_request_kick_ipi isr, 8, 0, 0x8e)
     else if v = 0xf2 then (isr_ap_idle_timer isr, 8, 0, 0x8e)
     else if v = 0xff then (isr_spurious_interrupt isr, 8, 0, 0x8e)
     else (isr_ap_unhandled isr, 8, 0, 0x8e))"
  using set_all_idt_gates_nth [OF assms]
  by (simp add: init_ap_idt_def set_idt_gates_nth ap_idt_gates_def c_const)

definition example_isr :: isr_addresses where
  "example_isr = \<lparr>isr_breakpoint = 0x1000, isr_fault_ud = 0x1010, isr_fault_df = 0x1020,
     isr_fault_gp = 0x1030, isr_fault_pf = 0x1040, isr_unhandled = 0x1050,
     isr_ap_request_kick_ipi = 0x1060, isr_ap_request_ipi = 0x1070, isr_ap_idle_timer = 0x1080,
     isr_bsp_wait_timer = 0x1090, isr_spurious_interrupt = 0x10a0, isr_ap_fault_ud = 0x10b0,
     isr_ap_fault_df = 0x10c0, isr_ap_fault_gp = 0x10d0, isr_ap_fault_pf = 0x10e0,
     isr_ap_unhandled = 0x10f0\<rparr>"

definition blank_idt :: "idt_entry_t list" where
  "blank_idt = replicate 256 \<lparr>ig_offset_low = 0, ig_selector = 0, ig_ist = 0, ig_type_attr = 0,
     ig_offset_mid = 0, ig_offset_high = 0, ig_zero = 0\<rparr>"

definition example_registers :: cpu_registers where
  "example_registers = \<lparr>cr_gdtr = \<lparr>dt_limit = 39, dt_base = 0x5008\<rparr>,
     cr_idtr = \<lparr>dt_limit = 0, dt_base = 0\<rparr>, cr_cs = 8, cr_ds = 16, cr_tr = 24\<rparr>"

theorem init_ap_idt_gates_witness:
  "gate_view (init_ap_idt example_isr blank_idt ! 8) = (0x10c0, 8, 2, 0x8e)"
  using init_ap_idt_gates [of blank_idt 8 example_isr] by (simp add: blank_idt_def example_isr_def)

text \<open>
  The same for the BSP, whose gates use the selector it runs on: the breakpoint gate is the
  only one software may raise from any privilege level, the kick and completion interrupts and the
  wait timer have their handlers, and the table is the one the processor is told to use, with 256
  gates of 16 bytes.
\<close>

theorem install_bsp_idt_gates:
  assumes "length table = 256" "v < 256" "install_bsp_idt isr idt_addr table regs = (table', regs')"
  shows "gate_view (table' ! v) =
    (if v = 3 then (isr_breakpoint isr, cr_cs regs, 0, 0xef)
     else if v = 6 then (isr_fault_ud isr, cr_cs regs, 1, 0x8e)
     else if v = 8 then (isr_fault_df isr, cr_cs regs, 2, 0x8e)
     else if v = 13 then (isr_fault_gp isr, cr_cs regs, 1, 0x8e)
     else if v = 14 then (isr_fault_pf isr, cr_cs regs, 1, 0x8e)
     else if v = 0xf0 then (isr_ap_request_kick_ipi isr, cr_cs regs, 0, 0x8e)
     else if v = 0xf1 then (isr_ap_request_ipi isr, cr_cs regs, 0, 0x8e)
     else if v = 0xf3 then (isr_bsp_wait_timer isr, cr_cs regs, 0, 0x8e)
     else if v = 0xff then (isr_spurious_interrupt isr, cr_cs regs, 0, 0x8e)
     else (isr_unhandled isr, cr_cs regs, 0, 0x8e)) \<and>
    cr_idtr regs' = \<lparr>dt_limit = 4095, dt_base = idt_addr\<rparr>"
  using set_all_idt_gates_nth [OF assms(1,2)] assms(3)
  by (auto simp: install_bsp_idt_def Let_def set_idt_gates_nth bsp_idt_gates_def load_idt_entries_def c_const)

theorem install_bsp_idt_gates_witness:
  "\<exists>table' regs'. install_bsp_idt example_isr 0x9000 blank_idt example_registers = (table', regs') \<and>
     gate_view (table' ! 3) = (0x1000, 8, 0, 0xef) \<and> dt_base (cr_idtr regs') = 0x9000"
proof -
  obtain table' regs' where run: "install_bsp_idt example_isr 0x9000 blank_idt example_registers = (table', regs')"
    by (cases "install_bsp_idt example_isr 0x9000 blank_idt example_registers")
  from install_bsp_idt_gates [OF _ _ this, of 3] show ?thesis
    unfolding run by (simp add: blank_idt_def example_isr_def example_registers_def)
qed

end
