(* ===== verification/Ap_Types.thy ===== *)
theory Ap_Types
  imports Ap_Services Cpu_Tables
begin

text \<open>
  The data the BSP and the APs share (\<^verbatim>\<open>kernel/kernel.c\<close>): boot information, request
  history, queue and broadcast summaries, interrupt traces, the context of an AP, the scheduler and the
  route of a request stream. A pointer to an AP context is its index in \<^verbatim>\<open>ap_contexts\<close>; the
  stacks of a context are raw storage and have no field here.
\<close>

section \<open>Constants\<close>

definition AP_BOOT_OK :: u32 where [c_const]: "AP_BOOT_OK = 0"
definition AP_BOOT_ERR_NO_TRAMPOLINE :: u32 where [c_const]: "AP_BOOT_ERR_NO_TRAMPOLINE = 1"
definition AP_BOOT_ERR_NO_TARGET :: u32 where [c_const]: "AP_BOOT_ERR_NO_TARGET = 2"
definition AP_BOOT_ERR_X2APIC :: u32 where [c_const]: "AP_BOOT_ERR_X2APIC = 3"
definition AP_BOOT_ERR_BAD_TRAMPOLINE :: u32 where [c_const]: "AP_BOOT_ERR_BAD_TRAMPOLINE = 4"
definition AP_BOOT_ERR_HIGH_CR3 :: u32 where [c_const]: "AP_BOOT_ERR_HIGH_CR3 = 5"
definition AP_BOOT_ERR_LAPIC_RANGE :: u32 where [c_const]: "AP_BOOT_ERR_LAPIC_RANGE = 6"
definition AP_BOOT_ERR_ICR_TIMEOUT :: u32 where [c_const]: "AP_BOOT_ERR_ICR_TIMEOUT = 7"
definition AP_BOOT_ERR_ONLINE_TIMEOUT :: u32 where [c_const]: "AP_BOOT_ERR_ONLINE_TIMEOUT = 8"
definition AP_BOOT_STATE_NONE :: u32 where [c_const]: "AP_BOOT_STATE_NONE = 0"
definition AP_BOOT_STATE_READY :: u32 where [c_const]: "AP_BOOT_STATE_READY = 1"
definition AP_BOOT_STATE_SENT_INIT :: u32 where [c_const]: "AP_BOOT_STATE_SENT_INIT = 2"
definition AP_BOOT_STATE_SENT_SIPI :: u32 where [c_const]: "AP_BOOT_STATE_SENT_SIPI = 3"
definition AP_BOOT_STATE_ONLINE :: u32 where [c_const]: "AP_BOOT_STATE_ONLINE = 4"
definition AP_BOOT_STATE_HALTED :: u32 where [c_const]: "AP_BOOT_STATE_HALTED = 5"
definition AP_BOOT_STATE_FAULTED :: u32 where [c_const]: "AP_BOOT_STATE_FAULTED = 6"
definition AP_ENTRY_STATE_NONE :: u32 where [c_const]: "AP_ENTRY_STATE_NONE = 0"
definition AP_ENTRY_STATE_C :: u32 where [c_const]: "AP_ENTRY_STATE_C = 1"
definition AP_ENTRY_STATE_TABLES :: u32 where [c_const]: "AP_ENTRY_STATE_TABLES = 2"
definition AP_ENTRY_STATE_HALTED :: u32 where [c_const]: "AP_ENTRY_STATE_HALTED = 3"
definition AP_ENTRY_STATE_FAULT :: u32 where [c_const]: "AP_ENTRY_STATE_FAULT = 4"
definition AP_ENTRY_STATE_LOOP :: u32 where [c_const]: "AP_ENTRY_STATE_LOOP = 5"
definition AP_ENTRY_STATE_REQUEST :: u32 where [c_const]: "AP_ENTRY_STATE_REQUEST = 6"
definition AP_FAULT_PHASE_NONE :: u32 where [c_const]: "AP_FAULT_PHASE_NONE = 0"
definition AP_FAULT_PHASE_STARTUP :: u32 where [c_const]: "AP_FAULT_PHASE_STARTUP = 1"
definition AP_FAULT_PHASE_LOOP :: u32 where [c_const]: "AP_FAULT_PHASE_LOOP = 2"
definition AP_FAULT_PHASE_REQUEST :: u32 where [c_const]: "AP_FAULT_PHASE_REQUEST = 3"
definition AP_QUEUE_STOP_NONE :: u32 where [c_const]: "AP_QUEUE_STOP_NONE = 0"
definition AP_QUEUE_STOP_DRAINED :: u32 where [c_const]: "AP_QUEUE_STOP_DRAINED = 1"
definition AP_QUEUE_STOP_BAD_OP :: u32 where [c_const]: "AP_QUEUE_STOP_BAD_OP = 2"
definition AP_QUEUE_STOP_FAULT :: u32 where [c_const]: "AP_QUEUE_STOP_FAULT = 3"

definition MAX_AP_CONTEXTS :: nat where [c_const]: "MAX_AP_CONTEXTS = 8"
definition AP_REQUEST_SLOT_COUNT :: nat where [c_const]: "AP_REQUEST_SLOT_COUNT = 4"
definition AP_REQUEST_HISTORY_COUNT :: nat where [c_const]: "AP_REQUEST_HISTORY_COUNT = 8"
definition AP_REQUEST_NO_SLOT :: u32 where [c_const]: "AP_REQUEST_NO_SLOT = 0xffffffff"
definition AP_BROADCAST_PING_SLOT_INDEX :: nat where [c_const]: "AP_BROADCAST_PING_SLOT_INDEX = 0"
definition AP_BROADCAST_PING_SEQUENCE_BASE :: u32 where
  [c_const]: "AP_BROADCAST_PING_SEQUENCE_BASE = 0xb000"
definition AP_IDLE_TIMER_INITIAL_COUNT :: u32 where [c_const]: "AP_IDLE_TIMER_INITIAL_COUNT = 1000000"
definition BSP_WAIT_TIMER_INITIAL_COUNT :: u32 where [c_const]: "BSP_WAIT_TIMER_INITIAL_COUNT = 1000000"
definition LAPIC_LVT_MASKED :: u32 where [c_const]: "LAPIC_LVT_MASKED = push_bit 16 1"
definition AP_REQUEST_ROUTE_OWNER :: u32 where [c_const]: "AP_REQUEST_ROUTE_OWNER = 0"
definition AP_REQUEST_ROUTE_EXPLICIT :: u32 where [c_const]: "AP_REQUEST_ROUTE_EXPLICIT = 1"
definition AP_REQUEST_ROUTE_SCHEDULER_FALLBACK :: u32 where
  [c_const]: "AP_REQUEST_ROUTE_SCHEDULER_FALLBACK = 2"

section \<open>Records\<close>

record ap_boot_info_t =
  bi_trampoline_base :: u64
  bi_stack_top :: u64
  bi_online :: u32
  bi_ap_state :: u32
  bi_entry_state :: u32
  bi_gdt_ok :: u32
  bi_tss_ok :: u32
  bi_idt_ok :: u32
  bi_ap_cs :: u64
  bi_ap_tr :: u64
  bi_ap_ist1 :: u64
  bi_ap_ist2 :: u64
  bi_fault_vector :: u64
  bi_fault_error_code :: u64
  bi_fault_rip :: u64
  bi_fault_cs :: u64
  bi_fault_rflags :: u64
  bi_fault_cr2 :: u64
  bi_fault_phase :: u32
  bi_fault_request_state :: u32
  bi_fault_request_opcode :: u32
  bi_fault_request_sequence :: u32
  bi_fault_request_service_id :: u64
  bi_fault_request_interface_id :: u64
  bi_fault_request_id_high :: u64
  bi_fault_request_id_low :: u64
  bi_target_acpi_uid :: u32
  bi_target_apic_id :: u32
  bi_sipi_vector :: u32
  bi_error :: u32
  bi_wait_loops :: u32
  bi_icr_timeouts :: u32

record ap_request_history_entry_t =
  hi_request :: ap_request_slot_t
  hi_counter_value :: u32
  hi_slot :: u32
  hi_valid :: u32

record ap_queue_summary_t =
  qs_current_slot :: u32
  qs_handled_count :: u32
  qs_last_slot :: u32
  qs_last_state :: u32
  qs_stop_reason :: u32
  qs_planned_count :: u32

record ap_broadcast_ping_entry_t =
  pe_valid :: u32
  pe_apic_id :: u32
  pe_state :: u32
  pe_result_code :: u32
  pe_fault_code :: u32
  pe_wait_loops :: u32

record ap_broadcast_ping_summary_t =
  ps_planned_count :: u32
  ps_completed_count :: u32
  ps_ok_count :: u32
  ps_fail_count :: u32
  ps_entries :: "ap_broadcast_ping_entry_t list"

record interrupt_trace_t =
  tr_vector :: u32
  tr_count :: u32
  tr_rip :: u64
  tr_cs :: u64
  tr_rflags :: u64

record ap_interrupt_observe_t =
  io_kick_ipi :: interrupt_trace_t
  io_completion_ipi :: interrupt_trace_t
  io_idle_timer_count :: u32

record bsp_wait_observe_t =
  wo_halt_count :: u32
  wo_wake_count :: u32
  wo_timer_count :: u32

record fault_frame_t =
  ff_vector :: u64
  ff_error_code :: u64
  ff_rip :: u64
  ff_cs :: u64
  ff_rflags :: u64

record ap_context_t =
  ctx_boot :: ap_boot_info_t
  ctx_cpu :: cpu_local_t
  ctx_idt :: "idt_entry_t list"
  ctx_interrupts :: ap_interrupt_observe_t
  ctx_request_slots :: "ap_request_slot_t list"
  ctx_request_history :: "ap_request_history_entry_t list"
  ctx_queue_summary :: ap_queue_summary_t
  ctx_current_request_slot :: u32
  ctx_request_handled_count :: u32
  ctx_counter_value :: u32
  ctx_request_kick_ipi_send_count :: u32
  ctx_request_kick_ipi_send_fail_count :: u32
  ctx_request_ipi_send_count :: u32
  ctx_request_ipi_send_fail_count :: u32
  ctx_idle_halt_count :: u32
  ctx_idle_wake_count :: u32
  ctx_completion_target_apic_id :: u32

record ap_scheduler_t =
  sch_online :: "nat option list"
  sch_online_count :: u32
  sch_next_index :: u32
  sch_selected_context_index :: u32
  sch_selected_apic_id :: u32
  sch_explicit_target :: u32

record ap_request_route_t =
  rt_mode :: u32
  rt_target_context_index :: u32
  rt_target_apic_id :: u32
  rt_owner_context_index :: u32

end
