(* ===== verification/Bytes.thy ===== *)
theory Bytes
  imports Vibe_Prelude
begin

text \<open>
  Little-endian byte encodings, shared by the ACPI parser, which reads them, and the trampoline
  builder, which writes them.
\<close>

section \<open>Encoding\<close>

text \<open>The bytes \<^verbatim>\<open>write_u16\<close>, \<^verbatim>\<open>write_u32\<close> and \<^verbatim>\<open>write_u64\<close> store, in the order of their addresses.\<close>

definition write_u16 :: "u16 \<Rightarrow> u8 list" where
  "write_u16 value = [ucast (value AND 0xff), ucast (drop_bit 8 value AND 0xff)]"

definition write_u32 :: "u32 \<Rightarrow> u8 list" where
  "write_u32 value = [ucast (value AND 0xff), ucast (drop_bit 8 value AND 0xff),
     ucast (drop_bit 16 value AND 0xff), ucast (drop_bit 24 value AND 0xff)]"

definition write_u64 :: "u64 \<Rightarrow> u8 list" where
  "write_u64 value = write_u32 (ucast (value AND 0xffffffff)) @ write_u32 (ucast (drop_bit 32 value))"

lemma length_write [simp]:
  "length (write_u16 a) = 2" "length (write_u32 b) = 4" "length (write_u64 c) = 8"
  by (simp_all add: write_u16_def write_u32_def write_u64_def)

section \<open>Decoding\<close>

definition le16 :: "u8 \<Rightarrow> u8 \<Rightarrow> u16" where
  "le16 b0 b1 = ucast b0 OR push_bit 8 (ucast b1)"

definition le32 :: "u8 \<Rightarrow> u8 \<Rightarrow> u8 \<Rightarrow> u8 \<Rightarrow> u32" where
  "le32 b0 b1 b2 b3 = ucast b0 OR push_bit 8 (ucast b1) OR push_bit 16 (ucast b2) OR push_bit 24 (ucast b3)"

definition le64 :: "u32 \<Rightarrow> u32 \<Rightarrow> u64" where
  "le64 lo hi = ucast lo OR push_bit 32 (ucast hi)"

lemma and_byte_mask:
  "(x :: 'a::len word) AND 0xff = take_bit 8 x" "(x :: 'a::len word) AND 0xffffffff = take_bit 32 x"
  unfolding take_bit_eq_mask by (simp_all add: mask_eq_exp_minus_1)

lemma le16_write: "le16 (write_u16 w ! 0) (write_u16 w ! 1) = w"
  unfolding le16_def write_u16_def and_byte_mask by (rule bit_word_eqI) (auto simp: bit_simps)

lemma le32_write: "le32 (write_u32 w ! 0) (write_u32 w ! 1) (write_u32 w ! 2) (write_u32 w ! 3) = w"
proof (rule bit_word_eqI)
  fix n assume "n < LENGTH(32)"
  then have "n < 8 \<or> 8 \<le> n \<and> n < 16 \<or> 16 \<le> n \<and> n < 24 \<or> 24 \<le> n \<and> n < 32" by auto
  then show "bit (le32 (write_u32 w ! 0) (write_u32 w ! 1) (write_u32 w ! 2) (write_u32 w ! 3)) n = bit w n"
    unfolding le32_def write_u32_def and_byte_mask by (auto simp: bit_simps)
qed

lemma le64_write: "le64 (ucast (w AND 0xffffffff)) (ucast (drop_bit 32 w)) = w"
  unfolding le64_def and_byte_mask by (rule bit_word_eqI) (auto simp: bit_simps)

end
