(* ===== verification/Memory_Map.thy ===== *)
theory Memory_Map
  imports Vibe_Prelude
begin

text \<open>
  The firmware memory map and the page arithmetic of \<^verbatim>\<open>kernel/kernel.c\<close>: the descriptor
  array handed over by \<^verbatim>\<open>GetMemoryMap\<close>, the checked end of a descriptor, alignment to
  4 KiB pages, rounded-up division, and the test whether a physical range lies inside one
  descriptor. The descriptor buffer is the list of the descriptors found at the firmware's stride;
  an index the C code passes is always below the descriptor count.
\<close>

section \<open>Data\<close>

record efi_memory_descriptor =
  md_Type :: u32
  md_Pad :: u32
  md_PhysicalStart :: u64
  md_VirtualStart :: u64
  md_NumberOfPages :: u64
  md_Attribute :: u64

record efi_memory_map_t =
  mm_descriptors :: "efi_memory_descriptor list"
  mm_map_size :: u64
  mm_map_capacity :: u64
  mm_descriptor_size :: u64
  mm_descriptor_version :: u32
  mm_descriptor_count :: u64

definition EfiReservedMemoryType :: u32 where [c_const]: "EfiReservedMemoryType = 0"
definition EfiLoaderCode :: u32 where [c_const]: "EfiLoaderCode = 1"
definition EfiLoaderData :: u32 where [c_const]: "EfiLoaderData = 2"
definition EfiBootServicesCode :: u32 where [c_const]: "EfiBootServicesCode = 3"
definition EfiBootServicesData :: u32 where [c_const]: "EfiBootServicesData = 4"
definition EfiRuntimeServicesCode :: u32 where [c_const]: "EfiRuntimeServicesCode = 5"
definition EfiRuntimeServicesData :: u32 where [c_const]: "EfiRuntimeServicesData = 6"
definition EfiConventionalMemory :: u32 where [c_const]: "EfiConventionalMemory = 7"
definition EfiUnusableMemory :: u32 where [c_const]: "EfiUnusableMemory = 8"
definition EfiACPIReclaimMemory :: u32 where [c_const]: "EfiACPIReclaimMemory = 9"
definition EfiACPIMemoryNVS :: u32 where [c_const]: "EfiACPIMemoryNVS = 10"
definition EfiMemoryMappedIO :: u32 where [c_const]: "EfiMemoryMappedIO = 11"
definition EfiMemoryMappedIOPortSpace :: u32 where [c_const]: "EfiMemoryMappedIOPortSpace = 12"
definition EfiPalCode :: u32 where [c_const]: "EfiPalCode = 13"
definition EfiPersistentMemory :: u32 where [c_const]: "EfiPersistentMemory = 14"
definition EfiUnacceptedMemoryType :: u32 where [c_const]: "EfiUnacceptedMemoryType = 15"

definition PAGE_SIZE_4K :: u64 where [c_const]: "PAGE_SIZE_4K = 4096"
definition LOW_CANONICAL_LIMIT :: u64 where [c_const]: "LOW_CANONICAL_LIMIT = 0x0000800000000000"

section \<open>Operations\<close>

definition memory_desc_at :: "efi_memory_map_t \<Rightarrow> u64 \<Rightarrow> efi_memory_descriptor" where
  "memory_desc_at mmap index = mm_descriptors mmap ! unat index"

definition set_memory_desc_at ::
    "efi_memory_map_t \<Rightarrow> u64 \<Rightarrow> efi_memory_descriptor \<Rightarrow> efi_memory_map_t" where
  "set_memory_desc_at mmap index desc =
     mmap\<lparr>mm_descriptors := (mm_descriptors mmap)[unat index := desc]\<rparr>"

text \<open>
  The bytes of a descriptor that fit in a slot of \<open>slot_size\<close> bytes, the rest zero: the loop
  that clears the slot followed by the one that copies at most \<open>slot_size\<close> bytes of the
  40-byte struct. A field at byte offset \<open>off\<close> keeps its low \<open>slot_size - off\<close> bytes.
\<close>

definition field_prefix :: "nat \<Rightarrow> nat \<Rightarrow> 'w::len word \<Rightarrow> 'w word" where
  "field_prefix slot_size off v = take_bit (8 * (slot_size - off)) v"

definition stored_descriptor :: "nat \<Rightarrow> efi_memory_descriptor \<Rightarrow> efi_memory_descriptor" where
  "stored_descriptor slot_size desc = \<lparr>
     md_Type = field_prefix slot_size 0 (md_Type desc),
     md_Pad = field_prefix slot_size 4 (md_Pad desc),
     md_PhysicalStart = field_prefix slot_size 8 (md_PhysicalStart desc),
     md_VirtualStart = field_prefix slot_size 16 (md_VirtualStart desc),
     md_NumberOfPages = field_prefix slot_size 24 (md_NumberOfPages desc),
     md_Attribute = field_prefix slot_size 32 (md_Attribute desc)\<rparr>"

definition append_memory_descriptor ::
    "efi_memory_map_t \<Rightarrow> efi_memory_descriptor \<Rightarrow> bool \<times> efi_memory_map_t" where
  "append_memory_descriptor mmap desc =
     (let used = mm_descriptor_count mmap * mm_descriptor_size mmap in
      if used + mm_descriptor_size mmap > mm_map_capacity mmap then (False, mmap)
      else (True, mmap\<lparr>
        mm_descriptors := take (unat (mm_descriptor_count mmap)) (mm_descriptors mmap) @
          [stored_descriptor (unat (mm_descriptor_size mmap)) desc],
        mm_descriptor_count := mm_descriptor_count mmap + 1,
        mm_map_size := mm_map_size mmap + mm_descriptor_size mmap\<rparr>))"

definition align_down_4k :: "u64 \<Rightarrow> u64" where
  "align_down_4k value = value AND NOT (PAGE_SIZE_4K - 1)"

definition align_up_4k_checked :: "u64 \<Rightarrow> u64 option" where
  "align_up_4k_checked value =
     (if value = 0 then Some 0
      else if value > NOT 0 - (PAGE_SIZE_4K - 1) then None
      else Some ((value + PAGE_SIZE_4K - 1) AND NOT (PAGE_SIZE_4K - 1)))"

definition div_round_up64 :: "u64 \<Rightarrow> u64 \<Rightarrow> u64" where
  "div_round_up64 value divisor = (if value = 0 then 0 else (value - 1) div divisor + 1)"

definition descriptor_end_checked :: "efi_memory_descriptor \<Rightarrow> u64 option" where
  "descriptor_end_checked desc =
     (if md_NumberOfPages desc > (NOT 0 - md_PhysicalStart desc) div PAGE_SIZE_4K then None
      else Some (md_PhysicalStart desc + md_NumberOfPages desc * PAGE_SIZE_4K))"

text \<open>The loop of \<^verbatim>\<open>memory_map_contains_range\<close>, over the descriptors still to be visited.\<close>

fun range_in_descriptors :: "efi_memory_descriptor list \<Rightarrow> u64 \<Rightarrow> u64 \<Rightarrow> bool" where
  "range_in_descriptors [] start range_end = False"
| "range_in_descriptors (desc # descs) start range_end =
     (case descriptor_end_checked desc of
        None \<Rightarrow> range_in_descriptors descs start range_end
      | Some desc_end \<Rightarrow>
          if start \<ge> md_PhysicalStart desc \<and> range_end \<le> desc_end then True
          else range_in_descriptors descs start range_end)"

definition memory_map_contains_range :: "efi_memory_map_t \<Rightarrow> u64 \<Rightarrow> u64 \<Rightarrow> bool" where
  "memory_map_contains_range mmap start range_length =
     (if range_length = 0 then True
      else if start > NOT 0 - range_length then False
      else range_in_descriptors (take (unat (mm_descriptor_count mmap)) (mm_descriptors mmap))
             start (start + range_length))"

section \<open>Page arithmetic as natural numbers\<close>

lemma unat_page_size [simp]: "unat PAGE_SIZE_4K = 4096"
  by (simp add: c_const)

lemma unat_low_limit: "unat LOW_CANONICAL_LIMIT = 2 ^ 47"
  by (simp add: c_const)

lemma not_page_mask: "NOT (PAGE_SIZE_4K - 1) = NOT (mask 12)"
  by (simp add: c_const mask_eq_exp_minus_1)

lemma unat_align_down_4k: "unat (align_down_4k v) = unat v div 4096 * 4096"
  by (simp add: align_down_4k_def not_page_mask unat_and_not_mask_div)

lemma unat_max_minus: "unat (- 1 - (a::u64)) = 2 ^ 64 - 1 - unat a"
proof -
  have "a \<le> - 1" by (rule word_n1_ge)
  moreover have "unat (- 1 :: u64) = 2 ^ 64 - 1"
    by (simp add: unsigned_minus_1_eq_mask mask_eq_exp_minus_1)
  ultimately show ?thesis by (simp add: unat_sub)
qed

lemma align_up_4k_checked_Some:
  assumes "align_up_4k_checked v = Some e"
  shows "unat e = (unat v + 4095) div 4096 * 4096"
proof (cases "v = 0")
  case True
  with assms show ?thesis by (simp add: align_up_4k_checked_def)
next
  case False
  with assms have le: "\<not> v > NOT 0 - (PAGE_SIZE_4K - 1)"
    and e: "e = (v + PAGE_SIZE_4K - 1) AND NOT (mask 12)"
    by (auto simp: align_up_4k_checked_def not_page_mask split: if_splits)
  have "unat (4095 + v) = unat v + 4095"
    using le by (simp add: c_const word_less_nat_alt unat_max_minus unat_word_ariths)
  then show ?thesis
    by (simp add: e unat_and_not_mask_div c_const)
qed

lemma align_up_4k_checked_defined:
  "unat v + 4095 < 2 ^ 64 \<Longrightarrow> \<exists>e. align_up_4k_checked v = Some e"
  by (simp add: align_up_4k_checked_def c_const word_less_nat_alt unat_max_minus)

lemma unat_div_round_up64:
  assumes "0 < unat d"
  shows "unat (div_round_up64 v d) = (unat v + unat d - 1) div unat d"
proof (cases "v = 0")
  case True
  with assms show ?thesis by (simp add: div_round_up64_def)
next
  case False
  then have pos: "0 < unat v" by (simp add: unat_gt_0)
  have m1: "unat (v - 1) = unat v - 1" using False by (rule unat_minus_one)
  have "(unat v - 1) div unat d \<le> unat v - 1" by simp
  also have "\<dots> < 2 ^ 64 - 1" using unat_bound_len [of v] pos by simp
  finally have "unat ((v - 1) div d + 1) = (unat v - 1) div unat d + 1"
    by (simp add: unat_word_ariths unat_div m1)
  also have "\<dots> = (unat v - 1 + unat d) div unat d"
    using assms by (simp only: div_add_self2)
  also have "unat v - 1 + unat d = unat v + unat d - 1" using pos by simp
  finally show ?thesis using False by (simp add: div_round_up64_def)
qed

lemma descriptor_end_checked_Some:
  assumes "descriptor_end_checked d = Some e"
  shows "unat e = unat (md_PhysicalStart d) + unat (md_NumberOfPages d) * 4096"
proof -
  let ?s = "unat (md_PhysicalStart d)" and ?n = "unat (md_NumberOfPages d)"
  from assms have le: "?n \<le> (2 ^ 64 - 1 - ?s) div 4096"
    and e: "e = md_PhysicalStart d + md_NumberOfPages d * PAGE_SIZE_4K"
    by (auto simp: descriptor_end_checked_def word_less_nat_alt unat_div unat_max_minus not_less
        split: if_splits)
  from le have "?n * 4096 \<le> 2 ^ 64 - 1 - ?s"
    by (simp add: less_eq_div_iff_mult_less_eq)
  then have "?s + ?n * 4096 < 2 ^ 64"
    using unat_bound_len [of "md_PhysicalStart d"] by simp
  then show ?thesis
    by (simp add: e unat_word_ariths)
qed

lemma descriptor_end_checked_defined:
  assumes "unat (md_PhysicalStart d) + unat (md_NumberOfPages d) * 4096 < 2 ^ 64"
  shows "\<exists>e. descriptor_end_checked d = Some e"
proof -
  have "unat (md_NumberOfPages d) \<le> (2 ^ 64 - 1 - unat (md_PhysicalStart d)) div 4096"
    using assms by (simp add: less_eq_div_iff_mult_less_eq)
  then show ?thesis
    by (simp add: descriptor_end_checked_def word_less_nat_alt unat_div unat_max_minus not_less)
qed

section \<open>Range checks\<close>

text \<open>The physical addresses a descriptor describes, and those of a whole map.\<close>

definition descriptor_bytes :: "efi_memory_descriptor \<Rightarrow> nat set" where
  "descriptor_bytes d = {unat (md_PhysicalStart d) ..<
     unat (md_PhysicalStart d) + unat (md_NumberOfPages d) * 4096}"

definition mapped_bytes :: "efi_memory_map_t \<Rightarrow> nat set" where
  "mapped_bytes mmap = (\<Union>d \<in> set (take (unat (mm_descriptor_count mmap)) (mm_descriptors mmap)).
     descriptor_bytes d)"

text \<open>
  The contract a parser of firmware tables relies on: an accepted range does not wrap around
  the address space, and each of its bytes is described memory.
\<close>

locale range_check =
  fixes covers :: "u64 \<Rightarrow> u64 \<Rightarrow> bool"
    and region :: "nat set"
  assumes no_wrap: "covers start len \<Longrightarrow> unat start + unat len < 2 ^ 64"
    and covered: "covers start len \<Longrightarrow> {unat start ..< unat start + unat len} \<subseteq> region"
begin

lemma offset_address:
  assumes "covers start len" and "k < len"
  shows "unat (start + k) = unat start + unat k \<and> unat (start + k) \<in> region"
proof -
  have lt: "unat k < unat len" using assms(2) by (simp add: word_less_nat_alt)
  then have "unat start + unat k < 2 ^ 64" using no_wrap [OF assms(1)] by simp
  then have "unat (start + k) = unat start + unat k"
    by (simp add: unat_word_ariths)
  with covered [OF assms(1)] lt show ?thesis by auto
qed

end

lemma range_in_descriptors_iff:
  "range_in_descriptors ds start range_end \<longleftrightarrow>
     (\<exists>d \<in> set ds. \<exists>e. descriptor_end_checked d = Some e \<and>
        md_PhysicalStart d \<le> start \<and> range_end \<le> e)"
  by (induction ds) (auto split: option.splits)

lemma contains_range_no_wrap:
  assumes "memory_map_contains_range mmap start len"
  shows "unat start + unat len < 2 ^ 64"
proof (cases "len = 0")
  case True
  then show ?thesis using unat_bound_len [of start] by simp
next
  case False
  with assms have "\<not> NOT 0 - len < start"
    by (auto simp: memory_map_contains_range_def split: if_splits)
  then have "unat start \<le> 2 ^ 64 - 1 - unat len"
    by (simp add: word_less_nat_alt unat_max_minus not_less)
  then show ?thesis using unat_bound_len [of len] by simp
qed

interpretation mmap: range_check "memory_map_contains_range mmap" "mapped_bytes mmap"
proof unfold_locales
  fix start len
  assume acc: "memory_map_contains_range mmap start len"
  show nw: "unat start + unat len < 2 ^ 64"
    using acc by (rule contains_range_no_wrap)
  show "{unat start ..< unat start + unat len} \<subseteq> mapped_bytes mmap"
  proof (cases "len = 0")
    case False
    have sum: "unat (start + len) = unat start + unat len"
      using nw by (simp add: unat_word_ariths)
    from acc False obtain d e where
      d: "d \<in> set (take (unat (mm_descriptor_count mmap)) (mm_descriptors mmap))"
      and "descriptor_end_checked d = Some e" "md_PhysicalStart d \<le> start" "start + len \<le> e"
      by (auto simp: memory_map_contains_range_def range_in_descriptors_iff split: if_splits)
    then have "{unat start ..< unat start + unat len} \<subseteq> descriptor_bytes d"
      using sum descriptor_end_checked_Some [of d e]
      by (auto simp: descriptor_bytes_def word_le_nat_alt)
    with d show ?thesis by (auto simp: mapped_bytes_def)
  qed simp
qed

lemma contains_range_descriptor:
  assumes "len \<noteq> 0" "unat start + unat len < 2 ^ 64"
  shows "(\<exists>e. descriptor_end_checked d = Some e \<and> md_PhysicalStart d \<le> start \<and> start + len \<le> e) \<longleftrightarrow>
    unat (md_PhysicalStart d) + unat (md_NumberOfPages d) * 4096 < 2 ^ 64 \<and>
    {unat start ..< unat start + unat len} \<subseteq> descriptor_bytes d"
proof -
  let ?e = "unat (md_PhysicalStart d) + unat (md_NumberOfPages d) * 4096"
  have pos: "0 < unat len" using assms(1) by (simp add: unat_gt_0)
  have sum: "unat (start + len) = unat start + unat len"
    using assms(2) by (simp add: unat_word_ariths)
  have sub: "{unat start ..< unat start + unat len} \<subseteq> descriptor_bytes d \<longleftrightarrow>
      unat (md_PhysicalStart d) \<le> unat start \<and> unat start + unat len \<le> ?e"
    using pos by (simp add: descriptor_bytes_def)
  have "(\<exists>e. descriptor_end_checked d = Some e \<and> P (unat e)) \<longleftrightarrow> ?e < 2 ^ 64 \<and> P ?e" for P
  proof
    assume "\<exists>e. descriptor_end_checked d = Some e \<and> P (unat e)"
    then obtain e where "descriptor_end_checked d = Some e" "P (unat e)" by blast
    then show "?e < 2 ^ 64 \<and> P ?e"
      using descriptor_end_checked_Some [of d e] unat_bound_len [of e] by simp
  next
    assume e: "?e < 2 ^ 64 \<and> P ?e"
    then obtain x where "descriptor_end_checked d = Some x"
      using descriptor_end_checked_defined [of d] by blast
    with e show "\<exists>e. descriptor_end_checked d = Some e \<and> P (unat e)"
      using descriptor_end_checked_Some [of d x] by simp
  qed
  from this [of "\<lambda>e. unat (md_PhysicalStart d) \<le> unat start \<and> unat start + unat len \<le> e"]
  show ?thesis unfolding sub by (simp only: word_le_nat_alt sum)
qed

text \<open>
  C32. The range test is exact: it accepts a range if and only if the range does not wrap around
  the 64-bit address space and is empty or lies, byte for byte, inside one descriptor whose end does
  not wrap either. Ranges that only a union of descriptors covers are refused.
\<close>

theorem memory_map_contains_range_exact:
  "memory_map_contains_range mmap start len \<longleftrightarrow> unat start + unat len < 2 ^ 64 \<and>
     (len = 0 \<or> (\<exists>d \<in> set (take (unat (mm_descriptor_count mmap)) (mm_descriptors mmap)).
        unat (md_PhysicalStart d) + unat (md_NumberOfPages d) * 4096 < 2 ^ 64 \<and>
        {unat start ..< unat start + unat len} \<subseteq> descriptor_bytes d))"
proof (cases "len = 0 \<or> \<not> unat start + unat len < 2 ^ 64")
  case True
  then show ?thesis
    using unat_bound_len [of start] contains_range_no_wrap [of mmap start len]
    by (auto simp: memory_map_contains_range_def)
next
  case False
  then have len: "len \<noteq> 0" and nw: "unat start + unat len < 2 ^ 64" by simp_all
  then have "\<not> NOT 0 - len < start"
    using unat_bound_len [of len] by (simp add: word_less_nat_alt unat_max_minus)
  then show ?thesis
    using len nw contains_range_descriptor [OF len nw]
    by (simp add: memory_map_contains_range_def range_in_descriptors_iff)
qed

end
