(* ===== verification/Paging.thy ===== *)
theory Paging
  imports Memory_Map
begin

text \<open>
  The page tables of \<^verbatim>\<open>kernel/kernel.c\<close>: the pool they are allocated from, the
  four-level 4 KiB identity mapping, and \<^verbatim>\<open>setup_kernel_paging\<close>. Page tables live in
  physical memory; the model keeps the 64-bit words the kernel accesses through page-table
  pointers in a store from addresses to words, so that \<^verbatim>\<open>table[index]\<close> is the word at
  \<open>table + 8 * index\<close>. The loop over the pages of a range is defined with
  \<open>None\<close> for not returning; that it returns is part of what is proved.
\<close>

section \<open>Data\<close>

record paging_info_t =
  pi_cr3 :: u64
  pi_loaded_cr3 :: u64
  pi_pool_start :: u64
  pi_pool_end :: u64
  pi_pool_next :: u64
  pi_max_identity_end :: u64
  pi_reserved_pages :: u64
  pi_allocated_pages :: u64
  pi_mapped_pages :: u64
  pi_mapped_ranges :: u64
  pi_error :: u32
  pi_idt_self_test_ok :: u32

type_synonym store = "u64 \<Rightarrow> u64"
type_synonym pt_state = "paging_info_t \<times> store"

text \<open>The part of \<^verbatim>\<open>framebuffer_t\<close> the kernel keeps: base address, geometry and format.\<close>

record framebuffer_t =
  fb_base :: u64
  fb_width :: u32
  fb_height :: u32
  fb_stride :: u32
  fb_size :: u64
  fb_format :: u32

definition PAGE_TABLE_ENTRIES :: u64 where [c_const]: "PAGE_TABLE_ENTRIES = 512"
definition PTE_PRESENT :: u64 where [c_const]: "PTE_PRESENT = 0x001"
definition PTE_RW :: u64 where [c_const]: "PTE_RW = 0x002"
definition PTE_PWT :: u64 where [c_const]: "PTE_PWT = 0x008"
definition PTE_PCD :: u64 where [c_const]: "PTE_PCD = 0x010"
definition PTE_ADDR_MASK :: u64 where [c_const]: "PTE_ADDR_MASK = 0x000FFFFFFFFFF000"

definition PAGING_OK :: u32 where [c_const]: "PAGING_OK = 0"
definition PAGING_ERR_LA57 :: u32 where [c_const]: "PAGING_ERR_LA57 = 1"
definition PAGING_ERR_RANGE :: u32 where [c_const]: "PAGING_ERR_RANGE = 2"
definition PAGING_ERR_NO_POOL :: u32 where [c_const]: "PAGING_ERR_NO_POOL = 3"
definition PAGING_ERR_POOL_EMPTY :: u32 where [c_const]: "PAGING_ERR_POOL_EMPTY = 4"
definition PAGING_ERR_TABLE_ENTRY :: u32 where [c_const]: "PAGING_ERR_TABLE_ENTRY = 5"
definition PAGING_ERR_MAP_FULL :: u32 where [c_const]: "PAGING_ERR_MAP_FULL = 6"

section \<open>The pool\<close>

definition framebuffer_size_bytes :: "framebuffer_t \<Rightarrow> u64" where
  "framebuffer_size_bytes fb =
     (if fb_size fb \<noteq> 0 then fb_size fb
      else ucast (fb_stride fb) * ucast (fb_height fb) * 4)"

definition estimate_identity_page_table_pages :: "u64 \<Rightarrow> u64" where
  "estimate_identity_page_table_pages max_end =
     (let mapped_pages = div_round_up64 max_end PAGE_SIZE_4K;
          pt_pages = div_round_up64 mapped_pages PAGE_TABLE_ENTRIES;
          pd_pages = div_round_up64 mapped_pages (PAGE_TABLE_ENTRIES * PAGE_TABLE_ENTRIES);
          pdpt_pages = div_round_up64 mapped_pages
            (PAGE_TABLE_ENTRIES * PAGE_TABLE_ENTRIES * PAGE_TABLE_ENTRIES)
      in 1 + pdpt_pages + pd_pages + pt_pages + 16)"

definition zero_page_4k :: "u64 \<Rightarrow> store \<Rightarrow> store" where
  "zero_page_4k phys mem =
     fold (\<lambda>i mem. mem(phys + 8 * word_of_nat i := 0)) [0..<unat PAGE_TABLE_ENTRIES] mem"

definition alloc_page_table_page :: "pt_state \<Rightarrow> u64 \<times> pt_state" where
  "alloc_page_table_page = (\<lambda>(info, mem).
     if pi_pool_next info > pi_pool_end info - PAGE_SIZE_4K
     then (0, info\<lparr>pi_error := PAGING_ERR_POOL_EMPTY\<rparr>, mem)
     else (let phys = pi_pool_next info in
       (phys, info\<lparr>pi_pool_next := pi_pool_next info + PAGE_SIZE_4K,
                   pi_allocated_pages := pi_allocated_pages info + 1\<rparr>,
        zero_page_4k phys mem)))"

text \<open>
  The search for the pool: the variables \<^verbatim>\<open>found\<close>, \<^verbatim>\<open>selected_start\<close>,
  \<^verbatim>\<open>selected_end\<close> and \<^verbatim>\<open>selected_index\<close> of the loop, over the descriptor
  indices still to be visited. \<open>None\<close> is the early return with a range error.
\<close>

fun select_pool_loop ::
    "efi_memory_map_t \<Rightarrow> u64 \<Rightarrow> nat list \<Rightarrow> bool \<times> u64 \<times> u64 \<times> nat \<Rightarrow>
     (bool \<times> u64 \<times> u64 \<times> nat) option" where
  "select_pool_loop mmap pool_pages [] sel = Some sel"
| "select_pool_loop mmap pool_pages (i # is) (found, selected_start, selected_end, selected_index) =
     (let desc = memory_desc_at mmap (word_of_nat i) in
      if md_Type desc \<noteq> EfiConventionalMemory \<or> md_NumberOfPages desc < pool_pages
      then select_pool_loop mmap pool_pages is (found, selected_start, selected_end, selected_index)
      else case descriptor_end_checked desc of
        None \<Rightarrow> None
      | Some end' \<Rightarrow>
          if \<not> found \<or> md_PhysicalStart desc < selected_start
          then select_pool_loop mmap pool_pages is (True, md_PhysicalStart desc, end', i)
          else select_pool_loop mmap pool_pages is
                 (found, selected_start, selected_end, selected_index))"

definition select_page_table_pool ::
    "efi_memory_map_t \<Rightarrow> u64 \<Rightarrow> paging_info_t \<Rightarrow> bool \<times> efi_memory_map_t \<times> paging_info_t" where
  "select_page_table_pool mmap pool_pages info =
     (case select_pool_loop mmap pool_pages [0..<unat (mm_descriptor_count mmap)] (False, 0, 0, 0) of
        None \<Rightarrow> (False, mmap, info\<lparr>pi_error := PAGING_ERR_RANGE\<rparr>)
      | Some (found, selected_start, selected_end, selected_index) \<Rightarrow>
          if \<not> found then (False, mmap, info\<lparr>pi_error := PAGING_ERR_NO_POOL\<rparr>)
          else
            (let pool_start = selected_end - pool_pages * PAGE_SIZE_4K;
                 info = info\<lparr>pi_pool_end := selected_end, pi_pool_start := pool_start,
                   pi_pool_next := pool_start, pi_reserved_pages := pool_pages\<rparr>;
                 index = word_of_nat selected_index;
                 selected = memory_desc_at mmap index
             in if md_NumberOfPages selected = pool_pages
                then (True, set_memory_desc_at mmap index (selected\<lparr>md_Type := EfiLoaderData\<rparr>), info)
                else
                  (let pool_desc = selected\<lparr>md_Type := EfiLoaderData, md_PhysicalStart := pool_start,
                         md_VirtualStart := 0, md_NumberOfPages := pool_pages\<rparr>;
                       mmap = set_memory_desc_at mmap index
                         (selected\<lparr>md_NumberOfPages := md_NumberOfPages selected - pool_pages\<rparr>)
                   in case append_memory_descriptor mmap pool_desc of
                        (True, mmap) \<Rightarrow> (True, mmap, info)
                      | (False, mmap) \<Rightarrow> (False, mmap, info\<lparr>pi_error := PAGING_ERR_MAP_FULL\<rparr>))))"

section \<open>Mapping\<close>

definition ensure_next_table :: "pt_state \<Rightarrow> u64 \<Rightarrow> u64 \<Rightarrow> u64 option \<times> pt_state" where
  "ensure_next_table st table index =
     (let entry = snd st (table + 8 * index) in
      if entry AND PTE_PRESENT \<noteq> 0 then (Some (entry AND PTE_ADDR_MASK), st)
      else (let (phys, info, mem) = alloc_page_table_page st in
        if phys = 0 then (None, info, mem)
        else (Some phys, info, mem(table + 8 * index := phys OR PTE_PRESENT OR PTE_RW))))"

text \<open>One iteration of the mapping loop: the three lookups and the leaf entry of one page.\<close>

definition map_identity_page :: "pt_state \<Rightarrow> u64 \<Rightarrow> u64 \<Rightarrow> bool \<times> pt_state" where
  "map_identity_page st addr flags =
     (let pml4_index = drop_bit 39 addr AND 0x1ff;
          pdpt_index = drop_bit 30 addr AND 0x1ff;
          pd_index = drop_bit 21 addr AND 0x1ff;
          pt_index = drop_bit 12 addr AND 0x1ff;
          pml4 = pi_cr3 (fst st)
      in case ensure_next_table st pml4 pml4_index of
        (None, st) \<Rightarrow> (False, st)
      | (Some pdpt, st) \<Rightarrow> (case ensure_next_table st pdpt pdpt_index of
          (None, st) \<Rightarrow> (False, st)
        | (Some pd, st) \<Rightarrow> (case ensure_next_table st pd pd_index of
            (None, st) \<Rightarrow> (False, st)
          | (Some pt, st) \<Rightarrow>
              (let (info, mem) = st; entry = mem (pt + 8 * pt_index) in
               if entry AND PTE_PRESENT \<noteq> 0
               then (if entry AND PTE_ADDR_MASK \<noteq> addr AND PTE_ADDR_MASK
                     then (False, info\<lparr>pi_error := PAGING_ERR_TABLE_ENTRY\<rparr>, mem)
                     else (True, info, mem(pt + 8 * pt_index := entry OR flags)))
               else (True, info\<lparr>pi_mapped_pages := pi_mapped_pages info + 1\<rparr>,
                     mem(pt + 8 * pt_index := (addr AND PTE_ADDR_MASK) OR flags))))))"

partial_function (option) map_identity_loop ::
    "pt_state \<Rightarrow> u64 \<Rightarrow> u64 \<Rightarrow> u64 \<Rightarrow> (bool \<times> pt_state) option" where
  "map_identity_loop st addr map_end flags =
     (if \<not> addr < map_end then Some (True, st)
      else if fst (map_identity_page st addr flags)
           then map_identity_loop (snd (map_identity_page st addr flags))
                  (addr + PAGE_SIZE_4K) map_end flags
           else Some (False, snd (map_identity_page st addr flags)))"

definition map_identity_range_4k ::
    "pt_state \<Rightarrow> u64 \<Rightarrow> u64 \<Rightarrow> u64 \<Rightarrow> (bool \<times> pt_state) option" where
  "map_identity_range_4k st start bytes flags =
     (let (info, mem) = st in
      if bytes = 0 then Some (True, st)
      else if start > NOT 0 - bytes then Some (False, info\<lparr>pi_error := PAGING_ERR_RANGE\<rparr>, mem)
      else (let raw_end = start + bytes; map_start = align_down_4k start in
        case align_up_4k_checked raw_end of
          None \<Rightarrow> Some (False, info\<lparr>pi_error := PAGING_ERR_RANGE\<rparr>, mem)
        | Some map_end \<Rightarrow>
            if map_end > LOW_CANONICAL_LIMIT
            then Some (False, info\<lparr>pi_error := PAGING_ERR_RANGE\<rparr>, mem)
            else map_identity_loop (info\<lparr>pi_mapped_ranges := pi_mapped_ranges info + 1\<rparr>, mem)
                   map_start map_end flags))"

definition page_flags_for_memory_type :: "u32 \<Rightarrow> u64" where
  "page_flags_for_memory_type type' =
     (if type' = EfiMemoryMappedIO \<or> type' = EfiMemoryMappedIOPortSpace
      then PTE_PRESENT OR PTE_RW OR (PTE_PWT OR PTE_PCD) else PTE_PRESENT OR PTE_RW)"

section \<open>Setting up paging\<close>

text \<open>The processor registers paging uses, with the store the page tables live in.\<close>

record paging_machine =
  pm_cr3 :: u64
  pm_cr4 :: u64
  pm_store :: store

definition zero_paging_info :: paging_info_t where
  "zero_paging_info = \<lparr>pi_cr3 = 0, pi_loaded_cr3 = 0, pi_pool_start = 0, pi_pool_end = 0,
     pi_pool_next = 0, pi_max_identity_end = 0, pi_reserved_pages = 0, pi_allocated_pages = 0,
     pi_mapped_pages = 0, pi_mapped_ranges = 0, pi_error = 0, pi_idt_self_test_ok = 0\<rparr>"

text \<open>The first loop: the highest end of a descriptor, \<open>None\<close> for the early range error.\<close>

fun descriptors_max_end :: "efi_memory_descriptor list \<Rightarrow> u64 \<Rightarrow> u64 option" where
  "descriptors_max_end [] max_end = Some max_end"
| "descriptors_max_end (desc # descs) max_end =
     (case descriptor_end_checked desc of
        None \<Rightarrow> None
      | Some end' \<Rightarrow>
          if end' > LOW_CANONICAL_LIMIT then None
          else descriptors_max_end descs (if end' > max_end then end' else max_end))"

text \<open>The second loop: an identity mapping for every descriptor, in order, up to a failure.\<close>

fun map_descriptors :: "pt_state \<Rightarrow> efi_memory_descriptor list \<Rightarrow> (bool \<times> pt_state) option" where
  "map_descriptors st [] = Some (True, st)"
| "map_descriptors st (desc # descs) =
     (case map_identity_range_4k st (md_PhysicalStart desc) (md_NumberOfPages desc * PAGE_SIZE_4K)
             (page_flags_for_memory_type (md_Type desc)) of
        None \<Rightarrow> None
      | Some (False, st) \<Rightarrow> Some (False, st)
      | Some (True, st) \<Rightarrow> map_descriptors st descs)"

definition live_descriptors :: "efi_memory_map_t \<Rightarrow> efi_memory_descriptor list" where
  "live_descriptors mmap = take (unat (mm_descriptor_count mmap)) (mm_descriptors mmap)"

definition framebuffer_end_checked :: "framebuffer_t \<Rightarrow> u64 option" where
  "framebuffer_end_checked fb =
     (let fb_start = fb_base fb; fb_bytes = framebuffer_size_bytes fb in
      if fb_start > NOT 0 - fb_bytes then None
      else case align_up_4k_checked (fb_start + fb_bytes) of
        None \<Rightarrow> None
      | Some fb_end \<Rightarrow> if fb_end > LOW_CANONICAL_LIMIT then None else Some fb_end)"

definition setup_kernel_paging ::
    "efi_memory_map_t \<Rightarrow> framebuffer_t \<Rightarrow> paging_machine \<Rightarrow>
     (bool \<times> efi_memory_map_t \<times> paging_info_t \<times> paging_machine) option" where
  "setup_kernel_paging mmap fb m =
     (let info = zero_paging_info in
      if pm_cr4 m AND push_bit 12 1 \<noteq> 0
      then Some (False, mmap, info\<lparr>pi_error := PAGING_ERR_LA57\<rparr>, m)
      else case descriptors_max_end (live_descriptors mmap) 0 of
        None \<Rightarrow> Some (False, mmap, info\<lparr>pi_error := PAGING_ERR_RANGE\<rparr>, m)
      | Some max_end \<Rightarrow> (case framebuffer_end_checked fb of
          None \<Rightarrow> Some (False, mmap, info\<lparr>pi_error := PAGING_ERR_RANGE\<rparr>, m)
        | Some fb_end \<Rightarrow>
            (let max_end = (if fb_end > max_end then fb_end else max_end);
                 info = info\<lparr>pi_max_identity_end := max_end\<rparr>;
                 pool_pages = estimate_identity_page_table_pages max_end;
                 (ok, mmap, info) = select_page_table_pool mmap pool_pages info
             in if \<not> ok then Some (False, mmap, info, m)
                else
                  (let (root, info, mem) = alloc_page_table_page (info, pm_store m);
                       info = info\<lparr>pi_cr3 := root\<rparr>
                   in if root = 0 then Some (False, mmap, info, m\<lparr>pm_store := mem\<rparr>)
                      else case map_descriptors (info, mem) (live_descriptors mmap) of
                        None \<Rightarrow> None
                      | Some (False, info, mem) \<Rightarrow> Some (False, mmap, info, m\<lparr>pm_store := mem\<rparr>)
                      | Some (True, info, mem) \<Rightarrow>
                          (case map_identity_range_4k (info, mem) (fb_base fb)
                                  (framebuffer_size_bytes fb)
                                  (PTE_PRESENT OR PTE_RW OR PTE_PWT OR PTE_PCD) of
                             None \<Rightarrow> None
                           | Some (False, info, mem) \<Rightarrow>
                               Some (False, mmap, info, m\<lparr>pm_store := mem\<rparr>)
                           | Some (True, info, mem) \<Rightarrow>
                               (let m = m\<lparr>pm_store := mem, pm_cr3 := pi_cr3 info\<rparr>
                                in Some (True, mmap, info\<lparr>pi_loaded_cr3 := pm_cr3 m\<rparr>, m)))))))"

definition paging_error_name :: "u32 \<Rightarrow> string" where
  "paging_error_name error =
     (if error = PAGING_OK then ''OK''
      else if error = PAGING_ERR_LA57 then ''LA57''
      else if error = PAGING_ERR_RANGE then ''RANGE''
      else if error = PAGING_ERR_NO_POOL then ''NO-POOL''
      else if error = PAGING_ERR_POOL_EMPTY then ''POOL-EMPTY''
      else if error = PAGING_ERR_TABLE_ENTRY then ''TABLE-ENTRY''
      else if error = PAGING_ERR_MAP_FULL then ''MAP-FULL''
      else ''UNKNOWN'')"

end
