(* ===== verification/Trampoline.thy ===== *)
theory Trampoline
  imports Ap_Types Bytes Paging "HOL-Library.Monad_Syntax"
begin

text \<open>
  The start-up code of an AP (\<^verbatim>\<open>kernel/kernel.c\<close>): allocating a page below one mebibyte for it
  and assembling into that page the code that takes the AP from real mode to \<^verbatim>\<open>ap_entry_one\<close>
  in long mode. Memory is a function from physical addresses to bytes, and an emitter writes at a
  pointer and advances it.
\<close>

section \<open>Constants\<close>

definition AP_BOOT_STACK_SIZE :: u64 where [c_const]: "AP_BOOT_STACK_SIZE = 16 * 1024"
definition AP_TRAMPOLINE_PAGES :: u64 where [c_const]: "AP_TRAMPOLINE_PAGES = 1"
definition AP_TRAMPOLINE_MAX_ADDRESS :: u64 where [c_const]: "AP_TRAMPOLINE_MAX_ADDRESS = 0x9F000"
definition AP_TRAMPOLINE_PROT32_OFFSET :: u64 where [c_const]: "AP_TRAMPOLINE_PROT32_OFFSET = 0x60"
definition AP_TRAMPOLINE_LONG_OFFSET :: u64 where [c_const]: "AP_TRAMPOLINE_LONG_OFFSET = 0xC0"
definition AP_TRAMPOLINE_GDTR_OFFSET :: u64 where [c_const]: "AP_TRAMPOLINE_GDTR_OFFSET = 0x180"
definition AP_TRAMPOLINE_GDT_OFFSET :: u64 where [c_const]: "AP_TRAMPOLINE_GDT_OFFSET = 0x190"
definition AP_TRAMPOLINE_PROT32_SELECTOR :: u16 where [c_const]: "AP_TRAMPOLINE_PROT32_SELECTOR = 0x18"

section \<open>Allocation\<close>

definition zero_boot :: ap_boot_info_t where
  "zero_boot = \<lparr>bi_trampoline_base = 0, bi_stack_top = 0, bi_online = 0, bi_ap_state = 0, bi_entry_state = 0,
     bi_gdt_ok = 0, bi_tss_ok = 0, bi_idt_ok = 0, bi_ap_cs = 0, bi_ap_tr = 0, bi_ap_ist1 = 0, bi_ap_ist2 = 0,
     bi_fault_vector = 0, bi_fault_error_code = 0, bi_fault_rip = 0, bi_fault_cs = 0, bi_fault_rflags = 0,
     bi_fault_cr2 = 0, bi_fault_phase = 0, bi_fault_request_state = 0, bi_fault_request_opcode = 0,
     bi_fault_request_sequence = 0, bi_fault_request_service_id = 0, bi_fault_request_interface_id = 0,
     bi_fault_request_id_high = 0, bi_fault_request_id_low = 0, bi_target_acpi_uid = 0, bi_target_apic_id = 0,
     bi_sipi_vector = 0, bi_error = 0, bi_wait_loops = 0, bi_icr_timeouts = 0\<rparr>"

definition EFI_SUCCESS :: u64 where [c_const]: "EFI_SUCCESS = 0"

text \<open>
  The firmware's page allocator is not part of the repository: \<open>allocate_pages pages max_address\<close> is
  the status it returns and the address it stores, as \<^verbatim>\<open>AllocatePages\<close> does for
  \<^verbatim>\<open>AllocateMaxAddress\<close>. On failure it may leave the address as it was.
\<close>

definition allocate_ap_trampoline :: "(u64 \<Rightarrow> u64 \<Rightarrow> u64 \<times> u64) \<Rightarrow> u64 \<times> ap_boot_info_t" where
  "allocate_ap_trampoline allocate_pages =
     (let (status, base) = allocate_pages AP_TRAMPOLINE_PAGES AP_TRAMPOLINE_MAX_ADDRESS in
      if status \<noteq> EFI_SUCCESS \<or> base = 0 \<or> base \<ge> 0x100000 \<or> base AND (PAGE_SIZE_4K - 1) \<noteq> 0
      then (if status = EFI_SUCCESS then 1 else status, zero_boot\<lparr>bi_error := AP_BOOT_ERR_NO_TRAMPOLINE\<rparr>)
      else (EFI_SUCCESS, zero_boot\<lparr>bi_trampoline_base := base, bi_sipi_vector := ucast (drop_bit 12 base),
              bi_error := AP_BOOT_OK\<rparr>))"

section \<open>Emitting\<close>

type_synonym ram = "u64 \<Rightarrow> u8"

text \<open>Storing a sequence of bytes at an address.\<close>

fun store_bytes :: "ram \<Rightarrow> u64 \<Rightarrow> u8 list \<Rightarrow> ram" where
  "store_bytes mem p [] = mem"
| "store_bytes mem p (b # bs) = store_bytes (mem(p := b)) (p + 1) bs"

type_synonym emitter = "ram \<times> u64 \<Rightarrow> ram \<times> u64"

definition emit8 :: "u8 \<Rightarrow> emitter" where
  "emit8 value mp = (case mp of (mem, p) \<Rightarrow> (mem(p := value), p + 1))"

definition emit16 :: "u16 \<Rightarrow> emitter" where
  "emit16 value mp = (case mp of (mem, p) \<Rightarrow> (store_bytes mem p (write_u16 value), p + 2))"

definition emit32 :: "u32 \<Rightarrow> emitter" where
  "emit32 value mp = (case mp of (mem, p) \<Rightarrow> (store_bytes mem p (write_u32 value), p + 4))"

definition emit64 :: "u64 \<Rightarrow> emitter" where
  "emit64 value mp = (case mp of (mem, p) \<Rightarrow> (store_bytes mem p (write_u64 value), p + 8))"

definition emit_mov_rax_imm64 :: "u64 \<Rightarrow> emitter" where
  "emit_mov_rax_imm64 value mp = emit64 value (emit8 0xb8 (emit8 0x48 mp))"

text \<open>A run of emissions from an address on.\<close>

definition emit_at :: "u64 \<Rightarrow> emitter list \<Rightarrow> ram \<Rightarrow> ram" where
  "emit_at p es mem = fst (fold (\<lambda>e. e) es (mem, p))"

section \<open>The trampoline\<close>

text \<open>The three parts of the code, in 16-bit, 32-bit and 64-bit mode.\<close>

definition real16_code :: "u64 \<Rightarrow> emitter list" where
  "real16_code base =
     [emit8 0xfa,
      emit8 0xfc,
      emit8 0x8c, emit8 0xc8,
      emit8 0x8e, emit8 0xd8,
      emit8 0x8e, emit8 0xc0,
      emit8 0x8e, emit8 0xd0,
      emit8 0xbc, emit16 0x0ff0,
      emit8 0x0f, emit8 0x01, emit8 0x16,
      emit16 (ucast AP_TRAMPOLINE_GDTR_OFFSET),
      emit8 0x0f, emit8 0x20, emit8 0xc0,
      emit8 0x66, emit8 0x0d, emit32 0x1,
      emit8 0x0f, emit8 0x22, emit8 0xc0,
      emit8 0x66, emit8 0xea,
      emit32 (ucast (base + AP_TRAMPOLINE_PROT32_OFFSET)),
      emit16 AP_TRAMPOLINE_PROT32_SELECTOR]"

definition prot32_code :: "u64 \<Rightarrow> u64 \<Rightarrow> emitter list" where
  "prot32_code base loaded_cr3 =
     [emit8 0x66, emit8 0xb8, emit16 KERNEL_DATA_SELECTOR,
      emit8 0x8e, emit8 0xd8,
      emit8 0x8e, emit8 0xc0,
      emit8 0x8e, emit8 0xd0,
      emit8 0x0f, emit8 0x20, emit8 0xe0,
      emit8 0x0d, emit32 0x20,
      emit8 0x0f, emit8 0x22, emit8 0xe0,
      emit8 0xb8, emit32 (ucast loaded_cr3),
      emit8 0x0f, emit8 0x22, emit8 0xd8,
      emit8 0xb9, emit32 0xc0000080,
      emit8 0x0f, emit8 0x32,
      emit8 0x0d, emit32 0x100,
      emit8 0x0f, emit8 0x30,
      emit8 0x0f, emit8 0x20, emit8 0xc0,
      emit8 0x0d, emit32 0x80000000,
      emit8 0x0f, emit8 0x22, emit8 0xc0,
      emit8 0xea,
      emit32 (ucast (base + AP_TRAMPOLINE_LONG_OFFSET)),
      emit16 KERNEL_CODE_SELECTOR]"

definition long_code :: "u64 \<Rightarrow> u64 \<Rightarrow> u64 \<Rightarrow> emitter list" where
  "long_code stack_top ctx entry =
     [emit8 0x66, emit8 0xb8, emit16 KERNEL_DATA_SELECTOR,
      emit8 0x8e, emit8 0xd8,
      emit8 0x8e, emit8 0xc0,
      emit8 0x8e, emit8 0xd0,
      emit_mov_rax_imm64 stack_top,
      emit8 0x48, emit8 0x89, emit8 0xc4,
      emit_mov_rax_imm64 ctx,
      emit8 0x48, emit8 0x89, emit8 0xc7,
      emit_mov_rax_imm64 entry,
      emit8 0xff, emit8 0xd0,
      emit8 0xfa,
      emit8 0xf4,
      emit8 0xeb, emit8 0xfd]"

text \<open>The addresses the compiler and linker chose for an AP context.\<close>

record ap_addresses =
  ad_ctx :: u64
  ad_boot_stack :: u64
  ad_ap_entry_one :: u64

definition build_ap_trampoline ::
    "ap_addresses \<Rightarrow> paging_info_t \<Rightarrow> ap_boot_info_t \<Rightarrow> ram \<Rightarrow> bool \<times> ap_boot_info_t \<times> ram" where
  "build_ap_trampoline ad paging boot mem =
     (if bi_trampoline_base boot = 0 \<or> bi_trampoline_base boot \<ge> 0x100000 \<or>
         bi_trampoline_base boot AND (PAGE_SIZE_4K - 1) \<noteq> 0 \<or> bi_sipi_vector boot = 0 \<or> bi_sipi_vector boot > 0xff
      then (False, boot\<lparr>bi_error := AP_BOOT_ERR_BAD_TRAMPOLINE\<rparr>, mem)
      else if pi_loaded_cr3 paging > 0xffffffff
      then (False, boot\<lparr>bi_error := AP_BOOT_ERR_HIGH_CR3\<rparr>, mem)
      else
        (let page = bi_trampoline_base boot;
             mem = store_bytes mem page (replicate 4096 0);
             boot = boot\<lparr>bi_stack_top := ad_boot_stack ad + AP_BOOT_STACK_SIZE\<rparr>;
             mem = emit_at page (real16_code page) mem;
             mem = emit_at (page + AP_TRAMPOLINE_PROT32_OFFSET) (prot32_code page (pi_loaded_cr3 paging)) mem;
             mem = emit_at (page + AP_TRAMPOLINE_LONG_OFFSET)
                     (long_code (bi_stack_top boot) (ad_ctx ad) (ad_ap_entry_one ad)) mem;
             gdtr = page + AP_TRAMPOLINE_GDTR_OFFSET;
             mem = store_bytes mem gdtr (write_u16 (4 * 8 - 1));
             mem = store_bytes mem (gdtr + 2) (write_u32 (ucast (page + AP_TRAMPOLINE_GDT_OFFSET)));
             gdt = page + AP_TRAMPOLINE_GDT_OFFSET;
             mem = store_bytes mem (gdt + 0) (write_u64 0x0000000000000000);
             mem = store_bytes mem (gdt + 8) (write_u64 0x00af9a000000ffff);
             mem = store_bytes mem (gdt + 16) (write_u64 0x00cf92000000ffff);
             mem = store_bytes mem (gdt + 24) (write_u64 0x00cf9a000000ffff)
         in (True, boot\<lparr>bi_ap_state := AP_BOOT_STATE_READY\<rparr>, mem)))"

end
