(* ===== verification/Paging_Words.thy ===== *)
theory Paging_Words
  imports Paging
begin

text \<open>
  Word facts behind the page tables: a table is named by its frame number \<open>k\<close>
  (physical address \<open>4096 * k\<close>), an entry by its table and an index below 512, a virtual
  page by its number \<open>v\<close>. All frame and page numbers are below \<open>2 ^ 36\<close>, so the
  address arithmetic does not wrap and the entries of distinct tables do not overlap.
\<close>

definition frame_addr :: "nat \<Rightarrow> u64" where
  "frame_addr k = word_of_nat (4096 * k)"

definition entry_at :: "store \<Rightarrow> nat \<Rightarrow> nat \<Rightarrow> u64" where
  "entry_at mem k i = mem (frame_addr k + 8 * word_of_nat i)"

definition present :: "u64 \<Rightarrow> bool" where
  "present e \<longleftrightarrow> e AND PTE_PRESENT \<noteq> 0"

lemma unat_frame_addr: "k < 2 ^ 36 \<Longrightarrow> unat (frame_addr k) = 4096 * k"
  by (simp add: frame_addr_def unat_of_nat del: of_nat_mult)

lemma frame_addr_unat: "unat a = 4096 * k \<Longrightarrow> a = frame_addr k"
  by (metis frame_addr_def word_of_nat_unat)

lemma frame_addr_inj: "k < 2 ^ 36 \<Longrightarrow> j < 2 ^ 36 \<Longrightarrow> frame_addr k = frame_addr j \<longleftrightarrow> k = j"
  by (metis mult_cancel1 unat_frame_addr zero_neq_numeral)

lemma frame_addr_0_iff: "k < 2 ^ 36 \<Longrightarrow> frame_addr k = 0 \<longleftrightarrow> k = 0"
  using unat_frame_addr [of k] by (auto simp: frame_addr_def unat_eq_zero)

lemma frame_addr_add: "frame_addr k + PAGE_SIZE_4K = frame_addr (Suc k)"
  by (simp add: frame_addr_def c_const)

lemma frame_addr_less: "k < 2 ^ 36 \<Longrightarrow> j < 2 ^ 36 \<Longrightarrow> frame_addr k < frame_addr j \<longleftrightarrow> k < j"
  by (simp add: word_less_nat_alt unat_frame_addr)

lemma unat_entry_address:
  assumes "k < 2 ^ 36" and "i < 512"
  shows "unat (frame_addr k + 8 * word_of_nat i) = 4096 * k + 8 * i"
proof -
  have "frame_addr k + 8 * word_of_nat i = word_of_nat (4096 * k + 8 * i)"
    by (simp add: frame_addr_def)
  then show ?thesis
    using assms by (simp add: unat_of_nat del: of_nat_add of_nat_mult)
qed

lemma entry_address_inj:
  assumes "k < 2 ^ 36" "i < 512" "k' < 2 ^ 36" "i' < 512"
  shows "frame_addr k + 8 * word_of_nat i = frame_addr k' + 8 * word_of_nat i' \<longleftrightarrow> k = k' \<and> i = i'"
proof
  assume "frame_addr k + 8 * word_of_nat i = frame_addr k' + 8 * word_of_nat i'"
  then have "4096 * k + 8 * i = 4096 * k' + 8 * i'"
    using unat_entry_address [OF assms(1,2)] unat_entry_address [OF assms(3,4)] by simp
  moreover have "(4096 * k + 8 * i) div 4096 = k" "(4096 * k' + 8 * i') div 4096 = k'"
    using assms(2,4) by simp_all
  ultimately show "k = k' \<and> i = i'" by simp
qed simp

lemma entry_at_update:
  assumes "k < 2 ^ 36" "i < 512" "k' < 2 ^ 36" "i' < 512"
  shows "entry_at (mem(frame_addr k' + 8 * word_of_nat i' := e)) k i =
    (if k = k' \<and> i = i' then e else entry_at mem k i)"
  using entry_address_inj [OF assms] by (simp add: entry_at_def)

lemma fold_zero_stores:
  "fold (\<lambda>i mem. mem(f i := (0::u64))) is mem a = (if a \<in> f ` set is then 0 else mem a)"
  by (induction "is" arbitrary: mem) auto

lemma entry_at_zero_page:
  assumes "k < 2 ^ 36" "i < 512" "k' < 2 ^ 36"
  shows "entry_at (zero_page_4k (frame_addr k') mem) k i = (if k = k' then 0 else entry_at mem k i)"
proof -
  have "frame_addr k + 8 * word_of_nat i \<in> (\<lambda>i. frame_addr k' + 8 * word_of_nat i) ` {0..<512} \<longleftrightarrow>
      k = k'"
    using assms by (auto simp: entry_address_inj)
  then show ?thesis
    by (simp add: entry_at_def zero_page_4k_def PAGE_TABLE_ENTRIES_def fold_zero_stores)
qed

section \<open>Table indices\<close>

lemma index_mask: "(0x1ff::u64) = mask 9"
  by (simp add: mask_eq_exp_minus_1)

lemma table_index:
  assumes "v < 2 ^ 36"
  shows "drop_bit (12 + s) (frame_addr v) AND 0x1ff = word_of_nat (v div 2 ^ s mod 512)"
proof -
  have "unat (drop_bit (12 + s) (frame_addr v) AND 0x1ff) = (4096 * v) div 2 ^ (12 + s) mod 512"
    unfolding index_mask unat_and_mask unat_drop_bit_eq unat_frame_addr [OF assms]
    by (simp add: drop_bit_eq_div)
  also have "(4096 * v) div 2 ^ (12 + s) = v div 2 ^ s"
    by (simp add: power_add)
  finally have "unat (drop_bit (12 + s) (frame_addr v) AND 0x1ff) = v div 2 ^ s mod 512" .
  then show ?thesis
    by (metis word_of_nat_unat)
qed

lemma table_indices:
  assumes "v < 2 ^ 36"
  shows "drop_bit 39 (frame_addr v) AND 0x1ff = word_of_nat (v div 512 ^ 3 mod 512)"
    "drop_bit 30 (frame_addr v) AND 0x1ff = word_of_nat (v div 512 ^ 2 mod 512)"
    "drop_bit 21 (frame_addr v) AND 0x1ff = word_of_nat (v div 512 mod 512)"
    "drop_bit 12 (frame_addr v) AND 0x1ff = word_of_nat (v mod 512)"
  using table_index [OF assms, of 27] table_index [OF assms, of 18] table_index [OF assms, of 9]
    table_index [OF assms, of 0] by simp_all

section \<open>Entries\<close>

lemma addr_mask_bits: "PTE_ADDR_MASK = mask 52 AND NOT (mask 12)"
  by (simp add: c_const mask_eq_exp_minus_1)

lemma bit_addr_mask: "bit PTE_ADDR_MASK n \<longleftrightarrow> 12 \<le> n \<and> n < 52"
  by (auto simp: addr_mask_bits bit_simps)

lemma bit_frame_addr: "k < 2 ^ 36 \<Longrightarrow> bit (frame_addr k) n \<Longrightarrow> 12 \<le> n \<and> n < 52"
proof -
  assume k: "k < 2 ^ 36" and b: "bit (frame_addr k) n"
  have push: "frame_addr k = push_bit 12 (word_of_nat k)"
    by (simp add: frame_addr_def push_bit_eq_mult)
  have "word_of_nat k = take_bit 40 (word_of_nat k :: u64)"
    using k by (simp add: take_bit_word_eq_self word_less_nat_alt unat_of_nat take_bit_eq_mod word_unat_eq_iff unat_word_ariths)
  then have "\<not> bit (word_of_nat k :: u64) m" if "40 \<le> m" for m
    using that by (metis bit_take_bit_iff not_less)
  with b show ?thesis
    unfolding push by (auto simp: bit_push_bit_iff not_less intro: ccontr)
qed

lemma frame_addr_masked [simp]: "k < 2 ^ 36 \<Longrightarrow> frame_addr k AND PTE_ADDR_MASK = frame_addr k"
  by (rule bit_eqI) (use bit_frame_addr [of k] in \<open>auto simp: bit_and_iff bit_addr_mask\<close>)

text \<open>Flag words: the present bit is set, and no address bit is.\<close>

definition flag_word :: "u64 \<Rightarrow> bool" where
  "flag_word f \<longleftrightarrow> present f \<and> f AND PTE_ADDR_MASK = 0"

lemma entry_with_flags:
  assumes "flag_word f"
  shows "(e OR f) AND PTE_ADDR_MASK = e AND PTE_ADDR_MASK" "present (e OR f)" "(e OR f) AND f = f"
proof -
  have "(e OR f) AND m = (e AND m) OR (f AND m)" for m
    by (rule bit.conj_disj_distrib2)
  then show "(e OR f) AND PTE_ADDR_MASK = e AND PTE_ADDR_MASK" "present (e OR f)"
    using assms by (simp_all add: flag_word_def present_def or_eq_0_iff)
  show "(e OR f) AND f = f"
    by (rule bit_eqI) (auto simp: bit_simps)
qed

lemma flag_words [simp]:
  "flag_word (PTE_PRESENT OR PTE_RW)"
  "flag_word (PTE_PRESENT OR PTE_RW OR PTE_PWT OR PTE_PCD)"
  "flag_word (page_flags_for_memory_type t)"
  by (simp_all add: flag_word_def present_def page_flags_for_memory_type_def c_const)

lemma not_present_0 [simp]: "\<not> present 0"
  by (simp add: present_def)

end
