(* ===== verification/Paging_Invariant.thy ===== *)
theory Paging_Invariant
  imports Paging_Words
begin

text \<open>
  The invariant of the page tables and the page walk. A ghost map \<open>T\<close> tags the frame
  number of every allocated table with its level (4 for the root, 1 for a leaf table) and with the
  number of the region it translates: a table of level \<open>l\<close> and region \<open>n\<close> translates
  the virtual pages \<open>v\<close> with \<open>v div 512 ^ l = n\<close>. The invariant says that the
  tables are exactly the frames taken from the pool, that a present entry of a non-leaf table
  points to the table of its subregion, that a present leaf entry maps its page to itself, and that
  every table but the root is pointed to. Since distinct tables have distinct tags, the number of
  tables is bounded by the number of regions below the end of memory, which is what the pool was
  sized for.
\<close>

section \<open>The page walk of the processor\<close>

definition page_walk :: "store \<Rightarrow> u64 \<Rightarrow> u64 \<Rightarrow> u64 option" where
  "page_walk mem cr3 va =
     (let pml4e = mem (cr3 + 8 * (drop_bit 39 va AND 0x1ff)) in
      if pml4e AND PTE_PRESENT = 0 then None
      else let pdpte = mem ((pml4e AND PTE_ADDR_MASK) + 8 * (drop_bit 30 va AND 0x1ff)) in
      if pdpte AND PTE_PRESENT = 0 then None
      else let pde = mem ((pdpte AND PTE_ADDR_MASK) + 8 * (drop_bit 21 va AND 0x1ff)) in
      if pde AND PTE_PRESENT = 0 then None
      else let pte = mem ((pde AND PTE_ADDR_MASK) + 8 * (drop_bit 12 va AND 0x1ff)) in
      if pte AND PTE_PRESENT = 0 then None else Some pte)"

section \<open>Counting tables\<close>

definition table_tags :: "nat \<Rightarrow> (nat \<times> nat) set" where
  "table_tags N = insert (4, 0) (Sigma {1, 2, 3} (\<lambda>l. {n. n * 512 ^ l < N}))"

definition table_cap :: "nat \<Rightarrow> nat" where
  "table_cap N = 1 + (N + 512 ^ 3 - 1) div 512 ^ 3 + (N + 512 ^ 2 - 1) div 512 ^ 2 +
     (N + 512 - 1) div 512"

lemma regions_below: "0 < b \<Longrightarrow> {n. n * b < N} = {..<(N + b - 1) div b}" for b N :: nat
proof (rule set_eqI)
  fix n
  assume b: "0 < b"
  have "n < (N + b - 1) div b \<longleftrightarrow> (n + 1) * b \<le> N + b - 1"
    using b by (metis Suc_eq_plus1 Suc_le_eq less_eq_div_iff_mult_less_eq)
  also have "\<dots> \<longleftrightarrow> n * b < N"
    using b by (simp add: algebra_simps) linarith
  finally show "n \<in> {n. n * b < N} \<longleftrightarrow> n \<in> {..<(N + b - 1) div b}" by simp
qed

lemma finite_regions: "0 < b \<Longrightarrow> finite {n. n * b < (N::nat)}"
  by (simp add: regions_below)

lemma finite_table_tags: "finite (table_tags N)"
  unfolding table_tags_def by (intro finite.insertI finite_SigmaI finite_regions) auto

lemma card_table_tags: "card (table_tags N) = table_cap N"
proof -
  have "card (Sigma {1, 2, 3} (\<lambda>l. {n. n * 512 ^ l < N})) =
      (\<Sum>l\<in>{1, 2, 3::nat}. card {n. n * 512 ^ l < N})"
    by (rule card_SigmaI) (auto intro!: finite_regions)
  also have "\<dots> = (N + 512 - 1) div 512 + ((N + 512 ^ 2 - 1) div 512 ^ 2 + (N + 512 ^ 3 - 1) div 512 ^ 3)"
    using regions_below [of "512 ^ 1" N] regions_below [of "512 ^ 2" N] regions_below [of "512 ^ 3" N]
    by simp
  finally have "card (Sigma {1, 2, 3} (\<lambda>l. {n. n * 512 ^ l < N})) + 1 = table_cap N"
    by (simp add: table_cap_def)
  moreover have "(4, 0) \<notin> Sigma {1, 2, 3::nat} (\<lambda>l. {n. n * 512 ^ l < N})" by simp
  moreover have "finite (Sigma {1, 2, 3::nat} (\<lambda>l. {n. n * 512 ^ l < N}))"
    by (intro finite_SigmaI finite_regions) auto
  ultimately show ?thesis
    unfolding table_tags_def by simp
qed

lemma untagged_room:
  assumes "inj_on T (dom T)" "ran T \<subseteq> table_tags N" "t \<in> table_tags N" "t \<notin> ran T" "finite (dom T)"
  shows "card (dom T) < table_cap N"
proof -
  have "card (ran T) = card (dom T)"
  proof -
    have "ran T = (the \<circ> T) ` dom T" by (force simp: ran_def dom_def)
    moreover have "inj_on (the \<circ> T) (dom T)"
      using assms(1) by (auto simp: inj_on_def dom_def)
    ultimately show ?thesis by (metis card_image)
  qed
  moreover have "ran T \<subset> table_tags N" using assms(2-4) by blast
  ultimately show ?thesis
    using psubset_card_mono [OF finite_table_tags, of "ran T" N] by (simp add: card_table_tags)
qed

section \<open>The invariant\<close>

definition pool_ok :: "nat \<Rightarrow> nat \<Rightarrow> nat \<Rightarrow> paging_info_t \<Rightarrow> bool" where
  "pool_ok p A R info \<longleftrightarrow> 0 < p \<and> p + R \<le> 2 ^ 35 \<and> A \<le> R \<and>
     pi_pool_start info = frame_addr p \<and> pi_pool_next info = frame_addr (p + A) \<and>
     pi_pool_end info = frame_addr (p + R) \<and> unat (pi_allocated_pages info) = A"

definition child_ok :: "(nat \<rightharpoonup> nat \<times> nat) \<Rightarrow> nat \<Rightarrow> nat \<Rightarrow> nat \<Rightarrow> u64 \<Rightarrow> bool" where
  "child_ok T l n i e \<longleftrightarrow>
     (if l = 1 then e AND PTE_ADDR_MASK = frame_addr (n * 512 + i)
      else \<exists>k. e AND PTE_ADDR_MASK = frame_addr k \<and> T k = Some (l - 1, n * 512 + i))"

definition pointed_to :: "(nat \<rightharpoonup> nat \<times> nat) \<Rightarrow> store \<Rightarrow> nat \<Rightarrow> nat \<Rightarrow> nat \<Rightarrow> bool" where
  "pointed_to T mem k l n \<longleftrightarrow>
     (\<exists>q. T q = Some (l + 1, n div 512) \<and> present (entry_at mem q (n mod 512)) \<and>
        entry_at mem q (n mod 512) AND PTE_ADDR_MASK = frame_addr k)"

definition pt_inv :: "nat \<Rightarrow> nat \<Rightarrow> (nat \<rightharpoonup> nat \<times> nat) \<Rightarrow> paging_info_t \<Rightarrow> store \<Rightarrow> bool" where
  "pt_inv N R T info mem \<longleftrightarrow> N \<le> 2 ^ 35 \<and> table_cap N \<le> R \<and>
     (\<exists>p A. pool_ok p A R info \<and> dom T = {p ..< p + A}) \<and>
     inj_on T (dom T) \<and> ran T \<subseteq> table_tags N \<and>
     (\<exists>r. pi_cr3 info = frame_addr r \<and> T r = Some (4, 0)) \<and>
     (\<forall>k l n i. T k = Some (l, n) \<longrightarrow> i < 512 \<longrightarrow> present (entry_at mem k i) \<longrightarrow>
        child_ok T l n i (entry_at mem k i)) \<and>
     (\<forall>k l n. T k = Some (l, n) \<longrightarrow> l < 4 \<longrightarrow> pointed_to T mem k l n)"

lemma pt_invD:
  assumes "pt_inv N R T info mem"
  shows "N \<le> 2 ^ 35" "table_cap N \<le> R" "inj_on T (dom T)" "ran T \<subseteq> table_tags N"
    and "T k = Some (l, n) \<Longrightarrow> i < 512 \<Longrightarrow> present (entry_at mem k i) \<Longrightarrow>
      child_ok T l n i (entry_at mem k i)"
    and "T k = Some (l, n) \<Longrightarrow> l < 4 \<Longrightarrow> pointed_to T mem k l n"
  using assms by (auto simp: pt_inv_def)

lemma pt_inv_frame:
  assumes "pt_inv N R T info mem" "T k = Some t"
  shows "k < 2 ^ 35" "0 < k"
proof -
  obtain p A where "pool_ok p A R info" "dom T = {p ..< p + A}"
    using assms(1) by (auto simp: pt_inv_def)
  moreover have "k \<in> dom T" using assms(2) by blast
  ultimately show "k < 2 ^ 35" "0 < k" by (auto simp: pool_ok_def)
qed

lemma pt_inv_level:
  assumes "pt_inv N R T info mem" "T k = Some (l, n)"
  shows "1 \<le> l" "l \<le> 4" "l = 4 \<Longrightarrow> n = 0"
proof -
  have "(l, n) \<in> table_tags N"
    using pt_invD(4) [OF assms(1)] assms(2) by (blast intro: ranI)
  then show "1 \<le> l" "l \<le> 4" "l = 4 \<Longrightarrow> n = 0" by (auto simp: table_tags_def)
qed

lemma pt_inv_unique:
  "pt_inv N R T info mem \<Longrightarrow> T k = Some t \<Longrightarrow> T k' = Some t \<Longrightarrow> k = k'"
  by (drule pt_invD(3)) (auto simp: inj_on_def dom_def)

lemma pt_inv_root:
  assumes "pt_inv N R T info mem" "T k = Some (4, n)"
  shows "pi_cr3 info = frame_addr k"
proof -
  obtain r where r: "pi_cr3 info = frame_addr r" "T r = Some (4, 0)"
    using assms(1) by (auto simp: pt_inv_def)
  have "n = 0" using pt_inv_level(3) [OF assms] by simp
  then show ?thesis using pt_inv_unique [OF assms(1) _ r(2), of k] assms(2) r(1) by simp
qed

text \<open>The parent of a tagged table, as the walk meets it.\<close>

lemma pt_inv_parent:
  assumes "pt_inv N R T info mem" "T k = Some (l, n)" "l < 4"
  obtains q where "T q = Some (Suc l, n div 512)" "present (entry_at mem q (n mod 512))"
    "entry_at mem q (n mod 512) AND PTE_ADDR_MASK = frame_addr k"
  using pt_invD(6) [OF assms] by (auto simp: pointed_to_def)

section \<open>The walk follows the tags\<close>

lemma walk_at_leaf:
  assumes inv: "pt_inv N R T info mem" and v: "v < 2 ^ 36" and q: "T q = Some (1, v div 512)"
  shows "page_walk mem (pi_cr3 info) (frame_addr v) =
    (if present (entry_at mem q (v mod 512)) then Some (entry_at mem q (v mod 512)) else None)"
proof -
  from pt_inv_parent [OF inv q] obtain q2 where q2: "T q2 = Some (2, v div 512 div 512)"
    "present (entry_at mem q2 (v div 512 mod 512))"
    "entry_at mem q2 (v div 512 mod 512) AND PTE_ADDR_MASK = frame_addr q"
    by (auto simp: numeral_2_eq_2)
  from pt_inv_parent [OF inv q2(1)] obtain q3 where q3: "T q3 = Some (3, v div 512 div 512 div 512)"
    "present (entry_at mem q3 (v div 512 div 512 mod 512))"
    "entry_at mem q3 (v div 512 div 512 mod 512) AND PTE_ADDR_MASK = frame_addr q2"
    by (auto simp: numeral_3_eq_3 numeral_2_eq_2)
  from pt_inv_parent [OF inv q3(1)] obtain q4 where q4: "T q4 = Some (4, v div 512 div 512 div 512 div 512)"
    "present (entry_at mem q4 (v div 512 div 512 div 512 mod 512))"
    "entry_at mem q4 (v div 512 div 512 div 512 mod 512) AND PTE_ADDR_MASK = frame_addr q3"
    by auto
  have "pi_cr3 info = frame_addr q4" using pt_inv_root [OF inv q4(1)] .
  moreover have d: "v div 512 div 512 = v div 512 ^ 2" "v div 512 ^ 2 div 512 = v div 512 ^ 3"
    by (simp_all flip: div_mult2_eq)
  ultimately show ?thesis
    using q2(2,3) q3(2,3) [unfolded d] q4(2,3) [unfolded d]
    by (simp add: page_walk_def table_indices [OF v] Let_def present_def flip: entry_at_def)
qed

lemma walk_reaches_leaf:
  assumes inv: "pt_inv N R T info mem" and v: "v < 2 ^ 36"
    and w: "page_walk mem (pi_cr3 info) (frame_addr v) = Some e"
  shows "\<exists>q. T q = Some (1, v div 512)"
proof -
  obtain r where r: "pi_cr3 info = frame_addr r" "T r = Some (4, 0)"
    using inv by (auto simp: pt_inv_def)
  let ?i4 = "v div 512 ^ 3 mod 512" and ?i3 = "v div 512 ^ 2 mod 512" and ?i2 = "v div 512 mod 512"
  have step: "\<exists>k'. entry_at mem k i AND PTE_ADDR_MASK = frame_addr k' \<and>
      T k' = Some (l - 1, n * 512 + i)"
    if "T k = Some (l, n)" "1 < l" "i < 512" "present (entry_at mem k i)" for k l n i
    using pt_invD(5) [OF inv that(1,3,4)] that(2) by (auto simp: child_ok_def)
  from w r have p4: "present (entry_at mem r ?i4)"
    by (auto simp: page_walk_def table_indices [OF v] Let_def present_def entry_at_def split: if_splits)
  obtain k3 where k3: "entry_at mem r ?i4 AND PTE_ADDR_MASK = frame_addr k3" "T k3 = Some (3, ?i4)"
    using step [OF r(2) _ _ p4] by auto
  from w r k3 p4 have p3: "present (entry_at mem k3 ?i3)"
    by (auto simp: page_walk_def table_indices [OF v] Let_def present_def entry_at_def split: if_splits)
  obtain k2 where k2: "entry_at mem k3 ?i3 AND PTE_ADDR_MASK = frame_addr k2"
    "T k2 = Some (2, ?i4 * 512 + ?i3)"
    using step [OF k3(2) _ _ p3] by auto
  from w r k3 k2 p4 p3 have p2: "present (entry_at mem k2 ?i2)"
    by (auto simp: page_walk_def table_indices [OF v] Let_def present_def entry_at_def split: if_splits)
  obtain k1 where k1: "T k1 = Some (1, (?i4 * 512 + ?i3) * 512 + ?i2)"
    using step [OF k2(2) _ _ p2] by auto
  have "?i4 = v div 512 ^ 3" using v by simp
  moreover have "v div 512 ^ 3 = v div 512 ^ 2 div 512" "v div 512 ^ 2 = v div 512 div 512"
    by (simp_all flip: div_mult2_eq)
  moreover have "v div 512 ^ 2 div 512 * 512 + ?i3 = v div 512 ^ 2"
    "v div 512 div 512 * 512 + ?i2 = v div 512"
    by (simp_all only: div_mult_mod_eq)
  ultimately show ?thesis using k1 by metis
qed

end
