(* ===== verification/Paging_Map.thy ===== *)
theory Paging_Map
  imports Paging_Invariant
begin

text \<open>
  The mapping operations keep the invariant and change the walk exactly as intended: a table
  lookup leaves every walk as it was, and mapping a page changes the walk of that page only.
\<close>

section \<open>Allocation\<close>

lemma alloc_page_table_page_ok:
  assumes "pool_ok p A R info" "A < R"
  shows "alloc_page_table_page (info, mem) =
    (frame_addr (p + A), info\<lparr>pi_pool_next := frame_addr (p + Suc A),
       pi_allocated_pages := pi_allocated_pages info + 1\<rparr>, zero_page_4k (frame_addr (p + A)) mem)"
    and "pool_ok p (Suc A) R (info\<lparr>pi_pool_next := frame_addr (p + Suc A),
       pi_allocated_pages := pi_allocated_pages info + 1\<rparr>)"
proof -
  have pool: "0 < p" "p + R \<le> 2 ^ 35" "pi_pool_next info = frame_addr (p + A)"
    "pi_pool_end info = frame_addr (p + R)" "unat (pi_allocated_pages info) = A"
    using assms(1) by (auto simp: pool_ok_def)
  obtain j where j: "p + R = Suc j" using pool(1) by (cases "p + R") auto
  have "frame_addr (p + R) - PAGE_SIZE_4K = frame_addr j"
    using frame_addr_add [of j] by (simp add: j) (metis add_diff_cancel)
  moreover have "\<not> frame_addr j < frame_addr (p + A)"
    using assms(2) pool(2) j by (simp add: frame_addr_less)
  ultimately show "alloc_page_table_page (info, mem) =
    (frame_addr (p + A), info\<lparr>pi_pool_next := frame_addr (p + Suc A),
       pi_allocated_pages := pi_allocated_pages info + 1\<rparr>, zero_page_4k (frame_addr (p + A)) mem)"
    using frame_addr_add [of "p + A"] by (simp add: alloc_page_table_page_def pool Let_def)
  have "unat (pi_allocated_pages info + 1) = Suc A"
    using pool(5,2) assms(2) by (simp add: unat_word_ariths)
  then show "pool_ok p (Suc A) R (info\<lparr>pi_pool_next := frame_addr (p + Suc A),
       pi_allocated_pages := pi_allocated_pages info + 1\<rparr>)"
    using assms by (simp add: pool_ok_def)
qed

section \<open>Extending the tables\<close>

text \<open>
  What a lookup may change: it may add tables and fill entries that were not present, but
  the leaf tables there were keep every entry, and a new leaf table is empty.
\<close>

definition pt_extends :: "(nat \<rightharpoonup> nat \<times> nat) \<Rightarrow> store \<Rightarrow> (nat \<rightharpoonup> nat \<times> nat) \<Rightarrow> store \<Rightarrow> bool" where
  "pt_extends T mem T' mem' \<longleftrightarrow> T \<subseteq>\<^sub>m T' \<and>
     (\<forall>q n j. T q = Some (1, n) \<longrightarrow> j < 512 \<longrightarrow> entry_at mem' q j = entry_at mem q j) \<and>
     (\<forall>q n j. T' q = Some (1, n) \<longrightarrow> T q = None \<longrightarrow> j < 512 \<longrightarrow> \<not> present (entry_at mem' q j))"

lemma pt_extends_refl [simp]: "pt_extends T mem T mem"
  by (simp add: pt_extends_def)

lemma map_leD: "m \<subseteq>\<^sub>m m' \<Longrightarrow> m k = Some y \<Longrightarrow> m' k = Some y"
  by (force simp: map_le_def dom_def)

lemma pt_extends_trans:
  assumes "pt_extends T mem T' mem'" "pt_extends T' mem' T'' mem''"
  shows "pt_extends T mem T'' mem''"
  unfolding pt_extends_def
proof (intro conjI allI impI)
  show "T \<subseteq>\<^sub>m T''" using assms map_le_trans by (auto simp: pt_extends_def)
next
  fix q n j
  assume "T q = Some (1, n)" "j < (512::nat)"
  then show "entry_at mem'' q j = entry_at mem q j"
    using assms map_leD [of T T'] by (auto simp: pt_extends_def)
next
  fix q n j
  assume q: "T'' q = Some (1, n)" "T q = None" "j < (512::nat)"
  show "\<not> present (entry_at mem'' q j)"
  proof (cases "T' q")
    case None
    with q assms(2) show ?thesis by (auto simp: pt_extends_def)
  next
    case (Some t)
    with assms(2) q(1) have "t = (1, n)" using map_leD [of T' T''] by (auto simp: pt_extends_def)
    with Some q assms show ?thesis by (auto simp: pt_extends_def)
  qed
qed

lemma pt_extends_walk:
  assumes inv: "pt_inv N R T info mem" and inv': "pt_inv N R T' info' mem'"
    and ext: "pt_extends T mem T' mem'" and v: "v < 2 ^ 36"
  shows "page_walk mem' (pi_cr3 info') (frame_addr v) = page_walk mem (pi_cr3 info) (frame_addr v)"
proof (cases "\<exists>q. T q = Some (1, v div 512)")
  case True
  then obtain q where q: "T q = Some (1, v div 512)" by blast
  then have "T' q = Some (1, v div 512)" using ext map_leD by (auto simp: pt_extends_def)
  with walk_at_leaf [OF inv v q] walk_at_leaf [OF inv' v] ext q show ?thesis
    by (simp add: pt_extends_def)
next
  case False
  then have none: "page_walk mem (pi_cr3 info) (frame_addr v) = None"
    using walk_reaches_leaf [OF inv v] by fastforce
  show ?thesis
  proof (cases "\<exists>q. T' q = Some (1, v div 512)")
    case True
    then obtain q where q: "T' q = Some (1, v div 512)" by blast
    with False have "T q = None"
      using ext map_leD [of T T' q] by (cases "T q") (auto simp: pt_extends_def)
    with q ext walk_at_leaf [OF inv' v q] none show ?thesis by (simp add: pt_extends_def)
  next
    case no: False
    then show ?thesis using walk_reaches_leaf [OF inv' v] none by fastforce
  qed
qed

section \<open>One table lookup\<close>

lemma child_untagged:
  assumes inv: "pt_inv N R T info mem" and k: "T k = Some (l, n)" "2 \<le> l" "i < 512"
    and np: "\<not> present (entry_at mem k i)"
  shows "(l - 1, n * 512 + i) \<notin> ran T"
proof
  assume "(l - 1, n * 512 + i) \<in> ran T"
  then obtain c where c: "T c = Some (l - 1, n * 512 + i)" by (auto simp: ran_def)
  have "l \<le> 4" using pt_inv_level(2) [OF inv k(1)] .
  with k(2) have "l - 1 < 4" by simp
  from pt_inv_parent [OF inv c this] obtain q where
    "T q = Some (Suc (l - 1), (n * 512 + i) div 512)" "present (entry_at mem q ((n * 512 + i) mod 512))"
    by blast
  with k have "T q = Some (l, n)" "present (entry_at mem q i)" by auto
  with pt_inv_unique [OF inv _ k(1)] np show False by blast
qed

lemma pt_inv_add_table:
  assumes inv: "pt_inv N R T info mem" and pool: "pool_ok p A R info" "dom T = {p ..< p + A}"
    and room: "A < R" and k: "T k = Some (l, n)" "2 \<le> l" "i < 512"
    and np: "\<not> present (entry_at mem k i)"
    and tag: "(l - 1, n * 512 + i) \<in> table_tags N"
  defines "info' \<equiv> info\<lparr>pi_pool_next := frame_addr (p + Suc A),
       pi_allocated_pages := pi_allocated_pages info + 1\<rparr>"
    and "mem' \<equiv> (zero_page_4k (frame_addr (p + A)) mem)
       (frame_addr k + 8 * word_of_nat i := frame_addr (p + A) OR PTE_PRESENT OR PTE_RW)"
    and "T' \<equiv> T(p + A \<mapsto> (l - 1, n * 512 + i))"
  shows "pt_inv N R T' info' mem'" and "pt_extends T mem T' mem'"
proof -
  let ?c = "p + A" and ?t = "(l - 1, n * 512 + i)" and ?e = "frame_addr (p + A) OR PTE_PRESENT OR PTE_RW"
  have bound: "?c < 2 ^ 36" using pool(1) room by (simp add: pool_ok_def)
  have fresh: "T ?c = None" using pool(2) by (auto simp: dom_def)
  have kc: "k \<noteq> ?c" using fresh k(1) by auto
  have kb: "j < 2 ^ 36" if "T j = Some s" for j s using pt_inv_frame(1) [OF inv that] by simp
  have e: "present ?e" "?e AND PTE_ADDR_MASK = frame_addr ?c"
    using entry_with_flags [of "PTE_PRESENT OR PTE_RW" "frame_addr ?c"] bound by (simp_all add: or.assoc)
  have new: "entry_at mem' ?c j = 0" if "j < 512" for j
    using that kc bound kb [OF k(1)] k(3) by (simp add: mem'_def entry_at_update entry_at_zero_page)
  have old: "entry_at mem' q j = (if q = k \<and> j = i then ?e else entry_at mem q j)"
    if "T q = Some s" "j < 512" for q s j
    using that fresh bound kb [OF that(1)] kb [OF k(1)] k(3)
    by (auto simp: mem'_def entry_at_update entry_at_zero_page)
  have untag: "?t \<notin> ran T" using child_untagged [OF inv k np] .
  have T'k: "T' q = Some s" if "T q = Some s" for q s
    using that fresh by (auto simp: T'_def)
  have child: "child_ok T' l' n' j (entry_at mem' q j)"
    if q: "T' q = Some (l', n')" "j < 512" "present (entry_at mem' q j)" for q l' n' j
  proof (cases "q = ?c")
    case True
    with q new show ?thesis by simp
  next
    case False
    then have Tq: "T q = Some (l', n')" using q(1) by (simp add: T'_def)
    show ?thesis
    proof (cases "q = k \<and> j = i")
      case True
      then have "l' = l" "n' = n" using Tq k(1) by auto
      with True old [OF Tq q(2)] e k(2) show ?thesis
        by (auto simp: child_ok_def T'_def intro!: exI [of _ ?c])
    next
      case False
      with old [OF Tq q(2)] q(3) pt_invD(5) [OF inv Tq q(2)] show ?thesis
        by (auto simp: child_ok_def dest: T'k split: if_splits)
    qed
  qed
  have parent: "pointed_to T' mem' q l' n'" if q: "T' q = Some (l', n')" "l' < 4" for q l' n'
  proof (cases "q = ?c")
    case True
    then have "l' = l - 1" "n' = n * 512 + i" using q(1) by (auto simp: T'_def)
    then show ?thesis
      using True k old [OF k(1,3)] e T'k [OF k(1)] by (auto simp: pointed_to_def intro!: exI [of _ k])
  next
    case False
    then have "T q = Some (l', n')" using q(1) by (simp add: T'_def)
    from pt_inv_parent [OF inv this q(2)] obtain r where
      r: "T r = Some (Suc l', n' div 512)" "present (entry_at mem r (n' mod 512))"
        "entry_at mem r (n' mod 512) AND PTE_ADDR_MASK = frame_addr q" .
    then have "entry_at mem' r (n' mod 512) = entry_at mem r (n' mod 512)"
      using old [OF r(1)] np by auto
    with r T'k [OF r(1)] show ?thesis by (auto simp: pointed_to_def)
  qed
  have dom': "dom T' = {p ..< p + Suc A}" using pool(2) by (auto simp: T'_def)
  have "inj_on T' (dom T')"
    using pt_invD(3) [OF inv] untag fresh by (auto simp: T'_def inj_on_def ran_def dom_def split: if_splits)
  moreover have "ran T' \<subseteq> table_tags N"
    using pt_invD(4) [OF inv] tag by (auto simp: T'_def ran_def split: if_splits)
  moreover have "\<exists>r. pi_cr3 info' = frame_addr r \<and> T' r = Some (4, 0)"
    using inv T'k by (auto simp: pt_inv_def info'_def)
  moreover have "pool_ok p (Suc A) R info'"
    using alloc_page_table_page_ok(2) [OF pool(1) room] by (simp add: info'_def)
  ultimately show "pt_inv N R T' info' mem'"
    unfolding pt_inv_def using pt_invD(1,2) [OF inv] dom' child parent by blast
  show "pt_extends T mem T' mem'"
    unfolding pt_extends_def
  proof (intro conjI allI impI)
    show "T \<subseteq>\<^sub>m T'" using fresh by (auto simp: T'_def map_le_def)
  next
    fix q m j assume "T q = Some (1, m)" "j < (512::nat)"
    then show "entry_at mem' q j = entry_at mem q j"
      using old k by auto
  next
    fix q m j assume "T' q = Some (1, m)" "T q = None" "j < (512::nat)"
    then show "\<not> present (entry_at mem' q j)"
      using new by (auto simp: T'_def split: if_splits)
  qed
qed

lemma ensure_next_table_ok:
  assumes inv: "pt_inv N R T info mem" and k: "T k = Some (l, n)" "2 \<le> l" "i < 512"
    and tag: "(l - 1, n * 512 + i) \<in> table_tags N"
  shows "\<exists>T' info' mem' c. ensure_next_table (info, mem) (frame_addr k) (word_of_nat i) =
      (Some (frame_addr c), info', mem') \<and> pt_inv N R T' info' mem' \<and> pt_extends T mem T' mem' \<and>
      T' c = Some (l - 1, n * 512 + i) \<and>
      info' = info\<lparr>pi_pool_next := pi_pool_next info',
        pi_allocated_pages := pi_allocated_pages info'\<rparr>"
proof (cases "present (entry_at mem k i)")
  case True
  then obtain c where "entry_at mem k i AND PTE_ADDR_MASK = frame_addr c" "T c = Some (l - 1, n * 512 + i)"
    using pt_invD(5) [OF inv k(1,3)] k(2) by (auto simp: child_ok_def)
  with True inv show ?thesis
    by (intro exI [of _ T] exI [of _ info] exI [of _ mem] exI [of _ c])
      (simp add: ensure_next_table_def present_def entry_at_def Let_def)
next
  case False
  obtain p A where pool: "pool_ok p A R info" "dom T = {p ..< p + A}"
    using inv by (auto simp: pt_inv_def)
  have "card (dom T) < table_cap N"
    using untagged_room [OF pt_invD(3,4) [OF inv] tag child_untagged [OF inv k False]] pool(2) by simp
  then have room: "A < R" using pool(2) pt_invD(2) [OF inv] by simp
  have "frame_addr (p + A) \<noteq> 0"
    using pool(1) room by (simp add: pool_ok_def frame_addr_0_iff)
  then show ?thesis
    using False pt_inv_add_table [OF inv pool room k False tag]
    by (simp add: ensure_next_table_def present_def Let_def alloc_page_table_page_ok(1) [OF pool(1) room]
        flip: entry_at_def)
      (intro exI [of _ "T(p + A \<mapsto> (l - 1, n * 512 + i))"] exI [of _ "p + A"], simp)
qed

section \<open>Mapping one page\<close>

lemma pt_inv_set_leaf:
  assumes inv: "pt_inv N R T info mem" and q: "T q = Some (1, v div 512)"
    and e: "e AND PTE_ADDR_MASK = frame_addr v"
  defines "mem' \<equiv> mem(frame_addr q + 8 * word_of_nat (v mod 512) := e)"
  shows "pt_inv N R T info mem'"
    and "j < 512 \<Longrightarrow> T k = Some s \<Longrightarrow>
      entry_at mem' k j = (if k = q \<and> j = v mod 512 then e else entry_at mem k j)"
proof -
  have upd: "entry_at mem' k j = (if k = q \<and> j = v mod 512 then e else entry_at mem k j)"
    if "j < 512" "T k = Some s" for j k s
    using that pt_inv_frame(1) [OF inv q] pt_inv_frame(1) [OF inv that(2)]
    by (simp add: mem'_def entry_at_update)
  then show "j < 512 \<Longrightarrow> T k = Some s \<Longrightarrow>
      entry_at mem' k j = (if k = q \<and> j = v mod 512 then e else entry_at mem k j)" by blast
  have child: "child_ok T l n j (entry_at mem' k j)"
    if k: "T k = Some (l, n)" "j < 512" "present (entry_at mem' k j)" for k l n j
  proof (cases "k = q \<and> j = v mod 512")
    case True
    then have "l = 1" "n = v div 512" using k(1) q by auto
    with True upd [OF k(2,1)] e show ?thesis by (simp add: child_ok_def)
  next
    case False
    then show ?thesis using upd [OF k(2,1)] k(3) pt_invD(5) [OF inv k(1,2)] by auto
  qed
  have parent: "pointed_to T mem' k l n" if k: "T k = Some (l, n)" "l < 4" for k l n
  proof -
    from pt_inv_parent [OF inv k] obtain r where
      r: "T r = Some (Suc l, n div 512)" "present (entry_at mem r (n mod 512))"
        "entry_at mem r (n mod 512) AND PTE_ADDR_MASK = frame_addr k" .
    have "r \<noteq> q" using r(1) q pt_inv_level(1) [OF inv k(1)] by auto
    with r upd [OF _ r(1), of "n mod 512"] show ?thesis by (auto simp: pointed_to_def)
  qed
  show "pt_inv N R T info mem'"
    using inv child parent unfolding pt_inv_def by blast
qed

lemma pt_inv_info_cong:
  "pt_inv N R T info mem \<Longrightarrow> pi_cr3 info' = pi_cr3 info \<Longrightarrow> pi_pool_start info' = pi_pool_start info \<Longrightarrow>
   pi_pool_next info' = pi_pool_next info \<Longrightarrow> pi_pool_end info' = pi_pool_end info \<Longrightarrow>
   pi_allocated_pages info' = pi_allocated_pages info \<Longrightarrow> pt_inv N R T info' mem"
  by (simp add: pt_inv_def pool_ok_def)

lemma region_tags:
  assumes "v < N"
  shows "(3, v div 512 ^ 3) \<in> table_tags N" "(2, v div 512 ^ 2) \<in> table_tags N"
    "(1, v div 512) \<in> table_tags N"
  using assms le_less_trans [OF div_times_less_eq_dividend assms]
  by (auto simp: table_tags_def)

lemma pool_update_trans:
  "i1 = i0\<lparr>pi_pool_next := pi_pool_next i1, pi_allocated_pages := pi_allocated_pages i1\<rparr> \<Longrightarrow>
   i2 = i1\<lparr>pi_pool_next := pi_pool_next i2, pi_allocated_pages := pi_allocated_pages i2\<rparr> \<Longrightarrow>
   i2 = i0\<lparr>pi_pool_next := pi_pool_next i2, pi_allocated_pages := pi_allocated_pages i2\<rparr>"
  by (cases i0; cases i1; cases i2) simp

text \<open>The three lookups of one mapping, down to the leaf table of the page.\<close>

lemma three_lookups:
  assumes inv: "pt_inv N R T info mem" and v: "v < N"
  shows "\<exists>T' info' mem' q pdpt st1 pd st2.
    ensure_next_table (info, mem) (pi_cr3 info) (drop_bit 39 (frame_addr v) AND 0x1ff) = (Some pdpt, st1) \<and>
    ensure_next_table st1 pdpt (drop_bit 30 (frame_addr v) AND 0x1ff) = (Some pd, st2) \<and>
    ensure_next_table st2 pd (drop_bit 21 (frame_addr v) AND 0x1ff) = (Some (frame_addr q), info', mem') \<and>
    pt_inv N R T' info' mem' \<and> pt_extends T mem T' mem' \<and> T' q = Some (1, v div 512) \<and>
    info' = info\<lparr>pi_pool_next := pi_pool_next info', pi_allocated_pages := pi_allocated_pages info'\<rparr>"
proof -
  have v36: "v < 2 ^ 36" using v pt_invD(1) [OF inv] by simp
  obtain r where r: "pi_cr3 info = frame_addr r" "T r = Some (4, 0)"
    using inv by (auto simp: pt_inv_def)
  have b4: "v div 512 ^ 3 < 512" and i4: "v div 512 ^ 3 mod 512 = v div 512 ^ 3" using v36 by simp_all
  have n2: "v div 512 ^ 3 * 512 + v div 512 ^ 2 mod 512 = v div 512 ^ 2"
    "v div 512 ^ 2 * 512 + v div 512 mod 512 = v div 512"
    by (metis div_mult2_eq div_mult_mod_eq power2_eq_square power3_eq_cube mult.assoc)+
  from ensure_next_table_ok [OF inv r(2), of "v div 512 ^ 3 mod 512"]
  obtain T1 info1 mem1 c1 where s1:
    "ensure_next_table (info, mem) (pi_cr3 info) (drop_bit 39 (frame_addr v) AND 0x1ff) =
      (Some (frame_addr c1), info1, mem1)"
    "pt_inv N R T1 info1 mem1" "pt_extends T mem T1 mem1" "T1 c1 = Some (3, v div 512 ^ 3)"
    "info1 = info\<lparr>pi_pool_next := pi_pool_next info1, pi_allocated_pages := pi_allocated_pages info1\<rparr>"
    using region_tags(1) [OF v] b4 unfolding i4 table_indices [OF v36] r(1) by auto
  from ensure_next_table_ok [OF s1(2,4), of "v div 512 ^ 2 mod 512"]
  obtain T2 info2 mem2 c2 where s2:
    "ensure_next_table (info1, mem1) (frame_addr c1) (drop_bit 30 (frame_addr v) AND 0x1ff) =
      (Some (frame_addr c2), info2, mem2)"
    "pt_inv N R T2 info2 mem2" "pt_extends T1 mem1 T2 mem2" "T2 c2 = Some (2, v div 512 ^ 2)"
    "info2 = info1\<lparr>pi_pool_next := pi_pool_next info2, pi_allocated_pages := pi_allocated_pages info2\<rparr>"
    using region_tags(2) [OF v] unfolding n2 table_indices [OF v36] by auto
  from ensure_next_table_ok [OF s2(2,4), of "v div 512 mod 512"]
  obtain T3 info3 mem3 c3 where s3:
    "ensure_next_table (info2, mem2) (frame_addr c2) (drop_bit 21 (frame_addr v) AND 0x1ff) =
      (Some (frame_addr c3), info3, mem3)"
    "pt_inv N R T3 info3 mem3" "pt_extends T2 mem2 T3 mem3" "T3 c3 = Some (1, v div 512)"
    "info3 = info2\<lparr>pi_pool_next := pi_pool_next info3, pi_allocated_pages := pi_allocated_pages info3\<rparr>"
    using region_tags(3) [OF v] unfolding n2 table_indices [OF v36] by auto
  have "pt_extends T mem T3 mem3"
    using s1(3) s2(3) s3(3) pt_extends_trans by blast
  moreover have "info3 = info\<lparr>pi_pool_next := pi_pool_next info3,
      pi_allocated_pages := pi_allocated_pages info3\<rparr>"
    using pool_update_trans [OF pool_update_trans [OF s1(5) s2(5)] s3(5)] .
  ultimately show ?thesis using s1(1) s2(1) s3(1,2,4) by blast
qed

lemma walk_set_leaf:
  assumes inv: "pt_inv N R T info mem" and q: "T q = Some (1, v div 512)"
    and e: "e AND PTE_ADDR_MASK = frame_addr v" "present e" and w: "w < 2 ^ 36"
  shows "page_walk (mem(frame_addr q + 8 * word_of_nat (v mod 512) := e)) (pi_cr3 info) (frame_addr w) =
    (if w = v then Some e else page_walk mem (pi_cr3 info) (frame_addr w))"
proof -
  let ?mem' = "mem(frame_addr q + 8 * word_of_nat (v mod 512) := e)"
  note inv' = pt_inv_set_leaf(1) [OF inv q e(1)] and upd = pt_inv_set_leaf(2) [OF inv q e(1)]
  show ?thesis
  proof (cases "\<exists>k. T k = Some (1, w div 512)")
    case True
    then obtain k where k: "T k = Some (1, w div 512)" by blast
    have "k = q \<and> w mod 512 = v mod 512 \<longleftrightarrow> w = v"
      using pt_inv_unique [OF inv k] q k by (metis div_mult_mod_eq option.inject prod.inject)
    then have "entry_at ?mem' k (w mod 512) = (if w = v then e else entry_at mem k (w mod 512))"
      using upd [OF _ k, of "w mod 512"] by simp
    with walk_at_leaf [OF inv w k] walk_at_leaf [OF inv' w k] e(2) show ?thesis
      by (cases "w = v") simp_all
  next
    case False
    then have "page_walk ?mem' (pi_cr3 info) (frame_addr w) = None"
      "page_walk mem (pi_cr3 info) (frame_addr w) = None"
      using walk_reaches_leaf [OF inv' w] walk_reaches_leaf [OF inv w] by fastforce+
    moreover have "w \<noteq> v" using False q by auto
    ultimately show ?thesis by simp
  qed
qed

definition st_entry :: "pt_state \<Rightarrow> nat \<Rightarrow> u64 option" where
  "st_entry st v = page_walk (snd st) (pi_cr3 (fst st)) (frame_addr v)"

lemma map_identity_page_ok:
  assumes inv: "pt_inv N R T info mem" and v: "v < N" and f: "flag_word f"
  shows "\<exists>T' info' mem'. map_identity_page (info, mem) (frame_addr v) f = (True, info', mem') \<and>
    pt_inv N R T' info' mem' \<and>
    (\<forall>w < 2 ^ 36. st_entry (info', mem') w =
       (if w = v then Some ((case st_entry (info, mem) v of None \<Rightarrow> frame_addr v | Some e \<Rightarrow> e) OR f)
        else st_entry (info, mem) w)) \<and>
    pi_mapped_pages info' = pi_mapped_pages info + (if st_entry (info, mem) v = None then 1 else 0) \<and>
    pi_error info' = pi_error info"
proof -
  have v36: "v < 2 ^ 36" using v pt_invD(1) [OF inv] by simp
  from three_lookups [OF inv v] obtain T' info' mem' q pdpt st1 pd st2 where
    l: "ensure_next_table (info, mem) (pi_cr3 info) (drop_bit 39 (frame_addr v) AND 0x1ff) = (Some pdpt, st1)"
      "ensure_next_table st1 pdpt (drop_bit 30 (frame_addr v) AND 0x1ff) = (Some pd, st2)"
      "ensure_next_table st2 pd (drop_bit 21 (frame_addr v) AND 0x1ff) = (Some (frame_addr q), info', mem')"
    and inv': "pt_inv N R T' info' mem'" and ext: "pt_extends T mem T' mem'"
    and q: "T' q = Some (1, v div 512)"
    and info': "info' = info\<lparr>pi_pool_next := pi_pool_next info', pi_allocated_pages := pi_allocated_pages info'\<rparr>"
    by blast
  let ?e = "entry_at mem' q (v mod 512)"
  let ?base = "if present ?e then ?e else frame_addr v"
  let ?info = "if present ?e then info' else info'\<lparr>pi_mapped_pages := pi_mapped_pages info' + 1\<rparr>"
  let ?mem = "mem'(frame_addr q + 8 * word_of_nat (v mod 512) := ?base OR f)"
  have base: "?base AND PTE_ADDR_MASK = frame_addr v"
    using pt_invD(5) [OF inv' q, of "v mod 512"] v36 by (simp add: child_ok_def)
  have run: "map_identity_page (info, mem) (frame_addr v) f = (True, ?info, ?mem)"
    using l base v36
    by (auto simp: map_identity_page_def Let_def table_indices(4) [OF v36] entry_at_def present_def
        split: if_splits)
  note leaf = entry_with_flags [OF f, of ?base, unfolded base]
  have inv2: "pt_inv N R T' ?info ?mem"
    by (rule pt_inv_info_cong [OF pt_inv_set_leaf(1) [OF inv' q leaf(1)]]) simp_all
  have same: "st_entry (info', mem') w = st_entry (info, mem) w" if "w < 2 ^ 36" for w
    using pt_extends_walk [OF inv inv' ext that] by (simp add: st_entry_def)
  have old: "st_entry (info, mem) v = (if present ?e then Some ?e else None)"
    using same [OF v36] walk_at_leaf [OF inv' v36 q] by (simp add: st_entry_def)
  have walk: "st_entry (?info, ?mem) w =
       (if w = v then Some ((case st_entry (info, mem) v of None \<Rightarrow> frame_addr v | Some e \<Rightarrow> e) OR f)
        else st_entry (info, mem) w)" if "w < 2 ^ 36" for w
    using walk_set_leaf [OF inv' q leaf(1,2) that] same [OF that] old
    by (cases "present ?e") (simp_all add: st_entry_def)
  have "pi_mapped_pages info' = pi_mapped_pages info" and err: "pi_error info' = pi_error info"
    by (subst info', simp)+
  then have "pi_mapped_pages ?info = pi_mapped_pages info + (if st_entry (info, mem) v = None then 1 else 0)"
    using old by simp
  moreover have "pi_error ?info = pi_error info" using err by simp
  ultimately show ?thesis using run inv2 walk by blast
qed

section \<open>A page mapper\<close>

text \<open>
  The contract of an identity mapper over the virtual pages below \<open>N\<close>: a page can always
  be mapped, and mapping it sets the entry of that page only, to its own frame (or to what was
  there before) with the requested flags added.
\<close>

locale page_mapper =
  fixes map1 :: "'s \<Rightarrow> nat \<Rightarrow> u64 \<Rightarrow> bool \<times> 's"
    and entry :: "'s \<Rightarrow> nat \<Rightarrow> u64 option"
    and inv :: "'s \<Rightarrow> bool"
    and N :: nat
  assumes map1_ok: "inv s \<Longrightarrow> v < N \<Longrightarrow> flag_word f \<Longrightarrow> fst (map1 s v f) \<and> inv (snd (map1 s v f))"
    and map1_entry: "inv s \<Longrightarrow> v < N \<Longrightarrow> flag_word f \<Longrightarrow> w < 2 ^ 36 \<Longrightarrow>
      entry (snd (map1 s v f)) w =
        (if w = v then Some ((case entry s v of None \<Rightarrow> frame_addr v | Some e \<Rightarrow> e) OR f)
         else entry s w)"
    and entry_identity: "inv s \<Longrightarrow> w < 2 ^ 36 \<Longrightarrow> entry s w = Some e \<Longrightarrow>
      e AND PTE_ADDR_MASK = frame_addr w \<and> present e"
    and limit: "inv s \<Longrightarrow> N \<le> 2 ^ 36"
begin

lemma map_pages_inv:
  "inv s \<Longrightarrow> \<forall>v\<in>set vs. v < N \<Longrightarrow> flag_word f \<Longrightarrow> inv (fold (\<lambda>v s. snd (map1 s v f)) vs s)"
  by (induction vs arbitrary: s) (auto simp: map1_ok)

lemma map_pages_entry:
  assumes "inv s" "\<forall>v\<in>set vs. v < N" "flag_word f" "w < 2 ^ 36"
  shows "entry (fold (\<lambda>v s. snd (map1 s v f)) vs s) w =
    (if w \<in> set vs then Some ((case entry s w of None \<Rightarrow> frame_addr w | Some e \<Rightarrow> e) OR f)
     else entry s w)"
  using assms
proof (induction vs arbitrary: s)
  case Nil
  then show ?case by simp
next
  case (Cons v vs)
  then have "inv (snd (map1 s v f))" by (simp add: map1_ok)
  from Cons.IH [OF this] Cons.prems show ?case
    by (auto simp: map1_entry or.assoc)
qed

end

definition pt_state_ok :: "nat \<Rightarrow> nat \<Rightarrow> pt_state \<Rightarrow> bool" where
  "pt_state_ok N R st \<longleftrightarrow> (\<exists>T. pt_inv N R T (fst st) (snd st)) \<and> pi_error (fst st) = PAGING_OK \<and>
     unat (pi_mapped_pages (fst st)) = card {w. w < 2 ^ 36 \<and> st_entry st w \<noteq> None}"

lemma finite_pages: "finite {w. w < (2::nat) ^ 36 \<and> P w}"
  by (rule finite_subset [of _ "{..<2 ^ 36}"]) auto

lemma card_pages_le: "card {w. w < (2::nat) ^ 36 \<and> P w} \<le> 2 ^ 36"
  using card_mono [of "{..<(2::nat) ^ 36}" "{w. w < 2 ^ 36 \<and> P w}"] by auto

lemma map_identity_page_state_ok:
  assumes "pt_state_ok N R st" "v < N" "flag_word f"
  shows "fst (map_identity_page st (frame_addr v) f) \<and>
    pt_state_ok N R (snd (map_identity_page st (frame_addr v) f)) \<and>
    (\<forall>w < 2 ^ 36. st_entry (snd (map_identity_page st (frame_addr v) f)) w =
       (if w = v then Some ((case st_entry st v of None \<Rightarrow> frame_addr v | Some e \<Rightarrow> e) OR f)
        else st_entry st w))"
proof -
  obtain info mem where st: "st = (info, mem)" by (cases st)
  obtain T where inv: "pt_inv N R T info mem" using assms(1) by (auto simp: pt_state_ok_def st)
  have v36: "v < 2 ^ 36" using assms(2) pt_invD(1) [OF inv] by simp
  obtain T' info' mem' where run: "map_identity_page st (frame_addr v) f = (True, info', mem')"
    and inv': "pt_inv N R T' info' mem'"
    and entries: "\<forall>w < 2 ^ 36. st_entry (info', mem') w =
       (if w = v then Some ((case st_entry st v of None \<Rightarrow> frame_addr v | Some e \<Rightarrow> e) OR f)
        else st_entry st w)"
    and count: "pi_mapped_pages info' = pi_mapped_pages info + (if st_entry st v = None then 1 else 0)"
    and err: "pi_error info' = pi_error info"
    using map_identity_page_ok [OF inv assms(2,3)] unfolding st by blast
  let ?M = "{w. w < 2 ^ 36 \<and> st_entry st w \<noteq> None}"
  have "{w. w < 2 ^ 36 \<and> st_entry (info', mem') w \<noteq> None} = insert v ?M"
    using entries v36 by auto
  moreover have "unat (pi_mapped_pages info) = card ?M"
    using assms(1) by (simp add: pt_state_ok_def st)
  moreover have "card ?M \<le> 2 ^ 36" by (rule card_pages_le)
  ultimately have "unat (pi_mapped_pages info') = card {w. w < 2 ^ 36 \<and> st_entry (info', mem') w \<noteq> None}"
    using v36 by (simp add: count card_insert_if finite_pages unat_word_ariths)
  with run inv' entries err assms(1) show ?thesis by (auto simp: pt_state_ok_def st)
qed

lemma st_entry_identity:
  assumes "pt_state_ok N R st" "w < 2 ^ 36" "st_entry st w = Some e"
  shows "e AND PTE_ADDR_MASK = frame_addr w \<and> present e"
proof -
  obtain T where inv: "pt_inv N R T (fst st) (snd st)" using assms(1) by (auto simp: pt_state_ok_def)
  have walk: "page_walk (snd st) (pi_cr3 (fst st)) (frame_addr w) = Some e"
    using assms(3) by (simp add: st_entry_def)
  obtain q where q: "T q = Some (1, w div 512)"
    using walk_reaches_leaf [OF inv assms(2) walk] by blast
  have "present e" "e = entry_at (snd st) q (w mod 512)"
    using walk walk_at_leaf [OF inv assms(2) q] by (auto split: if_splits)
  with pt_invD(5) [OF inv q, of "w mod 512"] show ?thesis by (simp add: child_ok_def)
qed

interpretation pt: page_mapper "\<lambda>st v f. map_identity_page st (frame_addr v) f" st_entry
  "pt_state_ok N R" N
proof unfold_locales
  fix s :: pt_state and v w :: nat and f e :: u64
  assume ok: "pt_state_ok N R s"
  show "N \<le> 2 ^ 36" using ok by (auto simp: pt_state_ok_def dest: pt_invD(1))
  show "e AND PTE_ADDR_MASK = frame_addr w \<and> present e" if "w < 2 ^ 36" "st_entry s w = Some e"
    using st_entry_identity [OF ok that] .
  assume "v < N" "flag_word f"
  note page = map_identity_page_state_ok [OF ok this]
  show "fst (map_identity_page s (frame_addr v) f) \<and>
      pt_state_ok N R (snd (map_identity_page s (frame_addr v) f))"
    using page by blast
  show "w < 2 ^ 36 \<Longrightarrow> st_entry (snd (map_identity_page s (frame_addr v) f)) w =
        (if w = v then Some ((case st_entry s v of None \<Rightarrow> frame_addr v | Some e \<Rightarrow> e) OR f)
         else st_entry s w)"
    using page by blast
qed

end
