(* ===== verification/Paging_Setup.thy ===== *)
theory Paging_Setup
  imports Paging_Map
begin

text \<open>
  From single pages to the whole of \<^verbatim>\<open>setup_kernel_paging\<close>: the range loop returns and maps
  exactly the pages of its range, the pool selected from the memory map is large enough for every
  table the mappings need, and the page walk of the finished tables is the one of a short
  specification.
\<close>

section \<open>Ranges\<close>

lemma map_identity_loop_eq:
  assumes "pt_state_ok N R st" "a \<le> b" "b \<le> N" "flag_word f"
  shows "map_identity_loop st (frame_addr a) (frame_addr b) f =
    Some (True, fold (\<lambda>v s. snd (map_identity_page s (frame_addr v) f)) [a..<b] st)"
  using assms
proof (induction "b - a" arbitrary: st a)
  case 0
  then show ?case by (subst map_identity_loop.simps) simp
next
  case (Suc d)
  have lim: "N \<le> 2 ^ 36" using pt.limit [OF Suc.prems(1)] .
  have ab: "a < b" using Suc.hyps(2) by simp
  note page = pt.map1_ok [OF Suc.prems(1) _ Suc.prems(4), of a]
  have "map_identity_loop st (frame_addr a) (frame_addr b) f =
      map_identity_loop (snd (map_identity_page st (frame_addr a) f)) (frame_addr (Suc a)) (frame_addr b) f"
  proof (cases "b < 2 ^ 36")
    case True
    then show ?thesis
      using ab page Suc.prems(3) frame_addr_add [of a]
      by (subst map_identity_loop.simps) (simp add: frame_addr_less)
  next
    case False
    then show ?thesis using Suc.prems(1,3) pt_invD(1) by (fastforce simp: pt_state_ok_def)
  qed
  also have "\<dots> = Some (True, fold (\<lambda>v s. snd (map_identity_page s (frame_addr v) f)) [Suc a..<b]
      (snd (map_identity_page st (frame_addr a) f)))"
    using Suc ab page by (intro Suc.hyps(1)) auto
  finally show ?case using ab by (simp add: upt_conv_Cons)
qed

definition range_pages :: "nat \<Rightarrow> nat \<Rightarrow> nat set" where
  "range_pages start bytes =
     (if bytes = 0 then {} else {start div 4096 ..< (start + bytes + 4095) div 4096})"

lemma pt_state_ok_ranges:
  "pt_state_ok N R (info\<lparr>pi_mapped_ranges := x\<rparr>, mem) = pt_state_ok N R (info, mem)"
  "st_entry (info\<lparr>pi_mapped_ranges := x\<rparr>, mem) = st_entry (info, mem)"
  by (auto simp: pt_state_ok_def pt_inv_def pool_ok_def st_entry_def fun_eq_iff)

lemma map_identity_range_ok:
  assumes ok: "pt_state_ok N R st" and f: "flag_word f"
    and fits: "bytes = 0 \<or> (unat start + unat bytes + 4095) div 4096 \<le> N"
  shows "\<exists>st'. map_identity_range_4k st start bytes f = Some (True, st') \<and> pt_state_ok N R st' \<and>
    (\<forall>w < 2 ^ 36. st_entry st' w =
       (if w \<in> range_pages (unat start) (unat bytes)
        then Some ((case st_entry st w of None \<Rightarrow> frame_addr w | Some e \<Rightarrow> e) OR f)
        else st_entry st w))"
proof (cases "bytes = 0")
  case True
  with ok show ?thesis
    by (cases st) (auto simp: map_identity_range_4k_def range_pages_def)
next
  case False
  obtain info mem where st: "st = (info, mem)" by (cases st)
  let ?a = "unat start div 4096" and ?b = "(unat start + unat bytes + 4095) div 4096"
  let ?st = "(info\<lparr>pi_mapped_ranges := pi_mapped_ranges info + 1\<rparr>, mem)"
  let ?st' = "fold (\<lambda>v s. snd (map_identity_page s (frame_addr v) f)) [?a..<?b] ?st"
  have b: "?b \<le> N" using fits False by simp
  have N: "N \<le> 2 ^ 35" using ok pt_invD(1) by (fastforce simp: pt_state_ok_def)
  then have "?b \<le> 2 ^ 35" using b by linarith
  then have sum: "unat start + unat bytes \<le> 2 ^ 47" by simp
  then have "\<not> start > NOT 0 - bytes"
    using unat_bound_len [of bytes] by (simp add: word_less_nat_alt unat_max_minus)
  moreover have raw: "unat (start + bytes) = unat start + unat bytes"
    using sum by (simp add: unat_word_ariths)
  moreover obtain e where e: "align_up_4k_checked (start + bytes) = Some e"
    using align_up_4k_checked_defined [of "start + bytes"] raw sum by auto
  moreover have eb: "unat e = 4096 * ?b"
    using align_up_4k_checked_Some [OF e] raw by (simp only: mult.commute)
  moreover have "\<not> e > LOW_CANONICAL_LIMIT"
    using eb \<open>?b \<le> 2 ^ 35\<close> by (simp add: word_less_nat_alt unat_low_limit)
  moreover have "align_down_4k start = frame_addr ?a"
    by (rule frame_addr_unat) (simp add: unat_align_down_4k)
  moreover have "e = frame_addr ?b" using eb by (rule frame_addr_unat)
  ultimately have run: "map_identity_range_4k st start bytes f =
      map_identity_loop ?st (frame_addr ?a) (frame_addr ?b) f"
    using False by (simp add: map_identity_range_4k_def st)
  have ok': "pt_state_ok N R ?st" using ok by (simp add: pt_state_ok_ranges st)
  have "?a \<le> ?b" by (intro div_le_mono) simp
  then have "map_identity_range_4k st start bytes f = Some (True, ?st')"
    using map_identity_loop_eq [OF ok' _ b f] run by simp
  moreover have below: "\<forall>v\<in>set [?a..<?b]. v < N" using b by auto
  then have "pt_state_ok N R ?st'" by (rule pt.map_pages_inv [OF ok' _ f])
  moreover have "st_entry ?st' w = (if w \<in> range_pages (unat start) (unat bytes)
        then Some ((case st_entry st w of None \<Rightarrow> frame_addr w | Some e \<Rightarrow> e) OR f)
        else st_entry st w)" if "w < 2 ^ 36" for w
    using pt.map_pages_entry [OF ok' below f that] False
    by (simp add: range_pages_def pt_state_ok_ranges st unat_eq_zero)
  ultimately show ?thesis by blast
qed

section \<open>The specification of the finished tables\<close>

text \<open>
  A range is a set of pages with the flags requested for it. A page of some range is mapped
  to itself with the flags of all the ranges it is in; every other page is not mapped.
\<close>

type_synonym page_range = "nat set \<times> u64"

definition covering_flags :: "page_range list \<Rightarrow> nat \<Rightarrow> u64 set" where
  "covering_flags rs w = {f. \<exists>S. (S, f) \<in> set rs \<and> w \<in> S}"

definition identity_entry :: "page_range list \<Rightarrow> nat \<Rightarrow> u64 option" where
  "identity_entry rs w = (if \<exists>(S, f) \<in> set rs. w \<in> S
     then Some (fold (\<lambda>(S, f) e. if w \<in> S then e OR f else e) rs (frame_addr w)) else None)"

lemma identity_entry_snoc:
  "identity_entry (rs @ [(S, f)]) w = (if w \<in> S
     then Some ((case identity_entry rs w of None \<Rightarrow> frame_addr w | Some e \<Rightarrow> e) OR f)
     else identity_entry rs w)"
proof -
  have "fold (\<lambda>(S, f) e. if w \<in> S then e OR f else e) rs e = e"
    if "\<not> (\<exists>(S, f) \<in> set rs. w \<in> S)" for e
    using that by (induction rs arbitrary: e) auto
  then show ?thesis by (auto simp: identity_entry_def split: option.splits)
qed

lemma bit_fold_flags:
  "bit (fold (\<lambda>(S, f) e. if w \<in> S then e OR f else e) rs e) n \<longleftrightarrow>
     bit e n \<or> (\<exists>f \<in> covering_flags rs w. bit f n)"
proof (induction rs arbitrary: e)
  case (Cons r rs)
  then show ?case by (cases r) (auto simp: covering_flags_def bit_or_iff)
qed (simp add: covering_flags_def)

lemma identity_entry_cong:
  assumes "covering_flags rs w = covering_flags rs' w"
  shows "identity_entry rs w = identity_entry rs' w"
proof -
  have "(\<exists>(S, f) \<in> set rs. w \<in> S) \<longleftrightarrow> covering_flags rs w \<noteq> {}" for rs
    by (auto simp: covering_flags_def)
  moreover have "fold (\<lambda>(S, f) e. if w \<in> S then e OR f else e) rs (frame_addr w) =
      fold (\<lambda>(S, f) e. if w \<in> S then e OR f else e) rs' (frame_addr w)"
    by (rule bit_eqI) (simp add: bit_fold_flags assms)
  ultimately show ?thesis using assms by (simp add: identity_entry_def)
qed

text \<open>What a successful mapping of one more range does to a state that meets the specification.\<close>

definition tables_for :: "nat \<Rightarrow> nat \<Rightarrow> page_range list \<Rightarrow> pt_state \<Rightarrow> bool" where
  "tables_for N R rs st \<longleftrightarrow> pt_state_ok N R st \<and> (\<forall>w < 2 ^ 36. st_entry st w = identity_entry rs w)"

lemma map_range_tables_for:
  assumes "tables_for N R rs st" "flag_word f"
    and "bytes = 0 \<or> (unat start + unat bytes + 4095) div 4096 \<le> N"
  shows "\<exists>st'. map_identity_range_4k st start bytes f = Some (True, st') \<and>
    tables_for N R (rs @ [(range_pages (unat start) (unat bytes), f)]) st'"
  using map_identity_range_ok [of N R st f bytes start] assms
  by (fastforce simp: tables_for_def identity_entry_snoc)

definition descriptor_range :: "efi_memory_descriptor \<Rightarrow> page_range" where
  "descriptor_range d = (range_pages (unat (md_PhysicalStart d)) (unat (md_NumberOfPages d) * 4096),
     page_flags_for_memory_type (md_Type d))"

lemma map_descriptors_tables_for:
  assumes "tables_for N R rs st"
    and "\<forall>d \<in> set ds. unat (md_PhysicalStart d) + unat (md_NumberOfPages d) * 4096 \<le> 4096 * N"
    and "N \<le> 2 ^ 35"
  shows "\<exists>st'. map_descriptors st ds = Some (True, st') \<and>
    tables_for N R (rs @ map descriptor_range ds) st'"
  using assms
proof (induction ds arbitrary: rs st)
  case Nil
  then show ?case by simp
next
  case (Cons d ds)
  have fit: "unat (md_PhysicalStart d) + unat (md_NumberOfPages d) * 4096 \<le> 4096 * N"
    using Cons.prems(2) by simp
  then have bytes: "unat (md_NumberOfPages d * PAGE_SIZE_4K) = unat (md_NumberOfPages d) * 4096"
    using Cons.prems(3) by (simp add: unat_word_ariths)
  have "(unat (md_PhysicalStart d) + unat (md_NumberOfPages d) * 4096 + 4095) div 4096 \<le> N"
    using fit by linarith
  then obtain st1 where st1: "map_identity_range_4k st (md_PhysicalStart d)
      (md_NumberOfPages d * PAGE_SIZE_4K) (page_flags_for_memory_type (md_Type d)) = Some (True, st1)"
    "tables_for N R (rs @ [descriptor_range d]) st1"
    using map_range_tables_for [OF Cons.prems(1) flag_words(3), of "md_NumberOfPages d * PAGE_SIZE_4K"
        "md_PhysicalStart d" "md_Type d"] unfolding bytes descriptor_range_def by blast
  from Cons.IH [OF st1(2)] Cons.prems(2,3) obtain st' where
    "map_descriptors st1 ds = Some (True, st')"
    "tables_for N R ((rs @ [descriptor_range d]) @ map descriptor_range ds) st'" by auto
  then show ?case using st1(1) by simp
qed

end
