(* ===== verification/Paging_Boot.thy ===== *)
theory Paging_Boot
  imports Paging_Setup
begin

text \<open>
  The pool and the whole set-up. The pool is the top of the lowest conventional descriptor
  that is large enough; taking it splits that descriptor in two (or retypes it), which leaves the
  set of described pages and their mapping flags as they were.
\<close>

section \<open>The size of the pool\<close>

lemma table_parts_bound:
  fixes N :: nat
  assumes "N \<le> 2 ^ 35"
  shows "(N + 511) div 512 \<le> 2 ^ 26" "(N + 262143) div 262144 \<le> 2 ^ 17"
    "(N + 134217727) div 134217728 \<le> 2 ^ 8"
  using assms by simp_all

lemma unat_pool_sum:
  fixes a b c :: u64
  assumes "unat a \<le> 2 ^ 8" "unat b \<le> 2 ^ 17" "unat c \<le> 2 ^ 26"
  shows "unat (1 + a + b + c + 16) = 1 + unat a + unat b + unat c + 16"
  using assms by (simp add: unat_word_ariths)

lemma unat_estimate:
  assumes "unat max_end \<le> 2 ^ 47"
  shows "unat (estimate_identity_page_table_pages max_end) =
    table_cap ((unat max_end + 4095) div 4096) + 16"
proof -
  define N where "N = (unat max_end + 4095) div 4096"
  define mapped where "mapped = div_round_up64 max_end PAGE_SIZE_4K"
  have N: "N \<le> 2 ^ 35" unfolding N_def using assms by simp
  have mapped: "unat mapped = N"
    unfolding mapped_def N_def by (simp add: unat_div_round_up64)
  have parts: "unat (div_round_up64 mapped 512) = (N + 511) div 512"
    "unat (div_round_up64 mapped 262144) = (N + 262143) div 262144"
    "unat (div_round_up64 mapped 134217728) = (N + 134217727) div 134217728"
    using unat_div_round_up64 [of 512 mapped] unat_div_round_up64 [of 262144 mapped]
      unat_div_round_up64 [of 134217728 mapped] by (simp_all add: mapped)
  have "unat (1 + div_round_up64 mapped 134217728 + div_round_up64 mapped 262144 +
      div_round_up64 mapped 512 + 16) = table_cap N + 16"
    using table_parts_bound [OF N]
    by (subst unat_pool_sum) (simp_all add: parts table_cap_def ac_simps)
  then show ?thesis
    by (simp add: estimate_identity_page_table_pages_def PAGE_TABLE_ENTRIES_def Let_def
        flip: mapped_def N_def)
qed

section \<open>Selecting the pool\<close>

text \<open>
  A memory map as the firmware hands it over: as many descriptors as it counts, page-aligned
  starts, a stride that holds a whole descriptor.
\<close>

definition mmap_wf :: "efi_memory_map_t \<Rightarrow> bool" where
  "mmap_wf mmap \<longleftrightarrow> length (mm_descriptors mmap) = unat (mm_descriptor_count mmap) \<and>
     (\<forall>d \<in> set (mm_descriptors mmap). unat (md_PhysicalStart d) mod 4096 = 0) \<and>
     40 \<le> unat (mm_descriptor_size mmap)"

lemma live_descriptors_wf: "mmap_wf mmap \<Longrightarrow> live_descriptors mmap = mm_descriptors mmap"
  by (simp add: mmap_wf_def live_descriptors_def)

lemma descriptors_max_end_Some:
  assumes "descriptors_max_end ds m = Some e"
  shows "m \<le> e \<and> (unat m \<le> 2 ^ 47 \<longrightarrow> unat e \<le> 2 ^ 47) \<and>
    (\<forall>d \<in> set ds. \<exists>x. descriptor_end_checked d = Some x \<and> x \<le> e)"
  using assms
proof (induction ds arbitrary: m)
  case (Cons d ds)
  then obtain x where x: "descriptor_end_checked d = Some x" "\<not> x > LOW_CANONICAL_LIMIT"
    "descriptors_max_end ds (if x > m then x else m) = Some e"
    by (auto split: option.splits if_splits)
  have "unat x \<le> 2 ^ 47" using x(2) by (simp add: word_less_nat_alt unat_low_limit)
  with Cons.IH [OF x(3)] x(1) show ?case
    by (auto split: if_splits intro: order.trans order.strict_implies_order)
qed simp

definition pool_candidate :: "u64 \<Rightarrow> efi_memory_descriptor \<Rightarrow> bool" where
  "pool_candidate pool_pages d \<longleftrightarrow> md_Type d = EfiConventionalMemory \<and> pool_pages \<le> md_NumberOfPages d"

definition pool_choice :: "efi_memory_map_t \<Rightarrow> u64 \<Rightarrow> bool \<times> u64 \<times> u64 \<times> nat \<Rightarrow> bool" where
  "pool_choice mmap pool_pages = (\<lambda>(found, s, e, i). found \<longrightarrow>
     i < length (mm_descriptors mmap) \<and> pool_candidate pool_pages (mm_descriptors mmap ! i) \<and>
     s = md_PhysicalStart (mm_descriptors mmap ! i) \<and>
     descriptor_end_checked (mm_descriptors mmap ! i) = Some e)"

lemma desc_at_of_nat:
  "mmap_wf mmap \<Longrightarrow> i < length (mm_descriptors mmap) \<Longrightarrow>
   memory_desc_at mmap (word_of_nat i) = mm_descriptors mmap ! i"
  using unat_bound_len [of "mm_descriptor_count mmap"]
  by (simp add: memory_desc_at_def mmap_wf_def unat_of_nat)

lemma select_pool_loop_ok:
  assumes wf: "mmap_wf mmap"
    and ends: "\<forall>d \<in> set (mm_descriptors mmap). \<exists>x. descriptor_end_checked d = Some x"
    and "\<forall>i \<in> set is. i < length (mm_descriptors mmap)" and "pool_choice mmap pool_pages sel"
  shows "\<exists>sel'. select_pool_loop mmap pool_pages is sel = Some sel' \<and>
    pool_choice mmap pool_pages sel' \<and>
    (fst sel' \<longleftrightarrow> fst sel \<or> (\<exists>i \<in> set is. pool_candidate pool_pages (mm_descriptors mmap ! i)))"
  using assms(3,4)
proof (induction "is" arbitrary: sel)
  case Nil
  then show ?case by simp
next
  case (Cons i "is")
  obtain found s e j where sel: "sel = (found, s, e, j)" by (cases sel)
  let ?d = "mm_descriptors mmap ! i"
  have i: "i < length (mm_descriptors mmap)" using Cons.prems(1) by simp
  have at: "memory_desc_at mmap (word_of_nat i) = ?d" using desc_at_of_nat [OF wf i] .
  obtain x where x: "descriptor_end_checked ?d = Some x" using ends i by (meson nth_mem)
  show ?case
  proof (cases "pool_candidate pool_pages ?d")
    case True
    then have take: "\<not> (md_Type ?d \<noteq> EfiConventionalMemory \<or> md_NumberOfPages ?d < pool_pages)"
      by (auto simp: pool_candidate_def)
    let ?sel = "if \<not> found \<or> md_PhysicalStart ?d < s then (True, md_PhysicalStart ?d, x, i) else sel"
    have "pool_choice mmap pool_pages ?sel"
      using Cons.prems(2) i True x by (simp add: pool_choice_def)
    then obtain sel' where "select_pool_loop mmap pool_pages is ?sel = Some sel'"
      "pool_choice mmap pool_pages sel'"
      "fst sel' \<longleftrightarrow> fst ?sel \<or> (\<exists>i \<in> set is. pool_candidate pool_pages (mm_descriptors mmap ! i))"
      using Cons.IH [of ?sel] Cons.prems(1) by auto
    moreover have "select_pool_loop mmap pool_pages (i # is) sel =
        select_pool_loop mmap pool_pages is ?sel"
      using take by (auto simp: sel at x Let_def)
    moreover have "fst ?sel" by (auto simp: sel)
    ultimately show ?thesis using True by auto
  next
    case False
    then have "select_pool_loop mmap pool_pages (i # is) sel = select_pool_loop mmap pool_pages is sel"
      by (auto simp: sel at Let_def pool_candidate_def)
    with Cons.IH [OF _ Cons.prems(2)] Cons.prems(1) False show ?thesis by auto
  qed
qed

lemma stored_descriptor_id:
  "40 \<le> n \<Longrightarrow> stored_descriptor n d = d"
  by (simp add: stored_descriptor_def field_prefix_def take_bit_word_eq_self)

text \<open>The two descriptors that replace the selected one describe the same pages with the same flags.\<close>

lemma range_pages_aligned: "range_pages (b * 4096) (m * 4096) = {b ..< b + m}"
proof -
  have "b * 4096 + m * 4096 + 4095 = 4095 + (b + m) * 4096"
    by (simp only: add_mult_distrib add.commute)
  then have "(b * 4096 + m * 4096 + 4095) div 4096 = b + m" by simp
  then show ?thesis by (simp only: range_pages_def) simp
qed

lemma range_pages_split:
  assumes "s mod 4096 = 0" "k \<le> n"
  shows "range_pages s (n * 4096) =
    range_pages s ((n - k) * 4096) \<union> range_pages (s + (n - k) * 4096) (k * 4096)"
proof -
  have s: "s = s div 4096 * 4096" using div_mult_mod_eq [of s 4096] assms(1) by simp
  have n: "n = n - k + k" using assms(2) by simp
  define a j where "a = s div 4096" and "j = n - k"
  have "{a ..< a + (j + k)} = {a ..< a + j} \<union> {a + j ..< a + j + k}"
    by (simp add: ivl_disj_un_two(3) add.assoc)
  then have "range_pages (a * 4096) ((j + k) * 4096) =
      range_pages (a * 4096) (j * 4096) \<union> range_pages ((a + j) * 4096) (k * 4096)"
    by (simp only: range_pages_aligned)
  then show ?thesis
    by (metis a_def j_def s n add_mult_distrib)
qed

lemma covering_flags_split:
  assumes "i < length rs" "rs ! i = (S1 \<union> S2, f)"
  shows "covering_flags (rs[i := (S1, f)] @ [(S2, f)]) w = covering_flags rs w"
proof -
  have "rs = take i rs @ (S1 \<union> S2, f) # drop (Suc i) rs"
    using id_take_nth_drop [OF assms(1)] assms(2) by simp
  then have "covering_flags rs w = covering_flags (take i rs @ (S1 \<union> S2, f) # drop (Suc i) rs) w"
    by simp
  also have "\<dots> = covering_flags (rs[i := (S1, f)] @ [(S2, f)]) w"
    using assms(1) by (auto simp: covering_flags_def upd_conv_take_nth_drop)
  finally show ?thesis by simp
qed

lemma append_memory_descriptor_ok:
  assumes "mmap_wf mmap"
    and cap: "(unat (mm_descriptor_count mmap) + 1) * unat (mm_descriptor_size mmap) \<le>
      unat (mm_map_capacity mmap)"
  shows "\<exists>mmap'. append_memory_descriptor mmap d = (True, mmap') \<and>
    live_descriptors mmap' = mm_descriptors mmap @ [d]"
proof -
  let ?c = "mm_descriptor_count mmap" and ?s = "mm_descriptor_size mmap"
  have wf: "length (mm_descriptors mmap) = unat ?c" "40 \<le> unat ?s"
    using assms(1) by (simp_all add: mmap_wf_def)
  have lt: "(unat ?c + 1) * unat ?s < 2 ^ 64"
    using cap unat_bound_len [of "mm_map_capacity mmap"] by simp
  have "unat ?c * unat ?s < 2 ^ 64" using lt by (simp add: add_mult_distrib)
  then have used: "unat (?c * ?s + ?s) = (unat ?c + 1) * unat ?s"
    using lt by (simp add: unat_word_ariths add_mult_distrib)
  have "unat ?c + 1 \<le> (unat ?c + 1) * unat ?s"
    using mult_le_mono2 [of 1 "unat ?s" "unat ?c + 1"] wf(2) by simp
  then have "unat (?c + 1) = unat ?c + 1" using lt by (simp add: unat_word_ariths)
  with used cap wf show ?thesis
    by (simp add: append_memory_descriptor_def Let_def word_less_nat_alt live_descriptors_def
        stored_descriptor_id)
qed

text \<open>
  A map that describes the same pages with the same flags as a list of descriptors, all of
  them below \<open>B\<close>.
\<close>

definition describes_same :: "nat \<Rightarrow> efi_memory_descriptor list \<Rightarrow> efi_memory_map_t \<Rightarrow> bool" where
  "describes_same B ds mmap \<longleftrightarrow>
     (\<forall>w. covering_flags (map descriptor_range (live_descriptors mmap)) w =
          covering_flags (map descriptor_range ds) w) \<and>
     (\<forall>d \<in> set (live_descriptors mmap).
        unat (md_PhysicalStart d) + unat (md_NumberOfPages d) * 4096 \<le> B)"

lemma index_word:
  "mmap_wf mmap \<Longrightarrow> i < length (mm_descriptors mmap) \<Longrightarrow> unat (word_of_nat i :: u64) = i"
  using unat_bound_len [of "mm_descriptor_count mmap"] by (simp add: mmap_wf_def unat_of_nat)

lemma retyped_pool:
  assumes wf: "mmap_wf mmap" and i: "i < length (mm_descriptors mmap)"
    and conv: "md_Type (mm_descriptors mmap ! i) = EfiConventionalMemory"
    and bound: "\<And>x. x \<in> set (mm_descriptors mmap) \<Longrightarrow>
      unat (md_PhysicalStart x) + unat (md_NumberOfPages x) * 4096 \<le> B"
  shows "describes_same B (mm_descriptors mmap) (set_memory_desc_at mmap (word_of_nat i)
    ((mm_descriptors mmap ! i)\<lparr>md_Type := EfiLoaderData\<rparr>))"
proof -
  let ?xs = "mm_descriptors mmap" and ?d = "mm_descriptors mmap ! i"
  let ?d' = "?d\<lparr>md_Type := EfiLoaderData\<rparr>"
  have live: "live_descriptors (set_memory_desc_at mmap (word_of_nat i) ?d') = ?xs[i := ?d']"
    using wf by (simp add: live_descriptors_def set_memory_desc_at_def index_word [OF wf i] mmap_wf_def)
  have "descriptor_range ?d' = descriptor_range ?d"
    using conv by (simp add: descriptor_range_def page_flags_for_memory_type_def c_const)
  then have "map descriptor_range (?xs[i := ?d']) = map descriptor_range ?xs"
    by (simp add: map_update) (metis i list_update_id map_update)
  moreover have "unat (md_PhysicalStart x) + unat (md_NumberOfPages x) * 4096 \<le> B"
    if "x \<in> set (?xs[i := ?d'])" for x
    using that set_update_subset_insert [of ?xs i ?d'] bound bound [OF nth_mem [OF i]] by auto
  ultimately show ?thesis by (simp add: describes_same_def live)
qed

lemma split_pool:
  assumes wf: "mmap_wf mmap" and i: "i < length (mm_descriptors mmap)"
    and conv: "md_Type (mm_descriptors mmap ! i) = EfiConventionalMemory"
    and start: "unat (md_PhysicalStart (mm_descriptors mmap ! i)) = 4096 * a"
    and pages: "unat (md_NumberOfPages (mm_descriptors mmap ! i)) = n"
    and R: "unat R \<le> n" and an: "a + n \<le> 2 ^ 35"
    and bound: "\<And>x. x \<in> set (mm_descriptors mmap) \<Longrightarrow>
      unat (md_PhysicalStart x) + unat (md_NumberOfPages x) * 4096 \<le> B"
    and live: "live_descriptors mmap' =
      (mm_descriptors mmap)[i := (mm_descriptors mmap ! i)
         \<lparr>md_NumberOfPages := md_NumberOfPages (mm_descriptors mmap ! i) - R\<rparr>] @
      [(mm_descriptors mmap ! i)\<lparr>md_Type := EfiLoaderData,
         md_PhysicalStart := frame_addr (a + n - unat R), md_VirtualStart := 0, md_NumberOfPages := R\<rparr>]"
  shows "describes_same B (mm_descriptors mmap) mmap'"
proof -
  let ?xs = "mm_descriptors mmap" and ?d = "mm_descriptors mmap ! i" and ?p = "a + n - unat R"
  let ?d1 = "?d\<lparr>md_NumberOfPages := md_NumberOfPages ?d - R\<rparr>"
  let ?d2 = "?d\<lparr>md_Type := EfiLoaderData, md_PhysicalStart := frame_addr ?p,
     md_VirtualStart := 0, md_NumberOfPages := R\<rparr>"
  have n1: "unat (md_NumberOfPages ?d - R) = n - unat R"
    using R by (simp add: unat_sub word_le_nat_alt pages)
  have fp: "unat (frame_addr ?p) = 4096 * ?p" using an by (simp add: unat_frame_addr)
  have p: "4096 * ?p = 4096 * a + (n - unat R) * 4096" using R by simp
  have r: "descriptor_range ?d = (range_pages (4096 * a) (n * 4096), PTE_PRESENT OR PTE_RW)"
    "descriptor_range ?d1 = (range_pages (4096 * a) ((n - unat R) * 4096), PTE_PRESENT OR PTE_RW)"
    "descriptor_range ?d2 = (range_pages (4096 * ?p) (unat R * 4096), PTE_PRESENT OR PTE_RW)"
    using conv by (simp_all add: descriptor_range_def start pages n1 fp page_flags_for_memory_type_def
        c_const)
  have "map descriptor_range ?xs ! i = (range_pages (4096 * a) ((n - unat R) * 4096) \<union>
      range_pages (4096 * ?p) (unat R * 4096), PTE_PRESENT OR PTE_RW)"
    using i r(1) range_pages_split [of "4096 * a" "unat R" n] R p by simp
  then have "covering_flags (map descriptor_range (live_descriptors mmap')) w =
      covering_flags (map descriptor_range ?xs) w" for w
    using covering_flags_split [of i "map descriptor_range ?xs"] i by (simp add: live map_update r)
  moreover have "unat (md_PhysicalStart x) + unat (md_NumberOfPages x) * 4096 \<le> B"
    if x: "x \<in> set (live_descriptors mmap')" for x
  proof -
    have b: "4096 * a + n * 4096 \<le> B" using bound [OF nth_mem [OF i]] by (simp add: start pages)
    have "4096 * ?p + unat R * 4096 = 4096 * a + n * 4096" using R by (simp add: p)
    with b have "unat (md_PhysicalStart ?d2) + unat (md_NumberOfPages ?d2) * 4096 \<le> B"
      by (simp add: fp)
    moreover have "(n - unat R) * 4096 \<le> n * 4096" by simp
    with b have "unat (md_PhysicalStart ?d1) + unat (md_NumberOfPages ?d1) * 4096 \<le> B"
      by (simp add: start n1)
    moreover have "x = ?d1 \<or> x = ?d2 \<or> x \<in> set ?xs"
      using x set_update_subset_insert [of ?xs i ?d1] by (auto simp: live)
    ultimately show ?thesis using bound by blast
  qed
  ultimately show ?thesis by (simp add: describes_same_def)
qed

text \<open>The frame numbers behind the words of the selected descriptor.\<close>

lemma pool_frames:
  assumes "unat e = 4096 * m" "unat R \<le> m"
  shows "e = frame_addr (m - unat R + unat R)" "e - R * PAGE_SIZE_4K = frame_addr (m - unat R)"
proof -
  show "e = frame_addr (m - unat R + unat R)" using assms by (intro frame_addr_unat) simp
  have le: "unat R * 4096 \<le> unat e" using assms by simp
  then have "unat (R * PAGE_SIZE_4K) = unat R * 4096"
    using unat_bound_len [of e] by (simp add: unat_word_ariths)
  then show "e - R * PAGE_SIZE_4K = frame_addr (m - unat R)"
    using assms le by (intro frame_addr_unat) (simp add: unat_sub word_le_nat_alt)
qed

lemma select_page_table_pool_ok:
  assumes wf: "mmap_wf mmap"
    and ends: "\<forall>d \<in> set (mm_descriptors mmap). \<exists>x. descriptor_end_checked d = Some x \<and> unat x \<le> B"
    and B: "B \<le> 2 ^ 47"
    and cand: "\<exists>d \<in> set (mm_descriptors mmap). pool_candidate R d"
    and nz: "\<forall>d \<in> set (mm_descriptors mmap). pool_candidate R d \<longrightarrow>
      \<not> (md_PhysicalStart d = 0 \<and> md_NumberOfPages d = R)"
    and cap: "(unat (mm_descriptor_count mmap) + 1) * unat (mm_descriptor_size mmap) \<le>
      unat (mm_map_capacity mmap)"
  shows "\<exists>mmap' p. select_page_table_pool mmap R info =
      (True, mmap', info\<lparr>pi_pool_end := frame_addr (p + unat R), pi_pool_start := frame_addr p,
         pi_pool_next := frame_addr p, pi_reserved_pages := R\<rparr>) \<and>
    0 < p \<and> p + unat R \<le> 2 ^ 35 \<and> 4096 * (p + unat R) \<le> B \<and>
    describes_same B (mm_descriptors mmap) mmap'"
proof -
  let ?xs = "mm_descriptors mmap"
  have len: "length ?xs = unat (mm_descriptor_count mmap)" using wf by (simp add: mmap_wf_def)
  from select_pool_loop_ok [OF wf, of "[0..<length ?xs]" R "(False, 0, 0, 0)"] ends cand
  obtain s e i where loop: "select_pool_loop mmap R [0..<length ?xs] (False, 0, 0, 0) =
      Some (True, s, e, i)" and choice: "pool_choice mmap R (True, s, e, i)"
    by (fastforce simp: pool_choice_def in_set_conv_nth)
  let ?d = "?xs ! i"
  from choice have i: "i < length ?xs" and d: "pool_candidate R ?d" "descriptor_end_checked ?d = Some e"
    by (auto simp: pool_choice_def)
  have din: "?d \<in> set ?xs" using i by simp
  define a where "a = unat (md_PhysicalStart ?d) div 4096"
  define n where "n = unat (md_NumberOfPages ?d)"
  have "unat (md_PhysicalStart ?d) mod 4096 = 0" using wf din by (simp add: mmap_wf_def)
  then have a: "unat (md_PhysicalStart ?d) = 4096 * a" unfolding a_def by auto
  have conv: "md_Type ?d = EfiConventionalMemory" and R: "unat R \<le> n"
    using d(1) by (simp_all add: pool_candidate_def word_le_nat_alt n_def)
  have ue: "unat e = 4096 * (a + n)"
    using descriptor_end_checked_Some [OF d(2)] a by (simp add: n_def)
  have eB: "unat e \<le> B" using ends din d(2) by fastforce
  then have an: "a + n \<le> 2 ^ 35" using ue B by simp
  define p where "p = a + n - unat R"
  have frames: "e = frame_addr (p + unat R)" "e - R * PAGE_SIZE_4K = frame_addr p"
    using pool_frames [OF ue trans_le_add2 [OF R]] by (simp_all only: p_def)
  have "0 < p"
  proof (rule ccontr)
    assume "\<not> 0 < p"
    then have "unat (md_PhysicalStart ?d) = 0" "unat (md_NumberOfPages ?d) = unat R"
      using a R by (auto simp: p_def n_def)
    then have "md_PhysicalStart ?d = 0 \<and> md_NumberOfPages ?d = R"
      by (metis unat_0 word_unat_eq_iff)
    with nz din d(1) show False by blast
  qed
  note at = desc_at_of_nat [OF wf i] and sel = select_page_table_pool_def len Let_def
  have bound: "unat (md_PhysicalStart x) + unat (md_NumberOfPages x) * 4096 \<le> B" if "x \<in> set ?xs" for x
    using that ends descriptor_end_checked_Some by fastforce
  let ?run = "\<lambda>mmap'. select_page_table_pool mmap R info = (True, mmap',
      info\<lparr>pi_pool_end := frame_addr (p + unat R), pi_pool_start := frame_addr p,
        pi_pool_next := frame_addr p, pi_reserved_pages := R\<rparr>) \<and> describes_same B ?xs mmap'"
  have "\<exists>mmap'. ?run mmap'"
  proof (cases "md_NumberOfPages ?d = R")
    case True
    then have "?run (set_memory_desc_at mmap (word_of_nat i) (?d\<lparr>md_Type := EfiLoaderData\<rparr>))"
      using loop frames(2) retyped_pool [OF wf i conv bound] by (simp add: sel at frames(1))
    then show ?thesis ..
  next
    case False
    let ?mmap = "set_memory_desc_at mmap (word_of_nat i)
      (?d\<lparr>md_NumberOfPages := md_NumberOfPages ?d - R\<rparr>)"
    let ?d2 = "?d\<lparr>md_Type := EfiLoaderData, md_PhysicalStart := frame_addr p,
      md_VirtualStart := 0, md_NumberOfPages := R\<rparr>"
    have wf1: "mmap_wf ?mmap"
      using wf din set_update_subset_insert [of ?xs i "?d\<lparr>md_NumberOfPages := md_NumberOfPages ?d - R\<rparr>"]
      by (auto simp: mmap_wf_def set_memory_desc_at_def index_word [OF wf i])
    obtain mmap' where app: "append_memory_descriptor ?mmap ?d2 = (True, mmap')"
      and live: "live_descriptors mmap' = mm_descriptors ?mmap @ [?d2]"
      using append_memory_descriptor_ok [OF wf1, of ?d2] cap by (auto simp: set_memory_desc_at_def)
    have "describes_same B ?xs mmap'"
      using live by (intro split_pool [OF wf i conv a n_def [symmetric] R an bound])
        (simp_all add: set_memory_desc_at_def index_word [OF wf i] p_def)
    then have "?run mmap'" using loop False frames(2) app by (simp add: sel at frames(1))
    then show ?thesis ..
  qed
  moreover have "p + unat R \<le> 2 ^ 35" "4096 * (p + unat R) \<le> B" using R an ue eB by (simp_all add: p_def)
  ultimately show ?thesis using \<open>0 < p\<close> by blast
qed

section \<open>The root table\<close>

lemma root_table_for:
  assumes "0 < p" "p + R \<le> 2 ^ 35" "N \<le> 2 ^ 35" "table_cap N \<le> R"
    and info: "pi_pool_start info = frame_addr p" "pi_pool_next info = frame_addr p"
      "pi_pool_end info = frame_addr (p + R)" "pi_allocated_pages info = 0"
      "pi_mapped_pages info = 0" "pi_error info = PAGING_OK"
  shows "\<exists>info' mem'. alloc_page_table_page (info, mem) = (frame_addr p, info', mem') \<and>
    tables_for N R [] (info'\<lparr>pi_cr3 := frame_addr p\<rparr>, mem')"
proof -
  have "0 < R" using assms(4) by (simp add: table_cap_def)
  have pool: "pool_ok p 0 R info" using assms by (simp add: pool_ok_def)
  let ?info = "info\<lparr>pi_pool_next := frame_addr (p + 1), pi_allocated_pages := 1\<rparr>"
  let ?mem = "zero_page_4k (frame_addr p) mem" and ?T = "[p \<mapsto> (4, 0)]"
  note alloc = alloc_page_table_page_ok [OF pool \<open>0 < R\<close>, simplified]
  have p36: "p < 2 ^ 36" using assms(2) by simp
  have zero: "entry_at ?mem p i = 0" if "i < 512" for i
    using entry_at_zero_page [OF p36 that p36] by simp
  have inv: "pt_inv N R ?T (?info\<lparr>pi_cr3 := frame_addr p\<rparr>) ?mem"
    unfolding pt_inv_def
  proof (intro conjI)
    show "\<exists>q A. pool_ok q A R (?info\<lparr>pi_cr3 := frame_addr p\<rparr>) \<and> dom ?T = {q ..< q + A}"
      using alloc(2) info(4) by (intro exI [of _ p] exI [of _ 1]) (auto simp: pool_ok_def)
    show "ran ?T \<subseteq> table_tags N" by (simp add: table_tags_def)
    show "\<exists>r. pi_cr3 (?info\<lparr>pi_cr3 := frame_addr p\<rparr>) = frame_addr r \<and> ?T r = Some (4, 0)" by auto
    show "\<forall>k l n i. ?T k = Some (l, n) \<longrightarrow> i < 512 \<longrightarrow> present (entry_at ?mem k i) \<longrightarrow>
        child_ok ?T l n i (entry_at ?mem k i)"
      using zero by auto
  qed (use assms in auto)
  have none: "st_entry (?info\<lparr>pi_cr3 := frame_addr p\<rparr>, ?mem) w = None" if "w < 2 ^ 36" for w
  proof (rule ccontr)
    assume "st_entry (?info\<lparr>pi_cr3 := frame_addr p\<rparr>, ?mem) w \<noteq> None"
    then obtain e where "page_walk ?mem (pi_cr3 (?info\<lparr>pi_cr3 := frame_addr p\<rparr>)) (frame_addr w) = Some e"
      by (auto simp: st_entry_def)
    from walk_reaches_leaf [OF inv that this] show False by (auto split: if_splits)
  qed
  then have "{w. w < 2 ^ 36 \<and> st_entry (?info\<lparr>pi_cr3 := frame_addr p\<rparr>, ?mem) w \<noteq> None} = {}"
    by (simp only: Collect_empty_eq de_Morgan_conj not_not) (metis (no_types))
  then have "pt_state_ok N R (?info\<lparr>pi_cr3 := frame_addr p\<rparr>, ?mem)"
    using inv info unfolding pt_state_ok_def by (intro conjI exI [of _ ?T]) simp_all
  moreover have "\<forall>w < 2 ^ 36. st_entry (?info\<lparr>pi_cr3 := frame_addr p\<rparr>, ?mem) w = identity_entry [] w"
    using none by (simp add: identity_entry_def)
  ultimately show ?thesis using alloc(1) info(4) by (auto simp: tables_for_def)
qed

section \<open>The whole set-up\<close>

text \<open>
  The ranges the kernel asks for: every descriptor of the memory map it was handed, and the
  framebuffer uncached.
\<close>

definition kernel_ranges :: "efi_memory_map_t \<Rightarrow> framebuffer_t \<Rightarrow> page_range list" where
  "kernel_ranges mmap fb = map descriptor_range (mm_descriptors mmap) @
     [(range_pages (unat (fb_base fb)) (unat (framebuffer_size_bytes fb)),
       PTE_PRESENT OR PTE_RW OR PTE_PWT OR PTE_PCD)]"

definition identity_end :: "efi_memory_map_t \<Rightarrow> framebuffer_t \<Rightarrow> u64 option" where
  "identity_end mmap fb = (case descriptors_max_end (mm_descriptors mmap) 0 of
       None \<Rightarrow> None
     | Some d \<Rightarrow> map_option (\<lambda>f. max d f) (framebuffer_end_checked fb))"

text \<open>
  What the set-up needs of its inputs: five-level paging off, every range below the canonical
  limit, a conventional descriptor with room for the pool that does not start the pool at
  physical address 0, and room for one more descriptor in the map.
\<close>

definition paging_ready :: "efi_memory_map_t \<Rightarrow> framebuffer_t \<Rightarrow> paging_machine \<Rightarrow> bool" where
  "paging_ready mmap fb m \<longleftrightarrow> mmap_wf mmap \<and> pm_cr4 m AND push_bit 12 1 = 0 \<and>
     (case identity_end mmap fb of
        None \<Rightarrow> False
      | Some e \<Rightarrow> (let R = estimate_identity_page_table_pages e in
          (\<exists>d \<in> set (mm_descriptors mmap). pool_candidate R d) \<and>
          (\<forall>d \<in> set (mm_descriptors mmap). pool_candidate R d \<longrightarrow>
             \<not> (md_PhysicalStart d = 0 \<and> md_NumberOfPages d = R)))) \<and>
     (unat (mm_descriptor_count mmap) + 1) * unat (mm_descriptor_size mmap) \<le>
       unat (mm_map_capacity mmap)"

lemma framebuffer_end_Some:
  assumes "framebuffer_end_checked fb = Some e"
  shows "unat e \<le> 2 ^ 47"
    "(unat (fb_base fb) + unat (framebuffer_size_bytes fb) + 4095) div 4096 * 4096 = unat e"
proof -
  from assms have no: "\<not> fb_base fb > NOT 0 - framebuffer_size_bytes fb"
    and up: "align_up_4k_checked (fb_base fb + framebuffer_size_bytes fb) = Some e"
    and lim: "\<not> e > LOW_CANONICAL_LIMIT"
    by (auto simp: framebuffer_end_checked_def Let_def split: if_splits option.splits)
  show "unat e \<le> 2 ^ 47" using lim by (simp add: word_less_nat_alt unat_low_limit)
  have "unat (fb_base fb + framebuffer_size_bytes fb) =
      unat (fb_base fb) + unat (framebuffer_size_bytes fb)"
    using no unat_bound_len [of "framebuffer_size_bytes fb"]
    by (simp add: word_less_nat_alt unat_max_minus unat_word_ariths)
  then show "(unat (fb_base fb) + unat (framebuffer_size_bytes fb) + 4095) div 4096 * 4096 = unat e"
    using align_up_4k_checked_Some [OF up] by simp
qed

lemma identity_end_Some:
  assumes "identity_end mmap fb = Some e"
  obtains d f where "descriptors_max_end (mm_descriptors mmap) 0 = Some d"
    "framebuffer_end_checked fb = Some f" "e = (if f > d then f else d)" "unat e \<le> 2 ^ 47"
    "(unat (fb_base fb) + unat (framebuffer_size_bytes fb) + 4095) div 4096 * 4096 \<le> unat e"
    "\<forall>x \<in> set (mm_descriptors mmap). \<exists>y. descriptor_end_checked x = Some y \<and> unat y \<le> unat e"
proof -
  obtain d f where df: "descriptors_max_end (mm_descriptors mmap) 0 = Some d"
    "framebuffer_end_checked fb = Some f" "e = max d f"
    using assms by (auto simp: identity_end_def split: option.splits)
  have d: "unat d \<le> 2 ^ 47"
    "\<forall>x \<in> set (mm_descriptors mmap). \<exists>y. descriptor_end_checked x = Some y \<and> y \<le> d"
    using descriptors_max_end_Some [OF df(1)] by auto
  have e: "unat d \<le> unat e" "unat f \<le> unat e" "e = (if f > d then f else d)"
    by (auto simp: df(3) max_def simp flip: word_le_nat_alt)
  show thesis
    using that [OF df(1,2) e(3)] d e(1,2) framebuffer_end_Some [OF df(2)] e(3)
    by (fastforce simp: word_le_nat_alt split: if_splits)
qed

lemma select_pool_ready:
  assumes ready: "paging_ready mmap fb m" and e: "identity_end mmap fb = Some e"
  defines "R \<equiv> estimate_identity_page_table_pages e"
  shows "\<exists>mmap' p. select_page_table_pool mmap R info =
      (True, mmap', info\<lparr>pi_pool_end := frame_addr (p + unat R), pi_pool_start := frame_addr p,
         pi_pool_next := frame_addr p, pi_reserved_pages := R\<rparr>) \<and>
    0 < p \<and> p + unat R \<le> 2 ^ 35 \<and> 4096 * (p + unat R) \<le> unat e \<and>
    describes_same (unat e) (mm_descriptors mmap) mmap'"
  using e
proof (rule identity_end_Some)
  assume "unat e \<le> 2 ^ 47"
    "\<forall>x \<in> set (mm_descriptors mmap). \<exists>y. descriptor_end_checked x = Some y \<and> unat y \<le> unat e"
  then show ?thesis
    using ready e unfolding R_def
    by (intro select_page_table_pool_ok) (auto simp: paging_ready_def Let_def)
qed

lemma map_kernel_ranges:
  assumes root: "tables_for N R [] st" and N: "N = (unat e + 4095) div 4096"
    and e: "identity_end mmap fb = Some e"
    and same: "describes_same (unat e) (mm_descriptors mmap) mmap'"
  shows "\<exists>st1 st2. map_descriptors st (live_descriptors mmap') = Some (True, st1) \<and>
    map_identity_range_4k st1 (fb_base fb) (framebuffer_size_bytes fb)
      (PTE_PRESENT OR PTE_RW OR PTE_PWT OR PTE_PCD) = Some (True, st2) \<and>
    tables_for N R (kernel_ranges mmap fb) st2"
proof -
  from e have lim: "unat e \<le> 2 ^ 47" and
    fbend: "(unat (fb_base fb) + unat (framebuffer_size_bytes fb) + 4095) div 4096 * 4096 \<le> unat e"
    by (auto elim: identity_end_Some)
  have N35: "N \<le> 2 ^ 35" using lim by (simp add: N)
  have "unat e \<le> 4096 * N" by (simp add: N)
  then have "\<forall>d \<in> set (live_descriptors mmap').
      unat (md_PhysicalStart d) + unat (md_NumberOfPages d) * 4096 \<le> 4096 * N"
    using same by (fastforce simp: describes_same_def)
  from map_descriptors_tables_for [OF root this N35] obtain st1 where
    st1: "map_descriptors st (live_descriptors mmap') = Some (True, st1)"
    "tables_for N R (map descriptor_range (live_descriptors mmap')) st1" by auto
  have "identity_entry (map descriptor_range (live_descriptors mmap')) w =
      identity_entry (map descriptor_range (mm_descriptors mmap)) w" for w
    using same by (intro identity_entry_cong) (simp add: describes_same_def)
  then have "tables_for N R (map descriptor_range (mm_descriptors mmap)) st1"
    using st1(2) by (simp add: tables_for_def)
  moreover have "(unat (fb_base fb) + unat (framebuffer_size_bytes fb) + 4095) div 4096 \<le> N"
    using fbend by (simp add: N)
  ultimately obtain st2 where "map_identity_range_4k st1 (fb_base fb) (framebuffer_size_bytes fb)
      (PTE_PRESENT OR PTE_RW OR PTE_PWT OR PTE_PCD) = Some (True, st2)"
    "tables_for N R (kernel_ranges mmap fb) st2"
    unfolding kernel_ranges_def using map_range_tables_for flag_words(2) by blast
  with st1(1) show ?thesis by blast
qed

lemma setup_kernel_paging_run:
  assumes ready: "paging_ready mmap fb m"
  shows "\<exists>mmap' info' m' N R. setup_kernel_paging mmap fb m = Some (True, mmap', info', m') \<and>
    pm_cr3 m' = pi_cr3 info' \<and> pi_loaded_cr3 info' = pi_cr3 info' \<and>
    tables_for N R (kernel_ranges mmap fb) (info', pm_store m') \<and>
    describes_same (2 ^ 47) (mm_descriptors mmap) mmap'"
proof -
  obtain e where e: "identity_end mmap fb = Some e"
    using ready by (auto simp: paging_ready_def split: option.splits)
  then obtain d f where df: "descriptors_max_end (mm_descriptors mmap) 0 = Some d"
    "framebuffer_end_checked fb = Some f" "e = (if f > d then f else d)" and lim: "unat e \<le> 2 ^ 47"
    by (rule identity_end_Some)
  let ?R = "estimate_identity_page_table_pages e" and ?N = "(unat e + 4095) div 4096"
  let ?info = "zero_paging_info\<lparr>pi_max_identity_end := e\<rparr>"
  obtain mmap' p where pool: "select_page_table_pool mmap ?R ?info =
      (True, mmap', ?info\<lparr>pi_pool_end := frame_addr (p + unat ?R), pi_pool_start := frame_addr p,
         pi_pool_next := frame_addr p, pi_reserved_pages := ?R\<rparr>)"
    and p: "0 < p" "p + unat ?R \<le> 2 ^ 35" and same: "describes_same (unat e) (mm_descriptors mmap) mmap'"
    using select_pool_ready [OF ready e] by blast
  let ?info1 = "?info\<lparr>pi_pool_end := frame_addr (p + unat ?R), pi_pool_start := frame_addr p,
         pi_pool_next := frame_addr p, pi_reserved_pages := ?R\<rparr>"
  have "?N \<le> 2 ^ 35" "table_cap ?N \<le> unat ?R" using lim by (simp_all add: unat_estimate)
  from root_table_for [OF p this, of ?info1 "pm_store m"] obtain info2 mem where
    root: "alloc_page_table_page (?info1, pm_store m) = (frame_addr p, info2, mem)"
    "tables_for ?N (unat ?R) [] (info2\<lparr>pi_cr3 := frame_addr p\<rparr>, mem)"
    by (auto simp: zero_paging_info_def c_const)
  from map_kernel_ranges [OF root(2) refl e same] obtain i1 s1 i2 s2 where
    runs: "map_descriptors (info2\<lparr>pi_cr3 := frame_addr p\<rparr>, mem) (live_descriptors mmap') = Some (True, i1, s1)"
    "map_identity_range_4k (i1, s1) (fb_base fb) (framebuffer_size_bytes fb)
      (PTE_PRESENT OR PTE_RW OR PTE_PWT OR PTE_PCD) = Some (True, i2, s2)"
    "tables_for ?N (unat ?R) (kernel_ranges mmap fb) (i2, s2)" by auto
  have "frame_addr p \<noteq> 0" using p by (simp add: frame_addr_0_iff)
  moreover have wf: "mmap_wf mmap" "pm_cr4 m AND push_bit 12 1 = 0"
    using ready by (simp_all add: paging_ready_def)
  ultimately have "setup_kernel_paging mmap fb m = Some (True, mmap', i2\<lparr>pi_loaded_cr3 := pi_cr3 i2\<rparr>,
      m\<lparr>pm_store := s2, pm_cr3 := pi_cr3 i2\<rparr>)"
    using pool root(1) runs(1,2) df(1,2)
    by (simp add: setup_kernel_paging_def live_descriptors_wf Let_def flip: df(3))
  moreover have "tables_for ?N (unat ?R) (kernel_ranges mmap fb) (i2\<lparr>pi_loaded_cr3 := pi_cr3 i2\<rparr>, s2)"
    using runs(3) by (auto simp: tables_for_def pt_state_ok_def pt_inv_def pool_ok_def st_entry_def)
  moreover have "describes_same (2 ^ 47) (mm_descriptors mmap) mmap'"
    using same lim unfolding describes_same_def by (meson le_trans)
  ultimately show ?thesis by fastforce
qed

section \<open>Properties\<close>

text \<open>
  C4. Setting up paging on a machine that is ready for it succeeds, with no error recorded and
  the new root loaded in \<^verbatim>\<open>CR3\<close>, and the page walk of the processor over the tables in
  memory then gives, for every virtual page below the canonical limit, exactly the entry of the
  specification: the page itself with the flags of all the ranges it lies in when some descriptor
  of the memory map or the framebuffer covers it, and no translation otherwise. The count of mapped
  pages is the number of translated pages. In particular the estimated pool never runs out.
\<close>

theorem setup_kernel_paging_maps_identity:
  assumes "paging_ready mmap fb m"
  shows "\<exists>mmap' info' m'. setup_kernel_paging mmap fb m = Some (True, mmap', info', m') \<and>
    pi_error info' = PAGING_OK \<and> pm_cr3 m' = pi_cr3 info' \<and> pi_loaded_cr3 info' = pi_cr3 info' \<and>
    (\<forall>w < 2 ^ 36. page_walk (pm_store m') (pm_cr3 m') (frame_addr w) =
       identity_entry (kernel_ranges mmap fb) w) \<and>
    unat (pi_mapped_pages info') =
      card {w. w < 2 ^ 36 \<and> identity_entry (kernel_ranges mmap fb) w \<noteq> None}"
proof -
  obtain mmap' info' m' N R where run: "setup_kernel_paging mmap fb m = Some (True, mmap', info', m')"
    "pm_cr3 m' = pi_cr3 info'" "pi_loaded_cr3 info' = pi_cr3 info'"
    and tab: "tables_for N R (kernel_ranges mmap fb) (info', pm_store m')"
    using setup_kernel_paging_run [OF assms] by blast
  have entries: "\<forall>w < 2 ^ 36. st_entry (info', pm_store m') w = identity_entry (kernel_ranges mmap fb) w"
    using tab unfolding tables_for_def by blast
  then have "{w. w < 2 ^ 36 \<and> st_entry (info', pm_store m') w \<noteq> None} =
      {w. w < 2 ^ 36 \<and> identity_entry (kernel_ranges mmap fb) w \<noteq> None}"
    by (intro Collect_cong conj_cong) simp_all
  moreover have "\<forall>w < 2 ^ 36. page_walk (pm_store m') (pm_cr3 m') (frame_addr w) =
       identity_entry (kernel_ranges mmap fb) w"
    using entries by (simp add: st_entry_def run(2))
  ultimately show ?thesis
    using run tab by (simp add: tables_for_def pt_state_ok_def)
qed

text \<open>A machine with one conventional descriptor of 64 pages at 1 MiB and a framebuffer at 2 MiB.\<close>

definition example_map :: efi_memory_map_t where
  "example_map = \<lparr>mm_descriptors = [\<lparr>md_Type = EfiConventionalMemory, md_Pad = 0,
       md_PhysicalStart = 0x100000, md_VirtualStart = 0, md_NumberOfPages = 64, md_Attribute = 15\<rparr>],
     mm_map_size = 48, mm_map_capacity = 4096, mm_descriptor_size = 48,
     mm_descriptor_version = 1, mm_descriptor_count = 1\<rparr>"

definition example_fb :: framebuffer_t where
  "example_fb = \<lparr>fb_base = 0x200000, fb_width = 640, fb_height = 480, fb_stride = 640,
     fb_size = 0x12C000, fb_format = 1\<rparr>"

definition example_machine :: paging_machine where
  "example_machine = \<lparr>pm_cr3 = 0, pm_cr4 = 0x668, pm_store = (\<lambda>_. 0)\<rparr>"

lemma example_ready: "paging_ready example_map example_fb example_machine"
proof -
  have e: "identity_end example_map example_fb = Some 0x32C000"
    by code_simp
  have R: "estimate_identity_page_table_pages 0x32C000 = 21" by code_simp
  show ?thesis
    unfolding paging_ready_def e option.case Let_def R
    by (simp add: example_map_def example_machine_def mmap_wf_def pool_candidate_def)
qed

theorem setup_kernel_paging_maps_identity_witness:
  "\<exists>mmap' info' m'. setup_kernel_paging example_map example_fb example_machine =
      Some (True, mmap', info', m') \<and>
    page_walk (pm_store m') (pm_cr3 m') (frame_addr 0x100) = Some 0x100003 \<and>
    page_walk (pm_store m') (pm_cr3 m') (frame_addr 0x200) = Some 0x20001B \<and>
    page_walk (pm_store m') (pm_cr3 m') (frame_addr 0x140) = None"
proof -
  let ?rs = "kernel_ranges example_map example_fb"
  have rs: "?rs = [({0x100 ..< 0x140}, 3), ({0x200 ..< 0x32C}, 0x1B)]"
    by (simp add: kernel_ranges_def example_map_def example_fb_def descriptor_range_def
        range_pages_def framebuffer_size_bytes_def page_flags_for_memory_type_def c_const)
  have "identity_entry ?rs 0x100 = Some 0x100003" "identity_entry ?rs 0x200 = Some 0x20001B"
    "identity_entry ?rs 0x140 = None"
    by (simp_all add: rs identity_entry_def frame_addr_def)
  then show ?thesis
    using setup_kernel_paging_maps_identity [OF example_ready] by auto
qed

text \<open>The mapping loop returns for every range below the canonical limit, whatever the tables hold.\<close>

lemma map_identity_loop_returns:
  assumes "a \<le> b" "b \<le> 2 ^ 35"
  shows "\<exists>r. map_identity_loop st (frame_addr a) (frame_addr b) f = Some r"
  using assms(1)
proof (induction "b - a" arbitrary: st a)
  case 0
  then have "\<not> frame_addr a < frame_addr b" by simp
  then show ?case by (subst map_identity_loop.simps) auto
next
  case (Suc d)
  then have "d = b - Suc a" "Suc a \<le> b" by simp_all
  from Suc.hyps(1) [OF this] show ?case
    by (subst map_identity_loop.simps) (auto simp: frame_addr_add)
qed

lemma map_identity_range_returns: "\<exists>r. map_identity_range_4k st start bytes f = Some r"
proof -
  obtain info mem where st: "st = (info, mem)" by (cases st)
  have "\<exists>r. map_identity_loop st' (align_down_4k start) e f = Some r"
    if up: "align_up_4k_checked (start + bytes) = Some e" and lim: "\<not> e > LOW_CANONICAL_LIMIT"
      and no: "\<not> start > NOT 0 - bytes" for st' e
  proof -
    let ?a = "unat start div 4096" and ?b = "(unat (start + bytes) + 4095) div 4096"
    have "unat start \<le> unat (start + bytes)"
      using no unat_bound_len [of bytes] by (simp add: word_less_nat_alt unat_max_minus unat_word_ariths)
    then have ab: "?a \<le> ?b" by (intro div_le_mono) simp
    have e: "unat e = 4096 * ?b" using align_up_4k_checked_Some [OF up] by (simp only: mult.commute)
    then have "?b \<le> 2 ^ 35" using lim by (simp add: word_less_nat_alt unat_low_limit)
    moreover have "align_down_4k start = frame_addr ?a"
      by (rule frame_addr_unat) (simp add: unat_align_down_4k)
    ultimately show ?thesis
      using map_identity_loop_returns [OF ab] frame_addr_unat [OF e] by simp
  qed
  then show ?thesis
    by (auto simp: map_identity_range_4k_def st Let_def split: option.split)
qed

lemma map_descriptors_returns: "\<exists>r. map_descriptors st ds = Some r"
proof (induction ds arbitrary: st)
  case (Cons d ds)
  obtain ok st1 where "map_identity_range_4k st (md_PhysicalStart d) (md_NumberOfPages d * PAGE_SIZE_4K)
      (page_flags_for_memory_type (md_Type d)) = Some (ok, st1)"
    using map_identity_range_returns by fastforce
  then show ?case using Cons by (cases ok) auto
qed auto

text \<open>
  C19. The set-up always returns, for every memory map, framebuffer and memory content, and it
  never leaves the processor on unfinished tables: when it reports failure \<^verbatim>\<open>CR3\<close> still
  holds what it held before, and when it reports success \<^verbatim>\<open>CR3\<close> holds the new root.
\<close>

theorem setup_kernel_paging_returns:
  "\<exists>ok mmap' info' m'. setup_kernel_paging mmap fb m = Some (ok, mmap', info', m') \<and>
     pm_cr4 m' = pm_cr4 m \<and>
     (if ok then pm_cr3 m' = pi_cr3 info' \<and> pi_loaded_cr3 info' = pi_cr3 info' else pm_cr3 m' = pm_cr3 m)"
proof -
  define P where "P r \<longleftrightarrow> (\<exists>ok mmap' info' m'. r = Some (ok, mmap', info', m') \<and> pm_cr4 m' = pm_cr4 m \<and>
     (if ok then pm_cr3 m' = pi_cr3 info' \<and> pi_loaded_cr3 info' = pi_cr3 info' else pm_cr3 m' = pm_cr3 m))"
    for r :: "(bool \<times> efi_memory_map_t \<times> paging_info_t \<times> paging_machine) option"
  have fail: "P (Some (False, mmap', info', m))" "P (Some (False, mmap', info', m\<lparr>pm_store := mem\<rparr>))"
    for mmap' info' mem by (auto simp: P_def)
  have succ: "P (Some (True, mmap', i\<lparr>pi_loaded_cr3 := pi_cr3 i\<rparr>, m\<lparr>pm_store := mem, pm_cr3 := pi_cr3 i\<rparr>))"
    for mmap' i mem by (auto simp: P_def)
  have ranges: "map_identity_range_4k st s b f \<noteq> None" "map_descriptors st ds \<noteq> None" for st s b f ds
    using map_identity_range_returns [of st s b f] map_descriptors_returns [of st ds] by auto
  have "P (setup_kernel_paging mmap fb m)"
    unfolding setup_kernel_paging_def Let_def
    by (simp add: fail succ ranges split: option.split prod.split bool.split)
  then show ?thesis by (simp only: P_def)
qed

section \<open>A pool that starts at physical address 0\<close>

text \<open>
  The allocator reports failure by returning address 0, so a pool whose first page is physical
  page 0 is refused, and no error code is recorded. The search takes the candidate with the lowest
  start, so a candidate at address 0 is always taken.
\<close>

lemma select_pool_loop_lowest:
  assumes wf: "mmap_wf mmap"
    and "select_pool_loop mmap R is (found, s, e, j) = Some (found', s', e', j')"
    and "\<forall>i \<in> set is. i < length (mm_descriptors mmap)"
    and "found \<and> s = 0 \<or> (\<exists>i \<in> set is. pool_candidate R (mm_descriptors mmap ! i) \<and>
      md_PhysicalStart (mm_descriptors mmap ! i) = 0)"
  shows "found' \<and> s' = 0"
  using assms(2-4)
proof (induction "is" arbitrary: found s e j)
  case (Cons i "is")
  let ?d = "mm_descriptors mmap ! i"
  have at: "memory_desc_at mmap (word_of_nat i) = ?d" using desc_at_of_nat [OF wf] Cons.prems(2) by simp
  show ?case
  proof (cases "pool_candidate R ?d")
    case False
    then have "select_pool_loop mmap R is (found, s, e, j) = Some (found', s', e', j')"
      using Cons.prems(1) by (auto simp: at Let_def pool_candidate_def not_le split: if_splits)
    moreover have "found \<and> s = 0 \<or> (\<exists>i \<in> set is. pool_candidate R (mm_descriptors mmap ! i) \<and>
        md_PhysicalStart (mm_descriptors mmap ! i) = 0)"
      using Cons.prems(3) False by auto
    ultimately show ?thesis using Cons.IH [of found s e j] Cons.prems(2) by simp
  next
    case True
    then obtain x where x: "descriptor_end_checked ?d = Some x"
      using Cons.prems(1) by (auto simp: at Let_def pool_candidate_def split: option.splits if_splits)
    let ?take = "\<not> found \<or> md_PhysicalStart ?d < s"
    let ?sel = "if ?take then (True, md_PhysicalStart ?d, x, i) else (found, s, e, j)"
    obtain f2 s2 e2 j2 where sel: "?sel = (f2, s2, e2, j2)" by (metis prod_cases4)
    have "select_pool_loop mmap R is (f2, s2, e2, j2) = Some (found', s', e', j')"
      unfolding sel [symmetric] using Cons.prems(1) True x by (auto simp: at Let_def pool_candidate_def split: if_splits)
    moreover have "f2 \<and> s2 = 0 \<or> (\<exists>i \<in> set is. pool_candidate R (mm_descriptors mmap ! i) \<and>
        md_PhysicalStart (mm_descriptors mmap ! i) = 0)"
      using Cons.prems(3) sel by (auto split: if_splits simp: not_less)
    ultimately show ?thesis using Cons.IH [of f2 s2 e2 j2] Cons.prems(2) by simp
  qed
qed simp

lemma select_pool_at_zero:
  assumes wf: "mmap_wf mmap"
    and ends: "\<forall>d \<in> set (mm_descriptors mmap). \<exists>x. descriptor_end_checked d = Some x"
    and low: "\<exists>d \<in> set (mm_descriptors mmap). pool_candidate R d \<and> md_PhysicalStart d = 0"
    and exact: "\<forall>d \<in> set (mm_descriptors mmap). pool_candidate R d \<and> md_PhysicalStart d = 0 \<longrightarrow> md_NumberOfPages d = R"
  shows "\<exists>mmap'. select_page_table_pool mmap R info = (True, mmap', info\<lparr>pi_pool_end := R * PAGE_SIZE_4K,
      pi_pool_start := 0, pi_pool_next := 0, pi_reserved_pages := R\<rparr>)"
proof -
  let ?xs = "mm_descriptors mmap"
  have len: "length ?xs = unat (mm_descriptor_count mmap)" using wf by (simp add: mmap_wf_def)
  from low obtain k where k: "k < length ?xs" "pool_candidate R (?xs ! k)" "md_PhysicalStart (?xs ! k) = 0"
    by (auto simp: in_set_conv_nth)
  from select_pool_loop_ok [OF wf ends, of "[0..<length ?xs]" R "(False, 0, 0, 0)"]
  obtain found s e i where loop: "select_pool_loop mmap R [0..<length ?xs] (False, 0, 0, 0) = Some (found, s, e, i)"
    and choice: "pool_choice mmap R (found, s, e, i)"
    by (auto simp: pool_choice_def)
  have "\<exists>i \<in> set [0..<length ?xs]. pool_candidate R (?xs ! i) \<and> md_PhysicalStart (?xs ! i) = 0"
    using k by (intro bexI [of _ k]) simp_all
  then have sel: "found" "s = 0" using select_pool_loop_lowest [OF wf loop] by auto
  let ?d = "?xs ! i"
  have i: "i < length ?xs" and d: "pool_candidate R ?d" "md_PhysicalStart ?d = 0" "descriptor_end_checked ?d = Some e"
    using choice sel by (simp_all add: pool_choice_def)
  have pages: "md_NumberOfPages ?d = R" using exact d(1,2) i by simp
  then have "e = R * PAGE_SIZE_4K"
    using d(2,3) by (auto simp: descriptor_end_checked_def Let_def split: if_splits)
  then show ?thesis
    using loop sel pages desc_at_of_nat [OF wf i]
    by (simp add: select_page_table_pool_def len Let_def)
qed

text \<open>
  C39. Whenever the lowest descriptor that can hold the pool starts at physical address 0 and has exactly the
  estimated number of pages, the set-up takes the pool, fails at its first page and reports the error code that
  means success; one page counts as allocated, and \<^verbatim>\<open>CR3\<close> is unchanged.
\<close>

theorem setup_pool_at_zero_reports_no_error:
  assumes "mmap_wf mmap" "pm_cr4 m AND push_bit 12 1 = 0" "identity_end mmap fb = Some e"
    and "R = estimate_identity_page_table_pages e"
    and "\<exists>d \<in> set (mm_descriptors mmap). pool_candidate R d \<and> md_PhysicalStart d = 0"
    and "\<forall>d \<in> set (mm_descriptors mmap). pool_candidate R d \<and> md_PhysicalStart d = 0 \<longrightarrow> md_NumberOfPages d = R"
  shows "\<exists>mmap' info' m'. setup_kernel_paging mmap fb m = Some (False, mmap', info', m') \<and>
     pi_error info' = PAGING_OK \<and> pi_reserved_pages info' = R \<and> pi_pool_start info' = 0 \<and>
     pi_allocated_pages info' = 1 \<and> pm_cr3 m' = pm_cr3 m"
  using assms(3)
proof (rule identity_end_Some)
  fix d f
  assume e: "descriptors_max_end (mm_descriptors mmap) 0 = Some d" "framebuffer_end_checked fb = Some f"
      "e = (if f > d then f else d)"
    and ends: "\<forall>x \<in> set (mm_descriptors mmap). \<exists>y. descriptor_end_checked x = Some y \<and> unat y \<le> unat e"
  obtain mmap' where sel: "select_page_table_pool mmap R (zero_paging_info\<lparr>pi_max_identity_end := e\<rparr>) =
      (True, mmap', zero_paging_info\<lparr>pi_max_identity_end := e, pi_pool_end := R * PAGE_SIZE_4K,
        pi_pool_start := 0, pi_pool_next := 0, pi_reserved_pages := R\<rparr>)"
    using select_pool_at_zero [OF assms(1) _ assms(5,6), of "zero_paging_info\<lparr>pi_max_identity_end := e\<rparr>"] ends by fastforce
  show ?thesis
    using assms(2) e(1,2) sel
    by (simp add: setup_kernel_paging_def live_descriptors_wf [OF assms(1)] e(3) [symmetric] assms(4) [symmetric]
        alloc_page_table_page_def Let_def)
      (simp add: zero_paging_info_def c_const)
qed

text \<open>A machine whose only memory is the pool.\<close>

definition low_map :: efi_memory_map_t where
  "low_map = \<lparr>mm_descriptors = [\<lparr>md_Type = EfiConventionalMemory, md_Pad = 0,
       md_PhysicalStart = 0, md_VirtualStart = 0, md_NumberOfPages = 20, md_Attribute = 15\<rparr>],
     mm_map_size = 48, mm_map_capacity = 4096, mm_descriptor_size = 48,
     mm_descriptor_version = 1, mm_descriptor_count = 1\<rparr>"

definition low_fb :: framebuffer_t where
  "low_fb = \<lparr>fb_base = 0x14000, fb_width = 1, fb_height = 1, fb_stride = 1, fb_size = 4096, fb_format = 1\<rparr>"

theorem setup_pool_at_zero_reports_no_error_witness:
  "\<exists>mmap' info' m'. setup_kernel_paging low_map low_fb example_machine = Some (False, mmap', info', m') \<and>
     pi_error info' = PAGING_OK \<and> pi_reserved_pages info' = 20"
proof -
  have e: "identity_end low_map low_fb = Some 0x15000" "20 = estimate_identity_page_table_pages 0x15000"
    "pm_cr4 example_machine AND push_bit 12 1 = 0" by code_simp+
  have wf: "mmap_wf low_map" by (simp add: mmap_wf_def low_map_def)
  have pool: "\<exists>d \<in> set (mm_descriptors low_map). pool_candidate 20 d \<and> md_PhysicalStart d = 0"
    "\<forall>d \<in> set (mm_descriptors low_map). pool_candidate 20 d \<and> md_PhysicalStart d = 0 \<longrightarrow> md_NumberOfPages d = 20"
    by (simp_all add: low_map_def pool_candidate_def)
  show ?thesis
    using setup_pool_at_zero_reports_no_error [OF wf e(3,1,2) pool] by blast
qed

end
