(* ===== verification/Boot_Services.thy ===== *)
theory Boot_Services
  imports Trampoline Paging_Boot
begin

text \<open>
  Leaving the firmware (\<^verbatim>\<open>kernel/kernel.c\<close>, \<^verbatim>\<open>exit_boot_services\<close>). The boot services the
  kernel calls are parameters: a record of functions that take the state of the firmware, of an
  arbitrary type, and return their results and the next state. What the UEFI specification promises of
  them is the predicate \<open>uefi_map_laws\<close>. The lemmas show that the kernel leaves the firmware
  only with the memory map that is valid at that moment, and that it succeeds when the map changes
  fewer than eight times.
\<close>

definition EFI_BUFFER_TOO_SMALL :: u64 where [c_const]: "EFI_BUFFER_TOO_SMALL = 0x8000000000000005"

text \<open>The out parameters of \<^verbatim>\<open>GetMemoryMap\<close>, and the descriptors it leaves in the buffer.\<close>

record memory_map_reply =
  mr_status :: u64
  mr_map_size :: u64
  mr_map_key :: u64
  mr_descriptor_size :: u64
  mr_descriptor_version :: u32
  mr_descriptors :: "efi_memory_descriptor list"

record 'w boot_services =
  bs_GetMemoryMap :: "u64 \<Rightarrow> 'w \<Rightarrow> memory_map_reply \<times> 'w"
  bs_AllocatePool :: "u32 \<Rightarrow> u64 \<Rightarrow> 'w \<Rightarrow> u64 \<times> 'w"
  bs_ExitBootServices :: "u64 \<Rightarrow> 'w \<Rightarrow> u64 \<times> 'w"

text \<open>
  The loop of at most eight attempts: \<open>status\<close> is the value of the variable when the loop ends
  without a success, \<open>map_size\<close> the size of the buffer.
\<close>

fun exit_attempts ::
    "'w boot_services \<Rightarrow> u64 \<Rightarrow> nat \<Rightarrow> u64 \<Rightarrow> efi_memory_map_t \<Rightarrow> 'w \<Rightarrow> (u64 \<times> efi_memory_map_t) \<times> 'w" where
  "exit_attempts bs map_size 0 status out_map w = ((status, out_map), w)"
| "exit_attempts bs map_size (Suc n) status out_map w =
     (case bs_GetMemoryMap bs map_size w of (r, w) \<Rightarrow>
        if mr_status r = EFI_BUFFER_TOO_SMALL then ((mr_status r, out_map), w)
        else if mr_status r \<noteq> EFI_SUCCESS then ((mr_status r, out_map), w)
        else case bs_ExitBootServices bs (mr_map_key r) w of (status, w) \<Rightarrow>
          if status = EFI_SUCCESS
          then ((EFI_SUCCESS, out_map\<lparr>mm_descriptors := mr_descriptors r, mm_map_size := mr_map_size r,
                  mm_map_capacity := map_size, mm_descriptor_size := mr_descriptor_size r,
                  mm_descriptor_version := mr_descriptor_version r,
                  mm_descriptor_count := mr_map_size r div mr_descriptor_size r\<rparr>), w)
          else exit_attempts bs map_size n status out_map w)"

definition exit_boot_services ::
    "'w boot_services \<Rightarrow> efi_memory_map_t \<Rightarrow> 'w \<Rightarrow> (u64 \<times> efi_memory_map_t) \<times> 'w" where
  "exit_boot_services bs out_map w =
     (case bs_GetMemoryMap bs 0 w of (r, w) \<Rightarrow>
        if mr_status r \<noteq> EFI_BUFFER_TOO_SMALL then ((mr_status r, out_map), w)
        else let map_size = mr_map_size r + mr_descriptor_size r * 16
             in case bs_AllocatePool bs EfiLoaderData map_size w of (status, w) \<Rightarrow>
               if status \<noteq> EFI_SUCCESS then ((status, out_map), w)
               else exit_attempts bs map_size 8 status out_map w)"

section \<open>What the firmware promises\<close>

text \<open>
  \<open>map_of_key\<close> is the memory map a key stands for, \<open>live\<close> tells that boot services are still
  available, and \<open>final_map\<close> is the memory map in force once they are not. A successful
  \<^verbatim>\<open>GetMemoryMap\<close> fills the buffer with the map its key stands for, which is not empty, at most as many bytes as there is
  room for; \<^verbatim>\<open>ExitBootServices\<close> succeeds only with the key of the map in force, and only it ends the
  boot services.
\<close>

definition uefi_map_laws ::
    "'w boot_services \<Rightarrow> (u64 \<Rightarrow> efi_memory_descriptor list) \<Rightarrow> ('w \<Rightarrow> bool) \<Rightarrow> ('w \<Rightarrow> efi_memory_descriptor list) \<Rightarrow> bool" where
  "uefi_map_laws bs map_of_key live final_map \<longleftrightarrow>
     (\<forall>size w r w'. bs_GetMemoryMap bs size w = (r, w') \<longrightarrow> (live w' \<longleftrightarrow> live w)
        \<and> (mr_status r = EFI_SUCCESS \<longrightarrow> mr_descriptors r = map_of_key (mr_map_key r) \<and> mr_descriptors r \<noteq> []
            \<and> unat (mr_map_size r) = length (mr_descriptors r) * unat (mr_descriptor_size r)
            \<and> mr_descriptor_size r \<noteq> 0 \<and> mr_map_size r \<le> size))
   \<and> (\<forall>type size w status w'. bs_AllocatePool bs type size w = (status, w') \<longrightarrow> (live w' \<longleftrightarrow> live w))
   \<and> (\<forall>key w status w'. bs_ExitBootServices bs key w = (status, w') \<longrightarrow>
        (if status = EFI_SUCCESS then \<not> live w' \<and> final_map w' = map_of_key key else (live w' \<longleftrightarrow> live w)))"

text \<open>What leaving the boot services must have achieved when it reports success, and else.\<close>

definition left_firmware ::
    "('w \<Rightarrow> bool) \<Rightarrow> ('w \<Rightarrow> efi_memory_descriptor list) \<Rightarrow> (u64 \<times> efi_memory_map_t) \<times> 'w \<Rightarrow> bool" where
  "left_firmware live final_map res =
     (case res of ((status, mmap), w) \<Rightarrow>
        if status = EFI_SUCCESS
        then \<not> live w \<and> mm_descriptors mmap = final_map w
          \<and> unat (mm_descriptor_count mmap) = length (mm_descriptors mmap)
          \<and> unat (mm_descriptor_count mmap) * unat (mm_descriptor_size mmap) = unat (mm_map_size mmap)
          \<and> mm_map_size mmap \<le> mm_map_capacity mmap
        else live w)"

lemma exit_attempts_left:
  assumes "uefi_map_laws bs map_of_key live final_map" "live w" "status \<noteq> EFI_SUCCESS \<or> 0 < n"
  shows "left_firmware live final_map (exit_attempts bs map_size n status out_map w)"
  using assms(2,3)
proof (induction n arbitrary: status w)
  case 0
  then show ?case by (simp add: left_firmware_def)
next
  case (Suc n)
  obtain r w1 where r: "bs_GetMemoryMap bs map_size w = (r, w1)" by fastforce
  obtain status2 w2 where x: "bs_ExitBootServices bs (mr_map_key r) w1 = (status2, w2)" by fastforce
  have live1: "live w1"
    and reply: "mr_status r = EFI_SUCCESS \<Longrightarrow> mr_descriptors r = map_of_key (mr_map_key r)
      \<and> unat (mr_map_size r) = length (mr_descriptors r) * unat (mr_descriptor_size r)
      \<and> mr_descriptor_size r \<noteq> 0 \<and> mr_map_size r \<le> map_size"
    using assms(1) r Suc.prems(1) unfolding uefi_map_laws_def by blast+
  have exit: "if status2 = EFI_SUCCESS then \<not> live w2 \<and> final_map w2 = map_of_key (mr_map_key r) else live w2"
    using assms(1) x live1 unfolding uefi_map_laws_def by (metis (no_types, lifting))
  show ?case
  proof (cases "mr_status r = EFI_SUCCESS \<and> status2 = EFI_SUCCESS")
    case True
    then have "unat (mr_map_size r div mr_descriptor_size r) = length (mr_descriptors r)"
      using reply by (simp add: unat_div_distrib unat_gt_0)
    then show ?thesis
      using True reply exit by (simp add: r x left_firmware_def c_const EFI_SUCCESS_def)
  next
    case False
    then show ?thesis
      using Suc.IH [of w2 status2] exit live1 by (auto simp: r x left_firmware_def c_const EFI_SUCCESS_def)
  qed
qed

text \<open>
  C6. The kernel never goes on with a stale memory map: whenever leaving the boot services reports
  success, the firmware has really ended them, the map the kernel keeps is the one in force at that
  moment, its descriptor count is the number of its descriptors, and it lies within the buffer; whenever
  an error is reported the boot services are still available.
\<close>

theorem exit_boot_services_keeps_current_map:
  assumes "uefi_map_laws bs map_of_key live final_map" "live w"
  shows "left_firmware live final_map (exit_boot_services bs out_map w)"
proof -
  obtain r w1 where r: "bs_GetMemoryMap bs 0 w = (r, w1)" by fastforce
  define cap where "cap = mr_map_size r + mr_descriptor_size r * 16"
  obtain status w2 where a: "bs_AllocatePool bs EfiLoaderData cap w1 = (status, w2)" by fastforce
  have "live w1" "mr_status r \<noteq> EFI_SUCCESS"
    using assms r unfolding uefi_map_laws_def
    by (blast, metis length_0_conv mult_eq_0_iff unat_eq_zero word_le_0_iff)
  moreover have "live w2"
    using assms(1) a \<open>live w1\<close> unfolding uefi_map_laws_def by (metis (no_types, lifting))
  ultimately show ?thesis
    using exit_attempts_left [OF assms(1), of w2 status 8 cap out_map]
    by (auto simp: exit_boot_services_def r cap_def [symmetric] a left_firmware_def [of _ _ "((_, _), _)"])
qed

section \<open>A map that settles\<close>

text \<open>
  \<open>pending\<close> bounds how often the memory map can still change under the kernel: a failed exit means
  that it has changed. The buffer is large enough when the map never grows by more than the sixteen
  descriptors the kernel leaves room for.
\<close>

definition settles :: "'w boot_services \<Rightarrow> ('w \<Rightarrow> nat) \<Rightarrow> u64 \<Rightarrow> bool" where
  "settles bs pending cap \<longleftrightarrow>
     (\<forall>w r w'. bs_GetMemoryMap bs cap w = (r, w') \<longrightarrow> mr_status r = EFI_SUCCESS \<and> pending w' \<le> pending w)
   \<and> (\<forall>type w status w'. bs_AllocatePool bs type cap w = (status, w') \<longrightarrow> status = EFI_SUCCESS \<and> pending w' \<le> pending w)
   \<and> (\<forall>key w status w'. bs_ExitBootServices bs key w = (status, w') \<longrightarrow> status \<noteq> EFI_SUCCESS \<longrightarrow> pending w' < pending w)"

lemma exit_attempts_succeed:
  assumes "settles bs pending cap" "pending w < n"
  shows "fst (fst (exit_attempts bs cap n status out_map w)) = EFI_SUCCESS"
  using assms(2)
proof (induction n arbitrary: status w)
  case (Suc n)
  obtain r w1 where r: "bs_GetMemoryMap bs cap w = (r, w1)" by fastforce
  obtain status2 w2 where x: "bs_ExitBootServices bs (mr_map_key r) w1 = (status2, w2)" by fastforce
  have "mr_status r = EFI_SUCCESS" "pending w1 \<le> pending w" "status2 \<noteq> EFI_SUCCESS \<Longrightarrow> pending w2 < pending w1"
    using assms(1) r x unfolding settles_def by blast+
  then show ?case
    using Suc.IH [of w2 status2] Suc.prems by (auto simp: r x c_const)
qed simp

text \<open>
  C18. The kernel gets out of the firmware when the memory map settles: if the first call tells the size
  of the map, the pool can be allocated, the map always fits the buffer with its room for sixteen more
  descriptors, and the map changes fewer than eight times under the kernel, then leaving the boot
  services succeeds.
\<close>

theorem exit_boot_services_succeeds:
  assumes "bs_GetMemoryMap bs 0 w = (r, w1)" "mr_status r = EFI_BUFFER_TOO_SMALL"
    and "settles bs pending (mr_map_size r + mr_descriptor_size r * 16)" "pending w1 < 8"
  shows "fst (fst (exit_boot_services bs out_map w)) = EFI_SUCCESS"
proof -
  let ?cap = "mr_map_size r + mr_descriptor_size r * 16"
  obtain status w2 where a: "bs_AllocatePool bs EfiLoaderData ?cap w1 = (status, w2)" by fastforce
  then have "status = EFI_SUCCESS" "pending w2 < 8"
    using assms(3,4) unfolding settles_def by (blast, metis le_less_trans)
  then show ?thesis
    using exit_attempts_succeed [OF assms(3), of w2 8] by (simp add: exit_boot_services_def assms(1,2) a)
qed

text \<open>A firmware whose map changes a given number of times.\<close>

definition example_descriptor :: efi_memory_descriptor where
  "example_descriptor = \<lparr>md_Type = EfiConventionalMemory, md_Pad = 0, md_PhysicalStart = 0x100000,
     md_VirtualStart = 0, md_NumberOfPages = 64, md_Attribute = 15\<rparr>"

definition example_services :: "(nat \<times> bool) boot_services" where
  "example_services = \<lparr>
     bs_GetMemoryMap = (\<lambda>cap w. (\<lparr>mr_status = (if 48 \<le> cap then EFI_SUCCESS else EFI_BUFFER_TOO_SMALL),
        mr_map_size = 48, mr_map_key = 7, mr_descriptor_size = 48, mr_descriptor_version = 1,
        mr_descriptors = (if 48 \<le> cap then [example_descriptor] else [])\<rparr>, w)),
     bs_AllocatePool = (\<lambda>type cap w. (EFI_SUCCESS, w)),
     bs_ExitBootServices = (\<lambda>key (n, live). if n = 0 then (EFI_SUCCESS, (0, False))
        else (0x8000000000000002, (n - 1, live)))\<rparr>"

lemma example_services_laws:
  "uefi_map_laws example_services (\<lambda>_. [example_descriptor]) snd (\<lambda>_. [example_descriptor])"
  by (auto simp: uefi_map_laws_def example_services_def c_const split: if_splits)

lemma example_services_settle: "settles example_services fst (48 + 48 * 16)"
  by (auto simp: settles_def example_services_def c_const split: if_splits)

theorem exit_boot_services_keeps_current_map_witness:
  "snd (3 :: nat, True) \<and>
   left_firmware snd (\<lambda>_. [example_descriptor]) (exit_boot_services example_services example_map (3, True))"
  using exit_boot_services_keeps_current_map [OF example_services_laws, of "(3, True)" example_map] by simp

theorem exit_boot_services_succeeds_witness:
  "fst (fst (exit_boot_services example_services example_map (7, True))) = EFI_SUCCESS"
proof -
  obtain r where r: "bs_GetMemoryMap example_services 0 (7, True) = (r, (7, True))"
    "mr_status r = EFI_BUFFER_TOO_SMALL" "mr_map_size r = 48" "mr_descriptor_size r = 48"
    by (simp add: example_services_def)
  show ?thesis
    by (rule exit_boot_services_succeeds [OF r(1,2), where pending = fst])
      (use example_services_settle in \<open>simp_all add: r(3,4)\<close>)
qed

end
