(* ===== verification/Format_Text.thy ===== *)
theory Format_Text
  imports Vibe_Prelude
begin

text \<open>
  Building a line of text (\<^verbatim>\<open>kernel/kernel.c\<close>, the \<^verbatim>\<open>append_\<close> functions). The pointer into
  the buffer is the list of the characters written so far; every function ends with the terminating
  zero at the position it returns, so a line of \<open>n\<close> characters needs a buffer of \<open>n + 1\<close>.
  The lemmas show that decimal and hexadecimal text reads back as the number printed, and bound
  how far every function moves the pointer (the collection \<open>text_bounds\<close>).
\<close>

section \<open>Characters and numbers\<close>

text \<open>A C string ends at its first zero character.\<close>

fun append_str :: "string \<Rightarrow> string \<Rightarrow> string" where
  "append_str p [] = p"
| "append_str p (c # s) = (if c = CHR 0x00 then p else append_str (p @ [c]) s)"

text \<open>One character: the code's \<^verbatim>\<open>*p++ = c\<close>.\<close>

definition append_char :: "string \<Rightarrow> char \<Rightarrow> string" where
  "append_char p c = p @ [c]"

text \<open>The digits in the temporary array of \<^verbatim>\<open>append_dec\<close>, the least significant one first.\<close>

fun dec_tmp :: "nat \<Rightarrow> string" where
  "dec_tmp v = (if 0 < v then char_of (48 + v mod 10) # dec_tmp (v div 10) else [])"

declare dec_tmp.simps [simp del]

definition append_dec :: "string \<Rightarrow> u32 \<Rightarrow> string" where
  "append_dec p v = (if v = 0 then p @ ''0'' else p @ rev (dec_tmp (unat v)))"

definition append_dec64 :: "string \<Rightarrow> u64 \<Rightarrow> string" where
  "append_dec64 p v = (if v = 0 then p @ ''0'' else p @ rev (dec_tmp (unat v)))"

definition append_spaces :: "string \<Rightarrow> u32 \<Rightarrow> string" where
  "append_spaces p count = p @ replicate (unat count) CHR '' ''"

text \<open>At most \<open>width\<close> characters of the string, then spaces up to \<open>width\<close>.\<close>

fun copy_left :: "string \<Rightarrow> string \<Rightarrow> nat \<Rightarrow> string \<times> nat" where
  "copy_left p [] room = (p, room)"
| "copy_left p (c # s) room =
     (if c \<noteq> CHR 0x00 \<and> 0 < room then copy_left (p @ [c]) s (room - 1) else (p, room))"

definition append_left :: "string \<Rightarrow> string \<Rightarrow> u32 \<Rightarrow> string" where
  "append_left p s width = (case copy_left p s (unat width) of (p, room) \<Rightarrow> p @ replicate room CHR '' '')"

definition append_dec64_width :: "string \<Rightarrow> u64 \<Rightarrow> u32 \<Rightarrow> string" where
  "append_dec64_width p v width =
     (let tmp = append_dec64 [] v;
          n = (word_of_nat (length tmp) :: u32);
          p = (if n < width then append_spaces p (width - n) else p)
      in append_str p tmp)"

definition hex_digits :: string where
  "hex_digits = ''0123456789ABCDEF''"

text \<open>The digit loop, over the shift amounts it visits.\<close>

definition hex_digits_at :: "'a::len word \<Rightarrow> nat list \<Rightarrow> string" where
  "hex_digits_at v shifts = map (\<lambda>shift. hex_digits ! unat (and (drop_bit shift v) 15)) shifts"

definition append_hex64 :: "string \<Rightarrow> u64 \<Rightarrow> string" where
  "append_hex64 p v =
     append_str p ''0X'' @ hex_digits_at v [60, 56, 52, 48, 44, 40, 36, 32, 28, 24, 20, 16, 12, 8, 4, 0]"

definition append_hex32 :: "string \<Rightarrow> u32 \<Rightarrow> string" where
  "append_hex32 p v = append_str p ''0X'' @ hex_digits_at v [28, 24, 20, 16, 12, 8, 4, 0]"

definition append_hex64_width :: "string \<Rightarrow> u64 \<Rightarrow> u32 \<Rightarrow> string" where
  "append_hex64_width p v width =
     (let tmp = append_hex64 [] v;
          p = (if 18 < width then append_spaces p (width - 18) else p)
      in append_str p tmp)"

section \<open>Reading numbers back\<close>

definition digit_val :: "char \<Rightarrow> nat" where
  "digit_val c = (if of_char c < (58 :: nat) then of_char c - 48 else of_char c - 55)"

definition read_base :: "nat \<Rightarrow> string \<Rightarrow> nat" where
  "read_base b s = foldl (\<lambda>acc c. b * acc + digit_val c) 0 s"

lemma digit_val_dec: "v < 10 \<Longrightarrow> digit_val (char_of (48 + v)) = v"
  by (simp add: digit_val_def of_char_of)

lemma digit_val_hex: "i < 16 \<Longrightarrow> digit_val (hex_digits ! i) = i"
proof -
  have "list_all (\<lambda>i. digit_val (hex_digits ! i) = i) [0..<16]"
    by code_simp
  then show "i < 16 \<Longrightarrow> digit_val (hex_digits ! i) = i"
    by (simp add: list_all_iff)
qed

lemma read_base_snoc [simp]: "read_base b (s @ [c]) = b * read_base b s + digit_val c"
  by (simp add: read_base_def)

lemma read_base_Nil [simp]: "read_base b [] = 0"
  by (simp add: read_base_def)

lemma read_dec_tmp: "read_base 10 (rev (dec_tmp v)) = v"
proof (induction v rule: dec_tmp.induct)
  case (1 v)
  then show ?case
    by (subst dec_tmp.simps) (simp add: digit_val_dec)
qed

lemma length_dec_tmp: "v < 10 ^ n \<Longrightarrow> length (dec_tmp v) \<le> n"
proof (induction n arbitrary: v)
  case 0
  then show ?case by (simp add: dec_tmp.simps)
next
  case (Suc n)
  then have "v div 10 < 10 ^ n" by (simp add: less_mult_imp_div_less mult.commute)
  then show ?case
    using Suc.IH [of "v div 10"] by (subst dec_tmp.simps) simp
qed

lemma dec_tmp_no_nul: "CHR 0x00 \<notin> set (dec_tmp v)"
proof (induction v rule: dec_tmp.induct)
  case (1 v)
  have "char_of (48 + v mod 10) \<noteq> (CHR 0x00 :: char)"
  proof
    assume "char_of (48 + v mod 10) = (CHR 0x00 :: char)"
    then have "of_char (char_of (48 + v mod 10) :: char) = (of_char (CHR 0x00) :: nat)" by simp
    then show False by (simp add: of_char_of)
  qed
  then show ?case
    using 1 by (subst dec_tmp.simps) auto
qed

text \<open>Hexadecimal: the digits at the shifts \<open>4 * (n - 1), \<dots>, 0\<close> are the number modulo \<open>16 ^ n\<close>.\<close>

lemma unat_drop_bit: "unat (drop_bit s v) = unat v div 2 ^ s"
  by (simp only: unsigned_drop_bit_eq) (simp add: drop_bit_eq_div take_bit_nat_eq_self div_le_dividend)

lemma unat_nibble:
  "unat (and (drop_bit s v) 15 :: 'a::len word) = unat v div 2 ^ s mod 16"
  using unat_and_mask [of "drop_bit s v" 4] by (simp add: mask_eq_exp_minus_1 unat_drop_bit)

lemma read_hex_digits:
  "read_base 16 (hex_digits_at v (map (\<lambda>i. 4 * i) (rev [0..<n]))) = unat v mod 16 ^ n"
proof (induction n arbitrary: v)
  case 0
  then show ?case by (simp add: hex_digits_at_def)
next
  case (Suc n)
  have shifts: "map (\<lambda>i. 4 * i) (rev [0..<Suc n]) = map (\<lambda>s. s + 4) (map (\<lambda>i. 4 * i) (rev [0..<n])) @ [0]"
    by (simp add: upt_rec [of 0 "Suc n"] map_Suc_upt [symmetric] rev_map comp_def del: upt_Suc)
  have "hex_digits_at v (map (\<lambda>s. s + 4) ss) = hex_digits_at (drop_bit 4 v) ss" for ss
    by (simp add: hex_digits_at_def add.commute)
  then have "read_base 16 (hex_digits_at v (map (\<lambda>i. 4 * i) (rev [0..<Suc n])))
      = 16 * (unat (drop_bit 4 v) mod 16 ^ n) + unat v mod 16"
    using Suc.IH [of "drop_bit 4 v"] unat_nibble [of 0 v]
    unfolding shifts
    by (simp add: hex_digits_at_def digit_val_hex comp_def)
  also have "\<dots> = unat v mod 16 ^ Suc n"
    by (simp add: unat_drop_bit mod_mult2_eq del: drop_bit_eq_div)
  finally show ?case .
qed


section \<open>What is appended\<close>

text \<open>A string literal without zero characters is appended whole.\<close>

lemma append_str_eq: "append_str p s = p @ takeWhile (\<lambda>c. c \<noteq> CHR 0x00) s"
  by (induction p s rule: append_str.induct) auto

lemma append_str_no_nul: "CHR 0x00 \<notin> set s \<Longrightarrow> append_str p s = p @ s"
  by (simp add: append_str_eq takeWhile_eq_all_conv) (metis)

lemma append_dec_eq: "append_dec p v = p @ append_dec [] v"
  by (simp add: append_dec_def)

lemma append_dec64_eq: "append_dec64 p v = p @ append_dec64 [] v"
  by (simp add: append_dec64_def)

lemma append_dec64_no_nul: "CHR 0x00 \<notin> set (append_dec64 [] v)"
  by (simp add: append_dec64_def dec_tmp_no_nul)

lemma hex_digit_no_nul: "i < 16 \<Longrightarrow> hex_digits ! i \<noteq> CHR 0x00"
proof -
  have "CHR 0x00 \<notin> set hex_digits" by code_simp
  moreover have "length hex_digits = 16" by code_simp
  ultimately show "i < 16 \<Longrightarrow> hex_digits ! i \<noteq> CHR 0x00" by (metis nth_mem)
qed

lemma hex_digits_at_no_nul: "CHR 0x00 \<notin> set (hex_digits_at v ss)"
  by (auto simp: hex_digits_at_def unat_nibble dest!: sym [of "CHR 0x00"])
    (use hex_digit_no_nul in force)

lemma copy_left_eq:
  "copy_left p s room =
     (p @ take room (takeWhile (\<lambda>c. c \<noteq> CHR 0x00) s),
      room - length (take room (takeWhile (\<lambda>c. c \<noteq> CHR 0x00) s)))"
  by (induction p s room rule: copy_left.induct) (auto simp: take_Cons' )

section \<open>How far the pointer moves\<close>

named_theorems text_bounds \<open>bounds on the length of a line\<close>

lemma length_append_str [text_bounds]: "length p \<le> n \<Longrightarrow> length (append_str p s) \<le> n + length s"
  by (simp add: append_str_eq add_mono length_takeWhile_le)

lemma length_append_char [text_bounds]: "length p \<le> n \<Longrightarrow> length (append_char p c) \<le> n + 1"
  by (simp add: append_char_def)

lemma length_append_dec [text_bounds]: "length p \<le> n \<Longrightarrow> length (append_dec p v) \<le> n + 10"
proof -
  have "unat v < 10 ^ 10" using unat_bound_len [of v] by simp
  then show "length p \<le> n \<Longrightarrow> length (append_dec p v) \<le> n + 10"
    using length_dec_tmp [of "unat v" 10] by (simp add: append_dec_def)
qed

lemma length_append_dec64 [text_bounds]: "length p \<le> n \<Longrightarrow> length (append_dec64 p v) \<le> n + 20"
proof -
  have "unat v < 10 ^ 20" using unat_bound_len [of v] by simp
  then show "length p \<le> n \<Longrightarrow> length (append_dec64 p v) \<le> n + 20"
    using length_dec_tmp [of "unat v" 20] by (simp add: append_dec64_def)
qed

lemma length_append_hex64 [text_bounds]: "length p \<le> n \<Longrightarrow> length (append_hex64 p v) \<le> n + 18"
  by (simp add: append_hex64_def append_str_no_nul hex_digits_at_def)

lemma length_append_hex32 [text_bounds]: "length p \<le> n \<Longrightarrow> length (append_hex32 p v) \<le> n + 10"
  by (simp add: append_hex32_def append_str_no_nul hex_digits_at_def)

lemma length_append_left [text_bounds]: "length p \<le> n \<Longrightarrow> length (append_left p s w) \<le> n + unat w"
  by (auto simp: append_left_def copy_left_eq)

lemma length_append_spaces [text_bounds]: "length p \<le> n \<Longrightarrow> length (append_spaces p w) \<le> n + unat w"
  by (simp add: append_spaces_def)

text \<open>A padded number is exactly as wide as asked when it fits.\<close>

lemma append_hex64_no_nul: "CHR 0x00 \<notin> set (append_hex64 [] v)"
  by (simp add: append_hex64_def append_str_no_nul hex_digits_at_no_nul)

lemma length_hex64 [simp]: "length (append_hex64 [] v) = 18"
  by (simp add: append_hex64_def append_str_no_nul hex_digits_at_def)

lemma length_append_hex64_width [text_bounds]:
  "length p \<le> n \<Longrightarrow> length (append_hex64_width p v w) \<le> n + max 18 (unat w)"
  by (auto simp: append_hex64_width_def Let_def append_str_no_nul append_hex64_no_nul append_spaces_def
      unat_sub word_le_nat_alt word_less_nat_alt)

lemma length_append_dec64_width_exact:
  "length (append_dec64_width p v w) = length p + max (length (append_dec64 [] v)) (unat w)"
proof -
  have "length (append_dec64 [] v) \<le> 20" using length_append_dec64 [of "[]" 0 v] by simp
  then have "unat (word_of_nat (length (append_dec64 [] v)) :: u32) = length (append_dec64 [] v)"
    by (simp add: unat_of_nat take_bit_nat_eq_self)
  then show ?thesis
    by (auto simp: append_dec64_width_def Let_def append_str_no_nul append_dec64_no_nul append_spaces_def
        unat_sub word_le_nat_alt word_less_nat_alt)
qed

lemma length_append_dec64_width [text_bounds]:
  "length p \<le> n \<Longrightarrow> length (append_dec64_width p v w) \<le> n + max 20 (unat w)"
  using length_append_dec64 [of "[]" 0 v] by (auto simp: length_append_dec64_width_exact)

section \<open>Printed numbers read back\<close>

text \<open>
  C35. Printing a number and reading the text back gives the number: after any line \<open>p\<close>, decimal text
  of a 32-bit or 64-bit number is its decimal representation in at most ten or twenty characters (the
  sizes of the temporary arrays), and hexadecimal text is \<^verbatim>\<open>0X\<close> and exactly eight or sixteen
  digits of its hexadecimal representation.
\<close>

theorem printed_numbers_read_back:
  "\<exists>d32 d64 h32 h64.
     append_dec p v = p @ d32 \<and> read_base 10 d32 = unat v \<and> length d32 \<le> 10
   \<and> append_dec64 p w = p @ d64 \<and> read_base 10 d64 = unat w \<and> length d64 \<le> 20
   \<and> append_hex32 p v = p @ ''0X'' @ h32 \<and> read_base 16 h32 = unat v \<and> length h32 = 8
   \<and> append_hex64 p w = p @ ''0X'' @ h64 \<and> read_base 16 h64 = unat w \<and> length h64 = 16"
proof -
  have zero: "read_base 10 ''0'' = 0" by code_simp
  have dec: "read_base 10 (append_dec [] v) = unat v \<and> length (append_dec [] v) \<le> 10"
    using length_append_dec [of "[]" 0 v] by (auto simp: append_dec_def read_dec_tmp zero)
  have dec64: "read_base 10 (append_dec64 [] w) = unat w \<and> length (append_dec64 [] w) \<le> 20"
    using length_append_dec64 [of "[]" 0 w] by (auto simp: append_dec64_def read_dec_tmp zero)
  let ?s32 = "[28, 24, 20, 16, 12, 8, 4, 0] :: nat list"
  let ?s64 = "[60, 56, 52, 48, 44, 40, 36, 32, 28, 24, 20, 16, 12, 8, 4, 0] :: nat list"
  have "map (\<lambda>i. 4 * i) (rev [0..<8]) = ?s32" "map (\<lambda>i. 4 * i) (rev [0..<16]) = ?s64"
    by code_simp+
  then have "read_base 16 (hex_digits_at v ?s32) = unat v mod 16 ^ 8"
    and "read_base 16 (hex_digits_at w ?s64) = unat w mod 16 ^ 16"
    using read_hex_digits [of v 8] read_hex_digits [of w 16] by simp_all
  moreover have "unat v mod 16 ^ 8 = unat v" "unat w mod 16 ^ 16 = unat w"
    using unat_bound_len [of v] unat_bound_len [of w] by simp_all
  ultimately show ?thesis
    using dec dec64
    by (intro exI [of _ "append_dec [] v"] exI [of _ "append_dec64 [] w"]
        exI [of _ "hex_digits_at v ?s32"] exI [of _ "hex_digits_at w ?s64"])
      (simp add: append_dec_eq [of p] append_dec64_eq [of p] append_hex32_def append_hex64_def
        append_str_no_nul length_map [of _ "[0..<8]"] hex_digits_at_def)
qed

end
