(* ===== verification/Framebuffer.thy ===== *)
theory Framebuffer
  imports Paging Format_Text
begin

text \<open>
  Drawing on the linear framebuffer (\<^verbatim>\<open>kernel/kernel.c\<close>, \<^verbatim>\<open>color\<close> to \<^verbatim>\<open>draw_line\<close>). The
  video memory is a function from the index into \<^verbatim>\<open>fb->base\<close> to the pixel stored there. The pointer
  \<^verbatim>\<open>g\<close> of \<^verbatim>\<open>glyph_row\<close> is a static variable: it keeps its value from one call to the next, so it is
  part of the state a drawing function passes on. The lemmas show that drawing stays inside the
  visible part of the framebuffer and that text drawn on the screen can be read back from it.
\<close>

section \<open>Colours and glyphs\<close>

definition PixelRedGreenBlueReserved8BitPerColor :: u32 where
  "PixelRedGreenBlueReserved8BitPerColor = 0"

definition color :: "framebuffer_t \<Rightarrow> u8 \<Rightarrow> u8 \<Rightarrow> u8 \<Rightarrow> u32" where
  "color fb r g b =
     (if fb_format fb = PixelRedGreenBlueReserved8BitPerColor
      then push_bit 16 (ucast b) OR push_bit 8 (ucast g) OR ucast r
      else push_bit 16 (ucast r) OR push_bit 8 (ucast g) OR ucast b)"

type_synonym glyph = "u8 list"

definition space :: glyph where
  "space = [0, 0, 0, 0, 0, 0, 0]"

text \<open>The cases of the \<^verbatim>\<open>switch\<close> of \<^verbatim>\<open>glyph_row\<close>.\<close>

definition glyph_table :: "(char \<times> glyph) list" where
  "glyph_table =
    [(CHR ''0'', [14, 17, 19, 21, 25, 17, 14]),
     (CHR ''1'', [4, 12, 4, 4, 4, 4, 14]),
     (CHR ''2'', [14, 17, 1, 2, 4, 8, 31]),
     (CHR ''3'', [30, 1, 1, 14, 1, 1, 30]),
     (CHR ''4'', [2, 6, 10, 18, 31, 2, 2]),
     (CHR ''5'', [31, 16, 16, 30, 1, 17, 14]),
     (CHR ''6'', [6, 8, 16, 30, 17, 17, 14]),
     (CHR ''7'', [31, 1, 2, 4, 8, 8, 8]),
     (CHR ''8'', [14, 17, 17, 14, 17, 17, 14]),
     (CHR ''9'', [14, 17, 17, 15, 1, 2, 12]),
     (CHR ''A'', [14, 17, 17, 31, 17, 17, 17]),
     (CHR ''B'', [30, 17, 17, 30, 17, 17, 30]),
     (CHR ''C'', [14, 17, 16, 16, 16, 17, 14]),
     (CHR ''D'', [30, 17, 17, 17, 17, 17, 30]),
     (CHR ''E'', [31, 16, 16, 30, 16, 16, 31]),
     (CHR ''F'', [31, 16, 16, 30, 16, 16, 16]),
     (CHR ''G'', [14, 17, 16, 23, 17, 17, 15]),
     (CHR ''H'', [17, 17, 17, 31, 17, 17, 17]),
     (CHR ''I'', [14, 4, 4, 4, 4, 4, 14]),
     (CHR ''J'', [7, 2, 2, 2, 18, 18, 12]),
     (CHR ''K'', [17, 18, 20, 24, 20, 18, 17]),
     (CHR ''L'', [16, 16, 16, 16, 16, 16, 31]),
     (CHR ''M'', [17, 27, 21, 21, 17, 17, 17]),
     (CHR ''N'', [17, 25, 21, 19, 17, 17, 17]),
     (CHR ''O'', [14, 17, 17, 17, 17, 17, 14]),
     (CHR ''P'', [30, 17, 17, 30, 16, 16, 16]),
     (CHR ''Q'', [14, 17, 17, 17, 21, 18, 13]),
     (CHR ''R'', [30, 17, 17, 30, 20, 18, 17]),
     (CHR ''S'', [15, 16, 16, 14, 1, 1, 30]),
     (CHR ''T'', [31, 4, 4, 4, 4, 4, 4]),
     (CHR ''U'', [17, 17, 17, 17, 17, 17, 14]),
     (CHR ''V'', [17, 17, 17, 17, 17, 10, 4]),
     (CHR ''W'', [17, 17, 17, 21, 21, 21, 10]),
     (CHR ''X'', [17, 17, 10, 4, 10, 17, 17]),
     (CHR ''Y'', [17, 17, 10, 4, 4, 4, 4]),
     (CHR ''Z'', [31, 1, 2, 4, 8, 16, 31]),
     (CHR '':'', [0, 4, 4, 0, 4, 4, 0]),
     (CHR ''.'', [0, 0, 0, 0, 0, 12, 12]),
     (CHR '','', [0, 0, 0, 0, 0, 4, 8]),
     (CHR ''-'', [0, 0, 0, 31, 0, 0, 0]),
     (CHR ''_'', [0, 0, 0, 0, 0, 0, 31]),
     (CHR ''/'', [1, 2, 2, 4, 8, 8, 16]),
     (CHR ''('', [2, 4, 8, 8, 8, 4, 2]),
     (CHR '')'', [8, 4, 2, 2, 2, 4, 8]),
     (CHR ''+'', [0, 4, 4, 31, 4, 4, 0]),
     (CHR ''@'', [14, 17, 23, 21, 23, 16, 14]),
     (CHR '' '', space)]"

text \<open>Lower-case letters share the glyphs of the upper-case ones.\<close>

definition upper_char :: "char \<Rightarrow> char" where
  "upper_char c =
     (if 97 \<le> (of_char c :: nat) \<and> (of_char c :: nat) \<le> 122 then char_of ((of_char c :: nat) - 97 + 65) else c)"

text \<open>
  The glyph \<^verbatim>\<open>g\<close> points to after the \<^verbatim>\<open>switch\<close>: the \<^verbatim>\<open>switch\<close> has no \<^verbatim>\<open>default\<close>, so any other
  character leaves it as the previous call set it.
\<close>

definition select_glyph :: "glyph \<Rightarrow> char \<Rightarrow> glyph" where
  "select_glyph g c = (case map_of glyph_table (upper_char c) of Some r \<Rightarrow> r | None \<Rightarrow> g)"

definition glyph_row :: "glyph \<Rightarrow> char \<Rightarrow> nat \<Rightarrow> u8 \<times> glyph" where
  "glyph_row g c row = (let g = select_glyph g c in (g ! row, g))"

section \<open>Pixels\<close>

type_synonym pixels = "u64 \<Rightarrow> u32"

record screen =
  scr_pixels :: pixels
  scr_glyph :: glyph

definition pixel_index :: "framebuffer_t \<Rightarrow> u32 \<Rightarrow> u32 \<Rightarrow> u64" where
  "pixel_index fb x y = ucast y * ucast (fb_stride fb) + ucast x"

definition put_pixel :: "framebuffer_t \<Rightarrow> u32 \<Rightarrow> u32 \<Rightarrow> u32 \<Rightarrow> pixels \<Rightarrow> pixels" where
  "put_pixel fb x y c px =
     (if x < fb_width fb \<and> y < fb_height fb then px(pixel_index fb x y := c) else px)"

text \<open>The values of a loop counter \<^verbatim>\<open>for (UINT32 i = 0; i < n; i++)\<close>.\<close>

definition u32_upto :: "u32 \<Rightarrow> u32 list" where
  "u32_upto n = map word_of_nat [0..<unat n]"

definition fill_rect :: "framebuffer_t \<Rightarrow> u32 \<Rightarrow> u32 \<Rightarrow> u32 \<Rightarrow> u32 \<Rightarrow> u32 \<Rightarrow> pixels \<Rightarrow> pixels" where
  "fill_rect fb x y w h c px =
     fold (\<lambda>yy. fold (\<lambda>xx. put_pixel fb (x + xx) (y + yy) c) (u32_upto w)) (u32_upto h) px"

definition clear_screen :: "framebuffer_t \<Rightarrow> u32 \<Rightarrow> screen \<Rightarrow> screen" where
  "clear_screen fb c s =
     s\<lparr>scr_pixels := fold (\<lambda>y. fold (\<lambda>x px. px(pixel_index fb x y := c)) (u32_upto (fb_width fb)))
         (u32_upto (fb_height fb)) (scr_pixels s)\<rparr>"

section \<open>Text\<close>

text \<open>One column of a glyph row, and the row: the loops of \<^verbatim>\<open>draw_char\<close>.\<close>

definition draw_col :: "framebuffer_t \<Rightarrow> u32 \<Rightarrow> u32 \<Rightarrow> u8 \<Rightarrow> u32 \<Rightarrow> u32 \<Rightarrow> nat \<Rightarrow> nat \<Rightarrow> pixels \<Rightarrow> pixels" where
  "draw_col fb x y bits fg scale row col px =
     (if bit bits (4 - col)
      then fill_rect fb (x + word_of_nat col * scale) (y + word_of_nat row * scale) scale scale fg px
      else px)"

definition draw_row :: "framebuffer_t \<Rightarrow> u32 \<Rightarrow> u32 \<Rightarrow> char \<Rightarrow> u32 \<Rightarrow> u32 \<Rightarrow> nat \<Rightarrow> screen \<Rightarrow> screen" where
  "draw_row fb x y ch fg scale row s =
     (case glyph_row (scr_glyph s) ch row of (bits, g) \<Rightarrow>
        \<lparr>scr_pixels = fold (draw_col fb x y bits fg scale row) [0..<5] (scr_pixels s), scr_glyph = g\<rparr>)"

definition draw_char :: "framebuffer_t \<Rightarrow> u32 \<Rightarrow> u32 \<Rightarrow> char \<Rightarrow> u32 \<Rightarrow> u32 \<Rightarrow> u32 \<Rightarrow> screen \<Rightarrow> screen" where
  "draw_char fb x y ch fg bg scale s =
     (let s = s\<lparr>scr_pixels := fill_rect fb x y (6 * scale) (8 * scale) bg (scr_pixels s)\<rparr>
      in fold (draw_row fb x y ch fg scale) [0..<7] s)"

fun draw_text :: "framebuffer_t \<Rightarrow> u32 \<Rightarrow> u32 \<Rightarrow> string \<Rightarrow> u32 \<Rightarrow> u32 \<Rightarrow> u32 \<Rightarrow> screen \<Rightarrow> screen" where
  "draw_text fb x y [] fg bg scale s = s"
| "draw_text fb x y (c # cs) fg bg scale s =
     (if c = CHR 0x00 then s
      else draw_text fb (x + 6 * scale) y cs fg bg scale (draw_char fb x y c fg bg scale s))"

definition draw_line ::
    "framebuffer_t \<Rightarrow> u32 \<Rightarrow> string \<Rightarrow> u32 \<Rightarrow> u32 \<Rightarrow> u32 \<Rightarrow> screen \<times> u32 \<Rightarrow> screen \<times> u32" where
  "draw_line fb x str fg bg scale = (\<lambda>(s, y). (draw_text fb x y str fg bg scale s, y + 10 * scale))"

section \<open>Filling a rectangle\<close>

lemma fold_put_eq:
  "fold (\<lambda>a px. if P a then px(f a := c) else px) as px =
     (\<lambda>i. if \<exists>a \<in> set as. P a \<and> f a = i then c else px i)"
  by (induction as arbitrary: px) (auto simp: fun_eq_iff)

lemma fold_inner_eq:
  assumes "\<And>b px. b \<in> set bs \<Longrightarrow> g b px = (\<lambda>i. if i \<in> A b then c else px i)"
  shows "fold g bs px = (\<lambda>i. if \<exists>b \<in> set bs. i \<in> A b then c else px i)"
  using assms
proof (induction bs arbitrary: px)
  case Nil
  then show ?case by simp
next
  case (Cons b bs)
  have "g b px = (\<lambda>i. if i \<in> A b then c else px i)" using Cons.prems by simp
  moreover have "fold g bs px' = (\<lambda>i. if \<exists>b \<in> set bs. i \<in> A b then c else px' i)" for px'
    using Cons by simp
  ultimately show ?case by (auto simp: fun_eq_iff)
qed

lemma unat_upto: "i < unat (n :: u32) \<Longrightarrow> unat (word_of_nat i :: u32) = i"
  using unat_bound_len [of n] by (simp add: unat_of_nat take_bit_nat_eq_self)

lemma set_u32_upto: "set (u32_upto n) = {a. a < n}"
proof (intro set_eqI iffI)
  fix a assume "a \<in> set (u32_upto n)"
  then obtain i where "i < unat n" "a = word_of_nat i" by (auto simp: u32_upto_def)
  then show "a \<in> {a. a < n}" by (simp add: word_less_nat_alt unat_upto)
next
  fix a :: u32 assume "a \<in> {a. a < n}"
  then have "unat a < unat n" by (simp add: word_less_nat_alt)
  then have "word_of_nat (unat a) \<in> set (u32_upto n)" unfolding u32_upto_def set_map set_upt by (intro imageI) simp
  then show "a \<in> set (u32_upto n)" by simp
qed

text \<open>The pixels a rectangle covers: the visible ones among its (wrapping) coordinates.\<close>

definition rect_indices :: "framebuffer_t \<Rightarrow> u32 \<Rightarrow> u32 \<Rightarrow> u32 \<Rightarrow> u32 \<Rightarrow> u64 set" where
  "rect_indices fb x y w h =
     {pixel_index fb (x + xx) (y + yy) |xx yy. xx < w \<and> yy < h \<and> x + xx < fb_width fb \<and> y + yy < fb_height fb}"

lemma fill_rect_eq: "fill_rect fb x y w h c px = (\<lambda>i. if i \<in> rect_indices fb x y w h then c else px i)"
proof -
  let ?A = "\<lambda>yy. {pixel_index fb (x + xx) (y + yy) |xx. xx < w \<and> x + xx < fb_width fb \<and> y + yy < fb_height fb}"
  have "fold (\<lambda>xx. put_pixel fb (x + xx) (y + yy) c) (u32_upto w) px = (\<lambda>i. if i \<in> ?A yy then c else px i)"
    for yy px
    unfolding put_pixel_def
    by (subst fold_put_eq) (auto simp: set_u32_upto fun_eq_iff)
  then have "fill_rect fb x y w h c px = (\<lambda>i. if \<exists>yy \<in> set (u32_upto h). i \<in> ?A yy then c else px i)"
    unfolding fill_rect_def by (rule fold_inner_eq)
  then show ?thesis by (auto simp: rect_indices_def set_u32_upto fun_eq_iff)
qed

section \<open>Coordinates\<close>

lemma unat_pixel_index: "unat (pixel_index fb x y) = unat y * unat (fb_stride fb) + unat x"
proof -
  let ?b = "2 ^ 32 - 1 :: nat"
  have "unat y \<le> ?b" "unat (fb_stride fb) \<le> ?b" "unat x \<le> ?b"
    using unat_bound_len [of y] unat_bound_len [of "fb_stride fb"] unat_bound_len [of x] by simp_all
  then have "unat y * unat (fb_stride fb) \<le> ?b * ?b" and x: "unat x \<le> ?b" using mult_le_mono by blast+
  then have "unat y * unat (fb_stride fb) + unat x < 2 ^ 64" by simp
  then show ?thesis
    unfolding pixel_index_def by (simp add: unat_word_ariths)
qed

lemma pixel_index_inj:
  assumes "x < fb_width fb" "x' < fb_width fb" "fb_width fb \<le> fb_stride fb"
  shows "pixel_index fb x y = pixel_index fb x' y' \<longleftrightarrow> x = x' \<and> y = y'"
proof -
  let ?n = "unat (fb_stride fb)"
  have lt: "unat x < ?n" "unat x' < ?n"
    using assms by (simp_all add: word_less_nat_alt word_le_nat_alt)
  have "unat x = (unat y * ?n + unat x) mod ?n" "unat y = (unat y * ?n + unat x) div ?n"
    "unat x' = (unat y' * ?n + unat x') mod ?n" "unat y' = (unat y' * ?n + unat x') div ?n"
    using lt by simp_all
  then have "unat y * ?n + unat x = unat y' * ?n + unat x' \<longleftrightarrow> unat x = unat x' \<and> unat y = unat y'"
    by metis
  then show ?thesis by (simp add: word_unat_eq_iff unat_pixel_index)
qed

lemma word_offset_iff:
  fixes x w :: u32
  assumes "unat x + unat w \<le> 2 ^ 32"
  shows "(\<exists>xx<w. X = x + xx) \<longleftrightarrow> unat x \<le> unat X \<and> unat X < unat x + unat w"
proof (intro iffI conjI)
  assume "\<exists>xx<w. X = x + xx"
  then obtain xx where "unat xx < unat w" "X = x + xx" by (auto simp: word_less_nat_alt)
  moreover from this have "unat (x + xx) = unat x + unat xx"
    using assms by (simp add: unat_word_ariths)
  ultimately show "unat x \<le> unat X" "unat X < unat x + unat w" by simp_all
next
  assume X: "unat x \<le> unat X \<and> unat X < unat x + unat w"
  then have "unat (X - x) = unat X - unat x" by (simp add: unat_sub word_le_nat_alt)
  then have "X - x < w" using X by (simp add: word_less_nat_alt less_diff_conv2)
  then show "\<exists>xx<w. X = x + xx" by (intro exI [of _ "X - x"]) simp
qed

text \<open>A pixel of the screen, and when a rectangle covers it.\<close>

definition on_screen :: "framebuffer_t \<Rightarrow> u32 \<Rightarrow> u32 \<Rightarrow> bool" where
  "on_screen fb x y \<longleftrightarrow> x < fb_width fb \<and> y < fb_height fb"

lemma rect_indices_iff:
  assumes "fb_width fb \<le> fb_stride fb" "on_screen fb X Y"
    and "unat x + unat w \<le> 2 ^ 32" "unat y + unat h \<le> 2 ^ 32"
  shows "pixel_index fb X Y \<in> rect_indices fb x y w h \<longleftrightarrow>
    (unat x \<le> unat X \<and> unat X < unat x + unat w) \<and> (unat y \<le> unat Y \<and> unat Y < unat y + unat h)"
proof -
  have "pixel_index fb X Y \<in> rect_indices fb x y w h \<longleftrightarrow>
      (\<exists>xx<w. X = x + xx) \<and> (\<exists>yy<h. Y = y + yy)"
    using assms(1,2) unfolding rect_indices_def on_screen_def mem_Collect_eq
    by (metis pixel_index_inj)
  then show ?thesis using assms(3,4) by (simp only: word_offset_iff)
qed

section \<open>One character\<close>

lemma select_glyph_idem [simp]: "select_glyph (select_glyph g c) c = select_glyph g c"
  by (simp add: select_glyph_def split: option.split)

definition ink_indices :: "framebuffer_t \<Rightarrow> u32 \<Rightarrow> u32 \<Rightarrow> glyph \<Rightarrow> u32 \<Rightarrow> nat \<Rightarrow> u64 set" where
  "ink_indices fb x y g scale row =
     {i. \<exists>col<5. bit (g ! row) (4 - col) \<and>
        i \<in> rect_indices fb (x + word_of_nat col * scale) (y + word_of_nat row * scale) scale scale}"

lemma draw_row_eq:
  "draw_row fb x y ch fg scale row s =
     \<lparr>scr_pixels = (\<lambda>i. if i \<in> ink_indices fb x y (select_glyph (scr_glyph s) ch) scale row then fg
                        else scr_pixels s i),
      scr_glyph = select_glyph (scr_glyph s) ch\<rparr>"
proof -
  define g where "g = select_glyph (scr_glyph s) ch"
  let ?A = "\<lambda>col. {i. bit (g ! row) (4 - col) \<and>
     i \<in> rect_indices fb (x + word_of_nat col * scale) (y + word_of_nat row * scale) scale scale}"
  have "fold (draw_col fb x y (g ! row) fg scale row) [0..<5] px = (\<lambda>i. if \<exists>col \<in> set [0..<5]. i \<in> ?A col then fg else px i)"
    for px
    by (rule fold_inner_eq) (auto simp: draw_col_def fill_rect_eq)
  then show ?thesis
    by (auto simp: draw_row_def glyph_row_def Let_def ink_indices_def g_def [symmetric] fun_eq_iff)
qed

lemma fold_draw_row:
  assumes "scr_glyph s = select_glyph g ch"
  shows "fold (draw_row fb x y ch fg scale) rows s =
     s\<lparr>scr_pixels := (\<lambda>i. if \<exists>row \<in> set rows. i \<in> ink_indices fb x y (select_glyph g ch) scale row then fg
                          else scr_pixels s i)\<rparr>"
  using assms
proof (induction rows arbitrary: s)
  case Nil
  then show ?case by simp
next
  case (Cons row rows)
  have "scr_glyph (draw_row fb x y ch fg scale row s) = select_glyph g ch"
    by (simp add: draw_row_eq Cons.prems)
  then show ?case
    using Cons.IH [of "draw_row fb x y ch fg scale row s"]
    by (auto simp: draw_row_eq Cons.prems fun_eq_iff)
qed

lemma draw_char_eq:
  "draw_char fb x y ch fg bg scale s =
     \<lparr>scr_pixels = (\<lambda>i. if \<exists>row<7. i \<in> ink_indices fb x y (select_glyph (scr_glyph s) ch) scale row then fg
          else if i \<in> rect_indices fb x y (6 * scale) (8 * scale) then bg else scr_pixels s i),
      scr_glyph = select_glyph (scr_glyph s) ch\<rparr>"
proof -
  let ?s = "s\<lparr>scr_pixels := fill_rect fb x y (6 * scale) (8 * scale) bg (scr_pixels s)\<rparr>"
  have "[0..<7] = 0 # [1..<7::nat]" by (simp add: upt_conv_Cons)
  then have "draw_char fb x y ch fg bg scale s =
      fold (draw_row fb x y ch fg scale) [1..<7] (draw_row fb x y ch fg scale 0 ?s)"
    by (simp add: draw_char_def Let_def)
  also have "\<dots> = (draw_row fb x y ch fg scale 0 ?s)
      \<lparr>scr_pixels := (\<lambda>i. if \<exists>row \<in> set [1..<7]. i \<in> ink_indices fb x y (select_glyph (scr_glyph s) ch) scale row then fg
          else scr_pixels (draw_row fb x y ch fg scale 0 ?s) i)\<rparr>"
    by (rule fold_draw_row) (simp add: draw_row_eq)
  also have "\<dots> = \<lparr>scr_pixels = (\<lambda>i. if \<exists>row \<in> insert 0 (set [1..<7]). i \<in> ink_indices fb x y (select_glyph (scr_glyph s) ch) scale row then fg
          else if i \<in> rect_indices fb x y (6 * scale) (8 * scale) then bg else scr_pixels s i),
      scr_glyph = select_glyph (scr_glyph s) ch\<rparr>"
    by (auto simp: draw_row_eq fill_rect_eq fun_eq_iff)
  also have "insert 0 (set [1..<7]) = {row. row < 7}" by auto
  finally show ?thesis by simp
qed

text \<open>The cell of a character, in units of the scale.\<close>

lemma scaled_iff:
  fixes x X c s :: nat
  assumes "0 < s"
  shows "(x + c * s \<le> X \<and> X < x + c * s + s) \<longleftrightarrow> (x \<le> X \<and> (X - x) div s = c)"
proof (cases "x \<le> X")
  case True
  then have "(x + c * s \<le> X \<and> X < x + c * s + s) \<longleftrightarrow> (c * s \<le> X - x \<and> X - x < c * s + s)" by arith
  also have "\<dots> \<longleftrightarrow> (X - x) div s = c"
    using assms by (auto simp: div_nat_eqI mult.commute dividend_less_div_times)
      (metis add.commute dividend_less_div_times mult.commute)
  finally show ?thesis using True by simp
qed auto

lemma less_of_div_less:
  fixes x X s k :: nat
  assumes "0 < s" "x \<le> X" "(X - x) div s < k"
  shows "X < x + k * s"
  using assms by (simp add: div_less_iff_less_mult less_diff_conv2)

definition fits :: "framebuffer_t \<Rightarrow> u32 \<Rightarrow> u32 \<Rightarrow> u32 \<Rightarrow> nat \<Rightarrow> bool" where
  "fits fb x y scale n \<longleftrightarrow> 0 < scale \<and> fb_width fb \<le> fb_stride fb
     \<and> unat x + 6 * unat scale * n \<le> unat (fb_width fb)
     \<and> unat y + 8 * unat scale \<le> unat (fb_height fb)"

definition in_cell :: "u32 \<Rightarrow> u32 \<Rightarrow> u32 \<Rightarrow> u32 \<Rightarrow> u32 \<Rightarrow> bool" where
  "in_cell x y scale X Y \<longleftrightarrow>
     (unat x \<le> unat X \<and> unat X < unat x + 6 * unat scale) \<and> (unat y \<le> unat Y \<and> unat Y < unat y + 8 * unat scale)"

definition ink :: "glyph \<Rightarrow> nat \<Rightarrow> nat \<Rightarrow> bool" where
  "ink g col row \<longleftrightarrow> row < 7 \<and> col < 5 \<and> bit (g ! row) (4 - col)"

lemma fits_bounds:
  assumes "fits fb x y scale 1"
  shows "unat (6 * scale) = 6 * unat scale" "unat (8 * scale) = 8 * unat scale"
    "c \<le> 5 \<Longrightarrow> unat (x + word_of_nat c * scale) = unat x + c * unat scale"
    "r \<le> 7 \<Longrightarrow> unat (y + word_of_nat r * scale) = unat y + r * unat scale"
    "unat x + 6 * unat scale \<le> 2 ^ 32" "unat y + 8 * unat scale \<le> 2 ^ 32"
    "0 < unat scale"
proof -
  have b: "unat x + 6 * unat scale < 2 ^ 32" "unat y + 8 * unat scale < 2 ^ 32" "0 < unat scale"
    using assms unat_bound_len [of "fb_width fb"] unat_bound_len [of "fb_height fb"]
    by (simp_all add: fits_def word_less_nat_alt)
  then show "unat (6 * scale) = 6 * unat scale" "unat (8 * scale) = 8 * unat scale"
    by (simp_all add: unat_word_ariths)
  have small: "unat (word_of_nat k :: u32) = k" if "k \<le> 7" for k
    using that by (simp add: unat_of_nat take_bit_nat_eq_self)
  show "unat (x + word_of_nat c * scale) = unat x + c * unat scale" if "c \<le> 5"
  proof -
    have "c * unat scale \<le> 6 * unat scale" using that by simp
    then have "unat x + c * unat scale < 2 ^ 32" using b(1) by linarith
    then show ?thesis using that by (simp add: unat_word_ariths small)
  qed
  show "unat (y + word_of_nat r * scale) = unat y + r * unat scale" if "r \<le> 7"
  proof -
    have "r * unat scale \<le> 8 * unat scale" using that by simp
    then have "unat y + r * unat scale < 2 ^ 32" using b(2) by linarith
    then show ?thesis using that by (simp add: unat_word_ariths small)
  qed
  show "unat x + 6 * unat scale \<le> 2 ^ 32" "unat y + 8 * unat scale \<le> 2 ^ 32" "0 < unat scale"
    using b by simp_all
qed

lemma ink_indices_iff:
  assumes "fits fb x y scale 1" "on_screen fb X Y" "row < 7"
  shows "pixel_index fb X Y \<in> ink_indices fb x y g scale row \<longleftrightarrow>
    unat x \<le> unat X \<and> unat y \<le> unat Y \<and> (unat Y - unat y) div unat scale = row
    \<and> ink g ((unat X - unat x) div unat scale) row"
proof -
  note b = fits_bounds [OF assms(1)]
  have wf: "fb_width fb \<le> fb_stride fb" using assms(1) by (simp add: fits_def)
  have "pixel_index fb X Y \<in> rect_indices fb (x + word_of_nat col * scale) (y + word_of_nat row * scale) scale scale
      \<longleftrightarrow> (unat x \<le> unat X \<and> (unat X - unat x) div unat scale = col)
        \<and> (unat y \<le> unat Y \<and> (unat Y - unat y) div unat scale = row)" if "col < 5" for col
  proof -
    have "col * unat scale + unat scale \<le> 6 * unat scale" "row * unat scale + unat scale \<le> 8 * unat scale"
      using mult_le_mono1 [of "col + 1" 6 "unat scale"] mult_le_mono1 [of "row + 1" 8 "unat scale"] that assms(3)
      by simp_all
    then have "unat x + col * unat scale + unat scale \<le> 2 ^ 32" "unat y + row * unat scale + unat scale \<le> 2 ^ 32"
      using b(5,6) by linarith+
    then show ?thesis
      using that assms(3) rect_indices_iff [OF wf assms(2), of "x + word_of_nat col * scale" scale
          "y + word_of_nat row * scale" scale]
      by (simp only: b(3,4) less_imp_le scaled_iff [OF b(7)])
  qed
  then show ?thesis
    unfolding ink_indices_def ink_def using assms(3) by auto
qed

lemma draw_char_pixel:
  assumes "fits fb x y scale 1" "on_screen fb X Y"
  shows "scr_pixels (draw_char fb x y ch fg bg scale s) (pixel_index fb X Y) =
    (if in_cell x y scale X Y
     then if ink (select_glyph (scr_glyph s) ch) ((unat X - unat x) div unat scale) ((unat Y - unat y) div unat scale)
          then fg else bg
     else scr_pixels s (pixel_index fb X Y))"
proof -
  note b = fits_bounds [OF assms(1)]
  have wf: "fb_width fb \<le> fb_stride fb" using assms(1) by (simp add: fits_def)
  have cell: "pixel_index fb X Y \<in> rect_indices fb x y (6 * scale) (8 * scale) \<longleftrightarrow> in_cell x y scale X Y"
    using rect_indices_iff [OF wf assms(2), of x "6 * scale" y "8 * scale"] b(1,2,5,6) by (simp add: in_cell_def)
  let ?g = "select_glyph (scr_glyph s) ch"
  let ?col = "(unat X - unat x) div unat scale" and ?row = "(unat Y - unat y) div unat scale"
  have ink: "(\<exists>row<7. pixel_index fb X Y \<in> ink_indices fb x y ?g scale row) \<longleftrightarrow>
      unat x \<le> unat X \<and> unat y \<le> unat Y \<and> ink ?g ?col ?row"
    using ink_indices_iff [OF assms] by (metis ink_def)
  have "in_cell x y scale X Y" if "unat x \<le> unat X" "unat y \<le> unat Y" "ink ?g ?col ?row"
    using that b(7) less_of_div_less [of "unat scale" "unat x" "unat X" 6] less_of_div_less [of "unat scale" "unat y" "unat Y" 8]
    by (simp add: in_cell_def ink_def)
  then show ?thesis
    unfolding draw_char_eq using ink cell by (auto simp: in_cell_def)
qed

section \<open>Reading the screen\<close>

text \<open>A glyph read back from its cell, one sample per dot, and the character it belongs to.\<close>

definition row_of_dots :: "(nat \<Rightarrow> bool) \<Rightarrow> u8" where
  "row_of_dots f = foldl (\<lambda>acc col. 2 * acc + (if f col then 1 else 0)) 0 [0..<5]"

definition read_glyph :: "framebuffer_t \<Rightarrow> pixels \<Rightarrow> u32 \<Rightarrow> u32 \<Rightarrow> u32 \<Rightarrow> u32 \<Rightarrow> glyph" where
  "read_glyph fb px x y scale fg =
     map (\<lambda>row. row_of_dots (\<lambda>col.
       px (pixel_index fb (x + word_of_nat col * scale) (y + word_of_nat row * scale)) = fg)) [0..<7]"

definition char_of_glyph :: "glyph \<Rightarrow> char option" where
  "char_of_glyph g = map_of (map prod.swap glyph_table) g"

primrec read_glyphs :: "framebuffer_t \<Rightarrow> pixels \<Rightarrow> u32 \<Rightarrow> u32 \<Rightarrow> u32 \<Rightarrow> u32 \<Rightarrow> nat \<Rightarrow> glyph list" where
  "read_glyphs fb px x y scale fg 0 = []"
| "read_glyphs fb px x y scale fg (Suc n) =
     read_glyph fb px x y scale fg # read_glyphs fb px (x + 6 * scale) y scale fg n"

definition read_text :: "framebuffer_t \<Rightarrow> pixels \<Rightarrow> u32 \<Rightarrow> u32 \<Rightarrow> u32 \<Rightarrow> u32 \<Rightarrow> nat \<Rightarrow> char option list" where
  "read_text fb px x y scale fg n = map char_of_glyph (read_glyphs fb px x y scale fg n)"

text \<open>The glyphs a text shows: a character without a glyph repeats the one before it.\<close>

fun shown_glyphs :: "glyph \<Rightarrow> string \<Rightarrow> glyph list" where
  "shown_glyphs g [] = []"
| "shown_glyphs g (c # cs) = select_glyph g c # shown_glyphs (select_glyph g c) cs"

definition has_glyph :: "char \<Rightarrow> bool" where
  "has_glyph c \<longleftrightarrow> map_of glyph_table (upper_char c) \<noteq> None"

definition dot_glyph :: "glyph \<Rightarrow> bool" where
  "dot_glyph g \<longleftrightarrow> map (\<lambda>row. row_of_dots (\<lambda>col. bit (g ! row) (4 - col))) [0..<7] = g"

lemma dot_glyph_table: "list_all (\<lambda>(c, g). dot_glyph g) glyph_table"
  by code_simp

lemma dot_glyph_select: "dot_glyph g \<Longrightarrow> dot_glyph (select_glyph g c)"
  using dot_glyph_table by (auto simp: select_glyph_def list_all_iff split: option.split dest: map_of_SomeD)

lemma row_of_dots_cong: "(\<And>col. col < 5 \<Longrightarrow> f col = h col) \<Longrightarrow> row_of_dots f = row_of_dots h"
  unfolding row_of_dots_def by (rule foldl_cong) auto

lemma read_glyph_cong:
  assumes "\<And>col row. col < 5 \<Longrightarrow> row < 7 \<Longrightarrow>
    px (pixel_index fb (x + word_of_nat col * scale) (y + word_of_nat row * scale)) =
    px' (pixel_index fb (x + word_of_nat col * scale) (y + word_of_nat row * scale))"
  shows "read_glyph fb px x y scale fg = read_glyph fb px' x y scale fg"
  unfolding read_glyph_def using assms by (intro map_cong row_of_dots_cong) auto

text \<open>The sample points of a cell lie on the screen.\<close>

lemma sample_on_screen:
  assumes "fits fb x y scale 1" "col < 6" "row < 8"
  shows "on_screen fb (x + word_of_nat col * scale) (y + word_of_nat row * scale)"
    "in_cell x y scale (x + word_of_nat col * scale) (y + word_of_nat row * scale)"
proof -
  note b = fits_bounds [OF assms(1)]
  have "col * unat scale + unat scale \<le> 6 * unat scale" "row * unat scale + unat scale \<le> 8 * unat scale"
    using mult_le_mono1 [of "col + 1" 6 "unat scale"] mult_le_mono1 [of "row + 1" 8 "unat scale"] assms(2,3)
    by simp_all
  then have "unat x + col * unat scale < unat x + 6 * unat scale" "unat y + row * unat scale < unat y + 8 * unat scale"
    using b(7) by linarith+
  moreover from this have "unat x + col * unat scale < unat (fb_width fb)" "unat y + row * unat scale < unat (fb_height fb)"
    using assms(1) unfolding fits_def by linarith+
  ultimately show "on_screen fb (x + word_of_nat col * scale) (y + word_of_nat row * scale)"
    "in_cell x y scale (x + word_of_nat col * scale) (y + word_of_nat row * scale)"
    using assms b(3) [of col] b(4) [of row]
    by (simp_all add: on_screen_def in_cell_def word_less_nat_alt)
qed

lemma read_glyph_draw_char:
  assumes "fits fb x y scale 1" "fg \<noteq> bg" "dot_glyph (scr_glyph s)"
  shows "read_glyph fb (scr_pixels (draw_char fb x y ch fg bg scale s)) x y scale fg = select_glyph (scr_glyph s) ch"
proof -
  let ?g = "select_glyph (scr_glyph s) ch"
  note b = fits_bounds [OF assms(1)]
  have "scr_pixels (draw_char fb x y ch fg bg scale s)
      (pixel_index fb (x + word_of_nat col * scale) (y + word_of_nat row * scale)) = fg
      \<longleftrightarrow> bit (?g ! row) (4 - col)" if "col < 5" "row < 7" for col row
    using that assms(1,2) sample_on_screen [OF assms(1), of col row] b(3) [of col] b(4) [of row] b(7)
    by (simp add: draw_char_pixel ink_def)
  then have "read_glyph fb (scr_pixels (draw_char fb x y ch fg bg scale s)) x y scale fg
      = map (\<lambda>row. row_of_dots (\<lambda>col. bit (?g ! row) (4 - col))) [0..<7]"
    unfolding read_glyph_def by (intro map_cong row_of_dots_cong) auto
  also have "\<dots> = ?g"
    using dot_glyph_select [OF assms(3)] by (simp add: dot_glyph_def)
  finally show ?thesis .
qed

lemma fits_step:
  assumes "fits fb x y scale (Suc n)"
  shows "fits fb x y scale 1" "fits fb (x + 6 * scale) y scale n" "unat (x + 6 * scale) = unat x + 6 * unat scale"
proof -
  show one: "fits fb x y scale 1" using assms by (simp add: fits_def)
  have "unat x + 6 * unat scale < 2 ^ 32"
    using assms unat_bound_len [of "fb_width fb"] by (simp add: fits_def)
  then show x: "unat (x + 6 * scale) = unat x + 6 * unat scale"
    using fits_bounds(1) [OF one] by (simp add: unat_plus_if' [of x] del: unat_mult_lem)
  then show "fits fb (x + 6 * scale) y scale n" using assms by (simp add: fits_def)
qed

text \<open>Drawing a text leaves the pixels to its left, above and below it alone.\<close>

lemma draw_text_outside:
  assumes "fits fb x y scale (length str)" "on_screen fb X Y"
    and "unat X < unat x \<or> unat Y < unat y \<or> unat y + 8 * unat scale \<le> unat Y"
  shows "scr_pixels (draw_text fb x y str fg bg scale s) (pixel_index fb X Y) = scr_pixels s (pixel_index fb X Y)"
  using assms
proof (induction str arbitrary: x s)
  case Nil
  then show ?case by simp
next
  case (Cons c cs)
  then have st: "fits fb x y scale 1" "fits fb (x + 6 * scale) y scale (length cs)"
      "unat (x + 6 * scale) = unat x + 6 * unat scale"
    using fits_step [of fb x y scale "length cs"] by simp_all
  then have "\<not> in_cell x y scale X Y" using Cons.prems(3) by (auto simp: in_cell_def)
  then show ?case
    using Cons.IH [OF st(2)] Cons.prems st by (auto simp: draw_char_pixel)
qed

lemma read_glyphs_draw_text:
  assumes "fits fb x y scale (length str)" "fg \<noteq> bg" "dot_glyph (scr_glyph s)" "CHR 0x00 \<notin> set str"
  shows "read_glyphs fb (scr_pixels (draw_text fb x y str fg bg scale s)) x y scale fg (length str)
    = shown_glyphs (scr_glyph s) str"
  using assms
proof (induction str arbitrary: x s)
  case Nil
  then show ?case by simp
next
  case (Cons c cs)
  then have st: "fits fb x y scale 1" "fits fb (x + 6 * scale) y scale (length cs)"
      "unat (x + 6 * scale) = unat x + 6 * unat scale"
    using fits_step [of fb x y scale "length cs"] by simp_all
  let ?s = "draw_char fb x y c fg bg scale s"
  have g: "scr_glyph ?s = select_glyph (scr_glyph s) c" by (simp add: draw_char_eq)
  have "read_glyph fb (scr_pixels (draw_text fb (x + 6 * scale) y cs fg bg scale ?s)) x y scale fg
      = read_glyph fb (scr_pixels ?s) x y scale fg"
  proof (rule read_glyph_cong, rule draw_text_outside [OF st(2)])
    fix col row :: nat assume "col < 5" "row < 7"
    then show "on_screen fb (x + word_of_nat col * scale) (y + word_of_nat row * scale)"
      and "unat (x + word_of_nat col * scale) < unat (x + 6 * scale)
        \<or> unat (y + word_of_nat row * scale) < unat y
        \<or> unat y + 8 * unat scale \<le> unat (y + word_of_nat row * scale)"
      using sample_on_screen [OF st(1), of col row] st(3) by (simp_all add: in_cell_def)
  qed
  then show ?case
    using Cons.IH [OF st(2), of ?s] Cons.prems read_glyph_draw_char [OF st(1)]
    by (auto simp: g dot_glyph_select)
qed

lemma char_of_glyph_table: "list_all (\<lambda>(c, g). char_of_glyph g = Some c) glyph_table"
  by code_simp

lemma char_of_glyph_select: "has_glyph c \<Longrightarrow> char_of_glyph (select_glyph g c) = Some (upper_char c)"
  using char_of_glyph_table map_of_SomeD [of glyph_table "upper_char c"]
  by (fastforce simp: has_glyph_def select_glyph_def list_all_iff)

lemma char_of_shown: "list_all has_glyph str \<Longrightarrow> map char_of_glyph (shown_glyphs g str) = map (Some \<circ> upper_char) str"
  by (induction str arbitrary: g) (auto simp: char_of_glyph_select)

lemma nul_no_glyph: "\<not> has_glyph (CHR 0x00)"
  by code_simp

lemma dot_glyph_space: "dot_glyph space"
  by code_simp

section \<open>Drawing stays on the screen\<close>

definition off_screen :: "framebuffer_t \<Rightarrow> u64 \<Rightarrow> bool" where
  "off_screen fb i \<longleftrightarrow> (\<forall>X Y. on_screen fb X Y \<longrightarrow> i \<noteq> pixel_index fb X Y)"

lemma rect_indices_on_screen: "off_screen fb i \<Longrightarrow> i \<notin> rect_indices fb x y w h"
  by (auto simp: off_screen_def rect_indices_def on_screen_def)

lemma draw_char_off: "off_screen fb i \<Longrightarrow> scr_pixels (draw_char fb x y ch fg bg scale s) i = scr_pixels s i"
  by (auto simp: draw_char_eq ink_indices_def rect_indices_on_screen)

lemma draw_text_off: "off_screen fb i \<Longrightarrow> scr_pixels (draw_text fb x y str fg bg scale s) i = scr_pixels s i"
  by (induction str arbitrary: x s) (auto simp: draw_char_off)

lemma clear_screen_pixels:
  "scr_pixels (clear_screen fb c s) =
     (\<lambda>i. if \<exists>X Y. on_screen fb X Y \<and> i = pixel_index fb X Y then c else scr_pixels s i)"
proof -
  let ?A = "\<lambda>y. {pixel_index fb x y |x. x < fb_width fb}"
  have "fold (\<lambda>x px. px(pixel_index fb x y := c)) (u32_upto (fb_width fb)) px = (\<lambda>i. if i \<in> ?A y then c else px i)"
    for y px
    using fold_put_eq [of "\<lambda>_. True" "\<lambda>x. pixel_index fb x y" c "u32_upto (fb_width fb)" px]
    by (auto simp: set_u32_upto fun_eq_iff)
  then have "scr_pixels (clear_screen fb c s) =
      (\<lambda>i. if \<exists>y \<in> set (u32_upto (fb_height fb)). i \<in> ?A y then c else scr_pixels s i)"
    unfolding clear_screen_def by (simp add: fold_inner_eq [where A = ?A and c = c])
  then show ?thesis by (auto simp: set_u32_upto on_screen_def fun_eq_iff)
qed

lemma clear_screen_glyph [simp]: "scr_glyph (clear_screen fb c s) = scr_glyph s"
  by (simp add: clear_screen_def)

lemma draw_text_dot_glyph: "dot_glyph (scr_glyph s) \<Longrightarrow> dot_glyph (scr_glyph (draw_text fb x y str fg bg scale s))"
  by (induction str arbitrary: x s) (auto simp: draw_char_eq dot_glyph_select)

lemma pixel_index_bound:
  assumes "on_screen fb X Y" "fb_width fb \<le> fb_stride fb"
  shows "unat (pixel_index fb X Y) < unat (fb_stride fb) * unat (fb_height fb)"
proof -
  have "unat X < unat (fb_stride fb)" "Suc (unat Y) \<le> unat (fb_height fb)"
    using assms by (simp_all add: on_screen_def word_less_nat_alt word_le_nat_alt)
  then have "unat Y * unat (fb_stride fb) + unat X < Suc (unat Y) * unat (fb_stride fb)"
    and "Suc (unat Y) * unat (fb_stride fb) \<le> unat (fb_height fb) * unat (fb_stride fb)"
    by (simp, intro mult_le_mono1)
  then show ?thesis by (simp add: unat_pixel_index mult.commute)
qed

section \<open>The properties\<close>

text \<open>
  C11. Text drawn on the screen can be read back from the pixels: when the text fits on the screen at
  the given place and scale, ink and background colour differ, and every character of it has a glyph,
  sampling each cell of the drawn text and looking the glyphs up gives the text again, in upper case.
\<close>

theorem drawn_text_reads_back:
  assumes "fits fb x y scale (length str)" "fg \<noteq> bg" "list_all has_glyph str" "dot_glyph (scr_glyph s)"
  shows "read_text fb (scr_pixels (draw_text fb x y str fg bg scale s)) x y scale fg (length str)
    = map (Some \<circ> upper_char) str"
proof -
  have "CHR 0x00 \<notin> set str" using assms(3) nul_no_glyph by (auto simp: list_all_iff)
  then show ?thesis
    using assms by (simp add: read_text_def read_glyphs_draw_text char_of_shown)
qed

definition small_fb :: framebuffer_t where
  "small_fb = \<lparr>fb_base = 0xC0000000, fb_width = 12, fb_height = 8, fb_stride = 16, fb_size = 512, fb_format = 1\<rparr>"

definition blank_screen :: screen where
  "blank_screen = \<lparr>scr_pixels = (\<lambda>_. 0), scr_glyph = space\<rparr>"

theorem drawn_text_reads_back_witness:
  "read_text small_fb (scr_pixels (draw_text small_fb 0 0 ''o1'' 1 0 1 blank_screen)) 0 0 1 1 2
    = [Some CHR ''O'', Some CHR ''1'']"
proof -
  have "fits small_fb 0 0 1 (length ''o1'')" "list_all has_glyph ''o1''" by code_simp+
  moreover have "dot_glyph (scr_glyph blank_screen)" by (simp add: blank_screen_def dot_glyph_space)
  moreover have "map (Some \<circ> upper_char) ''o1'' = [Some CHR ''O'', Some CHR ''1'']" by code_simp
  ultimately show ?thesis
    using drawn_text_reads_back [of small_fb 0 0 1 "''o1''" 1 0 blank_screen]
    by (simp add: numeral_2_eq_2)
qed

text \<open>
  C40. The exclamation mark that flags an offline AP in the report is not drawn: it has no glyph and the
  glyph pointer is static, so the character before it is drawn a second time. A digit followed by the
  mark is read from the screen as the digit twice, whatever was drawn before.
\<close>

theorem offline_mark_repeats_digit:
  assumes "fits fb x y scale 2" "fg \<noteq> bg" "dot_glyph (scr_glyph s)" "d \<in> set ''0123456789''"
  shows "read_text fb (scr_pixels (draw_text fb x y [d, CHR ''!''] fg bg scale s)) x y scale fg 2 = [Some d, Some d]"
proof -
  have digits: "list_all (\<lambda>d. has_glyph d \<and> upper_char d = d \<and> d \<noteq> CHR 0x00) ''0123456789''"
    and mark: "map_of glyph_table (upper_char CHR ''!'') = None" "CHR ''!'' \<noteq> CHR 0x00"
    by code_simp+
  have "read_glyphs fb (scr_pixels (draw_text fb x y [d, CHR ''!''] fg bg scale s)) x y scale fg (length [d, CHR ''!''])
      = shown_glyphs (scr_glyph s) [d, CHR ''!'']"
    using assms digits by (intro read_glyphs_draw_text) (auto simp: numeral_2_eq_2 list_all_iff)
  moreover have "select_glyph g CHR ''!'' = g" for g
    by (simp add: select_glyph_def mark)
  moreover have "has_glyph d" "upper_char d = d"
    using assms(4) digits unfolding list_all_iff by blast+
  then have "char_of_glyph (select_glyph g d) = Some d" for g
    using char_of_glyph_select [of d g] by simp
  ultimately show ?thesis by (simp add: read_text_def numeral_2_eq_2)
qed

theorem offline_mark_repeats_digit_witness:
  "read_text small_fb (scr_pixels (draw_text small_fb 0 0 ''3!'' 1 0 1 blank_screen)) 0 0 1 1 2
    = [Some CHR ''3'', Some CHR ''3'']"
proof -
  have "fits small_fb 0 0 1 2" by code_simp
  moreover have "dot_glyph (scr_glyph blank_screen)" by (simp add: blank_screen_def dot_glyph_space)
  ultimately show ?thesis
    using offline_mark_repeats_digit [of small_fb 0 0 1 1 0 blank_screen "CHR ''3''"] by simp
qed

text \<open>
  Drawing never writes outside the visible part of the framebuffer, whatever text is drawn at
  whatever coordinates and scale, wrapped ones included: a pixel that drawing a text or clearing the
  screen changes is a pixel \<open>(X, Y)\<close> of the screen, and its four bytes lie within the scan lines of
  the framebuffer.
\<close>

theorem drawing_stays_in_framebuffer:
  assumes "fb_width fb \<le> fb_stride fb"
    and "scr_pixels (draw_text fb x y str fg bg scale (clear_screen fb c s)) i \<noteq> scr_pixels s i"
  shows "\<exists>X Y. X < fb_width fb \<and> Y < fb_height fb \<and> i = pixel_index fb X Y
    \<and> 4 * unat i + 4 \<le> 4 * unat (fb_stride fb) * unat (fb_height fb)"
proof -
  have "scr_pixels (clear_screen fb c s) i = scr_pixels s i" if "off_screen fb i"
    using that by (auto simp: clear_screen_pixels off_screen_def)
  then have "\<not> off_screen fb i"
    using assms(2) draw_text_off by metis
  then obtain X Y where "on_screen fb X Y" "i = pixel_index fb X Y" by (auto simp: off_screen_def)
  moreover from this have "Suc (unat i) \<le> unat (fb_stride fb) * unat (fb_height fb)"
    using pixel_index_bound [OF _ assms(1)] by (simp add: Suc_leI)
  then have "4 * Suc (unat i) \<le> 4 * (unat (fb_stride fb) * unat (fb_height fb))" by (rule mult_le_mono2)
  ultimately show ?thesis by (auto simp: on_screen_def)
qed

theorem drawing_stays_in_framebuffer_witness:
  "\<exists>X Y. X < fb_width small_fb \<and> Y < fb_height small_fb \<and> 17 = pixel_index small_fb X Y
    \<and> 4 * unat (17 :: u64) + 4 \<le> 4 * unat (fb_stride small_fb) * unat (fb_height small_fb)"
proof -
  have "scr_pixels (draw_text small_fb 0 0 ''1'' 1 5 1 (clear_screen small_fb 5 blank_screen)) 17
      \<noteq> scr_pixels blank_screen 17"
    by code_simp
  then show ?thesis
    using drawing_stays_in_framebuffer [of small_fb 0 0 "''1''" 1 5 1 5 blank_screen 17]
    by (simp add: small_fb_def)
qed

declare draw_text.simps [simp del]

end
