(* ===== verification/Report_Lines.thy ===== *)
theory Report_Lines
  imports Framebuffer
begin

text \<open>
  Lines of a report. Every report function of \<^verbatim>\<open>kernel/kernel.c\<close> builds its lines by a
  sequence of \<^verbatim>\<open>append_\<close> calls into a local array and draws each with \<^verbatim>\<open>draw_line\<close> at column
  48 and scale 2. Here a line is the list of the calls, in order, and a report is the list of its
  lines with their colours. The lemmas bound the length of a line by its calls, show that it can be
  read from the screen, and that the lines of a report do not overwrite each other.
\<close>

section \<open>Building a line\<close>

text \<open>One \<^verbatim>\<open>append_\<close> call, or one \<^verbatim>\<open>*p++ = c\<close>.\<close>

datatype piece =
    Str string | Chr char | Dec u32 | Dec64 u64 | Hex32 u32 | Hex64 u64
  | Left string u32 | Dec64_width u64 u32 | Hex64_width u64 u32

fun put_piece :: "piece \<Rightarrow> string \<Rightarrow> string" where
  "put_piece (Str s) p = append_str p s"
| "put_piece (Chr c) p = append_char p c"
| "put_piece (Dec v) p = append_dec p v"
| "put_piece (Dec64 v) p = append_dec64 p v"
| "put_piece (Hex32 v) p = append_hex32 p v"
| "put_piece (Hex64 v) p = append_hex64 p v"
| "put_piece (Left s w) p = append_left p s w"
| "put_piece (Dec64_width v w) p = append_dec64_width p v w"
| "put_piece (Hex64_width v w) p = append_hex64_width p v w"

definition make_line :: "piece list \<Rightarrow> string" where
  "make_line ps = fold put_piece ps []"

text \<open>How far a call can move the pointer.\<close>

fun piece_max :: "piece \<Rightarrow> nat" where
  "piece_max (Str s) = length s"
| "piece_max (Chr c) = 1"
| "piece_max (Dec v) = 10"
| "piece_max (Dec64 v) = 20"
| "piece_max (Hex32 v) = 10"
| "piece_max (Hex64 v) = 18"
| "piece_max (Left s w) = unat w"
| "piece_max (Dec64_width v w) = max 20 (unat w)"
| "piece_max (Hex64_width v w) = max 18 (unat w)"

definition line_max :: "piece list \<Rightarrow> nat" where
  "line_max ps = sum_list (map piece_max ps)"

lemma line_max_simps [simp]:
  "line_max [] = 0" "line_max (p # ps) = piece_max p + line_max ps" "line_max (ps @ qs) = line_max ps + line_max qs"
  by (simp_all add: line_max_def)

lemma line_max_if [simp]: "line_max (if b then ps else qs) = (if b then line_max ps else line_max qs)"
  by simp

lemma length_put_piece: "length p \<le> n \<Longrightarrow> length (put_piece x p) \<le> n + piece_max x"
  using length_append_char [of p n] by (cases x) (simp_all add: text_bounds)

lemma length_fold_put_piece: "length p \<le> n \<Longrightarrow> length (fold put_piece ps p) \<le> n + line_max ps"
proof (induction ps arbitrary: p n)
  case (Cons x ps)
  show ?case using Cons.IH [OF length_put_piece [OF Cons.prems, of x]] by simp
qed simp

lemma length_make_line: "length (make_line ps) \<le> line_max ps"
  using length_fold_put_piece [of "[]" 0 ps] by (simp add: make_line_def)

lemma make_line_fits: "line_max ps < n \<Longrightarrow> length (make_line ps) < n"
  using length_make_line [of ps] by simp

lemma line_max_concat_le:
  assumes "\<And>x. x \<in> set xs \<Longrightarrow> line_max (f x) \<le> b" "length xs \<le> n"
  shows "line_max (concat (map f xs)) \<le> n * b"
  using assms
proof (induction xs arbitrary: n)
  case (Cons x xs)
  then obtain m where m: "n = Suc m" "length xs \<le> m" by (cases n) auto
  then have "line_max (concat (map f xs)) \<le> m * b" using Cons by simp
  moreover have "line_max (f x) \<le> b" using Cons by simp
  ultimately show ?case using m by simp
qed simp

section \<open>Every character of a line has a glyph\<close>

fun piece_drawable :: "piece \<Rightarrow> bool" where
  "piece_drawable (Str s) = list_all has_glyph s"
| "piece_drawable (Chr c) = has_glyph c"
| "piece_drawable (Left s w) = list_all has_glyph s"
| "piece_drawable _ = True"

lemma has_glyph_digits: "list_all (\<lambda>v. has_glyph (char_of (48 + v))) [0..<10]"
  by code_simp

lemma has_glyph_hex: "list_all has_glyph hex_digits" "list_all has_glyph ''0X''" "has_glyph CHR '' ''" "has_glyph CHR ''0''"
  by code_simp+

lemma drawable_dec_tmp: "list_all has_glyph (dec_tmp v)"
proof (induction v rule: dec_tmp.induct)
  case (1 v)
  have "has_glyph (char_of (48 + v mod 10))" using has_glyph_digits by (simp add: list_all_iff)
  then show ?case using 1 by (subst dec_tmp.simps) simp
qed

lemma drawable_hex: "list_all has_glyph (hex_digits_at v ss)"
proof -
  have "hex_digits ! i \<in> set hex_digits" if "i < 16" for i
    using that by (intro nth_mem) (simp add: hex_digits_def)
  then have "has_glyph (hex_digits ! i)" if "i < 16" for i
    using that has_glyph_hex(1) by (simp add: list_all_iff)
  then show ?thesis by (simp add: hex_digits_at_def list_all_iff unat_nibble)
qed

lemma drawable_append_str:
  "list_all has_glyph p \<Longrightarrow> list_all has_glyph s \<Longrightarrow> list_all has_glyph (append_str p s)"
  by (auto simp: append_str_eq list_all_iff dest: set_takeWhileD)

lemma drawable_numbers:
  assumes "list_all has_glyph p"
  shows "list_all has_glyph (append_dec p v)" "list_all has_glyph (append_dec64 p w)"
    "list_all has_glyph (append_hex32 p v)" "list_all has_glyph (append_hex64 p w)"
    "list_all has_glyph (append_spaces p v)"
  using assms has_glyph_hex drawable_dec_tmp drawable_hex
  by (simp_all add: append_dec_def append_dec64_def append_hex32_def append_hex64_def append_spaces_def
      drawable_append_str list_all_rev) (simp_all add: list_all_iff)

lemma drawable_put_piece: "piece_drawable x \<Longrightarrow> list_all has_glyph p \<Longrightarrow> list_all has_glyph (put_piece x p)"
proof (cases x)
  case (Left s w)
  assume "piece_drawable x" "list_all has_glyph p"
  then show ?thesis
    using Left has_glyph_hex
    by (auto simp: append_left_def copy_left_eq list_all_iff dest!: in_set_takeD dest: set_takeWhileD)
qed (auto simp: drawable_append_str drawable_numbers append_char_def append_dec64_width_def append_hex64_width_def Let_def)

lemma drawable_make_line: "list_all piece_drawable ps \<Longrightarrow> list_all has_glyph (make_line ps)"
proof -
  assume ps: "list_all piece_drawable ps"
  have "list_all has_glyph (fold put_piece ps p)" if "list_all has_glyph p" for p
    using that ps by (induction ps arbitrary: p) (auto simp: drawable_put_piece)
  then show ?thesis by (simp add: make_line_def)
qed

section \<open>Drawing a report\<close>

type_synonym report = "(string \<times> u32) list"

definition draw_report :: "framebuffer_t \<Rightarrow> u32 \<Rightarrow> report \<Rightarrow> screen \<times> u32 \<Rightarrow> screen \<times> u32" where
  "draw_report fb bg lines = fold (\<lambda>(str, c). draw_line fb 48 str c bg 2) lines"

definition report_fits :: "framebuffer_t \<Rightarrow> u32 \<Rightarrow> report \<Rightarrow> bool" where
  "report_fits fb y lines \<longleftrightarrow> fb_width fb \<le> fb_stride fb
     \<and> unat y + 20 * length lines \<le> unat (fb_height fb)
     \<and> list_all (\<lambda>(str, c). 48 + 12 * length str \<le> unat (fb_width fb)) lines"

text \<open>The lines can be read, one below the other, in their colours.\<close>

fun report_reads :: "framebuffer_t \<Rightarrow> pixels \<Rightarrow> u32 \<Rightarrow> report \<Rightarrow> bool" where
  "report_reads fb px y [] \<longleftrightarrow> True"
| "report_reads fb px y ((str, c) # lines) \<longleftrightarrow>
     read_text fb px 48 y 2 c (length str) = map (Some \<circ> upper_char) str
   \<and> report_reads fb px (y + 20) lines"

lemma draw_line_eq:
  "draw_line fb 48 str c bg 2 (s, y) = (draw_text fb 48 y str c bg 2 s, y + 20)"
  by (simp add: draw_line_def)

lemma report_fits_Cons:
  assumes "report_fits fb y ((str, c) # lines)"
  shows "fits fb 48 y 2 (length str)" "report_fits fb (y + 20) lines" "unat (y + 20) = unat y + 20"
proof -
  have b: "unat y + 20 \<le> unat (fb_height fb)" "48 + 12 * length str \<le> unat (fb_width fb)"
    using assms by (simp_all add: report_fits_def)
  then show "fits fb 48 y 2 (length str)" using assms by (simp add: fits_def report_fits_def)
  show y: "unat (y + 20) = unat y + 20"
    using b(1) unat_bound_len [of "fb_height fb"] by (simp add: unat_word_ariths)
  show "report_fits fb (y + 20) lines" using assms y by (simp add: report_fits_def)
qed

lemma read_glyphs_cong:
  assumes "fits fb x y scale n"
    and "\<And>X Y. on_screen fb X Y \<Longrightarrow> unat Y < unat y + 8 * unat scale
      \<Longrightarrow> px (pixel_index fb X Y) = px' (pixel_index fb X Y)"
  shows "read_glyphs fb px x y scale fg n = read_glyphs fb px' x y scale fg n"
  using assms(1)
proof (induction n arbitrary: x)
  case (Suc n)
  then have st: "fits fb x y scale 1" "fits fb (x + 6 * scale) y scale n" using fits_step by blast+
  have "read_glyph fb px x y scale fg = read_glyph fb px' x y scale fg"
  proof (rule read_glyph_cong, rule assms(2))
    fix col row :: nat assume "col < 5" "row < 7"
    then show "on_screen fb (x + word_of_nat col * scale) (y + word_of_nat row * scale)"
      and "unat (y + word_of_nat row * scale) < unat y + 8 * unat scale"
      using sample_on_screen [OF st(1), of col row] by (simp_all add: in_cell_def)
  qed
  then show ?case using Suc.IH [OF st(2)] by simp
qed simp

text \<open>Later lines lie below the earlier ones.\<close>

lemma draw_report_above:
  assumes "report_fits fb y lines" "on_screen fb X Y" "unat Y < unat y"
  shows "scr_pixels (fst (draw_report fb bg lines (s, y))) (pixel_index fb X Y) = scr_pixels s (pixel_index fb X Y)"
  using assms
proof (induction lines arbitrary: s y)
  case (Cons l lines)
  obtain str c where l: "l = (str, c)" by (cases l)
  note st = report_fits_Cons [OF Cons.prems(1) [unfolded l]]
  have "scr_pixels (draw_text fb 48 y str c bg 2 s) (pixel_index fb X Y) = scr_pixels s (pixel_index fb X Y)"
    using st(1) Cons.prems by (intro draw_text_outside) auto
  then show ?case
    using Cons.IH [OF st(2) Cons.prems(2)] Cons.prems(3) st(3) by (simp add: draw_report_def l draw_line_eq)
qed (simp add: draw_report_def)

lemma draw_report_reads:
  assumes "report_fits fb y lines" "list_all (\<lambda>(str, c). list_all has_glyph str \<and> c \<noteq> bg) lines"
    and "dot_glyph (scr_glyph s)"
  shows "report_reads fb (scr_pixels (fst (draw_report fb bg lines (s, y)))) y lines"
  using assms
proof (induction lines arbitrary: s y)
  case (Cons l lines)
  obtain str c where l: "l = (str, c)" by (cases l)
  note st = report_fits_Cons [OF Cons.prems(1) [unfolded l]]
  define s' where "s' = draw_text fb 48 y str c bg 2 s"
  have draw: "draw_report fb bg (l # lines) (s, y) = draw_report fb bg lines (s', y + 20)"
    by (simp add: draw_report_def l draw_line_eq s'_def)
  have ok: "list_all has_glyph str" "c \<noteq> bg" "CHR 0x00 \<notin> set str"
    using Cons.prems(2) nul_no_glyph by (auto simp: l list_all_iff)
  have "read_glyphs fb (scr_pixels (fst (draw_report fb bg lines (s', y + 20)))) 48 y 2 c (length str)
      = read_glyphs fb (scr_pixels s') 48 y 2 c (length str)"
    using st by (intro read_glyphs_cong draw_report_above) auto
  also have "\<dots> = shown_glyphs (scr_glyph s) str"
    unfolding s'_def using st(1) ok Cons.prems(3) by (intro read_glyphs_draw_text) auto
  finally have "read_text fb (scr_pixels (fst (draw_report fb bg lines (s', y + 20)))) 48 y 2 c (length str)
      = map (Some \<circ> upper_char) str"
    by (simp add: read_text_def char_of_shown [OF ok(1)])
  moreover have "dot_glyph (scr_glyph s')" using Cons.prems(3) by (simp add: s'_def draw_text_dot_glyph)
  ultimately show ?case
    unfolding draw using Cons.IH [OF st(2)] Cons.prems(2) by (simp add: l)
qed simp

end
