(* ===== verification/Acpi.thy ===== *)
theory Acpi
  imports Memory_Map Ap_Types "HOL-Library.Monad_Syntax"
begin

text \<open>
  The ACPI part of \<^verbatim>\<open>kernel/kernel.c\<close>: finding the RSDP among the firmware's configuration
  tables, checking RSDP and XSDT, finding the MADT and collecting the enabled processors from it. The
  parser reads raw physical memory: \<open>mem a\<close> is the byte at address \<open>a\<close>, and \<open>None\<close> where nothing is
  mapped, so a read the kernel would fault on makes the whole parse \<open>None\<close>.
\<close>

section \<open>Data\<close>

record EFI_GUID =
  guid_Data1 :: u32
  guid_Data2 :: u16
  guid_Data3 :: u16
  guid_Data4 :: "u8 list"

record efi_configuration_table_t =
  ct_VendorGuid :: EFI_GUID
  ct_VendorTable :: u64

record acpi_cpu_t =
  ac_acpi_uid :: u32
  ac_apic_id :: u32
  ac_flags :: u32
  ac_x2apic :: u8

record acpi_info_t =
  ai_rsdp :: u64
  ai_xsdt :: u64
  ai_madt :: u64
  ai_local_apic_base :: u64
  ai_madt_flags :: u32
  ai_bsp_apic_id :: u32
  ai_rsdp_revision :: u32
  ai_xsdt_entries :: u32
  ai_enabled_cpu_count :: u32
  ai_stored_cpu_count :: u32
  ai_error :: u32
  ai_cpus :: "acpi_cpu_t list"

definition ACPI_OK :: u32 where [c_const]: "ACPI_OK = 0"
definition ACPI_ERR_NO_RSDP :: u32 where [c_const]: "ACPI_ERR_NO_RSDP = 1"
definition ACPI_ERR_BAD_RSDP :: u32 where [c_const]: "ACPI_ERR_BAD_RSDP = 2"
definition ACPI_ERR_NO_XSDT :: u32 where [c_const]: "ACPI_ERR_NO_XSDT = 3"
definition ACPI_ERR_BAD_XSDT :: u32 where [c_const]: "ACPI_ERR_BAD_XSDT = 4"
definition ACPI_ERR_NO_MADT :: u32 where [c_const]: "ACPI_ERR_NO_MADT = 5"
definition ACPI_ERR_BAD_MADT :: u32 where [c_const]: "ACPI_ERR_BAD_MADT = 6"
definition ACPI_ERR_BAD_ENTRY :: u32 where [c_const]: "ACPI_ERR_BAD_ENTRY = 7"
definition ACPI_ERR_RANGE :: u32 where [c_const]: "ACPI_ERR_RANGE = 8"
definition ACPI_MAX_CPUS :: nat where [c_const]: "ACPI_MAX_CPUS = 32"
definition ACPI_MAX_RSDP_LENGTH :: u32 where [c_const]: "ACPI_MAX_RSDP_LENGTH = 4096"
definition ACPI_MAX_SDT_LENGTH :: u32 where [c_const]: "ACPI_MAX_SDT_LENGTH = 1024 * 1024"

text \<open>The sizes of the two packed structures, which static assertions pin down.\<close>

definition sizeof_acpi_rsdp :: u32 where [c_const]: "sizeof_acpi_rsdp = 36"
definition sizeof_acpi_sdt_header :: u32 where [c_const]: "sizeof_acpi_sdt_header = 36"

section \<open>Finding the RSDP\<close>

definition guid_equal :: "EFI_GUID \<Rightarrow> EFI_GUID \<Rightarrow> bool" where
  "guid_equal a b =
     (if guid_Data1 a \<noteq> guid_Data1 b \<or> guid_Data2 a \<noteq> guid_Data2 b \<or> guid_Data3 a \<noteq> guid_Data3 b then False
      else list_all (\<lambda>i. guid_Data4 a ! i = guid_Data4 b ! i) [0..<8])"

definition acpi_20_guid :: EFI_GUID where
  "acpi_20_guid = \<lparr>guid_Data1 = 0x8868e871, guid_Data2 = 0xe4f1, guid_Data3 = 0x11d3,
     guid_Data4 = [0xbc, 0x22, 0x00, 0x80, 0xc7, 0x3c, 0x88, 0x81]\<rparr>"

definition acpi_10_guid :: EFI_GUID where
  "acpi_10_guid = \<lparr>guid_Data1 = 0xeb9d2d30, guid_Data2 = 0x2d88, guid_Data3 = 0x11d3,
     guid_Data4 = [0x9a, 0x16, 0x00, 0x90, 0x27, 0x3f, 0xc1, 0x4d]\<rparr>"

fun find_acpi_rsdp_from :: "efi_configuration_table_t list \<Rightarrow> u64 \<Rightarrow> u64" where
  "find_acpi_rsdp_from [] fallback = fallback"
| "find_acpi_rsdp_from (t # ts) fallback =
     (if guid_equal (ct_VendorGuid t) acpi_20_guid then ct_VendorTable t
      else find_acpi_rsdp_from ts
        (if fallback = 0 \<and> guid_equal (ct_VendorGuid t) acpi_10_guid then ct_VendorTable t else fallback))"

text \<open>The configuration tables, or \<open>None\<close> for a null pointer.\<close>

definition find_acpi_rsdp :: "efi_configuration_table_t list option \<Rightarrow> u64" where
  "find_acpi_rsdp tables =
     (case tables of None \<Rightarrow> 0 | Some ts \<Rightarrow> if length ts = 0 then 0 else find_acpi_rsdp_from ts 0)"

section \<open>Reading memory\<close>

type_synonym memory = "u64 \<Rightarrow> u8 option"

fun bytes_equal :: "memory \<Rightarrow> u64 \<Rightarrow> u8 list \<Rightarrow> bool option" where
  "bytes_equal mem p [] = Some True"
| "bytes_equal mem p (b # bs) =
     do { x \<leftarrow> mem p; if x \<noteq> b then Some False else bytes_equal mem (p + 1) bs }"

definition read_le32 :: "memory \<Rightarrow> u64 \<Rightarrow> u32 option" where
  "read_le32 mem p =
     do { b0 \<leftarrow> mem p; b1 \<leftarrow> mem (p + 1); b2 \<leftarrow> mem (p + 2); b3 \<leftarrow> mem (p + 3);
          Some (ucast b0 OR push_bit 8 (ucast b1) OR push_bit 16 (ucast b2) OR push_bit 24 (ucast b3)) }"

definition read_le64 :: "memory \<Rightarrow> u64 \<Rightarrow> u64 option" where
  "read_le64 mem p =
     do { lo \<leftarrow> read_le32 mem p; hi \<leftarrow> read_le32 mem (p + 4); Some (ucast lo OR push_bit 32 (ucast hi)) }"

fun checksum_from :: "memory \<Rightarrow> u64 \<Rightarrow> nat \<Rightarrow> u8 \<Rightarrow> u8 option" where
  "checksum_from mem p 0 tally = Some tally"
| "checksum_from mem p (Suc n) tally = do { b \<leftarrow> mem p; checksum_from mem (p + 1) n (tally + b) }"

definition checksum_ok :: "memory \<Rightarrow> u64 \<Rightarrow> u32 \<Rightarrow> bool option" where
  "checksum_ok mem p len = do { tally \<leftarrow> checksum_from mem p (unat len) 0; Some (tally = 0) }"

section \<open>Processors\<close>

text \<open>\<open>cpuid leaf subleaf\<close> is the result of the instruction in EAX, EBX, ECX and EDX.\<close>

type_synonym cpuid_fun = "u32 \<Rightarrow> u32 \<Rightarrow> u32 \<times> u32 \<times> u32 \<times> u32"

definition read_bsp_apic_id :: "cpuid_fun \<Rightarrow> u32" where
  "read_bsp_apic_id cpuid =
     (let (a, _, _, _) = cpuid 0 0;
          (_, b, _, d) = (if a \<ge> 0x0b then cpuid 0x0b 0 else (0, 0, 0, 0))
      in if b \<noteq> 0 then d
         else (case cpuid 1 0 of (_, b, _, _) \<Rightarrow> drop_bit 24 b AND 0xff))"

definition add_acpi_cpu :: "acpi_info_t \<Rightarrow> u32 \<Rightarrow> u32 \<Rightarrow> u32 \<Rightarrow> u8 \<Rightarrow> acpi_info_t" where
  "add_acpi_cpu info uid apic_id flags x2apic =
     (let info = info\<lparr>ai_enabled_cpu_count := ai_enabled_cpu_count info + 1\<rparr> in
      if unat (ai_stored_cpu_count info) \<ge> ACPI_MAX_CPUS then info
      else info\<lparr>ai_cpus := (ai_cpus info)[unat (ai_stored_cpu_count info) := \<lparr>ac_acpi_uid = uid,
             ac_apic_id = apic_id, ac_flags = flags, ac_x2apic = x2apic\<rparr>],
           ai_stored_cpu_count := ai_stored_cpu_count info + 1\<rparr>)"

section \<open>The MADT\<close>

text \<open>One entry of the table, of a type the kernel looks at or not.\<close>

definition parse_madt_entry :: "memory \<Rightarrow> u64 \<Rightarrow> u8 \<Rightarrow> u8 \<Rightarrow> acpi_info_t \<Rightarrow> acpi_info_t option" where
  "parse_madt_entry mem entry type len info =
     (if type = 0 \<and> len \<ge> 8 then
        do { flags \<leftarrow> read_le32 mem (entry + 4);
             if flags AND 1 \<noteq> 0
             then do { uid \<leftarrow> mem (entry + 2); apic \<leftarrow> mem (entry + 3);
                       Some (add_acpi_cpu info (ucast uid) (ucast apic) flags 0) }
             else Some info }
      else if type = 5 \<and> len \<ge> 12 then
        do { base \<leftarrow> read_le64 mem (entry + 4); Some (info\<lparr>ai_local_apic_base := base\<rparr>) }
      else if type = 9 \<and> len \<ge> 16 then
        do { flags \<leftarrow> read_le32 mem (entry + 8);
             if flags AND 1 \<noteq> 0
             then do { uid \<leftarrow> read_le32 mem (entry + 12); apic \<leftarrow> read_le32 mem (entry + 4);
                       Some (add_acpi_cpu info uid apic flags 1) }
             else Some info }
      else Some info)"

text \<open>
  The loop over the entries. Offsets stay below the length of the table, which is at most a
  mebibyte, so they are natural numbers and never wrap.
\<close>

function parse_madt_entries :: "memory \<Rightarrow> u64 \<Rightarrow> nat \<Rightarrow> nat \<Rightarrow> acpi_info_t \<Rightarrow> acpi_info_t option" where
  "parse_madt_entries mem madt table_len offset info =
     (if \<not> offset < table_len then Some info
      else case mem (madt + word_of_nat offset) of
        None \<Rightarrow> None
      | Some type \<Rightarrow>
          (case mem (madt + word_of_nat offset + 1) of
             None \<Rightarrow> None
           | Some len \<Rightarrow>
               if len < 2 \<or> offset + unat len > table_len then Some (info\<lparr>ai_error := ACPI_ERR_BAD_ENTRY\<rparr>)
               else (case parse_madt_entry mem (madt + word_of_nat offset) type len info of
                   None \<Rightarrow> None
                 | Some info \<Rightarrow> parse_madt_entries mem madt table_len (offset + unat len) info)))"
  by pat_completeness auto
termination
  by (relation "measure (\<lambda>(mem, madt, table_len, offset, info). table_len - offset)")
    (auto simp: word_less_nat_alt)

declare parse_madt_entries.simps [simp del]

definition parse_madt :: "memory \<Rightarrow> efi_memory_map_t \<Rightarrow> u64 \<Rightarrow> acpi_info_t \<Rightarrow> acpi_info_t option" where
  "parse_madt mem mmap madt info =
     (let offset = sizeof_acpi_sdt_header + 8; info = info\<lparr>ai_madt := madt\<rparr> in
      do { len \<leftarrow> read_le32 mem (madt + 4);
           if len < offset \<or> len > ACPI_MAX_SDT_LENGTH then Some (info\<lparr>ai_error := ACPI_ERR_BAD_MADT\<rparr>)
           else if \<not> memory_map_contains_range mmap madt (ucast len) then Some (info\<lparr>ai_error := ACPI_ERR_RANGE\<rparr>)
           else do { ok \<leftarrow> checksum_ok mem madt len;
             if \<not> ok then Some (info\<lparr>ai_error := ACPI_ERR_BAD_MADT\<rparr>)
             else do { base \<leftarrow> read_le32 mem (madt + ucast sizeof_acpi_sdt_header);
                       flags \<leftarrow> read_le32 mem (madt + ucast sizeof_acpi_sdt_header + 4);
                       parse_madt_entries mem madt (unat len) (unat offset)
                         (info\<lparr>ai_local_apic_base := ucast base, ai_madt_flags := flags\<rparr>) } } })"

section \<open>From the RSDP to the MADT\<close>

text \<open>The loop over the entries of the XSDT at \<open>entries\<close>, from entry \<open>i\<close> on.\<close>

fun find_madt :: "memory \<Rightarrow> efi_memory_map_t \<Rightarrow> u64 \<Rightarrow> nat \<Rightarrow> acpi_info_t \<Rightarrow> acpi_info_t option" where
  "find_madt mem mmap entries 0 info = Some (info\<lparr>ai_error := ACPI_ERR_NO_MADT\<rparr>)"
| "find_madt mem mmap entries (Suc n) info =
     do { table_addr \<leftarrow> read_le64 mem entries;
          if table_addr = 0 then Some (info\<lparr>ai_error := ACPI_ERR_RANGE\<rparr>)
          else if \<not> memory_map_contains_range mmap table_addr (ucast sizeof_acpi_sdt_header)
          then Some (info\<lparr>ai_error := ACPI_ERR_RANGE\<rparr>)
          else do { apic \<leftarrow> bytes_equal mem table_addr [0x41, 0x50, 0x49, 0x43];
                    if apic then parse_madt mem mmap table_addr info
                    else find_madt mem mmap (entries + 8) n info } }"

definition zero_acpi_info :: acpi_info_t where
  "zero_acpi_info = \<lparr>ai_rsdp = 0, ai_xsdt = 0, ai_madt = 0, ai_local_apic_base = 0, ai_madt_flags = 0,
     ai_bsp_apic_id = 0, ai_rsdp_revision = 0, ai_xsdt_entries = 0, ai_enabled_cpu_count = 0,
     ai_stored_cpu_count = 0, ai_error = 0,
     ai_cpus = replicate ACPI_MAX_CPUS \<lparr>ac_acpi_uid = 0, ac_apic_id = 0, ac_flags = 0, ac_x2apic = 0\<rparr>\<rparr>"

text \<open>
  The XSDT at \<open>xsdt\<close>: its header, where a wrong signature is treated like a length of zero (both
  give the same error), its checksum, its entries.\<close>

definition parse_xsdt :: "memory \<Rightarrow> efi_memory_map_t \<Rightarrow> u64 \<Rightarrow> acpi_info_t \<Rightarrow> acpi_info_t option" where
  "parse_xsdt mem mmap xsdt info =
     (if xsdt = 0 then Some (info\<lparr>ai_error := ACPI_ERR_NO_XSDT\<rparr>)
      else if \<not> memory_map_contains_range mmap xsdt (ucast sizeof_acpi_sdt_header)
      then Some (info\<lparr>ai_error := ACPI_ERR_RANGE\<rparr>)
      else
        (let info = info\<lparr>ai_xsdt := xsdt\<rparr> in
         do { sig \<leftarrow> bytes_equal mem xsdt [0x58, 0x53, 0x44, 0x54];
              len \<leftarrow> (if sig then read_le32 mem (xsdt + 4) else Some 0);
              if len < sizeof_acpi_sdt_header \<or> len > ACPI_MAX_SDT_LENGTH
              then Some (info\<lparr>ai_error := ACPI_ERR_BAD_XSDT\<rparr>)
              else if \<not> memory_map_contains_range mmap xsdt (ucast len)
              then Some (info\<lparr>ai_error := ACPI_ERR_RANGE\<rparr>)
              else do { ok \<leftarrow> checksum_ok mem xsdt len;
                if \<not> ok then Some (info\<lparr>ai_error := ACPI_ERR_BAD_XSDT\<rparr>)
                else
                  (let entry_count = (len - sizeof_acpi_sdt_header) div 8
                   in find_madt mem mmap (xsdt + ucast sizeof_acpi_sdt_header) (unat entry_count)
                        (info\<lparr>ai_xsdt_entries := entry_count\<rparr>)) } }))"

definition parse_acpi :: "memory \<Rightarrow> cpuid_fun \<Rightarrow> u64 \<Rightarrow> efi_memory_map_t \<Rightarrow> acpi_info_t option" where
  "parse_acpi mem cpuid rsdp_addr mmap =
     (let info = zero_acpi_info\<lparr>ai_bsp_apic_id := read_bsp_apic_id cpuid\<rparr> in
      if rsdp_addr = 0 then Some (info\<lparr>ai_error := ACPI_ERR_NO_RSDP\<rparr>)
      else
        (let info = info\<lparr>ai_rsdp := rsdp_addr\<rparr> in
         if \<not> memory_map_contains_range mmap rsdp_addr 20 then Some (info\<lparr>ai_error := ACPI_ERR_RANGE\<rparr>)
         else do { revision \<leftarrow> mem (rsdp_addr + 15);
           let info = info\<lparr>ai_rsdp_revision := ucast revision\<rparr>;
           sig \<leftarrow> bytes_equal mem rsdp_addr [0x52, 0x53, 0x44, 0x20, 0x50, 0x54, 0x52, 0x20];
           ok \<leftarrow> (if sig then checksum_ok mem rsdp_addr 20 else Some False);
           if \<not> ok then Some (info\<lparr>ai_error := ACPI_ERR_BAD_RSDP\<rparr>)
           else if revision < 2 then Some (info\<lparr>ai_error := ACPI_ERR_NO_XSDT\<rparr>)
           else if \<not> memory_map_contains_range mmap rsdp_addr 24 then Some (info\<lparr>ai_error := ACPI_ERR_RANGE\<rparr>)
           else do { rsdp_length \<leftarrow> read_le32 mem (rsdp_addr + 20);
             if rsdp_length < sizeof_acpi_rsdp \<or> rsdp_length > ACPI_MAX_RSDP_LENGTH
             then Some (info\<lparr>ai_error := ACPI_ERR_BAD_RSDP\<rparr>)
             else if \<not> memory_map_contains_range mmap rsdp_addr (ucast rsdp_length)
             then Some (info\<lparr>ai_error := ACPI_ERR_RANGE\<rparr>)
             else do { ok \<leftarrow> checksum_ok mem rsdp_addr rsdp_length;
               if \<not> ok then Some (info\<lparr>ai_error := ACPI_ERR_BAD_RSDP\<rparr>)
               else do { xsdt \<leftarrow> read_le64 mem (rsdp_addr + 24); parse_xsdt mem mmap xsdt info } } } }))"

section \<open>Targets\<close>

definition acpi_cpu_is_supported_ap :: "acpi_info_t \<Rightarrow> acpi_cpu_t \<Rightarrow> bool" where
  "acpi_cpu_is_supported_ap acpi cpu \<longleftrightarrow>
     ac_x2apic cpu = 0 \<and> ac_apic_id cpu \<noteq> ai_bsp_apic_id acpi \<and> ac_apic_id cpu < 256"

definition count_supported_ap_targets :: "acpi_info_t \<Rightarrow> nat" where
  "count_supported_ap_targets acpi =
     (if ai_error acpi \<noteq> ACPI_OK then 0
      else fold (\<lambda>i count. if acpi_cpu_is_supported_ap acpi (ai_cpus acpi ! i) then count + 1 else count)
        [0..<unat (ai_stored_cpu_count acpi)] 0)"

fun select_ap_target_from :: "acpi_info_t \<Rightarrow> acpi_cpu_t list \<Rightarrow> nat \<Rightarrow> nat \<Rightarrow> ap_boot_info_t \<Rightarrow> bool \<times> ap_boot_info_t" where
  "select_ap_target_from acpi [] supported_index target_index boot = (False, boot)"
| "select_ap_target_from acpi (cpu # cpus) supported_index target_index boot =
     (if acpi_cpu_is_supported_ap acpi cpu
      then if supported_index \<noteq> target_index
           then select_ap_target_from acpi cpus (supported_index + 1) target_index boot
           else (True, boot\<lparr>bi_target_acpi_uid := ac_acpi_uid cpu, bi_target_apic_id := ac_apic_id cpu\<rparr>)
      else select_ap_target_from acpi cpus supported_index target_index boot)"

definition select_ap_target :: "acpi_info_t \<Rightarrow> nat \<Rightarrow> ap_boot_info_t \<Rightarrow> bool \<times> ap_boot_info_t" where
  "select_ap_target acpi target_index boot =
     (if ai_error acpi \<noteq> ACPI_OK then (False, boot)
      else select_ap_target_from acpi (map (\<lambda>i. ai_cpus acpi ! i) [0..<unat (ai_stored_cpu_count acpi)])
        0 target_index boot)"

definition acpi_error_name :: "u32 \<Rightarrow> string" where
  "acpi_error_name error =
     (if error = ACPI_OK then ''OK''
      else if error = ACPI_ERR_NO_RSDP then ''NO-RSDP''
      else if error = ACPI_ERR_BAD_RSDP then ''BAD-RSDP''
      else if error = ACPI_ERR_NO_XSDT then ''NO-XSDT''
      else if error = ACPI_ERR_BAD_XSDT then ''BAD-XSDT''
      else if error = ACPI_ERR_NO_MADT then ''NO-MADT''
      else if error = ACPI_ERR_BAD_MADT then ''BAD-MADT''
      else if error = ACPI_ERR_BAD_ENTRY then ''BAD-ENTRY''
      else if error = ACPI_ERR_RANGE then ''RANGE''
      else ''UNKNOWN'')"

end
