(* ===== verification/Lapic.thy ===== *)
theory Lapic
  imports Ap_Types
begin

text \<open>
  The local APIC of a processor and the routines that drive it: waiting for the interrupt command
  register, sending an interrupt to another processor, software-enabling the APIC, and the one-shot
  timers of the idle AP and of the waiting BSP. A register is named by its offset in the APIC page.
  Every register keeps the value written to it except the interrupt command register, whose
  delivery-status bit the hardware changes: its successive reads return the values of a sequence
  that is an arbitrary part of the device state.
\<close>

section \<open>The device\<close>

record lapic =
  la_regs :: "u32 \<Rightarrow> u32"
  la_icr :: "nat \<Rightarrow> u32"
  la_icr_reads :: nat
  la_writes :: "(u32 \<times> u32) list"

definition lapic_read32 :: "lapic \<Rightarrow> u32 \<Rightarrow> u32 \<times> lapic" where
  "lapic_read32 l reg =
     (if reg = 0x300 then (la_icr l (la_icr_reads l), l\<lparr>la_icr_reads := Suc (la_icr_reads l)\<rparr>)
      else (la_regs l reg, l))"

definition lapic_write32 :: "lapic \<Rightarrow> u32 \<Rightarrow> u32 \<Rightarrow> lapic" where
  "lapic_write32 l reg value =
     l\<lparr>la_regs := (la_regs l)(reg := value), la_writes := la_writes l @ [(reg, value)]\<rparr>"

section \<open>Sending interrupts\<close>

definition ICR_WAIT_LOOPS :: nat where [c_const]: "ICR_WAIT_LOOPS = 1000000"

text \<open>The polling loop, with the number of polls left.\<close>

fun lapic_poll_icr :: "nat \<Rightarrow> lapic \<Rightarrow> bool \<times> lapic" where
  "lapic_poll_icr 0 l = (False, l)"
| "lapic_poll_icr (Suc n) l =
     (let (v, l) = lapic_read32 l 0x300 in
      if v AND push_bit 12 1 = 0 then (True, l) else lapic_poll_icr n l)"

definition lapic_wait_icr_idle :: "lapic \<Rightarrow> ap_boot_info_t \<Rightarrow> bool \<times> lapic \<times> ap_boot_info_t" where
  "lapic_wait_icr_idle l boot =
     (case lapic_poll_icr ICR_WAIT_LOOPS l of
        (True, l) \<Rightarrow> (True, l, boot)
      | (False, l) \<Rightarrow> (False, l, boot\<lparr>bi_icr_timeouts := bi_icr_timeouts boot + 1\<rparr>))"

definition lapic_send_ipi ::
    "lapic \<Rightarrow> u32 \<Rightarrow> u32 \<Rightarrow> ap_boot_info_t \<Rightarrow> bool \<times> lapic \<times> ap_boot_info_t" where
  "lapic_send_ipi l apic_id command boot =
     (case lapic_wait_icr_idle l boot of
        (False, l, boot) \<Rightarrow> (False, l, boot)
      | (True, l, boot) \<Rightarrow>
          lapic_wait_icr_idle
            (lapic_write32 (lapic_write32 l 0x310 (push_bit 24 apic_id)) 0x300 command) boot)"

definition enable_lapic_if_needed :: "lapic \<Rightarrow> lapic" where
  "enable_lapic_if_needed l =
     (let (svr, l) = lapic_read32 l 0x0f0;
          desired = (svr AND 0xffffff00) OR push_bit 8 1 OR LAPIC_SPURIOUS_VECTOR
      in if svr \<noteq> desired then lapic_write32 l 0x0f0 desired else l)"

section \<open>Timers\<close>

text \<open>\<open>base\<close> is \<^verbatim>\<open>system_lapic_base\<close>; zero means that no APIC is known.\<close>

definition ap_disarm_idle_timer :: "u64 \<Rightarrow> lapic \<Rightarrow> lapic" where
  "ap_disarm_idle_timer base l =
     (if base = 0 then l
      else lapic_write32 (lapic_write32 l 0x380 0) 0x320 (AP_IDLE_TIMER_VECTOR OR LAPIC_LVT_MASKED))"

definition ap_arm_idle_timer :: "u64 \<Rightarrow> lapic \<Rightarrow> bool \<times> lapic" where
  "ap_arm_idle_timer base l =
     (if base = 0 then (False, l)
      else (True, lapic_write32 (lapic_write32 (lapic_write32 l 0x3e0 0x3) 0x320 AP_IDLE_TIMER_VECTOR)
              0x380 AP_IDLE_TIMER_INITIAL_COUNT))"

definition bsp_disarm_wait_timer :: "u64 \<Rightarrow> lapic \<Rightarrow> lapic" where
  "bsp_disarm_wait_timer base l =
     (if base = 0 then l
      else lapic_write32 (lapic_write32 l 0x380 0) 0x320 (BSP_WAIT_TIMER_VECTOR OR LAPIC_LVT_MASKED))"

definition bsp_arm_wait_timer :: "u64 \<Rightarrow> lapic \<Rightarrow> bool \<times> lapic" where
  "bsp_arm_wait_timer base l =
     (if base = 0 then (False, l)
      else (True, lapic_write32 (lapic_write32 (lapic_write32 (enable_lapic_if_needed l) 0x3e0 0x3)
              0x320 BSP_WAIT_TIMER_VECTOR) 0x380 BSP_WAIT_TIMER_INITIAL_COUNT))"

section \<open>Behaviour\<close>

text \<open>The command register is idle at its \<open>k\<close>-th read from now.\<close>

definition icr_idle_at :: "lapic \<Rightarrow> nat \<Rightarrow> bool" where
  "icr_idle_at l k \<longleftrightarrow> la_icr l (la_icr_reads l + k) AND push_bit 12 1 = 0"

lemma lapic_poll_icr_result:
  "fst (lapic_poll_icr n l) \<longleftrightarrow> (\<exists>k<n. icr_idle_at l k)"
proof (induction n arbitrary: l)
  case (Suc n)
  have shift: "icr_idle_at (l\<lparr>la_icr_reads := Suc (la_icr_reads l)\<rparr>) k \<longleftrightarrow> icr_idle_at l (Suc k)" for k
    by (simp add: icr_idle_at_def)
  have now: "la_icr l (la_icr_reads l) AND push_bit 12 1 = 0 \<longleftrightarrow> icr_idle_at l 0"
    by (simp add: icr_idle_at_def)
  have "(\<exists>k<Suc n. icr_idle_at l k) \<longleftrightarrow> icr_idle_at l 0 \<or> (\<exists>k<n. icr_idle_at l (Suc k))"
    by (metis Suc_less_eq gr0_implies_Suc not_gr_zero zero_less_Suc)
  then show ?case
    using Suc.IH [of "l\<lparr>la_icr_reads := Suc (la_icr_reads l)\<rparr>"] now
    by (simp add: lapic_read32_def shift)
qed simp

lemma lapic_poll_icr_frame:
  "\<exists>k. snd (lapic_poll_icr n l) = l\<lparr>la_icr_reads := la_icr_reads l + k\<rparr>"
proof (induction n arbitrary: l)
  case (Suc n)
  obtain k where "snd (lapic_poll_icr n (l\<lparr>la_icr_reads := Suc (la_icr_reads l)\<rparr>)) =
      l\<lparr>la_icr_reads := Suc (la_icr_reads l) + k\<rparr>"
    using Suc [of "l\<lparr>la_icr_reads := Suc (la_icr_reads l)\<rparr>"] by auto
  then show ?case
    by (auto simp: lapic_read32_def intro: exI [of _ "Suc k"] exI [of _ 1])
qed (auto intro: exI [of _ 0])

definition icr_becomes_idle :: "lapic \<Rightarrow> bool" where
  "icr_becomes_idle l \<longleftrightarrow> (\<exists>j<ICR_WAIT_LOOPS. icr_idle_at l j)"

lemma lapic_wait_icr_idle_cases:
  "\<exists>k. lapic_wait_icr_idle l boot =
     (if icr_becomes_idle l
      then (True, l\<lparr>la_icr_reads := la_icr_reads l + k\<rparr>, boot)
      else (False, l\<lparr>la_icr_reads := la_icr_reads l + k\<rparr>,
        boot\<lparr>bi_icr_timeouts := bi_icr_timeouts boot + 1\<rparr>))"
proof -
  obtain ok l' where p: "lapic_poll_icr ICR_WAIT_LOOPS l = (ok, l')" by (cases "lapic_poll_icr ICR_WAIT_LOOPS l")
  with lapic_poll_icr_result [of ICR_WAIT_LOOPS l] have "ok \<longleftrightarrow> icr_becomes_idle l"
    by (simp add: icr_becomes_idle_def)
  moreover obtain k where "l' = l\<lparr>la_icr_reads := la_icr_reads l + k\<rparr>"
    using lapic_poll_icr_frame [of ICR_WAIT_LOOPS l] p by auto
  ultimately show ?thesis
    by (intro exI [of _ k]) (cases ok; simp add: lapic_wait_icr_idle_def p)
qed

lemma lapic_wait_icr_idle_uniform:
  "\<exists>ok k. lapic_wait_icr_idle l boot = (ok, l\<lparr>la_icr_reads := la_icr_reads l + k\<rparr>,
      boot\<lparr>bi_icr_timeouts := bi_icr_timeouts boot + (if ok then 0 else 1)\<rparr>) \<and>
    (ok \<longleftrightarrow> icr_becomes_idle l)"
  using lapic_wait_icr_idle_cases [of l boot]
  by (cases "icr_becomes_idle l") (auto intro: exI [of _ True] exI [of _ False])

lemma lapic_send_ipi_boot:
  "\<exists>n. snd (snd (lapic_send_ipi l apic_id command boot)) = boot\<lparr>bi_icr_timeouts := n\<rparr>"
proof -
  have wait: "\<exists>n. snd (snd (lapic_wait_icr_idle l boot)) = boot\<lparr>bi_icr_timeouts := n\<rparr>" for l boot
    using lapic_wait_icr_idle_uniform [of l boot] by auto
  obtain ok l' n where first: "lapic_wait_icr_idle l boot = (ok, l', boot\<lparr>bi_icr_timeouts := n\<rparr>)"
    using wait [of l boot] by (cases "lapic_wait_icr_idle l boot") auto
  then show ?thesis
    using wait [of "lapic_write32 (lapic_write32 l' 0x310 (push_bit 24 apic_id)) 0x300 command"
        "boot\<lparr>bi_icr_timeouts := n\<rparr>"]
    by (cases ok) (auto simp: lapic_send_ipi_def)
qed

text \<open>
  Sending an interrupt waits for the command register, writes the target and the command
  exactly once each and in this order, and waits again. It succeeds only if the command was written;
  when the register never becomes idle before the write, nothing is written. A failure counts exactly
  one timeout, a success none, and no other field of the boot record changes.
\<close>

theorem lapic_send_ipi_writes:
  "\<exists>ok k. lapic_send_ipi l apic_id command boot =
     (ok, l\<lparr>la_icr_reads := la_icr_reads l + k,
            la_regs := (if icr_becomes_idle l
              then (la_regs l)(0x310 := push_bit 24 apic_id, 0x300 := command) else la_regs l),
            la_writes := la_writes l @ (if icr_becomes_idle l
              then [(0x310, push_bit 24 apic_id), (0x300, command)] else [])\<rparr>,
      boot\<lparr>bi_icr_timeouts := bi_icr_timeouts boot + (if ok then 0 else 1)\<rparr>) \<and>
     (if icr_becomes_idle l then True else \<not> ok)"
proof (cases "icr_becomes_idle l")
  case True
  obtain k where first: "lapic_wait_icr_idle l boot = (True, l\<lparr>la_icr_reads := la_icr_reads l + k\<rparr>, boot)"
    using lapic_wait_icr_idle_cases [of l boot] True by auto
  let ?l = "lapic_write32 (lapic_write32 (l\<lparr>la_icr_reads := la_icr_reads l + k\<rparr>) 0x310 (push_bit 24 apic_id))
    0x300 command"
  obtain ok k' where "lapic_wait_icr_idle ?l boot = (ok, ?l\<lparr>la_icr_reads := la_icr_reads ?l + k'\<rparr>,
      boot\<lparr>bi_icr_timeouts := bi_icr_timeouts boot + (if ok then 0 else 1)\<rparr>)"
    using lapic_wait_icr_idle_uniform [of ?l boot] by blast
  then have "lapic_send_ipi l apic_id command boot = (ok, ?l\<lparr>la_icr_reads := la_icr_reads l + (k + k')\<rparr>,
      boot\<lparr>bi_icr_timeouts := bi_icr_timeouts boot + (if ok then 0 else 1)\<rparr>)"
    by (simp add: lapic_send_ipi_def first lapic_write32_def add.assoc)
  with True show ?thesis
    by (intro exI [of _ ok] exI [of _ "k + k'"]) (simp add: lapic_write32_def)
next
  case False
  then obtain k where "lapic_wait_icr_idle l boot = (False, l\<lparr>la_icr_reads := la_icr_reads l + k\<rparr>,
        boot\<lparr>bi_icr_timeouts := bi_icr_timeouts boot + 1\<rparr>)"
    using lapic_wait_icr_idle_cases [of l boot] by auto
  with False show ?thesis
    by (intro exI [of _ False] exI [of _ k]) (simp add: lapic_send_ipi_def)
qed

end
