(* ===== verification/Ap_Scheduler.thy ===== *)
theory Ap_Scheduler
  imports Ap_Types
begin

text \<open>
  Which AP a request stream goes to (\<^verbatim>\<open>kernel/kernel.c\<close>): the registry of the APs that are
  online, the round-robin selection over it, an explicit target chosen at build time, and the route,
  which prefers the AP that owns the service of the plan. A pointer to a context is its index in
  \<^verbatim>\<open>ap_contexts\<close>, a null pointer of the registry is \<open>None\<close>.
\<close>

section \<open>Operations\<close>

definition ap0_context :: nat where
  [ctx_ops]: "ap0_context = 0"

text \<open>The search for a context in the array; a pointer to no context gives index 0.\<close>

definition ap_context_index :: "nat \<Rightarrow> u32" where
  "ap_context_index ctx = (case find (\<lambda>i. ctx = i) [0..<MAX_AP_CONTEXTS] of
     Some i \<Rightarrow> word_of_nat i | None \<Rightarrow> 0)"

definition ap_context_is_schedulable :: "ap_context_t \<Rightarrow> bool" where
  "ap_context_is_schedulable ctx =
     (let boot = ctx_boot ctx in
      bi_error boot = AP_BOOT_OK \<and> bi_online boot \<noteq> 0 \<and>
      bi_ap_state boot \<noteq> AP_BOOT_STATE_HALTED \<and> bi_ap_state boot \<noteq> AP_BOOT_STATE_FAULTED)"

definition ap_request_fault_test_enabled :: "build_config \<Rightarrow> bool" where
  "ap_request_fault_test_enabled cfg \<longleftrightarrow>
     VIBE_AP_REQUEST_FAULT_TEST cfg \<noteq> VIBE_AP_REQUEST_FAULT_TEST_NONE"

definition register_online_ap :: "ap_context_t list \<Rightarrow> nat \<Rightarrow> ap_scheduler_t \<Rightarrow> ap_scheduler_t" where
  "register_online_ap contexts i scheduler =
     (if \<not> ap_context_is_schedulable (contexts ! i) then scheduler
      else scheduler\<lparr>
        sch_online := (sch_online scheduler)[unat (sch_online_count scheduler) := Some i],
        sch_online_count := sch_online_count scheduler + 1\<rparr>)"

definition build_online_ap_registry ::
    "ap_scheduler_t \<Rightarrow> ap_context_t list \<Rightarrow> nat \<Rightarrow> ap_scheduler_t" where
  "build_online_ap_registry scheduler contexts context_count =
     (let next_index = sch_next_index scheduler;
          scheduler = scheduler\<lparr>
            sch_online := fold (\<lambda>i online. online[i := None]) [0..<MAX_AP_CONTEXTS] (sch_online scheduler),
            sch_online_count := 0, sch_selected_apic_id := 0, sch_explicit_target := 0,
            sch_next_index := next_index,
            sch_selected_context_index := AP_REQUEST_TARGET_SCHEDULER\<rparr>;
          context_count = (if context_count > MAX_AP_CONTEXTS then MAX_AP_CONTEXTS else context_count);
          scheduler = fold (register_online_ap contexts) [0..<context_count] scheduler
      in if sch_online_count scheduler > 0 \<and> sch_next_index scheduler \<ge> sch_online_count scheduler
         then scheduler\<lparr>sch_next_index := 0\<rparr> else scheduler)"

text \<open>\<open>None\<close> stands for dereferencing a null entry of the registry.\<close>

definition select_ap_request_target_context ::
    "build_config \<Rightarrow> ap_scheduler_t \<Rightarrow> ap_context_t list \<Rightarrow> nat \<Rightarrow> (nat \<times> ap_scheduler_t) option" where
  "select_ap_request_target_context cfg scheduler contexts context_count =
     (let target_index = VIBE_AP_REQUEST_TARGET_INDEX cfg in
      if target_index \<noteq> AP_REQUEST_TARGET_SCHEDULER \<and> unat target_index < context_count \<and>
         unat target_index < MAX_AP_CONTEXTS \<and>
         ap_context_is_schedulable (contexts ! unat target_index)
      then Some (unat target_index, scheduler\<lparr>sch_explicit_target := 1,
             sch_selected_context_index := target_index,
             sch_selected_apic_id := bi_target_apic_id (ctx_boot (contexts ! unat target_index))\<rparr>)
      else
        (let scheduler = scheduler\<lparr>sch_explicit_target := 0\<rparr> in
         if sch_online_count scheduler = 0
         then Some (ap0_context, scheduler\<lparr>sch_selected_context_index := 0,
                sch_selected_apic_id := bi_target_apic_id (ctx_boot (contexts ! 0))\<rparr>)
         else
           (let registry_index = (if sch_next_index scheduler \<ge> sch_online_count scheduler
                                  then 0 else sch_next_index scheduler)
            in case sch_online scheduler ! unat registry_index of
                 None \<Rightarrow> None
               | Some selected \<Rightarrow> Some (selected, scheduler\<lparr>
                   sch_next_index := (registry_index + 1) mod sch_online_count scheduler,
                   sch_selected_context_index := ap_context_index selected,
                   sch_selected_apic_id := bi_target_apic_id (ctx_boot (contexts ! selected))\<rparr>))))"

text \<open>The loop over the plan: the owner of the first request whose service is known.\<close>

fun ap_request_plan_owner_context_index ::
    "build_config \<Rightarrow> cpu_selectors \<Rightarrow> ap_request_plan_t list \<Rightarrow> u32 \<Rightarrow> bool \<times> u32" where
  "ap_request_plan_owner_context_index cfg sel [] owner_context_index = (False, owner_context_index)"
| "ap_request_plan_owner_context_index cfg sel (p # plan) owner_context_index =
     (case ap_service_owner_context_index cfg sel (pl_service_id p) (pl_interface_id p) (Some 0) of
        (AP_SERVICE_LOOKUP_OK, Some owner_index) \<Rightarrow> (True, owner_index)
      | _ \<Rightarrow> ap_request_plan_owner_context_index cfg sel plan owner_context_index)"

definition set_ap_request_route ::
    "ap_request_route_t \<Rightarrow> u32 \<Rightarrow> ap_context_t list \<Rightarrow> nat \<Rightarrow> u32 \<Rightarrow> ap_request_route_t" where
  "set_ap_request_route route mode contexts target_context owner_context_index = route\<lparr>
     rt_mode := mode,
     rt_target_context_index := ap_context_index target_context,
     rt_target_apic_id := bi_target_apic_id (ctx_boot (contexts ! target_context)),
     rt_owner_context_index := owner_context_index\<rparr>"

definition select_ap_request_route_context ::
    "build_config \<Rightarrow> cpu_selectors \<Rightarrow> ap_request_route_t \<Rightarrow> ap_scheduler_t \<Rightarrow> nat option \<Rightarrow>
     ap_request_plan_t list \<Rightarrow> ap_context_t list \<Rightarrow> nat \<Rightarrow> nat \<times> ap_request_route_t" where
  "select_ap_request_route_context cfg sel route scheduler scheduler_target plan contexts context_count =
     (let target = (case scheduler_target of Some t \<Rightarrow> t | None \<Rightarrow> ap0_context);
          owner_context_index = AP_REQUEST_TARGET_SCHEDULER
      in if sch_explicit_target scheduler \<noteq> 0
         then (target, set_ap_request_route route AP_REQUEST_ROUTE_EXPLICIT contexts target
                 owner_context_index)
         else
           (let (found, owner_context_index) =
                  ap_request_plan_owner_context_index cfg sel plan owner_context_index
            in if found \<and> unat owner_context_index < context_count \<and>
                  unat owner_context_index < MAX_AP_CONTEXTS \<and>
                  ap_context_is_schedulable (contexts ! unat owner_context_index)
               then (unat owner_context_index, set_ap_request_route route AP_REQUEST_ROUTE_OWNER
                       contexts (unat owner_context_index) owner_context_index)
               else (target, set_ap_request_route route AP_REQUEST_ROUTE_SCHEDULER_FALLBACK contexts
                       target owner_context_index)))"

section \<open>The registry\<close>

lemma ap_context_index_eq: "ap_context_index ctx = (if ctx < 8 then word_of_nat ctx else 0)"
proof (cases "ctx < 8")
  case True
  have "find (\<lambda>i. ctx = i) [0..<8] = Some ctx"
    unfolding find_Some_iff using True by (intro exI [of _ ctx]) auto
  then show ?thesis using True by (simp add: ap_context_index_def c_const)
next
  case False
  then have "find (\<lambda>i. ctx = i) [0..<8] = None" by (auto simp: find_None_iff)
  then show ?thesis using False by (simp add: ap_context_index_def c_const)
qed

text \<open>The indices of the schedulable contexts among the first \<open>n\<close>, in order.\<close>

definition online_aps :: "ap_context_t list \<Rightarrow> nat \<Rightarrow> nat list" where
  "online_aps contexts n = filter (\<lambda>i. ap_context_is_schedulable (contexts ! i)) [0..<min n MAX_AP_CONTEXTS]"

lemma online_aps_facts:
  "length (online_aps contexts n) \<le> 8" "distinct (online_aps contexts n)"
  "c \<in> set (online_aps contexts n) \<longleftrightarrow>
     c < n \<and> c < MAX_AP_CONTEXTS \<and> ap_context_is_schedulable (contexts ! c)"
proof -
  have "length (online_aps contexts n) \<le> min n MAX_AP_CONTEXTS"
    unfolding online_aps_def by (metis length_filter_le length_upt minus_nat.diff_0)
  then show "length (online_aps contexts n) \<le> 8" by (simp add: c_const)
qed (auto simp: online_aps_def)

text \<open>The registry holds the online contexts, in order, and null pointers after them.\<close>

definition registry_holds :: "nat list \<Rightarrow> ap_scheduler_t \<Rightarrow> bool" where
  "registry_holds cs s \<longleftrightarrow> length (sch_online s) = MAX_AP_CONTEXTS \<and>
     unat (sch_online_count s) = length cs \<and> length cs \<le> MAX_AP_CONTEXTS \<and>
     (\<forall>k < length cs. sch_online s ! k = Some (cs ! k))"

lemma register_online_ap_holds:
  assumes "registry_holds cs s" "length cs < MAX_AP_CONTEXTS"
  shows "registry_holds (if ap_context_is_schedulable (contexts ! i) then cs @ [i] else cs)
    (register_online_ap contexts i s)"
proof -
  have "unat (sch_online_count s + 1) = Suc (length cs)"
    using assms by (auto simp: registry_holds_def unat_word_ariths c_const)
  then show ?thesis
    using assms by (auto simp: registry_holds_def register_online_ap_def nth_append less_Suc_eq)
qed

lemma register_all_holds:
  assumes "registry_holds [] s" "n \<le> MAX_AP_CONTEXTS"
  shows "registry_holds (filter (\<lambda>i. ap_context_is_schedulable (contexts ! i)) [0..<n])
    (fold (register_online_ap contexts) [0..<n] s)"
  using assms(2)
proof (induction n)
  case (Suc n)
  let ?cs = "filter (\<lambda>i. ap_context_is_schedulable (contexts ! i)) [0..<n]"
  have "length ?cs \<le> n" by (metis length_filter_le length_upt minus_nat.diff_0)
  then have "length ?cs < MAX_AP_CONTEXTS" using Suc.prems by simp
  from register_online_ap_holds [OF Suc.IH this, of contexts n] Suc.prems show ?case
    by (simp split: if_splits)
qed (use assms(1) in simp)

lemma register_keeps_next:
  "sch_next_index (fold (register_online_ap contexts) is s) = sch_next_index s"
  by (induction "is" arbitrary: s) (auto simp: register_online_ap_def)

lemma build_online_ap_registry_holds:
  assumes "length (sch_online s) = MAX_AP_CONTEXTS"
  shows "registry_holds (online_aps contexts n) (build_online_ap_registry s contexts n)"
    and "sch_explicit_target (build_online_ap_registry s contexts n) = 0"
    and "online_aps contexts n \<noteq> [] \<Longrightarrow>
      unat (sch_next_index (build_online_ap_registry s contexts n)) < length (online_aps contexts n)"
proof -
  let ?s = "s\<lparr>sch_online := fold (\<lambda>i online. online[i := None]) [0..<MAX_AP_CONTEXTS] (sch_online s),
    sch_online_count := 0, sch_selected_apic_id := 0, sch_explicit_target := 0,
    sch_next_index := sch_next_index s, sch_selected_context_index := AP_REQUEST_TARGET_SCHEDULER\<rparr>"
  let ?n = "if n > MAX_AP_CONTEXTS then MAX_AP_CONTEXTS else n"
  let ?t = "fold (register_online_ap contexts) [0..<?n] ?s"
  have n: "?n = min n MAX_AP_CONTEXTS" by simp
  have len: "length (fold (\<lambda>i online. online[i := None]) is (xs :: nat option list)) = length xs" for "is" xs
    by (induction "is" arbitrary: xs) auto
  have "registry_holds [] ?s" using assms by (simp add: registry_holds_def len)
  from register_all_holds [OF this, of ?n contexts]
  have holds: "registry_holds (online_aps contexts n) ?t" by (simp add: online_aps_def n)
  have build: "build_online_ap_registry s contexts n =
      (if sch_online_count ?t > 0 \<and> sch_next_index ?t \<ge> sch_online_count ?t then ?t\<lparr>sch_next_index := 0\<rparr> else ?t)"
    by (simp add: build_online_ap_registry_def Let_def)
  show "registry_holds (online_aps contexts n) (build_online_ap_registry s contexts n)"
    using holds unfolding build by (auto simp: registry_holds_def)
  have expl: "sch_explicit_target (fold (register_online_ap contexts) is x) = sch_explicit_target x" for "is" x
    by (induction "is" arbitrary: x) (auto simp: register_online_ap_def)
  show "sch_explicit_target (build_online_ap_registry s contexts n) = 0"
    unfolding build by (simp add: expl)
  show "unat (sch_next_index (build_online_ap_registry s contexts n)) < length (online_aps contexts n)"
    if "online_aps contexts n \<noteq> []"
  proof -
    have cnt: "unat (sch_online_count ?t) = length (online_aps contexts n)"
      using holds by (simp add: registry_holds_def)
    moreover have "0 < length (online_aps contexts n)" using that by simp
    ultimately show ?thesis unfolding build by (auto simp: word_less_nat_alt word_le_nat_alt not_le)
  qed
qed

text \<open>A target fixed at build time counts only when it names a schedulable context.\<close>

definition explicit_target_valid :: "build_config \<Rightarrow> ap_context_t list \<Rightarrow> nat \<Rightarrow> bool" where
  "explicit_target_valid cfg contexts n \<longleftrightarrow>
     VIBE_AP_REQUEST_TARGET_INDEX cfg \<noteq> AP_REQUEST_TARGET_SCHEDULER \<and>
     unat (VIBE_AP_REQUEST_TARGET_INDEX cfg) \<in> set (online_aps contexts n)"

lemma select_from_registry:
  assumes holds: "registry_holds cs s" and "unat (sch_next_index s) < length cs"
    and auto: "\<not> explicit_target_valid cfg contexts n"
  shows "\<exists>s'. select_ap_request_target_context cfg s contexts n = Some (cs ! unat (sch_next_index s), s') \<and>
    registry_holds cs s' \<and> unat (sch_next_index s') = Suc (unat (sch_next_index s)) mod length cs \<and>
    sch_explicit_target s' = 0"
proof -
  have cnt: "unat (sch_online_count s) = length cs" "length cs \<le> 8"
    using holds by (simp_all add: registry_holds_def c_const)
  have "sch_online_count s \<noteq> 0" "\<not> sch_next_index s \<ge> sch_online_count s"
    using assms(2) cnt(1) by (auto simp: word_le_nat_alt)
  moreover have "unat (sch_next_index s + 1) = Suc (unat (sch_next_index s))"
    using assms(2) cnt(2) by (simp add: unat_word_ariths)
  then have "unat ((sch_next_index s + 1) mod sch_online_count s) = Suc (unat (sch_next_index s)) mod length cs"
    by (simp add: unat_mod cnt(1))
  moreover have "sch_online s ! unat (sch_next_index s) = Some (cs ! unat (sch_next_index s))"
    using holds assms(2) by (simp add: registry_holds_def)
  ultimately show ?thesis
    using holds auto
    by (simp add: select_ap_request_target_context_def Let_def registry_holds_def
        explicit_target_valid_def online_aps_facts)
qed

text \<open>Successive selections, as a client that asks repeatedly sees them.\<close>

fun select_targets ::
    "build_config \<Rightarrow> ap_context_t list \<Rightarrow> nat \<Rightarrow> nat \<Rightarrow> ap_scheduler_t \<Rightarrow> nat list option" where
  "select_targets cfg contexts n 0 s = Some []"
| "select_targets cfg contexts n (Suc k) s =
     (case select_ap_request_target_context cfg s contexts n of
        None \<Rightarrow> None
      | Some (c, s) \<Rightarrow> map_option ((#) c) (select_targets cfg contexts n k s))"

lemma select_targets_cycle:
  assumes "registry_holds cs s" "unat (sch_next_index s) < length cs"
    and "\<not> explicit_target_valid cfg contexts n"
  shows "select_targets cfg contexts n k s =
    Some (map (\<lambda>j. cs ! ((unat (sch_next_index s) + j) mod length cs)) [0..<k])"
  using assms
proof (induction k arbitrary: s)
  case (Suc k)
  obtain s' where s': "select_ap_request_target_context cfg s contexts n = Some (cs ! unat (sch_next_index s), s')"
    "registry_holds cs s'" "unat (sch_next_index s') = Suc (unat (sch_next_index s)) mod length cs"
    using select_from_registry [OF Suc.prems] by blast
  have "0 < length cs" using Suc.prems(2) by linarith
  then have "unat (sch_next_index s') < length cs" by (simp add: s'(3))
  from Suc.IH [OF s'(2) this Suc.prems(3)]
  have "select_targets cfg contexts n k s' =
      Some (map (\<lambda>j. cs ! ((unat (sch_next_index s) + Suc j) mod length cs)) [0..<k])"
    by (simp add: s'(3) mod_add_left_eq)
  moreover have "map (\<lambda>j. cs ! ((unat (sch_next_index s) + j) mod length cs)) [0..<Suc k] =
      cs ! unat (sch_next_index s) #
      map (\<lambda>j. cs ! ((unat (sch_next_index s) + Suc j) mod length cs)) [0..<k]"
    using Suc.prems(2) by (simp only: upt_conv_Cons [OF zero_less_Suc] map_Suc_upt [symmetric]) simp
  ultimately show ?case using s'(1) by simp
qed simp

section \<open>Properties\<close>

text \<open>
  C27. Scheduling is round robin over the APs that are online: after the registry is built, with
  no target fixed at build time, as many successive selections as there are schedulable contexts
  never meet a null entry and select each schedulable context exactly once.
\<close>

theorem scheduler_round_robin:
  assumes "VIBE_AP_REQUEST_TARGET_INDEX cfg = AP_REQUEST_TARGET_SCHEDULER"
    and "length (sch_online s) = MAX_AP_CONTEXTS" and "online_aps contexts n \<noteq> []"
  shows "\<exists>ts. select_targets cfg contexts n (length (online_aps contexts n))
      (build_online_ap_registry s contexts n) = Some ts \<and> distinct ts \<and>
    set ts = {c. c < n \<and> c < MAX_AP_CONTEXTS \<and> ap_context_is_schedulable (contexts ! c)}"
proof -
  let ?cs = "online_aps contexts n" and ?s = "build_online_ap_registry s contexts n"
  let ?r = "unat (sch_next_index ?s)"
  have "select_targets cfg contexts n (length ?cs) ?s = Some (map (\<lambda>j. ?cs ! ((?r + j) mod length ?cs)) [0..<length ?cs])"
    using build_online_ap_registry_holds [OF assms(2), where contexts = contexts and n = n] assms(1,3)
    by (intro select_targets_cycle) (simp_all add: explicit_target_valid_def)
  also have "map (\<lambda>j. ?cs ! ((?r + j) mod length ?cs)) [0..<length ?cs] = rotate ?r ?cs"
    by (rule nth_equalityI) (simp_all add: nth_rotate add.commute)
  finally show ?thesis
    using online_aps_facts(2) [of contexts n] online_aps_facts(3) [of _ contexts n] by auto
qed

lemma select_from_online:
  assumes "length (sch_online s) = MAX_AP_CONTEXTS" and "online_aps contexts n \<noteq> []"
  shows "\<exists>t s'. select_ap_request_target_context cfg (build_online_ap_registry s contexts n) contexts n = Some (t, s')
    \<and> t \<in> set (online_aps contexts n)"
proof (cases "explicit_target_valid cfg contexts n")
  case True
  then show ?thesis
    by (auto simp: select_ap_request_target_context_def explicit_target_valid_def online_aps_facts Let_def)
next
  case False
  let ?s = "build_online_ap_registry s contexts n" and ?cs = "online_aps contexts n"
  have bound: "unat (sch_next_index ?s) < length ?cs"
    using build_online_ap_registry_holds(3) [OF assms] .
  from select_from_registry [OF build_online_ap_registry_holds(1) [OF assms(1)] this False]
  show ?thesis using nth_mem [OF bound] by blast
qed

lemma route_selects:
  assumes "length (sch_online s) = MAX_AP_CONTEXTS" and "online_aps contexts n \<noteq> []"
  shows "\<exists>t s' c route'. select_ap_request_target_context cfg (build_online_ap_registry s contexts n) contexts n =
      Some (t, s') \<and>
    select_ap_request_route_context cfg sel route s' (Some t) plan contexts n = (c, route') \<and>
    c < n \<and> c < MAX_AP_CONTEXTS \<and> ap_context_is_schedulable (contexts ! c) \<and>
    rt_target_context_index route' = word_of_nat c \<and>
    rt_target_apic_id route' = bi_target_apic_id (ctx_boot (contexts ! c))"
proof -
  let ?s = "build_online_ap_registry s contexts n" and ?cs = "online_aps contexts n"
  obtain t s' where t: "select_ap_request_target_context cfg ?s contexts n = Some (t, s')" "t \<in> set ?cs"
    using select_from_online [OF assms] by blast
  obtain c route' where route: "select_ap_request_route_context cfg sel route s' (Some t) plan contexts n = (c, route')"
    by (cases "select_ap_request_route_context cfg sel route s' (Some t) plan contexts n")
  then have c: "c \<in> set ?cs" "rt_target_context_index route' = ap_context_index c"
    "rt_target_apic_id route' = bi_target_apic_id (ctx_boot (contexts ! c))"
    using t(2) by (auto simp: select_ap_request_route_context_def set_ap_request_route_def Let_def
        online_aps_facts split: if_splits prod.splits)
  then have "rt_target_context_index route' = word_of_nat c"
    by (simp add: ap_context_index_eq online_aps_facts c_const)
  with t(1) route c show ?thesis by (simp add: online_aps_facts)
qed

text \<open>With no AP online the stream goes to the first context.\<close>

lemma route_target_bound:
  assumes "length (sch_online s) = MAX_AP_CONTEXTS"
    and "scheduler_target = map_option fst (select_ap_request_target_context cfg (build_online_ap_registry s contexts n) contexts n)"
  shows "fst (select_ap_request_route_context cfg sel route s' scheduler_target plan contexts n) < MAX_AP_CONTEXTS"
proof -
  have "t < MAX_AP_CONTEXTS" if "scheduler_target = Some t" for t
  proof (cases "online_aps contexts n = []")
    case True
    then have "sch_online_count (build_online_ap_registry s contexts n) = 0"
      using build_online_ap_registry_holds(1) [OF assms(1), of contexts n]
      by (simp add: registry_holds_def unat_eq_zero)
    moreover have "\<not> explicit_target_valid cfg contexts n" using True by (simp add: explicit_target_valid_def)
    ultimately show ?thesis
      using that assms(2)
      by (auto simp: select_ap_request_target_context_def Let_def explicit_target_valid_def
          online_aps_facts ap0_context_def c_const split: if_splits)
  next
    case False
    then show ?thesis
      using that assms(2) select_from_online [OF assms(1) False, of cfg] by (auto simp: online_aps_facts)
  qed
  then show ?thesis
    by (auto simp: select_ap_request_route_context_def Let_def ap0_context_def c_const split: option.split prod.split)
qed

text \<open>
  C26. Where a stream goes: the context the route selects is recorded in the route, and as long
  as some AP is schedulable the selected context is schedulable, whatever the build-time target, the
  owners of the services and the plan are.
\<close>

theorem route_selects_schedulable:
  assumes "length (sch_online s) = MAX_AP_CONTEXTS" and "online_aps contexts n \<noteq> []"
  shows "\<exists>t s' c route'. select_ap_request_target_context cfg (build_online_ap_registry s contexts n) contexts n =
      Some (t, s') \<and>
    select_ap_request_route_context cfg sel route s' (Some t) plan contexts n = (c, route') \<and>
    c < n \<and> c < MAX_AP_CONTEXTS \<and> ap_context_is_schedulable (contexts ! c) \<and>
    rt_target_context_index route' = word_of_nat c \<and>
    rt_target_apic_id route' = bi_target_apic_id (ctx_boot (contexts ! c))"
  using assms by (rule route_selects)

text \<open>A machine whose second and third APs are online, for the witnesses.\<close>

definition boot_with :: "u32 \<Rightarrow> u32 \<Rightarrow> u32 \<Rightarrow> ap_boot_info_t" where
  "boot_with online state apic = \<lparr>bi_trampoline_base = 0x8000, bi_stack_top = 0, bi_online = online,
     bi_ap_state = state, bi_entry_state = 0, bi_gdt_ok = 1, bi_tss_ok = 1, bi_idt_ok = 1, bi_ap_cs = 8,
     bi_ap_tr = 24, bi_ap_ist1 = 0, bi_ap_ist2 = 0, bi_fault_vector = 0, bi_fault_error_code = 0,
     bi_fault_rip = 0, bi_fault_cs = 0, bi_fault_rflags = 0, bi_fault_cr2 = 0, bi_fault_phase = 0,
     bi_fault_request_state = 0, bi_fault_request_opcode = 0, bi_fault_request_sequence = 0,
     bi_fault_request_service_id = 0, bi_fault_request_interface_id = 0, bi_fault_request_id_high = 0,
     bi_fault_request_id_low = 0, bi_target_acpi_uid = apic, bi_target_apic_id = apic, bi_sipi_vector = 8,
     bi_error = 0, bi_wait_loops = 0, bi_icr_timeouts = 0\<rparr>"

definition zero_trace :: interrupt_trace_t where
  "zero_trace = \<lparr>tr_vector = 0, tr_count = 0, tr_rip = 0, tr_cs = 0, tr_rflags = 0\<rparr>"

definition context_with :: "ap_boot_info_t \<Rightarrow> ap_context_t" where
  "context_with boot = \<lparr>ctx_boot = boot, ctx_cpu = zero_cpu_local, ctx_idt = blank_idt,
     ctx_interrupts = \<lparr>io_kick_ipi = zero_trace, io_completion_ipi = zero_trace, io_idle_timer_count = 0\<rparr>,
     ctx_request_slots = replicate 4 zero_slot,
     ctx_request_history = replicate 8 \<lparr>hi_request = zero_slot, hi_counter_value = 0, hi_slot = 0, hi_valid = 0\<rparr>,
     ctx_queue_summary = \<lparr>qs_current_slot = 0, qs_handled_count = 0, qs_last_slot = 0, qs_last_state = 0,
       qs_stop_reason = 0, qs_planned_count = 0\<rparr>,
     ctx_current_request_slot = AP_REQUEST_NO_SLOT, ctx_request_handled_count = 0, ctx_counter_value = 0,
     ctx_request_kick_ipi_send_count = 0, ctx_request_kick_ipi_send_fail_count = 0,
     ctx_request_ipi_send_count = 0, ctx_request_ipi_send_fail_count = 0, ctx_idle_halt_count = 0,
     ctx_idle_wake_count = 0, ctx_completion_target_apic_id = 0\<rparr>"

definition example_contexts :: "ap_context_t list" where
  "example_contexts = [context_with (boot_with 1 AP_BOOT_STATE_HALTED 1),
     context_with (boot_with 1 AP_BOOT_STATE_ONLINE 2), context_with (boot_with 1 AP_BOOT_STATE_ONLINE 3)]"

definition example_scheduler :: ap_scheduler_t where
  "example_scheduler = \<lparr>sch_online = replicate 8 None, sch_online_count = 0, sch_next_index = 0,
     sch_selected_context_index = 0, sch_selected_apic_id = 0, sch_explicit_target = 0\<rparr>"

lemma example_online: "online_aps example_contexts 3 = [1, 2]"
  by (simp add: online_aps_def example_contexts_def context_with_def boot_with_def
      ap_context_is_schedulable_def Let_def c_const upt_rec)

theorem scheduler_round_robin_witness:
  "\<exists>ts. select_targets default_build example_contexts 3 (length (online_aps example_contexts 3))
      (build_online_ap_registry example_scheduler example_contexts 3) = Some ts \<and> distinct ts"
proof -
  have "VIBE_AP_REQUEST_TARGET_INDEX default_build = AP_REQUEST_TARGET_SCHEDULER"
    "length (sch_online example_scheduler) = MAX_AP_CONTEXTS" "online_aps example_contexts 3 \<noteq> []"
    by (simp_all add: default_build_def example_scheduler_def MAX_AP_CONTEXTS_def example_online)
  from scheduler_round_robin [OF this] show ?thesis by blast
qed

theorem route_selects_schedulable_witness:
  "\<exists>t s' c route'. select_ap_request_target_context default_build
      (build_online_ap_registry example_scheduler example_contexts 3) example_contexts 3 = Some (t, s') \<and>
    select_ap_request_route_context default_build \<lparr>sel_cs = 8, sel_tr = 24\<rparr>
      \<lparr>rt_mode = 0, rt_target_context_index = 0, rt_target_apic_id = 0, rt_owner_context_index = 0\<rparr>
      s' (Some t) [zero_plan] example_contexts 3 = (c, route') \<and>
    ap_context_is_schedulable (example_contexts ! c)"
  using route_selects_schedulable [of example_scheduler example_contexts 3 default_build
      "\<lparr>sel_cs = 8, sel_tr = 24\<rparr>"
      "\<lparr>rt_mode = 0, rt_target_context_index = 0, rt_target_apic_id = 0, rt_owner_context_index = 0\<rparr>" "[zero_plan]"]
  by (auto simp: example_online example_scheduler_def MAX_AP_CONTEXTS_def)

end
