(* ===== verification/Ap_Context.thy ===== *)
theory Ap_Context
  imports Lapic Ap_Scheduler
begin

text \<open>
  The state the kernel keeps in its global variables and the operations on one AP context
  (\<^verbatim>\<open>kernel/kernel.c\<close>): the inbox of request slots, the request history, the queue summary,
  the notifications between BSP and AP, the interrupt entries that count interrupts, and the handler
  of a processor exception on an AP. A context is named by its index; \<open>self\<close> is the AP that
  executes. Each processor accesses its own local APIC, although all of them appear at the same address.
\<close>

section \<open>The global state\<close>

record kernel_state =
  ks_contexts :: "ap_context_t list"
  ks_service_outboxes :: "ap_request_outbox_t list"
  ks_committed_outboxes :: "ap_request_outbox_t list list"
  ks_broadcast_ping_summary :: ap_broadcast_ping_summary_t
  ks_request_target_context :: nat
  ks_system_lapic_base :: u64
  ks_bsp_wait_observe :: bsp_wait_observe_t
  ks_idt_self_test :: interrupt_trace_t
  ks_spurious :: interrupt_trace_t
  ks_bsp_lapic :: lapic
  ks_ap_lapics :: "lapic list"

definition upd_ctx :: "nat \<Rightarrow> (ap_context_t \<Rightarrow> ap_context_t) \<Rightarrow> kernel_state \<Rightarrow> kernel_state" where
  "upd_ctx c f k = k\<lparr>ks_contexts := (ks_contexts k)[c := f (ks_contexts k ! c)]\<rparr>"

definition upd_boot :: "nat \<Rightarrow> (ap_boot_info_t \<Rightarrow> ap_boot_info_t) \<Rightarrow> kernel_state \<Rightarrow> kernel_state" where
  "upd_boot c f = upd_ctx c (\<lambda>x. x\<lparr>ctx_boot := f (ctx_boot x)\<rparr>)"

definition upd_slot :: "nat \<Rightarrow> nat \<Rightarrow> (ap_request_slot_t \<Rightarrow> ap_request_slot_t) \<Rightarrow> kernel_state \<Rightarrow> kernel_state" where
  "upd_slot c i f = upd_ctx c (\<lambda>x. x\<lparr>ctx_request_slots :=
     (ctx_request_slots x)[i := f (ctx_request_slots x ! i)]\<rparr>)"

definition upd_queue :: "nat \<Rightarrow> (ap_queue_summary_t \<Rightarrow> ap_queue_summary_t) \<Rightarrow> kernel_state \<Rightarrow> kernel_state" where
  "upd_queue c f = upd_ctx c (\<lambda>x. x\<lparr>ctx_queue_summary := f (ctx_queue_summary x)\<rparr>)"

definition boot_of :: "kernel_state \<Rightarrow> nat \<Rightarrow> ap_boot_info_t" where
  "boot_of k c = ctx_boot (ks_contexts k ! c)"

section \<open>Outboxes and the request target\<close>

definition ap_service_outbox_for_context :: "kernel_state \<Rightarrow> nat \<Rightarrow> ap_request_outbox_t option" where
  "ap_service_outbox_for_context k c =
     (if c < MAX_AP_CONTEXTS then Some (ks_service_outboxes k ! c) else None)"

definition set_service_outbox :: "nat \<Rightarrow> ap_request_outbox_t option \<Rightarrow> kernel_state \<Rightarrow> kernel_state" where
  "set_service_outbox c ob k = (case ob of None \<Rightarrow> k
     | Some ob \<Rightarrow> k\<lparr>ks_service_outboxes := (ks_service_outboxes k)[c := ob]\<rparr>)"

definition ap_committed_outbox_for_slot :: "kernel_state \<Rightarrow> nat \<Rightarrow> nat \<Rightarrow> ap_request_outbox_t option" where
  "ap_committed_outbox_for_slot k c slot_index =
     (if slot_index \<ge> AP_REQUEST_SLOT_COUNT then None
      else if c < MAX_AP_CONTEXTS then Some (ks_committed_outboxes k ! c ! slot_index) else None)"

definition set_committed_outbox ::
    "nat \<Rightarrow> nat \<Rightarrow> ap_request_outbox_t option \<Rightarrow> kernel_state \<Rightarrow> kernel_state" where
  "set_committed_outbox c slot_index ob k = (case ob of None \<Rightarrow> k
     | Some ob \<Rightarrow> k\<lparr>ks_committed_outboxes := (ks_committed_outboxes k)[c :=
         (ks_committed_outboxes k ! c)[slot_index := ob]]\<rparr>)"

definition set_ap_request_target_context :: "nat \<Rightarrow> kernel_state \<Rightarrow> kernel_state" where
  "set_ap_request_target_context c k = k\<lparr>ks_request_target_context := c\<rparr>"

definition ap_context_is_request_target :: "kernel_state \<Rightarrow> nat \<Rightarrow> bool" where
  "ap_context_is_request_target k c \<longleftrightarrow> c = ks_request_target_context k"

section \<open>Inbox, history and queue summary\<close>

definition ap_inbox_slot :: "kernel_state \<Rightarrow> nat \<Rightarrow> nat \<Rightarrow> ap_request_slot_t" where
  "ap_inbox_slot k c slot_index = ctx_request_slots (ks_contexts k ! c) ! slot_index"

definition ap_inbox_slot_limit :: "nat \<Rightarrow> nat" where
  "ap_inbox_slot_limit count = (if count > AP_REQUEST_SLOT_COUNT then AP_REQUEST_SLOT_COUNT else count)"

definition reset_ap_inbox_slot :: "nat \<Rightarrow> nat \<Rightarrow> kernel_state \<Rightarrow> kernel_state" where
  "reset_ap_inbox_slot c slot_index k =
     (let k = upd_slot c slot_index reset_ap_request_slot k
      in set_committed_outbox c slot_index
           (reset_ap_request_outbox (ap_committed_outbox_for_slot k c slot_index)) k)"

definition reset_history_entry :: "ap_request_history_entry_t \<Rightarrow> ap_request_history_entry_t" where
  "reset_history_entry h = h\<lparr>hi_request := reset_ap_request_slot (hi_request h),
     hi_counter_value := 0, hi_slot := 0, hi_valid := 0\<rparr>"

definition reset_ap_request_history :: "nat \<Rightarrow> kernel_state \<Rightarrow> kernel_state" where
  "reset_ap_request_history c = upd_ctx c (\<lambda>x. x\<lparr>ctx_request_history :=
     fold (\<lambda>i h. h[i := reset_history_entry (h ! i)]) [0..<AP_REQUEST_HISTORY_COUNT]
       (ctx_request_history x)\<rparr>)"

definition ap_request_is_counter_increment :: "ap_request_slot_t \<Rightarrow> bool" where
  "ap_request_is_counter_increment slot \<longleftrightarrow>
     rq_service_id (slot_request slot) = AP_REQUEST_SERVICE_COUNTER \<and>
     rq_interface_id (slot_request slot) = AP_REQUEST_INTERFACE_COUNTER_INCREMENT \<and>
     rq_opcode (slot_request slot) = AP_REQUEST_OP_COUNTER"

definition record_ap_request_history ::
    "nat \<Rightarrow> nat \<Rightarrow> nat \<Rightarrow> ap_request_slot_t \<Rightarrow> u32 \<Rightarrow> kernel_state \<Rightarrow> kernel_state" where
  "record_ap_request_history c index slot_index slot counter_value k =
     (if index \<ge> AP_REQUEST_HISTORY_COUNT then k
      else upd_ctx c (\<lambda>x. x\<lparr>ctx_request_history := (ctx_request_history x)[index :=
        (ctx_request_history x ! index)\<lparr>
          hi_request := copy_ap_request_slot (hi_request (ctx_request_history x ! index)) slot,
          hi_counter_value := counter_value,
          hi_slot := word_of_nat (slot_index + 1), hi_valid := 1\<rparr>]\<rparr>) k)"

definition ap_request_state_terminal :: "u32 \<Rightarrow> bool" where
  "ap_request_state_terminal state \<longleftrightarrow> state = AP_REQUEST_STATUS_DONE \<or>
     state = AP_REQUEST_STATUS_BAD_OP \<or> state = AP_REQUEST_STATUS_FAULT"

definition ap_request_state_finished :: "u32 \<Rightarrow> bool" where
  "ap_request_state_finished state \<longleftrightarrow> ap_request_state_terminal state \<or>
     state = AP_REQUEST_STATUS_TIMEOUT \<or> state = AP_REQUEST_STATUS_SKIPPED"

definition reset_ap_queue_summary :: "nat \<Rightarrow> kernel_state \<Rightarrow> kernel_state" where
  "reset_ap_queue_summary c = upd_queue c (\<lambda>q. q\<lparr>qs_current_slot := 0, qs_handled_count := 0,
     qs_last_slot := 0, qs_last_state := AP_REQUEST_STATUS_EMPTY,
     qs_stop_reason := AP_QUEUE_STOP_NONE, qs_planned_count := word_of_nat AP_REQUEST_SLOT_COUNT\<rparr>)"

definition ap_queue_all_other_slots_done :: "kernel_state \<Rightarrow> nat \<Rightarrow> nat \<Rightarrow> bool" where
  "ap_queue_all_other_slots_done k c current_slot =
     list_all (\<lambda>i. i = current_slot \<or> slot_state (ap_inbox_slot k c i) = AP_REQUEST_STATUS_DONE)
       [0..<AP_REQUEST_SLOT_COUNT]"

definition ap_queue_note_slot_start :: "nat \<Rightarrow> nat \<Rightarrow> kernel_state \<Rightarrow> kernel_state" where
  "ap_queue_note_slot_start c slot_index = upd_queue c (\<lambda>q. q\<lparr>
     qs_current_slot := word_of_nat (slot_index + 1), qs_stop_reason := AP_QUEUE_STOP_NONE\<rparr>)"

definition ap_queue_note_slot_terminal ::
    "nat \<Rightarrow> nat \<Rightarrow> u32 \<Rightarrow> u32 \<Rightarrow> kernel_state \<Rightarrow> kernel_state" where
  "ap_queue_note_slot_terminal c slot_index state stop_reason k =
     (let k = upd_queue c (\<lambda>q. q\<lparr>qs_current_slot := 0, qs_handled_count := qs_handled_count q + 1,
            qs_last_slot := word_of_nat (slot_index + 1), qs_last_state := state\<rparr>) k;
          stop_reason = (if stop_reason = AP_QUEUE_STOP_NONE \<and> ap_queue_all_other_slots_done k c slot_index
            then AP_QUEUE_STOP_DRAINED else stop_reason)
      in upd_queue c (\<lambda>q. q\<lparr>qs_stop_reason := stop_reason\<rparr>) k)"

definition begin_ap_reply :: "ap_request_slot_t \<Rightarrow> ap_request_slot_t" where
  "begin_ap_reply slot = slot\<lparr>slot_reply := (slot_reply slot)\<lparr>
     rp_request_id_high := rq_id_high (slot_request slot),
     rp_request_id_low := rq_id_low (slot_request slot),
     rp_result_code := 0, rp_fault_code := 0\<rparr>\<rparr>"

definition complete_ap_request :: "u32 \<Rightarrow> ap_request_slot_t \<Rightarrow> ap_request_slot_t" where
  "complete_ap_request state slot =
     slot\<lparr>slot_state := snd (cmpxchg_u32 (slot_state slot) AP_REQUEST_STATUS_RUNNING state)\<rparr>"

section \<open>Notifications\<close>

definition ap_notify_bsp_request_complete :: "nat \<Rightarrow> nat \<Rightarrow> kernel_state \<Rightarrow> kernel_state" where
  "ap_notify_bsp_request_complete self c k =
     (let base = ks_system_lapic_base k; ctx = ks_contexts k ! c in
      if base = 0 then k
      else
        (let l = enable_lapic_if_needed (ks_ap_lapics k ! self);
             (sent, l, boot) = lapic_send_ipi l (ctx_completion_target_apic_id ctx)
               AP_REQUEST_IPI_VECTOR (ctx_boot ctx);
             ctx = ctx\<lparr>ctx_boot := boot\<rparr>;
             ctx = (if sent then ctx\<lparr>ctx_request_ipi_send_count := ctx_request_ipi_send_count ctx + 1\<rparr>
               else ctx\<lparr>ctx_request_ipi_send_fail_count := ctx_request_ipi_send_fail_count ctx + 1\<rparr>)
         in k\<lparr>ks_ap_lapics := (ks_ap_lapics k)[self := l], ks_contexts := (ks_contexts k)[c := ctx]\<rparr>))"

definition bsp_notify_ap_request_pending :: "nat \<Rightarrow> kernel_state \<Rightarrow> kernel_state" where
  "bsp_notify_ap_request_pending c k =
     (let base = ks_system_lapic_base k; ctx = ks_contexts k ! c; boot = ctx_boot ctx in
      if base = 0 \<or> bi_error boot \<noteq> AP_BOOT_OK \<or> bi_online boot = 0 \<or>
         bi_ap_state boot = AP_BOOT_STATE_HALTED \<or> bi_ap_state boot = AP_BOOT_STATE_FAULTED
      then k
      else
        (let l = enable_lapic_if_needed (ks_bsp_lapic k);
             (sent, l, boot) = lapic_send_ipi l (bi_target_apic_id boot) AP_REQUEST_KICK_IPI_VECTOR boot;
             ctx = ctx\<lparr>ctx_boot := boot\<rparr>;
             ctx = (if sent
               then ctx\<lparr>ctx_request_kick_ipi_send_count := ctx_request_kick_ipi_send_count ctx + 1\<rparr>
               else ctx\<lparr>ctx_request_kick_ipi_send_fail_count :=
                 ctx_request_kick_ipi_send_fail_count ctx + 1\<rparr>)
         in k\<lparr>ks_bsp_lapic := l, ks_contexts := (ks_contexts k)[c := ctx]\<rparr>))"

section \<open>Faults on an AP\<close>

definition address_in_range :: "u64 \<Rightarrow> u64 \<Rightarrow> u64 \<Rightarrow> bool" where
  "address_in_range addr start size' \<longleftrightarrow> addr \<ge> start \<and> addr < start + size'"

text \<open>\<open>cpu_at i\<close> is the address of \<^verbatim>\<open>ap_contexts[i].cpu\<close>.\<close>

definition ap_context_from_fault_frame :: "(nat \<Rightarrow> u64) \<Rightarrow> u64 \<Rightarrow> nat" where
  "ap_context_from_fault_frame cpu_at frame_addr =
     (case find (\<lambda>i.
          address_in_range frame_addr (cpu_fault_stack_addr (cpu_at i)) CPU_FAULT_STACK_SIZE \<or>
          address_in_range frame_addr (cpu_double_fault_stack_addr (cpu_at i)) CPU_FAULT_STACK_SIZE)
        [0..<MAX_AP_CONTEXTS] of
        Some i \<Rightarrow> i | None \<Rightarrow> ap0_context)"

definition fault_phase_of :: "bool \<Rightarrow> u32 \<Rightarrow> u32 \<Rightarrow> u32" where
  "fault_phase_of has_slot entry_state request_state =
     (if has_slot \<and> (entry_state = AP_ENTRY_STATE_REQUEST \<or> request_state = AP_REQUEST_STATUS_RUNNING)
      then AP_FAULT_PHASE_REQUEST
      else if entry_state = AP_ENTRY_STATE_LOOP then AP_FAULT_PHASE_LOOP
      else AP_FAULT_PHASE_STARTUP)"

text \<open>The reply fields the fault handler fills in, and the transition of the slot to its fault state.\<close>

definition fault_reply :: "fault_frame_t \<Rightarrow> u32 \<Rightarrow> ap_request_slot_t \<Rightarrow> ap_request_slot_t" where
  "fault_reply frame request_state slot =
     (if request_state = AP_REQUEST_STATUS_EMPTY \<or> request_state = AP_REQUEST_STATUS_PENDING \<or>
         request_state = AP_REQUEST_STATUS_RUNNING
      then
        (let reply = slot_reply slot;
             reply = (if request_state = AP_REQUEST_STATUS_PENDING \<or> request_state = AP_REQUEST_STATUS_RUNNING
               then reply\<lparr>rp_request_id_high := rq_id_high (slot_request slot),
                      rp_request_id_low := rq_id_low (slot_request slot)\<rparr>
               else reply)
         in slot\<lparr>slot_reply := reply\<lparr>rp_fault_code := ucast (ff_vector frame)\<rparr>\<rparr>)
      else slot)"

definition fault_slot_state :: "ap_request_slot_t \<Rightarrow> ap_request_slot_t" where
  "fault_slot_state slot =
     (case cmpxchg_u32 (slot_state slot) AP_REQUEST_STATUS_PENDING AP_REQUEST_STATUS_FAULT of
        (True, state) \<Rightarrow> slot\<lparr>slot_state := state\<rparr>
      | (False, _) \<Rightarrow>
          (case cmpxchg_u32 (slot_state slot) AP_REQUEST_STATUS_RUNNING AP_REQUEST_STATUS_FAULT of
             (True, state) \<Rightarrow> slot\<lparr>slot_state := state\<rparr>
           | (False, _) \<Rightarrow>
               if slot_state slot = AP_REQUEST_STATUS_EMPTY
               then slot\<lparr>slot_state := AP_REQUEST_STATUS_FAULT\<rparr> else slot))"

text \<open>
  The whole handler up to its final halt loop, with the frame at \<open>frame_addr\<close>, the value of
  \<^verbatim>\<open>CR2\<close> and the executing AP \<open>self\<close>.
\<close>

definition ap_fault_dispatch ::
    "(nat \<Rightarrow> u64) \<Rightarrow> nat \<Rightarrow> u64 \<Rightarrow> fault_frame_t \<Rightarrow> u64 \<Rightarrow> kernel_state \<Rightarrow> kernel_state" where
  "ap_fault_dispatch cpu_at self frame_addr frame cr2 k =
     (let c = ap_context_from_fault_frame cpu_at frame_addr;
          boot = boot_of k c;
          slot_index = ctx_current_request_slot (ks_contexts k ! c);
          has_slot = (unat slot_index < AP_REQUEST_SLOT_COUNT);
          i = unat slot_index;
          slot = ap_inbox_slot k c i;
          request_state = (if has_slot then slot_state slot else AP_REQUEST_STATUS_EMPTY);
          k = upd_boot c (\<lambda>b. b\<lparr>
            bi_fault_vector := ff_vector frame, bi_fault_error_code := ff_error_code frame,
            bi_fault_rip := ff_rip frame, bi_fault_cs := ff_cs frame,
            bi_fault_rflags := ff_rflags frame, bi_fault_cr2 := cr2,
            bi_fault_phase := fault_phase_of has_slot (bi_entry_state boot) request_state,
            bi_fault_request_state := request_state,
            bi_fault_request_opcode := (if has_slot then rq_opcode (slot_request slot) else AP_REQUEST_OP_NONE),
            bi_fault_request_sequence := (if has_slot then rq_sequence (slot_request slot) else 0),
            bi_fault_request_service_id := (if has_slot then rq_service_id (slot_request slot) else 0),
            bi_fault_request_interface_id := (if has_slot then rq_interface_id (slot_request slot) else 0),
            bi_fault_request_id_high := (if has_slot then rq_id_high (slot_request slot) else 0),
            bi_fault_request_id_low := (if has_slot then rq_id_low (slot_request slot) else 0)\<rparr>) k;
          k = (if has_slot then upd_slot c i (fault_reply frame request_state) k else k);
          k = (if has_slot
               then upd_slot c i fault_slot_state (upd_queue c (\<lambda>q. q\<lparr>
                 qs_current_slot := slot_index + 1, qs_last_slot := slot_index + 1,
                 qs_last_state := AP_REQUEST_STATUS_FAULT, qs_stop_reason := AP_QUEUE_STOP_FAULT\<rparr>) k)
               else k);
          k = upd_boot c (\<lambda>b. b\<lparr>bi_entry_state := AP_ENTRY_STATE_FAULT,
                bi_ap_state := AP_BOOT_STATE_FAULTED\<rparr>) k;
          k = ap_notify_bsp_request_complete self c k
      in upd_boot c (\<lambda>b. b\<lparr>bi_online := 1\<rparr>) k)"

section \<open>What the updates change\<close>

named_theorems ks_view \<open>components of the global state after an update\<close>

lemma upd_view [ks_view]:
  "length (ks_contexts (upd_ctx c f k)) = length (ks_contexts k)"
  "c < length (ks_contexts k) \<Longrightarrow>
     ks_contexts (upd_ctx c f k) ! d = (if d = c then f (ks_contexts k ! c) else ks_contexts k ! d)"
  "ks_service_outboxes (upd_ctx c f k) = ks_service_outboxes k"
  "ks_committed_outboxes (upd_ctx c f k) = ks_committed_outboxes k"
  "ks_ap_lapics (upd_ctx c f k) = ks_ap_lapics k"
  "ks_bsp_lapic (upd_ctx c f k) = ks_bsp_lapic k"
  "ks_system_lapic_base (upd_ctx c f k) = ks_system_lapic_base k"
  "ks_request_target_context (upd_ctx c f k) = ks_request_target_context k"
  "ks_bsp_wait_observe (upd_ctx c f k) = ks_bsp_wait_observe k"
  "ks_broadcast_ping_summary (upd_ctx c f k) = ks_broadcast_ping_summary k"
  by (simp_all add: upd_ctx_def)

lemma outbox_view [ks_view]:
  "ks_contexts (set_committed_outbox c i ob k) = ks_contexts k"
  "ks_contexts (set_service_outbox c ob k) = ks_contexts k"
  "ks_ap_lapics (set_committed_outbox c i ob k) = ks_ap_lapics k"
  "ks_ap_lapics (set_service_outbox c ob k) = ks_ap_lapics k"
  "ks_service_outboxes (set_committed_outbox c i ob k) = ks_service_outboxes k"
  "ks_committed_outboxes (set_service_outbox c ob k) = ks_committed_outboxes k"
  "ks_system_lapic_base (set_committed_outbox c i ob k) = ks_system_lapic_base k"
  "ks_system_lapic_base (set_service_outbox c ob k) = ks_system_lapic_base k"
  by (simp_all add: set_committed_outbox_def set_service_outbox_def split: option.split)

lemmas upd_defs = upd_boot_def upd_slot_def upd_queue_def

text \<open>
  The shape of the global state: the arrays have the lengths the C declarations give them, and
  no outbox counts more entries than it has.
\<close>

definition context_wf :: "ap_context_t \<Rightarrow> bool" where
  "context_wf x \<longleftrightarrow> length (ctx_request_slots x) = AP_REQUEST_SLOT_COUNT \<and>
     length (ctx_request_history x) = AP_REQUEST_HISTORY_COUNT"

definition ks_wf :: "kernel_state \<Rightarrow> bool" where
  "ks_wf k \<longleftrightarrow> length (ks_contexts k) = MAX_AP_CONTEXTS \<and> (\<forall>x \<in> set (ks_contexts k). context_wf x) \<and>
     length (ks_service_outboxes k) = MAX_AP_CONTEXTS \<and>
     length (ks_committed_outboxes k) = MAX_AP_CONTEXTS \<and>
     (\<forall>ob \<in> set (ks_service_outboxes k). outbox_wf (Some ob)) \<and>
     (\<forall>obs \<in> set (ks_committed_outboxes k). length obs = AP_REQUEST_SLOT_COUNT \<and>
        (\<forall>ob \<in> set obs. outbox_wf (Some ob))) \<and>
     length (ks_ap_lapics k) = MAX_AP_CONTEXTS"

lemma ks_wf_lengths:
  assumes "ks_wf k"
  shows "length (ks_contexts k) = 8" "length (ks_service_outboxes k) = 8"
    "length (ks_committed_outboxes k) = 8" "length (ks_ap_lapics k) = 8"
    and "c < 8 \<Longrightarrow> length (ctx_request_slots (ks_contexts k ! c)) = 4"
    and "c < 8 \<Longrightarrow> length (ctx_request_history (ks_contexts k ! c)) = 8"
    and "c < 8 \<Longrightarrow> length (ks_committed_outboxes k ! c) = 4"
  using assms by (auto simp: ks_wf_def context_wf_def c_const)

lemma ks_wf_upd_ctx:
  assumes "ks_wf k" "\<And>x. context_wf x \<Longrightarrow> context_wf (f x)" "c < 8"
  shows "ks_wf (upd_ctx c f k)"
proof -
  have "context_wf (f (ks_contexts k ! c))"
    using assms by (auto simp: ks_wf_def c_const)
  then show ?thesis
    using assms(1) set_update_subset_insert [of "ks_contexts k" c "f (ks_contexts k ! c)"]
    by (auto simp: ks_wf_def upd_ctx_def)
qed

lemma ks_wf_upd [intro]:
  assumes "ks_wf k" "c < 8"
  shows "ks_wf (upd_boot c b k)" "ks_wf (upd_slot c i s k)" "ks_wf (upd_queue c q k)"
  using assms unfolding upd_defs by (auto intro!: ks_wf_upd_ctx simp: context_wf_def)

lemma ks_wf_outboxes:
  assumes "ks_wf k" "c < 8"
  shows "outbox_wf (ap_service_outbox_for_context k c)"
    and "i < 4 \<Longrightarrow> outbox_wf (ap_committed_outbox_for_slot k c i)"
proof -
  have "ks_committed_outboxes k ! c \<in> set (ks_committed_outboxes k)"
    "ks_service_outboxes k ! c \<in> set (ks_service_outboxes k)"
    using assms(2) ks_wf_lengths [OF assms(1)] by simp_all
  then have "outbox_wf (Some (ks_service_outboxes k ! c))"
    "i < 4 \<Longrightarrow> outbox_wf (Some (ks_committed_outboxes k ! c ! i))"
    using assms(1) by (auto simp: ks_wf_def c_const)
  then show "outbox_wf (ap_service_outbox_for_context k c)"
    "i < 4 \<Longrightarrow> outbox_wf (ap_committed_outbox_for_slot k c i)"
    using assms(2) by (simp_all add: ap_service_outbox_for_context_def ap_committed_outbox_for_slot_def c_const)
qed

lemma ks_wf_set_outbox [intro]:
  assumes "ks_wf k" "c < 8" "outbox_wf ob"
  shows "ks_wf (set_committed_outbox c i ob k)" "ks_wf (set_service_outbox c ob k)"
proof -
  obtain o' where ob: "ob = Some o'" using assms(3) by (cases ob) (auto simp: outbox_wf_def)
  let ?row = "(ks_committed_outboxes k ! c)[i := o']"
  have "ks_committed_outboxes k ! c \<in> set (ks_committed_outboxes k)"
    using assms(2) ks_wf_lengths(3) [OF assms(1)] by simp
  then have "length ?row = AP_REQUEST_SLOT_COUNT" "\<forall>ob \<in> set ?row. outbox_wf (Some ob)"
    using assms(1,3) ob set_update_subset_insert [of "ks_committed_outboxes k ! c" i o']
    by (auto simp: ks_wf_def)
  then show "ks_wf (set_committed_outbox c i ob k)"
    using assms(1) set_update_subset_insert [of "ks_committed_outboxes k" c ?row]
    by (auto simp: ks_wf_def set_committed_outbox_def ob)
  show "ks_wf (set_service_outbox c ob k)"
    using assms(1,3) set_update_subset_insert [of "ks_service_outboxes k" c o']
    by (auto simp: ks_wf_def set_service_outbox_def ob)
qed

lemma slot_view [ks_view]:
  assumes "ks_wf k" "c < 8"
  shows "ap_inbox_slot (upd_boot c b k) d j = ap_inbox_slot k d j"
    and "ap_inbox_slot (upd_queue c q k) d j = ap_inbox_slot k d j"
    and "i < 4 \<Longrightarrow> ap_inbox_slot (upd_slot c i s k) d j =
      (if d = c \<and> j = i then s (ap_inbox_slot k c i) else ap_inbox_slot k d j)"
  using ks_wf_lengths [OF assms(1)] assms(2)
  by (auto simp: ap_inbox_slot_def upd_defs ks_view nth_list_update)

lemma boot_view [ks_view]:
  assumes "ks_wf k" "c < 8"
  shows "boot_of (upd_boot c b k) d = (if d = c then b (boot_of k c) else boot_of k d)"
    and "boot_of (upd_queue c q k) d = boot_of k d"
    and "boot_of (upd_slot c i s k) d = boot_of k d"
  using ks_wf_lengths(1) [OF assms(1)] assms(2)
  by (auto simp: boot_of_def upd_defs ks_view)

lemma set_outbox_view [ks_view]:
  "ap_inbox_slot (set_committed_outbox c i ob k) d j = ap_inbox_slot k d j"
  "ap_inbox_slot (set_service_outbox c ob k) d j = ap_inbox_slot k d j"
  "boot_of (set_committed_outbox c i ob k) d = boot_of k d"
  "boot_of (set_service_outbox c ob k) d = boot_of k d"
  by (simp_all add: ap_inbox_slot_def boot_of_def ks_view)

text \<open>
  A notification changes nothing the protocol looks at: the local APIC of the sender, the
  counters of sent interrupts and the count of command register timeouts.
\<close>

lemma ap_notify_view:
  assumes "ks_wf k" "c < 8"
  shows "ks_wf (ap_notify_bsp_request_complete self c k)"
    and "ap_inbox_slot (ap_notify_bsp_request_complete self c k) d j = ap_inbox_slot k d j"
    and "\<exists>n. boot_of (ap_notify_bsp_request_complete self c k) d =
      (if d = c then (boot_of k c)\<lparr>bi_icr_timeouts := n\<rparr> else boot_of k d)"
    and "ks_committed_outboxes (ap_notify_bsp_request_complete self c k) = ks_committed_outboxes k"
    and "ctx_queue_summary (ks_contexts (ap_notify_bsp_request_complete self c k) ! d) =
      ctx_queue_summary (ks_contexts k ! d)"
proof -
  let ?ctx = "ks_contexts k ! c" and ?l = "enable_lapic_if_needed (ks_ap_lapics k ! self)"
  obtain sent l boot where send: "lapic_send_ipi ?l (ctx_completion_target_apic_id ?ctx)
      AP_REQUEST_IPI_VECTOR (ctx_boot ?ctx) = (sent, l, boot)" by (metis prod_cases3)
  have boot: "\<exists>n. boot = (ctx_boot ?ctx)\<lparr>bi_icr_timeouts := n\<rparr>"
    using lapic_send_ipi_boot send by (metis snd_conv)
  have len: "c < length (ks_contexts k)" using ks_wf_lengths(1) [OF assms(1)] assms(2) by simp
  note defs = ap_notify_bsp_request_complete_def Let_def send
  have "context_wf ?ctx" using assms(1) len by (auto simp: ks_wf_def)
  then show "ks_wf (ap_notify_bsp_request_complete self c k)"
    using assms(1) unfolding ks_wf_def
    by (auto simp: defs context_wf_def dest!: set_update_subset_insert [THEN subsetD])
  show "ap_inbox_slot (ap_notify_bsp_request_complete self c k) d j = ap_inbox_slot k d j"
    using len by (auto simp: defs ap_inbox_slot_def nth_list_update)
  show "\<exists>n. boot_of (ap_notify_bsp_request_complete self c k) d =
      (if d = c then (boot_of k c)\<lparr>bi_icr_timeouts := n\<rparr> else boot_of k d)"
    using len boot by (auto simp: defs boot_of_def nth_list_update intro: exI [of _ "bi_icr_timeouts (boot_of k c)"])
  show "ks_committed_outboxes (ap_notify_bsp_request_complete self c k) = ks_committed_outboxes k"
    by (simp add: defs)
  show "ctx_queue_summary (ks_contexts (ap_notify_bsp_request_complete self c k) ! d) =
      ctx_queue_summary (ks_contexts k ! d)"
    using len by (auto simp: defs nth_list_update)
qed

section \<open>Properties\<close>

text \<open>A request in one of these states is still owed an answer.\<close>

definition unanswered :: "u32 \<Rightarrow> bool" where
  "unanswered state \<longleftrightarrow> state = AP_REQUEST_STATUS_EMPTY \<or> state = AP_REQUEST_STATUS_PENDING \<or>
     state = AP_REQUEST_STATUS_RUNNING"

lemma fault_slot_state_eq:
  "fault_slot_state slot =
     slot\<lparr>slot_state := if unanswered (slot_state slot) then AP_REQUEST_STATUS_FAULT else slot_state slot\<rparr>"
  by (simp add: fault_slot_state_def unanswered_def cmpxchg_u32_def)

lemma ap_context_from_fault_frame_bound: "ap_context_from_fault_frame cpu_at a < 8"
  by (auto simp: ap_context_from_fault_frame_def ap0_context_def c_const find_Some_iff split: option.split)

lemma ap_fault_dispatch_effect:
  assumes wf: "ks_wf k" and c: "c = ap_context_from_fault_frame cpu_at frame_addr"
    and i: "unat (ctx_current_request_slot (ks_contexts k ! c)) = i" "i < AP_REQUEST_SLOT_COUNT"
    and k': "k' = ap_fault_dispatch cpu_at self frame_addr frame cr2 k"
  shows "let slot = ap_inbox_slot k c i; slot' = ap_inbox_slot k' c i; boot' = boot_of k' c in
    slot_request slot' = slot_request slot \<and>
    (if unanswered (slot_state slot)
     then slot_state slot' = AP_REQUEST_STATUS_FAULT \<and> rp_fault_code (slot_reply slot') = ucast (ff_vector frame)
     else slot' = slot) \<and>
    (\<forall>d j. (d, j) \<noteq> (c, i) \<longrightarrow> ap_inbox_slot k' d j = ap_inbox_slot k d j) \<and>
    bi_ap_state boot' = AP_BOOT_STATE_FAULTED \<and> bi_entry_state boot' = AP_ENTRY_STATE_FAULT \<and>
    bi_online boot' = 1 \<and> bi_fault_vector boot' = ff_vector frame \<and>
    bi_fault_phase boot' = fault_phase_of True (bi_entry_state (boot_of k c)) (slot_state slot)"
proof -
  have c8: "c < 8" using ap_context_from_fault_frame_bound c by simp
  have i4: "i < 4" using i(2) by (simp add: c_const)
  let ?slot = "ap_inbox_slot k c i" and ?w = "ctx_current_request_slot (ks_contexts k ! c)"
  obtain b q where k'_eq: "k' = upd_boot c (\<lambda>b. b\<lparr>bi_online := 1\<rparr>) (ap_notify_bsp_request_complete self c
      (upd_boot c (\<lambda>b. b\<lparr>bi_entry_state := AP_ENTRY_STATE_FAULT, bi_ap_state := AP_BOOT_STATE_FAULTED\<rparr>)
        (upd_slot c i fault_slot_state (upd_queue c q
          (upd_slot c i (fault_reply frame (slot_state ?slot)) (upd_boot c b k))))))"
    and b: "bi_fault_vector (b (boot_of k c)) = ff_vector frame"
      "bi_fault_phase (b (boot_of k c)) = fault_phase_of True (bi_entry_state (boot_of k c)) (slot_state ?slot)"
    using i unfolding k' ap_fault_dispatch_def Let_def c [symmetric] by simp
  define k1 where "k1 = upd_slot c i fault_slot_state (upd_queue c q
          (upd_slot c i (fault_reply frame (slot_state ?slot)) (upd_boot c b k)))"
  define k2 where "k2 = upd_boot c (\<lambda>b. b\<lparr>bi_entry_state := AP_ENTRY_STATE_FAULT,
      bi_ap_state := AP_BOOT_STATE_FAULTED\<rparr>) k1"
  have wf1: "ks_wf k1" "ks_wf k2" unfolding k1_def k2_def using wf c8 by (auto intro!: ks_wf_upd)
  have slots: "ap_inbox_slot k' d j = (if d = c \<and> j = i
      then fault_slot_state (fault_reply frame (slot_state ?slot) ?slot) else ap_inbox_slot k d j)" for d j
    unfolding k'_eq k2_def [symmetric, unfolded k1_def]
    using wf wf1 c8 i4
    by (simp add: ks_view ap_notify_view ks_wf_upd) (simp add: k2_def k1_def ks_view ks_wf_upd)
  obtain n where n: "boot_of (ap_notify_bsp_request_complete self c k2) c = (boot_of k2 c)\<lparr>bi_icr_timeouts := n\<rparr>"
    using ap_notify_view(3) [OF wf1(2) c8, of self c] by auto
  have "boot_of k2 c = (b (boot_of k c))\<lparr>bi_entry_state := AP_ENTRY_STATE_FAULT,
      bi_ap_state := AP_BOOT_STATE_FAULTED\<rparr>"
    using wf wf1(1) c8 by (simp add: k2_def ks_view) (simp add: k1_def ks_view ks_wf_upd)
  then have boot: "boot_of k' c = (b (boot_of k c))\<lparr>bi_entry_state := AP_ENTRY_STATE_FAULT,
      bi_ap_state := AP_BOOT_STATE_FAULTED, bi_icr_timeouts := n, bi_online := 1\<rparr>"
    using n ap_notify_view(1) [OF wf1(2) c8, of self] c8 unfolding k'_eq k2_def [symmetric, unfolded k1_def]
    by (simp add: ks_view)
  have "fault_reply frame (slot_state ?slot) ?slot = ?slot" if "\<not> unanswered (slot_state ?slot)"
    using that by (simp add: fault_reply_def unanswered_def)
  then show ?thesis
    unfolding Let_def boot slots
    by (auto simp: b fault_slot_state_eq fault_reply_def unanswered_def Let_def)
qed

text \<open>
  C28. A processor exception on an AP is reported to the BSP through the slot the AP was working
  on: a request that is still owed an answer ends in the fault state with the exception vector as
  its fault code, while a request the BSP has already given up keeps its state and its reply; the
  request itself and every other slot of every AP stay as they were. The context is marked faulted,
  and online so that a BSP that waits for it stops waiting, with the vector and the phase recorded.
\<close>

theorem ap_fault_dispatch_reports:
  assumes wf: "ks_wf k" and c: "c = ap_context_from_fault_frame cpu_at frame_addr"
    and i: "unat (ctx_current_request_slot (ks_contexts k ! c)) = i" "i < AP_REQUEST_SLOT_COUNT"
    and k': "k' = ap_fault_dispatch cpu_at self frame_addr frame cr2 k"
  shows "let slot = ap_inbox_slot k c i; slot' = ap_inbox_slot k' c i; boot' = boot_of k' c in
    slot_request slot' = slot_request slot \<and>
    (if unanswered (slot_state slot)
     then slot_state slot' = AP_REQUEST_STATUS_FAULT \<and> rp_fault_code (slot_reply slot') = ucast (ff_vector frame)
     else slot' = slot) \<and>
    (\<forall>d j. (d, j) \<noteq> (c, i) \<longrightarrow> ap_inbox_slot k' d j = ap_inbox_slot k d j) \<and>
    bi_ap_state boot' = AP_BOOT_STATE_FAULTED \<and> bi_entry_state boot' = AP_ENTRY_STATE_FAULT \<and>
    bi_online boot' = 1 \<and> bi_fault_vector boot' = ff_vector frame \<and>
    bi_fault_phase boot' = fault_phase_of True (bi_entry_state (boot_of k c)) (slot_state slot)"
  using assms by (rule ap_fault_dispatch_effect)

lemma fault_frame_context:
  fixes base :: u64
  assumes "i < MAX_AP_CONTEXTS"
    and layout: "\<And>j. j < MAX_AP_CONTEXTS \<Longrightarrow> unat (cpu_at j) = unat base + j * stride"
    and room: "32928 \<le> stride" "unat base + MAX_AP_CONTEXTS * stride < 2 ^ 64"
    and frame: "address_in_range a (cpu_fault_stack_addr (cpu_at i)) CPU_FAULT_STACK_SIZE \<or>
      address_in_range a (cpu_double_fault_stack_addr (cpu_at i)) CPU_FAULT_STACK_SIZE"
  shows "ap_context_from_fault_frame cpu_at a = i"
proof -
  have i8: "i < 8" using assms(1) by (simp add: c_const)
  have stacks: "(address_in_range a (cpu_fault_stack_addr (cpu_at j)) CPU_FAULT_STACK_SIZE \<or>
      address_in_range a (cpu_double_fault_stack_addr (cpu_at j)) CPU_FAULT_STACK_SIZE) \<longleftrightarrow>
      unat base + j * stride + 160 \<le> unat a \<and> unat a < unat base + j * stride + 32928" if "j < 8" for j
  proof -
    have "Suc j * stride \<le> 8 * stride" using that by (intro mult_le_mono1) simp
    then have "j * stride + 32928 \<le> 8 * stride" using room(1) unfolding mult_Suc by linarith
    then have "unat base + j * stride + 32928 < 2 ^ 64" using room(2) by (simp add: c_const)
    then show ?thesis
      using layout [of j] that
      by (simp add: address_in_range_def cpu_fault_stack_addr_def cpu_double_fault_stack_addr_def c_const
          word_le_nat_alt word_less_nat_alt unat_word_ariths) linarith
  qed
  have "j = i" if "j < 8" "address_in_range a (cpu_fault_stack_addr (cpu_at j)) CPU_FAULT_STACK_SIZE \<or>
      address_in_range a (cpu_double_fault_stack_addr (cpu_at j)) CPU_FAULT_STACK_SIZE" for j
  proof (rule ccontr)
    have aj: "unat base + j * stride + 160 \<le> unat a" "unat a < unat base + j * stride + 32928"
      and ai: "unat base + i * stride + 160 \<le> unat a" "unat a < unat base + i * stride + 32928"
      using stacks [of j] stacks [of i] that frame i8 by blast+
    assume "j \<noteq> i"
    then consider "Suc j \<le> i" | "Suc i \<le> j" by linarith
    then show False
      using aj ai room(1) mult_le_mono1 [of "Suc j" i stride] mult_le_mono1 [of "Suc i" j stride]
      by cases auto
  qed
  then have "find (\<lambda>j. address_in_range a (cpu_fault_stack_addr (cpu_at j)) CPU_FAULT_STACK_SIZE \<or>
      address_in_range a (cpu_double_fault_stack_addr (cpu_at j)) CPU_FAULT_STACK_SIZE) [0..<8] = Some i"
    using frame i8 by (intro find_upt_unique)
  then show ?thesis by (simp add: ap_context_from_fault_frame_def c_const)
qed

text \<open>
  C29. The handler finds the faulting AP from the address of its exception frame: when the frame
  lies in one of the two interrupt stacks of an AP, and the contexts lie in memory one after another
  without wrapping around, that AP is the one whose context is updated.
\<close>

theorem ap_context_from_fault_frame_finds:
  fixes base :: u64
  assumes "i < MAX_AP_CONTEXTS"
    and layout: "\<And>j. j < MAX_AP_CONTEXTS \<Longrightarrow> unat (cpu_at j) = unat base + j * stride"
    and room: "32928 \<le> stride" "unat base + MAX_AP_CONTEXTS * stride < 2 ^ 64"
    and frame: "address_in_range a (cpu_fault_stack_addr (cpu_at i)) CPU_FAULT_STACK_SIZE \<or>
      address_in_range a (cpu_double_fault_stack_addr (cpu_at i)) CPU_FAULT_STACK_SIZE"
  shows "ap_context_from_fault_frame cpu_at a = i"
  using assms by (rule fault_frame_context)

text \<open>A kernel state in which the second AP runs its first slot, for the witnesses.\<close>

definition idle_lapic :: lapic where
  "idle_lapic = \<lparr>la_regs = (\<lambda>_. 0), la_icr = (\<lambda>_. 0), la_icr_reads = 0, la_writes = []\<rparr>"

definition empty_outbox :: ap_request_outbox_t where
  "empty_outbox = \<lparr>ob_count = 0, ob_entries = replicate 4 zero_plan\<rparr>"

definition example_kernel :: kernel_state where
  "example_kernel = \<lparr>
     ks_contexts = (replicate 8 (context_with (boot_with 1 AP_BOOT_STATE_ONLINE 1)))[1 :=
       (context_with (boot_with 1 AP_BOOT_STATE_ONLINE 2))\<lparr>
         ctx_request_slots := replicate 4 (zero_slot\<lparr>slot_state := AP_REQUEST_STATUS_RUNNING\<rparr>),
         ctx_current_request_slot := 0\<rparr>],
     ks_service_outboxes = replicate 8 empty_outbox,
     ks_committed_outboxes = replicate 8 (replicate 4 empty_outbox),
     ks_broadcast_ping_summary = \<lparr>ps_planned_count = 0, ps_completed_count = 0, ps_ok_count = 0,
       ps_fail_count = 0, ps_entries = replicate 8 \<lparr>pe_valid = 0, pe_apic_id = 0, pe_state = 0,
         pe_result_code = 0, pe_fault_code = 0, pe_wait_loops = 0\<rparr>\<rparr>,
     ks_request_target_context = 0, ks_system_lapic_base = 0xfee00000,
     ks_bsp_wait_observe = \<lparr>wo_halt_count = 0, wo_wake_count = 0, wo_timer_count = 0\<rparr>,
     ks_idt_self_test = zero_trace, ks_spurious = zero_trace,
     ks_bsp_lapic = idle_lapic, ks_ap_lapics = replicate 8 idle_lapic\<rparr>"

lemma empty_outbox_wf: "outbox_wf (Some empty_outbox)"
  by (simp add: outbox_wf_def empty_outbox_def)

lemma example_kernel_wf: "ks_wf example_kernel"
  using empty_outbox_wf set_update_subset_insert
  unfolding ks_wf_def example_kernel_def
  by (auto simp: context_wf_def context_with_def c_const set_replicate_conv_if
      dest!: set_update_subset_insert [THEN subsetD])

definition example_cpu_at :: "nat \<Rightarrow> u64" where
  "example_cpu_at j = 0x1000000 + word_of_nat j * 0x10000"

lemma example_cpu_at_layout: "j < 8 \<Longrightarrow> unat (example_cpu_at j) = unat (0x1000000 :: u64) + j * 0x10000"
  by (simp add: example_cpu_at_def unat_word_ariths unat_of_nat)

theorem ap_context_from_fault_frame_finds_witness:
  "ap_context_from_fault_frame example_cpu_at 0x1010f00 = 1"
  using ap_context_from_fault_frame_finds [where i = 1 and cpu_at = example_cpu_at and
      base = "0x1000000" and stride = "0x10000" and a = "0x1010f00"] example_cpu_at_layout
  by (simp add: c_const address_in_range_def cpu_fault_stack_addr_def example_cpu_at_def)

theorem ap_fault_dispatch_reports_witness:
  "slot_state (ap_inbox_slot (ap_fault_dispatch example_cpu_at 1 0x1010f00
     \<lparr>ff_vector = 6, ff_error_code = 0, ff_rip = 0x2000, ff_cs = 8, ff_rflags = 2\<rparr> 0 example_kernel) 1 0) =
   AP_REQUEST_STATUS_FAULT"
proof -
  have "find (\<lambda>j. address_in_range 0x1010f00 (cpu_fault_stack_addr (example_cpu_at j)) CPU_FAULT_STACK_SIZE \<or>
      address_in_range 0x1010f00 (cpu_double_fault_stack_addr (example_cpu_at j)) CPU_FAULT_STACK_SIZE)
      [0..<MAX_AP_CONTEXTS] = Some 1"
    by code_simp
  then have c: "1 = ap_context_from_fault_frame example_cpu_at 0x1010f00"
    by (simp add: ap_context_from_fault_frame_def)
  have cur: "unat (ctx_current_request_slot (ks_contexts example_kernel ! 1)) = 0" "0 < AP_REQUEST_SLOT_COUNT"
    by (simp_all add: example_kernel_def c_const)
  have "slot_state (ap_inbox_slot example_kernel 1 0) = AP_REQUEST_STATUS_RUNNING"
    by (simp add: ap_inbox_slot_def example_kernel_def)
  then show ?thesis
    using ap_fault_dispatch_reports [OF example_kernel_wf c cur refl, of 1
        "\<lparr>ff_vector = 6, ff_error_code = 0, ff_rip = 0x2000, ff_cs = 8, ff_rflags = 2\<rparr>" 0]
    by (simp add: Let_def unanswered_def)
qed

end
