(* ===== verification/Ap_Loop.thy ===== *)
theory Ap_Loop
  imports Ap_Context
begin

text \<open>
  The request loop of an AP (\<^verbatim>\<open>kernel/kernel.c\<close>, \<^verbatim>\<open>ap_request_loop\<close>). The body of the
  inner loop for one slot is split where another processor may act in between: claiming a pending
  slot, running the handler, completing the request. A pass scans the four slots; an iteration is a
  pass followed, when there was no work, by the idle wait.
\<close>

section \<open>Processing one slot\<close>

text \<open>
  How a piece of the loop ends: the loop goes on, the AP halts after an unknown request, the
  handler raises a processor exception, or it never returns.
\<close>

datatype ap_outcome =
    Ap_Continues kernel_state
  | Ap_Halted kernel_state
  | Ap_Faults u64 kernel_state
  | Ap_Hangs kernel_state

definition ap_claim_slot :: "nat \<Rightarrow> nat \<Rightarrow> kernel_state \<Rightarrow> bool \<times> kernel_state" where
  "ap_claim_slot c i k =
     (if slot_state (ap_inbox_slot k c i) \<noteq> AP_REQUEST_STATUS_PENDING then (False, k)
      else
        (case cmpxchg_u32 (slot_state (ap_inbox_slot k c i)) AP_REQUEST_STATUS_PENDING
                AP_REQUEST_STATUS_RUNNING of
           (False, _) \<Rightarrow> (False, k)
         | (True, state) \<Rightarrow>
             (let k = upd_slot c i (\<lambda>s. s\<lparr>slot_state := state\<rparr>) k;
                  k = upd_ctx c (\<lambda>x. x\<lparr>ctx_current_request_slot := word_of_nat i\<rparr>) k;
                  k = ap_queue_note_slot_start c i k;
                  k = upd_slot c i (\<lambda>s. s\<lparr>slot_metrics := (slot_metrics s)\<lparr>
                        mt_handled_count := ctx_request_handled_count (ks_contexts k ! c)\<rparr>\<rparr>) k;
                  k = upd_slot c i begin_ap_reply k
              in (True, upd_boot c (\<lambda>b. b\<lparr>bi_entry_state := AP_ENTRY_STATE_REQUEST\<rparr>) k))))"

text \<open>
  The service context points to the counters of the AP context and to the outbox of the AP; what
  the handler leaves there is written back.
\<close>

definition ap_store_service_context :: "nat \<Rightarrow> nat \<Rightarrow> ap_service_context_t \<Rightarrow> ap_request_slot_t \<Rightarrow>
    kernel_state \<Rightarrow> kernel_state" where
  "ap_store_service_context c i service_context slot k =
     set_service_outbox c (sc_outbox service_context)
       (upd_slot c i (\<lambda>_. slot) (upd_ctx c (\<lambda>x. x\<lparr>
         ctx_request_handled_count := sc_request_handled_count service_context,
         ctx_counter_value := sc_counter_value service_context\<rparr>) k))"

definition ap_complete_done :: "nat \<Rightarrow> nat \<Rightarrow> ap_request_outbox_t option \<Rightarrow> kernel_state \<Rightarrow> kernel_state" where
  "ap_complete_done c i outbox k =
     (let k = upd_boot c (\<lambda>b. b\<lparr>bi_ap_state := AP_BOOT_STATE_ONLINE, bi_entry_state := AP_ENTRY_STATE_LOOP\<rparr>) k;
          (done, slot, committed) = complete_ap_request_done_with_outbox (Some (ap_inbox_slot k c i))
             (ap_committed_outbox_for_slot k c i) outbox;
          k = upd_slot c i (\<lambda>s. case slot of Some s' \<Rightarrow> s' | None \<Rightarrow> s) k;
          k = set_committed_outbox c i committed k
      in if done
         then ap_notify_bsp_request_complete c c
                (upd_ctx c (\<lambda>x. x\<lparr>ctx_current_request_slot := AP_REQUEST_NO_SLOT\<rparr>)
                  (ap_queue_note_slot_terminal c i AP_REQUEST_STATUS_DONE AP_QUEUE_STOP_NONE k))
         else upd_ctx c (\<lambda>x. x\<lparr>ctx_current_request_slot := AP_REQUEST_NO_SLOT\<rparr>) k)"

definition ap_complete_bad_op ::
    "build_config \<Rightarrow> cpu_selectors \<Rightarrow> nat \<Rightarrow> nat \<Rightarrow> kernel_state \<Rightarrow> kernel_state" where
  "ap_complete_bad_op cfg sel c i k =
     (let k = upd_slot c i (\<lambda>s. s\<lparr>slot_reply := (slot_reply s)\<lparr>
            rp_result_code := ap_dispatch_miss_result_code cfg sel (rq_service_id (slot_request s))
              (rq_interface_id (slot_request s)), rp_fault_code := 0\<rparr>\<rparr>) k;
          k = upd_boot c (\<lambda>b. b\<lparr>bi_ap_state := AP_BOOT_STATE_HALTED,
            bi_entry_state := AP_ENTRY_STATE_HALTED\<rparr>) k;
          k = ap_queue_note_slot_terminal c i AP_REQUEST_STATUS_BAD_OP AP_QUEUE_STOP_BAD_OP k;
          k = upd_ctx c (\<lambda>x. x\<lparr>ctx_current_request_slot := AP_REQUEST_NO_SLOT\<rparr>) k;
          k = upd_slot c i (complete_ap_request AP_REQUEST_STATUS_BAD_OP) k;
          k = ap_notify_bsp_request_complete c c k
      in k\<lparr>ks_ap_lapics := (ks_ap_lapics k)[c :=
           ap_disarm_idle_timer (ks_system_lapic_base k) (ks_ap_lapics k ! c)]\<rparr>)"

text \<open>From a claimed slot to the end of the body.\<close>

definition ap_run_slot :: "build_config \<Rightarrow> cpu_selectors \<Rightarrow> nat \<Rightarrow> nat \<Rightarrow> kernel_state \<Rightarrow> ap_outcome" where
  "ap_run_slot cfg sel c i k =
     (let x = ks_contexts k ! c; slot = ap_inbox_slot k c i;
          service_context = \<lparr>sc_request_handled_count = ctx_request_handled_count x,
            sc_counter_value = ctx_counter_value x,
            sc_outbox = reset_ap_request_outbox (ap_service_outbox_for_context k c)\<rparr>;
          k = set_service_outbox c (sc_outbox service_context) k
      in case find_ap_request_handler cfg sel (rq_service_id (slot_request slot))
                (rq_interface_id (slot_request slot)) of
           Some handler \<Rightarrow>
             (case handler service_context slot of
                Faults vector \<Rightarrow> Ap_Faults vector k
              | Hangs \<Rightarrow> Ap_Hangs k
              | Returns (service_context, slot) \<Rightarrow>
                  (let k = ap_store_service_context c i service_context slot k
                   in Ap_Continues (ap_complete_done c i (sc_outbox service_context) k)))
         | None \<Rightarrow> Ap_Halted (ap_complete_bad_op cfg sel c i k))"

section \<open>The loop\<close>

fun ap_scan_slots ::
    "build_config \<Rightarrow> cpu_selectors \<Rightarrow> nat \<Rightarrow> nat list \<Rightarrow> bool \<times> kernel_state \<Rightarrow> bool \<times> ap_outcome" where
  "ap_scan_slots cfg sel c [] (handled_work, k) = (handled_work, Ap_Continues k)"
| "ap_scan_slots cfg sel c (i # is) (handled_work, k) =
     (case ap_claim_slot c i k of
        (False, k) \<Rightarrow> ap_scan_slots cfg sel c is (handled_work, k)
      | (True, k) \<Rightarrow>
          (case ap_run_slot cfg sel c i k of
             Ap_Continues k \<Rightarrow> ap_scan_slots cfg sel c is (True, k)
           | outcome \<Rightarrow> (True, outcome)))"

text \<open>
  One iteration. \<open>wake\<close> is what interrupts and the other processors do to the state while
  interrupts are open.
\<close>

definition ap_loop_iteration ::
    "build_config \<Rightarrow> cpu_selectors \<Rightarrow> (kernel_state \<Rightarrow> kernel_state) \<Rightarrow> nat \<Rightarrow> kernel_state \<Rightarrow> ap_outcome" where
  "ap_loop_iteration cfg sel wake c k =
     (case ap_scan_slots cfg sel c [0..<AP_REQUEST_SLOT_COUNT] (False, k) of
        (True, outcome) \<Rightarrow> outcome
      | (False, Ap_Continues k) \<Rightarrow>
          (if \<not> ap_context_is_request_target k c then Ap_Continues (wake k)
           else (case ap_arm_idle_timer (ks_system_lapic_base k) (ks_ap_lapics k ! c) of
             (False, _) \<Rightarrow> Ap_Continues (wake k)
           | (True, l) \<Rightarrow>
               (let k = k\<lparr>ks_ap_lapics := (ks_ap_lapics k)[c := l]\<rparr>;
                    k = upd_ctx c (\<lambda>x. x\<lparr>ctx_idle_halt_count := ctx_idle_halt_count x + 1\<rparr>) k;
                    k = wake k;
                    k = k\<lparr>ks_ap_lapics := (ks_ap_lapics k)[c :=
                      ap_disarm_idle_timer (ks_system_lapic_base k) (ks_ap_lapics k ! c)]\<rparr>
                in Ap_Continues (upd_ctx c (\<lambda>x. x\<lparr>ctx_idle_wake_count := ctx_idle_wake_count x + 1\<rparr>) k))))
      | (False, outcome) \<Rightarrow> outcome)"

definition ap_loop_enter :: "nat \<Rightarrow> kernel_state \<Rightarrow> kernel_state" where
  "ap_loop_enter c k = upd_boot c (\<lambda>b. b\<lparr>bi_online := 1\<rparr>)
     (upd_boot c (\<lambda>b. b\<lparr>bi_ap_state := AP_BOOT_STATE_ONLINE, bi_entry_state := AP_ENTRY_STATE_LOOP\<rparr>) k)"

text \<open>The first \<open>n\<close> iterations of the endless loop.\<close>

fun ap_request_loop_from ::
    "build_config \<Rightarrow> cpu_selectors \<Rightarrow> (nat \<Rightarrow> kernel_state \<Rightarrow> kernel_state) \<Rightarrow> nat \<Rightarrow> nat \<Rightarrow> kernel_state \<Rightarrow> ap_outcome" where
  "ap_request_loop_from cfg sel wake c 0 k = Ap_Continues k"
| "ap_request_loop_from cfg sel wake c (Suc n) k =
     (case ap_loop_iteration cfg sel (wake n) c k of
        Ap_Continues k \<Rightarrow> ap_request_loop_from cfg sel wake c n k
      | outcome \<Rightarrow> outcome)"

definition ap_request_loop ::
    "build_config \<Rightarrow> cpu_selectors \<Rightarrow> (nat \<Rightarrow> kernel_state \<Rightarrow> kernel_state) \<Rightarrow> nat \<Rightarrow> nat \<Rightarrow> kernel_state \<Rightarrow> ap_outcome" where
  "ap_request_loop cfg sel wake c n k = ap_request_loop_from cfg sel wake c n (ap_loop_enter c k)"

section \<open>The effect of a claim and of a completion\<close>

lemma upd_ctx_compose:
  "c < length (ks_contexts k) \<Longrightarrow> upd_ctx c f (upd_ctx c g k) = upd_ctx c (\<lambda>x. f (g x)) k"
  by (simp add: upd_ctx_def)

lemma set_service_outbox_upd_ctx:
  "set_service_outbox c ob (upd_ctx d f k) = upd_ctx d f (set_service_outbox c ob k)"
  by (simp add: set_service_outbox_def upd_ctx_def split: option.split)

text \<open>What a claim does to the slot it claims.\<close>

definition claimed :: "u32 \<Rightarrow> ap_request_slot_t \<Rightarrow> ap_request_slot_t" where
  "claimed handled s = begin_ap_reply (s\<lparr>slot_state := AP_REQUEST_STATUS_RUNNING,
     slot_metrics := (slot_metrics s)\<lparr>mt_handled_count := handled\<rparr>\<rparr>)"

lemma ap_claim_slot_pending:
  assumes wf: "ks_wf k" "c < 8" "i < 4" and p: "slot_state (ap_inbox_slot k c i) = AP_REQUEST_STATUS_PENDING"
  shows "ap_claim_slot c i k = (True, upd_ctx c (\<lambda>x. x\<lparr>
     ctx_current_request_slot := word_of_nat i,
     ctx_queue_summary := (ctx_queue_summary x)\<lparr>qs_current_slot := word_of_nat (i + 1),
       qs_stop_reason := AP_QUEUE_STOP_NONE\<rparr>,
     ctx_request_slots := (ctx_request_slots x)[i :=
       claimed (ctx_request_handled_count x) (ctx_request_slots x ! i)],
     ctx_boot := (ctx_boot x)\<lparr>bi_entry_state := AP_ENTRY_STATE_REQUEST\<rparr>\<rparr>) k)"
proof -
  note len = ks_wf_lengths [OF wf(1)]
  have i: "i < length (ctx_request_slots (ks_contexts k ! c))" using len(5) wf by simp
  show ?thesis
    using len(1) wf i
    by (simp add: ap_claim_slot_def p ap_queue_note_slot_start_def upd_defs Let_def upd_ctx_compose ks_view)
      (simp add: upd_ctx_def claimed_def)
qed

text \<open>The two counters of an AP context.\<close>

definition handled_of :: "kernel_state \<Rightarrow> nat \<Rightarrow> u32" where
  "handled_of k c = ctx_request_handled_count (ks_contexts k ! c)"

definition counter_of :: "kernel_state \<Rightarrow> nat \<Rightarrow> u32" where
  "counter_of k c = ctx_counter_value (ks_contexts k ! c)"

lemma counts_view [ks_view]:
  assumes "ks_wf k" "c < 8"
  shows "handled_of (upd_boot c b k) d = handled_of k d" "handled_of (upd_slot c i s k) d = handled_of k d"
    "handled_of (upd_queue c q k) d = handled_of k d"
    "counter_of (upd_boot c b k) d = counter_of k d" "counter_of (upd_slot c i s k) d = counter_of k d"
    "counter_of (upd_queue c q k) d = counter_of k d"
  using ks_wf_lengths(1) [OF assms(1)] assms(2)
  by (auto simp: handled_of_def counter_of_def upd_defs ks_view)

lemma counts_outbox_view [ks_view]:
  "handled_of (set_committed_outbox c i ob k) d = handled_of k d"
  "handled_of (set_service_outbox c ob k) d = handled_of k d"
  "counter_of (set_committed_outbox c i ob k) d = counter_of k d"
  "counter_of (set_service_outbox c ob k) d = counter_of k d"
  by (simp_all add: handled_of_def counter_of_def ks_view)

text \<open>Setting a scalar of the context that is neither a slot nor a counter.\<close>

lemma current_slot_view [ks_view]:
  fixes k :: kernel_state and c :: nat and v :: u32
  assumes "ks_wf k" "c < 8"
  defines "k' \<equiv> upd_ctx c (\<lambda>x. x\<lparr>ctx_current_request_slot := v\<rparr>) k"
  shows "ks_wf k'" "ap_inbox_slot k' d j = ap_inbox_slot k d j" "boot_of k' d = boot_of k d"
    "handled_of k' d = handled_of k d" "counter_of k' d = counter_of k d"
  using assms(1,2) ks_wf_lengths(1) [OF assms(1)] unfolding k'_def
  by (auto intro!: ks_wf_upd_ctx simp: context_wf_def ap_inbox_slot_def boot_of_def handled_of_def
      counter_of_def ks_view)

lemma ap_notify_counts [ks_view]:
  assumes "ks_wf k" "c < 8"
  shows "handled_of (ap_notify_bsp_request_complete self c k) d = handled_of k d"
    "counter_of (ap_notify_bsp_request_complete self c k) d = counter_of k d"
  using ks_wf_lengths(1) [OF assms(1)] assms(2)
  by (auto simp: handled_of_def counter_of_def ap_notify_bsp_request_complete_def Let_def nth_list_update
      split: prod.split)

lemma note_terminal_view [ks_view]:
  fixes k :: kernel_state and c i :: nat and state reason :: u32
  assumes "ks_wf k" "c < 8"
  defines "k' \<equiv> ap_queue_note_slot_terminal c i state reason k"
  shows "ks_wf k'" "ap_inbox_slot k' d j = ap_inbox_slot k d j" "boot_of k' d = boot_of k d"
    "handled_of k' d = handled_of k d" "counter_of k' d = counter_of k d"
    "ks_committed_outboxes k' = ks_committed_outboxes k"
  using assms(1,2) unfolding k'_def
  by (simp_all add: ap_queue_note_slot_terminal_def Let_def ks_view ks_wf_upd) (simp add: upd_defs ks_view)

lemma committed_view [ks_view]:
  "ap_committed_outbox_for_slot (upd_ctx c f k) d j = ap_committed_outbox_for_slot k d j"
  "ap_committed_outbox_for_slot (upd_boot c b k) d j = ap_committed_outbox_for_slot k d j"
  "ap_committed_outbox_for_slot (upd_slot c i s k) d j = ap_committed_outbox_for_slot k d j"
  "ap_committed_outbox_for_slot (set_service_outbox c ob k) d j = ap_committed_outbox_for_slot k d j"
  by (simp_all add: ap_committed_outbox_for_slot_def upd_defs ks_view)

lemma committed_set_view [ks_view]:
  assumes "ks_wf k" "c < 8" "i < 4" "outbox_wf ob"
  shows "ap_committed_outbox_for_slot (set_committed_outbox c i ob k) d j =
    (if d = c \<and> j = i then ob else ap_committed_outbox_for_slot k d j)"
proof -
  obtain o' where "ob = Some o'" using assms(4) by (cases ob) (auto simp: outbox_wf_def)
  then show ?thesis
    using assms(2,3) ks_wf_lengths(3,7) [OF assms(1)]
    by (auto simp: ap_committed_outbox_for_slot_def set_committed_outbox_def nth_list_update c_const)
qed

lemma committed_frame_view [ks_view]:
  assumes "ks_wf k" "c < 8"
  shows "ap_committed_outbox_for_slot (ap_notify_bsp_request_complete self c k) d j =
      ap_committed_outbox_for_slot k d j"
    "ap_committed_outbox_for_slot (ap_queue_note_slot_terminal c i state reason k) d j =
      ap_committed_outbox_for_slot k d j"
  using ap_notify_view(4) [OF assms] note_terminal_view(6) [OF assms]
  by (simp_all add: ap_committed_outbox_for_slot_def)

text \<open>Completing a request that is still running.\<close>

lemma ap_complete_done_run:
  assumes wf: "ks_wf k" "c < 8" "i < 4" and run: "slot_state (ap_inbox_slot k c i) = AP_REQUEST_STATUS_RUNNING"
  shows "ap_complete_done c i ob k = ap_notify_bsp_request_complete c c
    (upd_ctx c (\<lambda>x. x\<lparr>ctx_current_request_slot := AP_REQUEST_NO_SLOT\<rparr>)
      (ap_queue_note_slot_terminal c i AP_REQUEST_STATUS_DONE AP_QUEUE_STOP_NONE
        (set_committed_outbox c i (copy_ap_request_outbox (ap_committed_outbox_for_slot k c i) ob)
          (upd_slot c i (\<lambda>s. (ap_inbox_slot k c i)\<lparr>slot_state := AP_REQUEST_STATUS_DONE\<rparr>)
            (upd_boot c (\<lambda>b. b\<lparr>bi_ap_state := AP_BOOT_STATE_ONLINE, bi_entry_state := AP_ENTRY_STATE_LOOP\<rparr>) k)))))"
  using wf run by (simp add: ap_complete_done_def ks_view Let_def)

lemma ap_complete_done_view:
  assumes wf: "ks_wf k" "c < 8" "i < 4" and run: "slot_state (ap_inbox_slot k c i) = AP_REQUEST_STATUS_RUNNING"
    and ob: "outbox_wf ob"
  shows "ks_wf (ap_complete_done c i ob k)"
    and "ap_inbox_slot (ap_complete_done c i ob k) d j = (if d = c \<and> j = i
      then (ap_inbox_slot k c i)\<lparr>slot_state := AP_REQUEST_STATUS_DONE\<rparr> else ap_inbox_slot k d j)"
    and "handled_of (ap_complete_done c i ob k) d = handled_of k d"
    and "counter_of (ap_complete_done c i ob k) d = counter_of k d"
    and "ap_committed_outbox_for_slot (ap_complete_done c i ob k) d j = (if d = c \<and> j = i
      then copy_ap_request_outbox (ap_committed_outbox_for_slot k c i) ob
      else ap_committed_outbox_for_slot k d j)"
    and "bi_entry_state (boot_of (ap_complete_done c i ob k) c) = AP_ENTRY_STATE_LOOP"
    and "bi_ap_state (boot_of (ap_complete_done c i ob k) c) = AP_BOOT_STATE_ONLINE"
proof -
  have com: "outbox_wf (copy_ap_request_outbox (ap_committed_outbox_for_slot k c i) ob)"
    using outbox.wf_commit ks_wf_outboxes(2) [OF wf] ob by blast
  define k1 where "k1 = set_committed_outbox c i (copy_ap_request_outbox (ap_committed_outbox_for_slot k c i) ob)
          (upd_slot c i (\<lambda>s. (ap_inbox_slot k c i)\<lparr>slot_state := AP_REQUEST_STATUS_DONE\<rparr>)
            (upd_boot c (\<lambda>b. b\<lparr>bi_ap_state := AP_BOOT_STATE_ONLINE, bi_entry_state := AP_ENTRY_STATE_LOOP\<rparr>) k))"
  have wf1: "ks_wf k1" unfolding k1_def using wf com by (intro ks_wf_set_outbox ks_wf_upd)
  define k2 where "k2 = upd_ctx c (\<lambda>x. x\<lparr>ctx_current_request_slot := AP_REQUEST_NO_SLOT\<rparr>)
      (ap_queue_note_slot_terminal c i AP_REQUEST_STATUS_DONE AP_QUEUE_STOP_NONE k1)"
  have wf2: "ks_wf k2" unfolding k2_def using wf(2) wf1 by (simp add: ks_view)
  have k': "ap_complete_done c i ob k = ap_notify_bsp_request_complete c c k2"
    using ap_complete_done_run [OF wf run] by (simp add: k2_def k1_def)
  have frame2: "ap_inbox_slot k2 d j = ap_inbox_slot k1 d j" "boot_of k2 d = boot_of k1 d"
    "handled_of k2 d = handled_of k1 d" "counter_of k2 d = counter_of k1 d"
    "ap_committed_outbox_for_slot k2 d j = ap_committed_outbox_for_slot k1 d j" for d j
    unfolding k2_def using wf1 wf(2) by (simp_all add: ks_view)
  have frame1: "ap_inbox_slot k1 d j = (if d = c \<and> j = i
      then (ap_inbox_slot k c i)\<lparr>slot_state := AP_REQUEST_STATUS_DONE\<rparr> else ap_inbox_slot k d j)"
    "handled_of k1 d = handled_of k d" "counter_of k1 d = counter_of k d"
    "boot_of k1 c = (boot_of k c)\<lparr>bi_ap_state := AP_BOOT_STATE_ONLINE, bi_entry_state := AP_ENTRY_STATE_LOOP\<rparr>"
    "ap_committed_outbox_for_slot k1 d j = (if d = c \<and> j = i
      then copy_ap_request_outbox (ap_committed_outbox_for_slot k c i) ob
      else ap_committed_outbox_for_slot k d j)" for d j
    unfolding k1_def using wf com by (simp_all add: ks_view ks_wf_upd)
  note all = k' frame1 frame2 ap_notify_view [OF wf2 wf(2)] ap_notify_counts [OF wf2 wf(2)]
    committed_frame_view [OF wf2 wf(2)]
  show "ks_wf (ap_complete_done c i ob k)"
    "ap_inbox_slot (ap_complete_done c i ob k) d j = (if d = c \<and> j = i
      then (ap_inbox_slot k c i)\<lparr>slot_state := AP_REQUEST_STATUS_DONE\<rparr> else ap_inbox_slot k d j)"
    "handled_of (ap_complete_done c i ob k) d = handled_of k d"
    "counter_of (ap_complete_done c i ob k) d = counter_of k d"
    "ap_committed_outbox_for_slot (ap_complete_done c i ob k) d j = (if d = c \<and> j = i
      then copy_ap_request_outbox (ap_committed_outbox_for_slot k c i) ob
      else ap_committed_outbox_for_slot k d j)"
    by (simp_all add: all)
  obtain n where "boot_of (ap_notify_bsp_request_complete c c k2) c = (boot_of k2 c)\<lparr>bi_icr_timeouts := n\<rparr>"
    using ap_notify_view(3) [OF wf2 wf(2), of c c] by auto
  then show "bi_entry_state (boot_of (ap_complete_done c i ob k) c) = AP_ENTRY_STATE_LOOP"
    "bi_ap_state (boot_of (ap_complete_done c i ob k) c) = AP_BOOT_STATE_ONLINE"
    by (simp_all add: k' frame2 frame1)
qed

text \<open>Answering a request no handler accepts.\<close>

lemma ap_complete_bad_op_view:
  assumes wf: "ks_wf k" "c < 8" "i < 4"
  shows "ap_inbox_slot (ap_complete_bad_op cfg sel c i k) d j = (if d = c \<and> j = i
      then complete_ap_request AP_REQUEST_STATUS_BAD_OP ((ap_inbox_slot k c i)\<lparr>
        slot_reply := (slot_reply (ap_inbox_slot k c i))\<lparr>
          rp_result_code := ap_dispatch_miss_result_code cfg sel
            (rq_service_id (slot_request (ap_inbox_slot k c i)))
            (rq_interface_id (slot_request (ap_inbox_slot k c i))), rp_fault_code := 0\<rparr>\<rparr>)
      else ap_inbox_slot k d j)"
    and "bi_ap_state (boot_of (ap_complete_bad_op cfg sel c i k) c) = AP_BOOT_STATE_HALTED"
proof -
  define k1 where "k1 = upd_slot c i (complete_ap_request AP_REQUEST_STATUS_BAD_OP)
    (upd_ctx c (\<lambda>x. x\<lparr>ctx_current_request_slot := AP_REQUEST_NO_SLOT\<rparr>)
     (ap_queue_note_slot_terminal c i AP_REQUEST_STATUS_BAD_OP AP_QUEUE_STOP_BAD_OP
      (upd_boot c (\<lambda>b. b\<lparr>bi_ap_state := AP_BOOT_STATE_HALTED, bi_entry_state := AP_ENTRY_STATE_HALTED\<rparr>)
       (upd_slot c i (\<lambda>s. s\<lparr>slot_reply := (slot_reply s)\<lparr>
            rp_result_code := ap_dispatch_miss_result_code cfg sel (rq_service_id (slot_request s))
              (rq_interface_id (slot_request s)), rp_fault_code := 0\<rparr>\<rparr>) k))))"
  let ?k2 = "ap_notify_bsp_request_complete c c k1"
  have eq: "ap_complete_bad_op cfg sel c i k = ?k2\<lparr>ks_ap_lapics := (ks_ap_lapics ?k2)[c :=
      ap_disarm_idle_timer (ks_system_lapic_base ?k2) (ks_ap_lapics ?k2 ! c)]\<rparr>"
    by (simp add: ap_complete_bad_op_def Let_def k1_def)
  have lap: "ap_inbox_slot (x\<lparr>ks_ap_lapics := l\<rparr>) d j = ap_inbox_slot x d j"
    "boot_of (x\<lparr>ks_ap_lapics := l\<rparr>) d = boot_of x d" for x l d j
    by (simp_all add: ap_inbox_slot_def boot_of_def)
  have wf1: "ks_wf k1" unfolding k1_def using wf by (simp add: ks_view ks_wf_upd)
  show "ap_inbox_slot (ap_complete_bad_op cfg sel c i k) d j = (if d = c \<and> j = i
      then complete_ap_request AP_REQUEST_STATUS_BAD_OP ((ap_inbox_slot k c i)\<lparr>
        slot_reply := (slot_reply (ap_inbox_slot k c i))\<lparr>
          rp_result_code := ap_dispatch_miss_result_code cfg sel
            (rq_service_id (slot_request (ap_inbox_slot k c i)))
            (rq_interface_id (slot_request (ap_inbox_slot k c i))), rp_fault_code := 0\<rparr>\<rparr>)
      else ap_inbox_slot k d j)"
    unfolding eq lap ap_notify_view(2) [OF wf1 wf(2)] unfolding k1_def using wf
    by (simp add: ks_view ks_wf_upd)
  have "bi_ap_state (boot_of k1 c) = AP_BOOT_STATE_HALTED"
    unfolding k1_def using wf by (simp add: ks_view ks_wf_upd)
  then show "bi_ap_state (boot_of (ap_complete_bad_op cfg sel c i k) c) = AP_BOOT_STATE_HALTED"
    unfolding eq lap using ap_notify_view(3) [OF wf1 wf(2), of c c] by auto
qed

section \<open>A pass over the slots\<close>

text \<open>
  The specification of a served request: done, answered under its own identifiers with the result
  of its service, and stamped with the next handled count.
\<close>

definition known_request :: "ap_request_slot_t \<Rightarrow> bool" where
  "known_request s \<longleftrightarrow>
     (rq_service_id (slot_request s), rq_interface_id (slot_request s)) \<in>
       {(AP_REQUEST_SERVICE_PING, AP_REQUEST_INTERFACE_PING),
        (AP_REQUEST_SERVICE_COUNTER, AP_REQUEST_INTERFACE_COUNTER_INCREMENT)}"

definition next_counter :: "u32 \<Rightarrow> ap_request_slot_t \<Rightarrow> u32" where
  "next_counter n s = (if rq_service_id (slot_request s) = AP_REQUEST_SERVICE_COUNTER then n + 1 else n)"

definition served :: "cpu_selectors \<Rightarrow> u32 \<Rightarrow> u32 \<Rightarrow> ap_request_slot_t \<Rightarrow> ap_request_slot_t" where
  "served sel handled n s = s\<lparr>slot_state := AP_REQUEST_STATUS_DONE,
     slot_reply := \<lparr>
       rp_result_code = (if rq_service_id (slot_request s) = AP_REQUEST_SERVICE_COUNTER then n + 1 else 0),
       rp_fault_code = 0,
       rp_request_id_high = rq_id_high (slot_request s), rp_request_id_low = rq_id_low (slot_request s),
       rp_result_cs = ucast (sel_cs sel), rp_result_tr = ucast (sel_tr sel)\<rparr>,
     slot_metrics := (slot_metrics s)\<lparr>mt_handled_count := handled + 1\<rparr>\<rparr>"

lemma ap_claim_slot_view:
  assumes wf: "ks_wf k" "c < 8" "i < 4" and p: "slot_state (ap_inbox_slot k c i) = AP_REQUEST_STATUS_PENDING"
  shows "\<exists>k1. ap_claim_slot c i k = (True, k1) \<and> ks_wf k1 \<and>
    (\<forall>d j. ap_inbox_slot k1 d j = (if d = c \<and> j = i then claimed (handled_of k c) (ap_inbox_slot k c i)
      else ap_inbox_slot k d j)) \<and>
    (\<forall>d. handled_of k1 d = handled_of k d \<and> counter_of k1 d = counter_of k d) \<and>
    (\<forall>d j. ap_committed_outbox_for_slot k1 d j = ap_committed_outbox_for_slot k d j)"
proof -
  note len = ks_wf_lengths [OF wf(1)]
  have i: "i < length (ctx_request_slots (ks_contexts k ! c))" using len(5) wf by simp
  show ?thesis
    unfolding ap_claim_slot_pending [OF wf p]
    using wf len(1) i
    by (auto intro!: ks_wf_upd_ctx simp: context_wf_def ap_inbox_slot_def handled_of_def counter_of_def
        ks_view)
qed

lemma known_handler:
  assumes "known_request s" "VIBE_AP_REQUEST_FAULT_TEST cfg = VIBE_AP_REQUEST_FAULT_TEST_NONE"
  shows "\<exists>h. find_ap_request_handler cfg sel (rq_service_id (slot_request s)) (rq_interface_id (slot_request s)) = Some h \<and>
    (\<forall>x. h x (claimed n s) = Returns (x\<lparr>sc_request_handled_count := sc_request_handled_count x + 1,
         sc_counter_value := next_counter (sc_counter_value x) s\<rparr>,
       (served sel (sc_request_handled_count x) (sc_counter_value x) s)\<lparr>slot_state := AP_REQUEST_STATUS_RUNNING\<rparr>))"
  using assms
  by (auto simp: known_request_def find_ap_request_handler_def find_ap_service_def ap_service_registry_def
      handler_defs run_ap_request_test_hook_def claimed_def begin_ap_reply_def served_def next_counter_def Let_def c_const)

lemma ap_run_slot_served:
  assumes wf: "ks_wf k" "c < 8" "i < 4" and known: "known_request s"
    and cfg: "VIBE_AP_REQUEST_FAULT_TEST cfg = VIBE_AP_REQUEST_FAULT_TEST_NONE"
    and slot: "ap_inbox_slot k c i = claimed (handled_of k c) s"
  shows "\<exists>k'. ap_run_slot cfg sel c i k = Ap_Continues k' \<and> ks_wf k' \<and>
    (\<forall>d j. ap_inbox_slot k' d j = (if d = c \<and> j = i then served sel (handled_of k c) (counter_of k c) s
      else ap_inbox_slot k d j)) \<and>
    (\<forall>d. handled_of k' d = (if d = c then handled_of k c + 1 else handled_of k d)) \<and>
    (\<forall>d. counter_of k' d = (if d = c then next_counter (counter_of k c) s else counter_of k d)) \<and>
    outbox_plans (ap_committed_outbox_for_slot k' c i) = []"
proof -
  let ?ob = "reset_ap_request_outbox (ap_service_outbox_for_context k c)"
  let ?x = "\<lparr>sc_request_handled_count = handled_of k c, sc_counter_value = counter_of k c, sc_outbox = ?ob\<rparr>"
  let ?x' = "\<lparr>sc_request_handled_count = handled_of k c + 1,
    sc_counter_value = next_counter (counter_of k c) s, sc_outbox = ?ob\<rparr>"
  let ?s = "(served sel (handled_of k c) (counter_of k c) s)\<lparr>slot_state := AP_REQUEST_STATUS_RUNNING\<rparr>"
  have req: "slot_request (claimed (handled_of k c) s) = slot_request s"
    by (simp add: claimed_def begin_ap_reply_def)
  obtain h where "find_ap_request_handler cfg sel (rq_service_id (slot_request s))
      (rq_interface_id (slot_request s)) = Some h" "h ?x (claimed (handled_of k c) s) = Returns (?x', ?s)"
    using known_handler [OF known cfg, of sel "handled_of k c"] by auto
  define k1 where "k1 = ap_store_service_context c i ?x' ?s (set_service_outbox c ?ob k)"
  with \<open>find_ap_request_handler _ _ _ _ = _\<close> \<open>h ?x _ = _\<close>
  have run: "ap_run_slot cfg sel c i k = Ap_Continues (ap_complete_done c i ?ob k1)"
    by (simp add: ap_run_slot_def Let_def slot req flip: handled_of_def counter_of_def)
  have ob: "outbox_wf ?ob" using outbox.wf_reset ks_wf_outboxes(1) [OF wf(1,2)] by blast
  have wf0: "ks_wf (upd_ctx c (\<lambda>x. x\<lparr>ctx_request_handled_count := h, ctx_counter_value := n\<rparr>)
      (set_service_outbox c ?ob k))" for h n
    using wf ob by (intro ks_wf_upd_ctx ks_wf_set_outbox) (simp_all add: context_wf_def)
  have len: "length (ks_contexts k) = 8" using ks_wf_lengths(1) [OF wf(1)] .
  have wf1: "ks_wf k1"
    unfolding k1_def ap_store_service_context_def using wf0 wf(2) ob by (auto intro!: ks_wf_set_outbox ks_wf_upd)
  have views: "ap_inbox_slot k1 d j = (if d = c \<and> j = i then ?s else ap_inbox_slot k d j)"
    "handled_of k1 d = (if d = c then handled_of k c + 1 else handled_of k d)"
    "counter_of k1 d = (if d = c then next_counter (counter_of k c) s else counter_of k d)" for d j
    unfolding k1_def ap_store_service_context_def using wf0 wf len
    by (simp_all add: ks_view) (auto simp: ap_inbox_slot_def handled_of_def counter_of_def ks_view)
  have running: "slot_state (ap_inbox_slot k1 c i) = AP_REQUEST_STATUS_RUNNING" by (simp add: views)
  have plans: "outbox_plans (copy_ap_request_outbox (ap_committed_outbox_for_slot k1 c i) ?ob) = []"
    using outbox.plans_commit [OF ks_wf_outboxes(2) [OF wf1 wf(2,3)] ob]
      outbox.plans_reset [OF ks_wf_outboxes(1) [OF wf(1,2)]] by simp
  have "?s\<lparr>slot_state := AP_REQUEST_STATUS_DONE\<rparr> = served sel (handled_of k c) (counter_of k c) s"
    by (simp add: served_def)
  then show ?thesis
    unfolding run using ap_complete_done_view [OF wf1 wf(2,3) running ob] views plans by simp
qed

section \<open>The abstract server\<close>

text \<open>
  What a pass looks like to the BSP: an inbox of four slots, a count of handled requests and a
  counter; the server goes through the slots in order and serves the pending ones.
\<close>

type_synonym ap_server = "(nat \<Rightarrow> ap_request_slot_t) \<times> u32 \<times> u32"

fun serve_slots :: "cpu_selectors \<Rightarrow> nat list \<Rightarrow> ap_server \<Rightarrow> ap_server" where
  "serve_slots sel [] server = server"
| "serve_slots sel (i # is) (inbox, handled, n) =
     (if slot_state (inbox i) = AP_REQUEST_STATUS_PENDING
      then serve_slots sel is (inbox(i := served sel handled n (inbox i)), handled + 1, next_counter n (inbox i))
      else serve_slots sel is (inbox, handled, n))"

definition server_of :: "kernel_state \<Rightarrow> nat \<Rightarrow> ap_server" where
  "server_of k c = (ap_inbox_slot k c, handled_of k c, counter_of k c)"

lemma ap_claim_slot_skip:
  "slot_state (ap_inbox_slot k c i) \<noteq> AP_REQUEST_STATUS_PENDING \<Longrightarrow> ap_claim_slot c i k = (False, k)"
  by (simp add: ap_claim_slot_def)

lemma ap_scan_slots_serves:
  assumes "ks_wf k" "c < 8" "\<forall>i \<in> set is. i < 4"
    and cfg: "VIBE_AP_REQUEST_FAULT_TEST cfg = VIBE_AP_REQUEST_FAULT_TEST_NONE"
    and "\<forall>i \<in> set is. slot_state (ap_inbox_slot k c i) = AP_REQUEST_STATUS_PENDING \<longrightarrow>
      known_request (ap_inbox_slot k c i)" and "distinct is"
  shows "\<exists>k'. ap_scan_slots cfg sel c is (w, k) =
      (w \<or> (\<exists>i \<in> set is. slot_state (ap_inbox_slot k c i) = AP_REQUEST_STATUS_PENDING), Ap_Continues k') \<and>
    ks_wf k' \<and> server_of k' c = serve_slots sel is (server_of k c) \<and>
    (\<forall>d j. d \<noteq> c \<longrightarrow> ap_inbox_slot k' d j = ap_inbox_slot k d j)"
  using assms
proof (induction "is" arbitrary: k w)
  case Nil
  then show ?case by simp
next
  case (Cons i "is")
  have i: "i < 4" "i \<notin> set is" using Cons.prems by auto
  show ?case
  proof (cases "slot_state (ap_inbox_slot k c i) = AP_REQUEST_STATUS_PENDING")
    case False
    with Cons.IH [of k w] Cons.prems show ?thesis
      by (auto simp: ap_claim_slot_skip server_of_def)
  next
    case True
    let ?s = "ap_inbox_slot k c i"
    obtain k1 where k1: "ap_claim_slot c i k = (True, k1)" "ks_wf k1"
      "\<forall>d j. ap_inbox_slot k1 d j = (if d = c \<and> j = i then claimed (handled_of k c) ?s else ap_inbox_slot k d j)"
      "\<forall>d. handled_of k1 d = handled_of k d \<and> counter_of k1 d = counter_of k d"
      using ap_claim_slot_view [OF Cons.prems(1,2) i(1) True] by blast
    have "ap_inbox_slot k1 c i = claimed (handled_of k1 c) ?s" using k1 by simp
    moreover have "known_request ?s" using Cons.prems(5) True by simp
    ultimately obtain k2 where k2: "ap_run_slot cfg sel c i k1 = Ap_Continues k2" "ks_wf k2"
      "\<forall>d j. ap_inbox_slot k2 d j = (if d = c \<and> j = i then served sel (handled_of k1 c) (counter_of k1 c) ?s
        else ap_inbox_slot k1 d j)"
      "\<forall>d. handled_of k2 d = (if d = c then handled_of k1 c + 1 else handled_of k1 d)"
      "\<forall>d. counter_of k2 d = (if d = c then next_counter (counter_of k1 c) ?s else counter_of k1 d)"
      using ap_run_slot_served [OF k1(2) Cons.prems(2) i(1) _ cfg] by blast
    have same: "ap_inbox_slot k2 c j = ap_inbox_slot k c j" if "j \<in> set is" for j
      using that i(2) k1(3) k2(3) by auto
    have server: "server_of k2 c = ((ap_inbox_slot k c)(i := served sel (handled_of k c) (counter_of k c) ?s),
        handled_of k c + 1, next_counter (counter_of k c) ?s)"
      using k1 k2 by (auto simp: server_of_def fun_eq_iff)
    from Cons.IH [OF k2(2) Cons.prems(2), of True] Cons.prems same cfg obtain k' where
      "ap_scan_slots cfg sel c is (True, k2) = (True, Ap_Continues k')" "ks_wf k'"
      "server_of k' c = serve_slots sel is (server_of k2 c)"
      "\<forall>d j. d \<noteq> c \<longrightarrow> ap_inbox_slot k' d j = ap_inbox_slot k2 d j"
      by auto
    with k1 k2 server True show ?thesis by (simp add: server_of_def)
  qed
qed

lemma serve_slots_leaves_none:
  assumes "serve_slots sel is (inbox, h, n) = (inbox', h', n')"
    and "i \<in> set is \<or> slot_state (inbox i) \<noteq> AP_REQUEST_STATUS_PENDING"
  shows "slot_state (inbox' i) \<noteq> AP_REQUEST_STATUS_PENDING"
  using assms
proof (induction "is" arbitrary: inbox h n)
  case (Cons j "is")
  show ?case
  proof (cases "slot_state (inbox j) = AP_REQUEST_STATUS_PENDING")
    case True
    have sent: "slot_state (served sel h n (inbox j)) \<noteq> AP_REQUEST_STATUS_PENDING"
      by (simp add: served_def c_const)
    from Cons.prems(1) True have "serve_slots sel is (inbox(j := served sel h n (inbox j)), h + 1,
        next_counter n (inbox j)) = (inbox', h', n')" by simp
    from Cons.IH [OF this] Cons.prems(2) sent show ?thesis by (cases "i = j") auto
  next
    case False
    then show ?thesis using Cons.IH [of inbox] Cons.prems by auto
  qed
qed auto

section \<open>Properties\<close>

text \<open>
  C8. In a build without request fault tests, a pass of an AP over its inbox, when every pending
  request names a known service, refines the abstract server: the pass returns, it serves exactly the
  pending slots in slot order, each answered under its own identifiers, with the handled count and
  the counter advanced as the server does; no slot is pending afterwards, the slots of the other APs
  are untouched, and the pass reports work exactly when some slot was pending.
\<close>

theorem ap_pass_refines_server:
  assumes "ks_wf k" "c < MAX_AP_CONTEXTS"
    and "VIBE_AP_REQUEST_FAULT_TEST cfg = VIBE_AP_REQUEST_FAULT_TEST_NONE"
    and "\<forall>i < AP_REQUEST_SLOT_COUNT. slot_state (ap_inbox_slot k c i) = AP_REQUEST_STATUS_PENDING \<longrightarrow>
      known_request (ap_inbox_slot k c i)"
  shows "\<exists>k'. ap_scan_slots cfg sel c [0..<AP_REQUEST_SLOT_COUNT] (False, k) =
      (\<exists>i < AP_REQUEST_SLOT_COUNT. slot_state (ap_inbox_slot k c i) = AP_REQUEST_STATUS_PENDING, Ap_Continues k') \<and>
    ks_wf k' \<and> server_of k' c = serve_slots sel [0..<AP_REQUEST_SLOT_COUNT] (server_of k c) \<and>
    (\<forall>i < AP_REQUEST_SLOT_COUNT. slot_state (ap_inbox_slot k' c i) \<noteq> AP_REQUEST_STATUS_PENDING) \<and>
    (\<forall>d j. d \<noteq> c \<longrightarrow> ap_inbox_slot k' d j = ap_inbox_slot k d j)"
proof -
  have "c < 8" "\<forall>i \<in> set [0..<AP_REQUEST_SLOT_COUNT]. i < 4"
    using assms(2) by (simp_all add: c_const)
  with ap_scan_slots_serves [of k c "[0..<AP_REQUEST_SLOT_COUNT]" cfg sel False] assms obtain k' where
    k': "ap_scan_slots cfg sel c [0..<AP_REQUEST_SLOT_COUNT] (False, k) =
      (\<exists>i < AP_REQUEST_SLOT_COUNT. slot_state (ap_inbox_slot k c i) = AP_REQUEST_STATUS_PENDING, Ap_Continues k')"
    "ks_wf k'" "server_of k' c = serve_slots sel [0..<AP_REQUEST_SLOT_COUNT] (server_of k c)"
    "\<forall>d j. d \<noteq> c \<longrightarrow> ap_inbox_slot k' d j = ap_inbox_slot k d j"
    by (auto simp: Bex_def)
  moreover have "slot_state (ap_inbox_slot k' c i) \<noteq> AP_REQUEST_STATUS_PENDING" if "i < AP_REQUEST_SLOT_COUNT" for i
    using serve_slots_leaves_none [OF k'(3) [symmetric, unfolded server_of_def], of i] that by simp
  ultimately show ?thesis by blast
qed

text \<open>A kernel state whose third AP has a ping and a counter request pending.\<close>

definition pending_kernel :: kernel_state where
  "pending_kernel = upd_ctx 2 (\<lambda>x. x\<lparr>ctx_request_slots := [
     zero_slot\<lparr>slot_state := AP_REQUEST_STATUS_PENDING, slot_request := (slot_request zero_slot)\<lparr>
       rq_service_id := AP_REQUEST_SERVICE_PING, rq_interface_id := AP_REQUEST_INTERFACE_PING, rq_id_low := 1\<rparr>\<rparr>,
     zero_slot\<lparr>slot_state := AP_REQUEST_STATUS_PENDING, slot_request := (slot_request zero_slot)\<lparr>
       rq_service_id := AP_REQUEST_SERVICE_COUNTER, rq_interface_id := AP_REQUEST_INTERFACE_COUNTER_INCREMENT,
       rq_id_low := 2\<rparr>\<rparr>, zero_slot, zero_slot]\<rparr>) example_kernel"

lemma pending_kernel_wf: "ks_wf pending_kernel"
  unfolding pending_kernel_def
  by (intro ks_wf_upd_ctx example_kernel_wf) (simp_all add: context_wf_def c_const)

lemma pending_slots:
  "ap_inbox_slot pending_kernel 2 0 = zero_slot\<lparr>slot_state := AP_REQUEST_STATUS_PENDING,
     slot_request := (slot_request zero_slot)\<lparr>rq_service_id := AP_REQUEST_SERVICE_PING,
       rq_interface_id := AP_REQUEST_INTERFACE_PING, rq_id_low := 1\<rparr>\<rparr>"
  "ap_inbox_slot pending_kernel 2 1 = zero_slot\<lparr>slot_state := AP_REQUEST_STATUS_PENDING,
     slot_request := (slot_request zero_slot)\<lparr>rq_service_id := AP_REQUEST_SERVICE_COUNTER,
       rq_interface_id := AP_REQUEST_INTERFACE_COUNTER_INCREMENT, rq_id_low := 2\<rparr>\<rparr>"
  "ap_inbox_slot pending_kernel 2 2 = zero_slot" "ap_inbox_slot pending_kernel 2 3 = zero_slot"
  using ks_wf_lengths(1) [OF example_kernel_wf]
  by (simp_all add: pending_kernel_def ap_inbox_slot_def ks_view numeral_2_eq_2 numeral_3_eq_3)

definition strange_kernel :: kernel_state where
  "strange_kernel = upd_slot 2 0 (\<lambda>_. zero_slot\<lparr>slot_state := AP_REQUEST_STATUS_PENDING\<rparr>) pending_kernel"

lemma below_4: "(\<forall>i < 4. P i) \<longleftrightarrow> P 0 \<and> P 1 \<and> P 2 \<and> P (3::nat)"
  by (auto simp: numeral_eq_Suc less_Suc_eq)

theorem ap_pass_refines_server_witness:
  "\<exists>k'. ap_scan_slots default_build \<lparr>sel_cs = 8, sel_tr = 24\<rparr> 2 [0..<AP_REQUEST_SLOT_COUNT]
      (False, pending_kernel) = (True, Ap_Continues k') \<and>
    (\<forall>i < AP_REQUEST_SLOT_COUNT. slot_state (ap_inbox_slot k' 2 i) \<noteq> AP_REQUEST_STATUS_PENDING)"
proof -
  have "\<forall>i < AP_REQUEST_SLOT_COUNT. slot_state (ap_inbox_slot pending_kernel 2 i) = AP_REQUEST_STATUS_PENDING \<longrightarrow>
      known_request (ap_inbox_slot pending_kernel 2 i)"
    unfolding AP_REQUEST_SLOT_COUNT_def below_4 pending_slots
    by (simp add: known_request_def zero_slot_def c_const)
  moreover have "\<exists>i < AP_REQUEST_SLOT_COUNT. slot_state (ap_inbox_slot pending_kernel 2 i) = AP_REQUEST_STATUS_PENDING"
    by (intro exI [of _ 0]) (simp add: pending_slots c_const)
  moreover have "2 < MAX_AP_CONTEXTS"
    "VIBE_AP_REQUEST_FAULT_TEST default_build = VIBE_AP_REQUEST_FAULT_TEST_NONE" by (simp_all add: c_const)
  ultimately show ?thesis
    using ap_pass_refines_server [OF pending_kernel_wf, of 2 default_build "\<lparr>sel_cs = 8, sel_tr = 24\<rparr>"]
    by auto
qed

text \<open>A claim also records which slot the AP works on.\<close>

lemma ap_claim_slot_current:
  assumes wf: "ks_wf k" "c < 8" "i < 4" and claim: "ap_claim_slot c i k = (True, k1)"
  shows "slot_state (ap_inbox_slot k c i) = AP_REQUEST_STATUS_PENDING"
    and "unat (ctx_current_request_slot (ks_contexts k1 ! c)) = i"
    and "bi_entry_state (boot_of k1 c) = AP_ENTRY_STATE_REQUEST"
proof -
  show p: "slot_state (ap_inbox_slot k c i) = AP_REQUEST_STATUS_PENDING"
    using claim by (auto simp: ap_claim_slot_def split: if_splits)
  show "unat (ctx_current_request_slot (ks_contexts k1 ! c)) = i"
    "bi_entry_state (boot_of k1 c) = AP_ENTRY_STATE_REQUEST"
    using claim ap_claim_slot_pending [OF wf p] wf ks_wf_lengths(1) [OF wf(1)]
    by (auto simp: ks_view boot_of_def unat_of_nat)
qed

text \<open>A handler that raises an exception leaves the claimed state, with a fresh service outbox.\<close>

lemma ap_run_slot_faults:
  assumes "ap_run_slot cfg sel c i k = Ap_Faults v k'"
  shows "k' = set_service_outbox c (reset_ap_request_outbox (ap_service_outbox_for_context k c)) k"
  using assms by (auto simp: ap_run_slot_def Let_def split: option.splits execution.splits)

text \<open>
  C30. A handler that raises a processor exception does not lose its request: after the AP has
  claimed a pending slot and the handler faults with vector \<open>v\<close>, the fault entry, run on a
  frame of that AP's interrupt stack, leaves the slot in the fault state with \<open>v\<close> as its fault
  code, records that the fault hit a request, and touches no other slot of the AP.
\<close>

theorem faulting_handler_is_reported:
  assumes wf: "ks_wf k" "c < MAX_AP_CONTEXTS" "i < AP_REQUEST_SLOT_COUNT"
    and claim: "ap_claim_slot c i k = (True, k1)" and run: "ap_run_slot cfg sel c i k1 = Ap_Faults v k2"
    and frame: "ap_context_from_fault_frame cpu_at a = c" "ff_vector frame = v"
    and k3: "k3 = ap_fault_dispatch cpu_at c a frame cr2 k2"
  shows "slot_state (ap_inbox_slot k3 c i) = AP_REQUEST_STATUS_FAULT \<and>
    rp_fault_code (slot_reply (ap_inbox_slot k3 c i)) = ucast v \<and>
    bi_fault_phase (boot_of k3 c) = AP_FAULT_PHASE_REQUEST \<and>
    bi_ap_state (boot_of k3 c) = AP_BOOT_STATE_FAULTED \<and>
    (\<forall>j. j \<noteq> i \<longrightarrow> ap_inbox_slot k3 c j = ap_inbox_slot k c j)"
proof -
  have c8: "c < 8" and i4: "i < 4" using wf by (simp_all add: c_const)
  note cur = ap_claim_slot_current [OF wf(1) c8 i4 claim]
  from ap_claim_slot_view [OF wf(1) c8 i4 cur(1)] claim have
    wf1: "ks_wf k1" and slots: "\<forall>d j. ap_inbox_slot k1 d j =
      (if d = c \<and> j = i then claimed (handled_of k c) (ap_inbox_slot k c i) else ap_inbox_slot k d j)" by auto
  have k2: "k2 = set_service_outbox c (reset_ap_request_outbox (ap_service_outbox_for_context k1 c)) k1"
    using ap_run_slot_faults [OF run] .
  have "ks_wf k2"
    unfolding k2 using wf1 c8 outbox.wf_reset ks_wf_outboxes(1) [OF wf1 c8] by (intro ks_wf_set_outbox) auto
  moreover have "unat (ctx_current_request_slot (ks_contexts k2 ! c)) = i" using cur(2) by (simp add: k2 ks_view)
  moreover have "slot_state (ap_inbox_slot k2 c i) = AP_REQUEST_STATUS_RUNNING"
    using slots by (simp add: k2 ks_view claimed_def begin_ap_reply_def)
  moreover have "bi_entry_state (boot_of k2 c) = AP_ENTRY_STATE_REQUEST" using cur(3) by (simp add: k2 ks_view)
  moreover have "ap_inbox_slot k2 c j = ap_inbox_slot k c j" if "j \<noteq> i" for j
    using slots that by (simp add: k2 ks_view)
  ultimately show ?thesis
    using ap_fault_dispatch_effect [OF _ frame(1) [symmetric] _ wf(3) k3] frame(2)
    by (simp add: Let_def unanswered_def fault_phase_of_def)
qed

definition ud2_build :: build_config where
  "ud2_build = default_build\<lparr>VIBE_AP_REQUEST_FAULT_TEST := VIBE_AP_REQUEST_FAULT_TEST_UD2\<rparr>"

theorem faulting_handler_is_reported_witness:
  "\<exists>k1 k2. ap_claim_slot 2 0 pending_kernel = (True, k1) \<and>
    ap_run_slot ud2_build \<lparr>sel_cs = 8, sel_tr = 24\<rparr> 2 0 k1 = Ap_Faults 6 k2 \<and>
    slot_state (ap_inbox_slot (ap_fault_dispatch example_cpu_at 2 0x1020f00
      \<lparr>ff_vector = 6, ff_error_code = 0, ff_rip = 0x2000, ff_cs = 8, ff_rflags = 2\<rparr> 0 k2) 2 0) =
    AP_REQUEST_STATUS_FAULT"
proof -
  have idx: "2 < MAX_AP_CONTEXTS" "0 < AP_REQUEST_SLOT_COUNT" by (simp_all add: c_const)
  have p: "slot_state (ap_inbox_slot pending_kernel 2 0) = AP_REQUEST_STATUS_PENDING" by (simp add: pending_slots)
  obtain k1 where k1: "ap_claim_slot 2 0 pending_kernel = (True, k1)"
    "ap_inbox_slot k1 2 0 = claimed (handled_of pending_kernel 2) (ap_inbox_slot pending_kernel 2 0)"
    using ap_claim_slot_view [OF pending_kernel_wf _ _ p] by auto
  have run: "\<exists>k2. ap_run_slot ud2_build \<lparr>sel_cs = 8, sel_tr = 24\<rparr> 2 0 k1 = Ap_Faults 6 k2"
    by (simp add: ap_run_slot_def k1(2) claimed_def begin_ap_reply_def pending_slots Let_def
        find_ap_request_handler_def find_ap_service_def ap_service_registry_def ap_handle_ping_request_def
        run_ap_request_test_hook_def ud2_build_def c_const)
  have "find (\<lambda>j. address_in_range 0x1020f00 (cpu_fault_stack_addr (example_cpu_at j)) CPU_FAULT_STACK_SIZE \<or>
      address_in_range 0x1020f00 (cpu_double_fault_stack_addr (example_cpu_at j)) CPU_FAULT_STACK_SIZE)
      [0..<MAX_AP_CONTEXTS] = Some 2"
    by code_simp
  then have c: "ap_context_from_fault_frame example_cpu_at 0x1020f00 = 2"
    by (simp add: ap_context_from_fault_frame_def)
  from run k1(1) faulting_handler_is_reported [OF pending_kernel_wf idx k1(1) _ c _ refl, of _ _ 6] show ?thesis
    by fastforce
qed

text \<open>
  C31. A request for an unknown service is answered and stops the AP: after the claim, the body
  ends by halting, with the slot in the bad-operation state, the unknown identifier as its result, no
  fault code and the identifiers of the request echoed, the context marked halted, and every other
  slot of the AP untouched.
\<close>

theorem unknown_request_halts_ap:
  assumes wf: "ks_wf k" "c < MAX_AP_CONTEXTS" "i < AP_REQUEST_SLOT_COUNT"
    and claim: "ap_claim_slot c i k = (True, k1)"
    and unknown: "find_ap_request_handler cfg sel (rq_service_id (slot_request (ap_inbox_slot k c i)))
      (rq_interface_id (slot_request (ap_inbox_slot k c i))) = None"
  shows "\<exists>k'. ap_run_slot cfg sel c i k1 = Ap_Halted k' \<and>
    (let s = ap_inbox_slot k c i; s' = ap_inbox_slot k' c i in
     slot_state s' = AP_REQUEST_STATUS_BAD_OP \<and> slot_request s' = slot_request s \<and>
     rp_result_code (slot_reply s') = ap_dispatch_miss_result_code cfg sel
       (rq_service_id (slot_request s)) (rq_interface_id (slot_request s)) \<and>
     rp_fault_code (slot_reply s') = 0 \<and>
     rp_request_id_high (slot_reply s') = rq_id_high (slot_request s) \<and>
     rp_request_id_low (slot_reply s') = rq_id_low (slot_request s)) \<and>
    bi_ap_state (boot_of k' c) = AP_BOOT_STATE_HALTED \<and>
    (\<forall>j. j \<noteq> i \<longrightarrow> ap_inbox_slot k' c j = ap_inbox_slot k c j)"
proof -
  have c8: "c < 8" and i4: "i < 4" using wf by (simp_all add: c_const)
  note cur = ap_claim_slot_current [OF wf(1) c8 i4 claim]
  from ap_claim_slot_view [OF wf(1) c8 i4 cur(1)] claim have
    wf1: "ks_wf k1" and slots: "\<forall>d j. ap_inbox_slot k1 d j =
      (if d = c \<and> j = i then claimed (handled_of k c) (ap_inbox_slot k c i) else ap_inbox_slot k d j)" by auto
  define k2 where "k2 = set_service_outbox c (reset_ap_request_outbox (ap_service_outbox_for_context k1 c)) k1"
  have wf2: "ks_wf k2"
    unfolding k2_def using wf1 c8 outbox.wf_reset ks_wf_outboxes(1) [OF wf1 c8] by (intro ks_wf_set_outbox) auto
  have req: "slot_request (claimed h s) = slot_request s" for h s by (simp add: claimed_def begin_ap_reply_def)
  have run: "ap_run_slot cfg sel c i k1 = Ap_Halted (ap_complete_bad_op cfg sel c i k2)"
    using unknown slots by (simp add: ap_run_slot_def Let_def req k2_def)
  have s2: "ap_inbox_slot k2 d j = ap_inbox_slot k1 d j" for d j by (simp add: k2_def ks_view)
  note view = ap_complete_bad_op_view [OF wf2 c8 i4, of cfg sel]
  have "slot_state (ap_inbox_slot k2 c i) = AP_REQUEST_STATUS_RUNNING"
    using slots by (simp add: s2 claimed_def begin_ap_reply_def)
  then show ?thesis
    unfolding run using view slots
    by (auto simp: s2 Let_def complete_ap_request_def claimed_def begin_ap_reply_def)
qed

theorem unknown_request_halts_ap_witness:
  "\<exists>k1 k'. ap_claim_slot 2 0 strange_kernel = (True, k1) \<and>
     ap_run_slot default_build \<lparr>sel_cs = 8, sel_tr = 24\<rparr> 2 0 k1 = Ap_Halted k' \<and>
     slot_state (ap_inbox_slot k' 2 0) = AP_REQUEST_STATUS_BAD_OP"
proof -
  have idx: "2 < MAX_AP_CONTEXTS" "0 < AP_REQUEST_SLOT_COUNT" by (simp_all add: c_const)
  have s: "ap_inbox_slot strange_kernel 2 0 = zero_slot\<lparr>slot_state := AP_REQUEST_STATUS_PENDING\<rparr>"
    by (simp add: strange_kernel_def ks_view pending_kernel_wf)
  have wf: "ks_wf strange_kernel" unfolding strange_kernel_def by (intro ks_wf_upd pending_kernel_wf) simp
  obtain k1 where k1: "ap_claim_slot 2 0 strange_kernel = (True, k1)"
    using ap_claim_slot_view [OF wf, of 2 0] s by auto
  have "find_ap_request_handler default_build \<lparr>sel_cs = 8, sel_tr = 24\<rparr>
      (rq_service_id (slot_request (ap_inbox_slot strange_kernel 2 0)))
      (rq_interface_id (slot_request (ap_inbox_slot strange_kernel 2 0))) = None"
    by (simp add: s zero_slot_def find_ap_request_handler_def find_ap_service_def ap_service_registry_def c_const)
  from unknown_request_halts_ap [OF wf idx k1 this] k1 show ?thesis by (auto simp: Let_def)
qed

end
