(* ===== verification/Ap_Stream.thy ===== *)
theory Ap_Stream
  imports Ap_Loop
begin

text \<open>
  The BSP side of the request protocol (\<^verbatim>\<open>kernel/kernel.c\<close>): publishing a request into an
  inbox slot, and \<^verbatim>\<open>run_ap_request_stream\<close>, which keeps up to four requests of a plan in flight,
  records them in the history as they finish, and gives up on a timeout, a fault or an unknown request.
  The AP and the interrupt handlers run concurrently: \<open>env t k\<close> is the state after whatever they
  do at the \<open>t\<close>-th point where the model lets them act, which is at the head of every iteration,
  before every slot is looked at, and wherever the BSP waits. Between two such points the BSP runs alone.
\<close>

section \<open>Publishing\<close>

definition publish_ap_inbox_request ::
    "nat \<Rightarrow> nat \<Rightarrow> ap_request_plan_t \<Rightarrow> bool \<Rightarrow> kernel_state \<Rightarrow> kernel_state" where
  "publish_ap_inbox_request c slot_index plan send_kick k =
     (let boot = boot_of k c;
          k = reset_ap_inbox_slot c slot_index k;
          k = upd_slot c slot_index (\<lambda>s. prepare_ap_request_slot_from_plan s (ap_context_index c + 1) plan) k
      in if bi_ap_state boot = AP_BOOT_STATE_FAULTED
         then upd_slot c slot_index (\<lambda>s. s\<lparr>slot_reply := (slot_reply s)\<lparr>
                rp_fault_code := ucast (bi_fault_vector boot)\<rparr>, slot_state := AP_REQUEST_STATUS_FAULT\<rparr>) k
         else if bi_error boot \<noteq> AP_BOOT_OK \<or> bi_online boot = 0
         then upd_slot c slot_index (\<lambda>s. s\<lparr>slot_state := AP_REQUEST_STATUS_SKIPPED\<rparr>) k
         else if bi_ap_state boot = AP_BOOT_STATE_HALTED
         then upd_slot c slot_index (\<lambda>s. s\<lparr>slot_state := AP_REQUEST_STATUS_SKIPPED\<rparr>) k
         else
           (let k = upd_slot c slot_index (\<lambda>s. s\<lparr>slot_state := AP_REQUEST_STATUS_PENDING\<rparr>) k
            in if send_kick then bsp_notify_ap_request_pending c k else k))"

definition ap_request_all_done :: "kernel_state \<Rightarrow> nat \<Rightarrow> nat \<Rightarrow> bool" where
  "ap_request_all_done k c count =
     (let count = (if count > AP_REQUEST_SLOT_COUNT then AP_REQUEST_SLOT_COUNT else count)
      in list_all (\<lambda>i. slot_state (ap_inbox_slot k c i) = AP_REQUEST_STATUS_DONE) [0..<count])"

section \<open>The local variables of a stream\<close>

record stream_state =
  st_kernel :: kernel_state
  st_active :: "bool list"
  st_next_plan :: nat
  st_completed_count :: nat
  st_counter_base :: u32
  st_wait_loops :: u32
  st_stopped :: bool
  st_time :: nat

type_synonym environment = "nat \<Rightarrow> kernel_state \<Rightarrow> kernel_state"

definition ap_tick :: "environment \<Rightarrow> stream_state \<Rightarrow> stream_state" where
  "ap_tick env st = st\<lparr>st_kernel := env (st_time st) (st_kernel st), st_time := Suc (st_time st)\<rparr>"

abbreviation stream_slot :: "stream_state \<Rightarrow> nat \<Rightarrow> nat \<Rightarrow> ap_request_slot_t" where
  "stream_slot st c i \<equiv> ap_inbox_slot (st_kernel st) c i"

section \<open>Recording\<close>

definition record_ap_stream_slot :: "nat \<Rightarrow> nat \<Rightarrow> nat \<Rightarrow> stream_state \<Rightarrow> stream_state" where
  "record_ap_stream_slot c history_index slot_index st =
     (let slot = stream_slot st c slot_index;
          counter_value = (if ap_request_is_counter_increment slot \<and>
              slot_state slot = AP_REQUEST_STATUS_DONE \<and> rp_fault_code (slot_reply slot) = 0
            then st_counter_base st + 1 else st_counter_base st)
      in st\<lparr>st_counter_base := counter_value,
           st_kernel := record_ap_request_history c history_index slot_index slot counter_value (st_kernel st)\<rparr>)"

definition publish_ap_stream_slot ::
    "nat \<Rightarrow> nat \<Rightarrow> ap_request_plan_t \<Rightarrow> stream_state \<Rightarrow> stream_state" where
  "publish_ap_stream_slot c slot_index plan st =
     st\<lparr>st_kernel := publish_ap_inbox_request c slot_index plan True (st_kernel st),
        st_active := (st_active st)[slot_index := True]\<rparr>"

text \<open>Settling one slot when the stream stops.\<close>

definition stop_ap_stream_slot :: "nat \<Rightarrow> nat \<Rightarrow> stream_state \<Rightarrow> stream_state" where
  "stop_ap_stream_slot c slot_index st =
     (let boot = boot_of (st_kernel st) c; state = slot_state (stream_slot st c slot_index) in
      if \<not> st_active st ! slot_index \<or> ap_request_state_finished state then st
      else st\<lparr>st_kernel := upd_slot c slot_index (\<lambda>s.
        (let s = s\<lparr>slot_metrics := (slot_metrics s)\<lparr>mt_wait_loops := st_wait_loops st\<rparr>\<rparr> in
         if bi_ap_state boot = AP_BOOT_STATE_FAULTED \<and> state = AP_REQUEST_STATUS_RUNNING
         then s\<lparr>slot_reply := (slot_reply s)\<lparr>rp_fault_code := ucast (bi_fault_vector boot)\<rparr>,
                slot_state := AP_REQUEST_STATUS_FAULT\<rparr>
         else if state = AP_REQUEST_STATUS_PENDING then s\<lparr>slot_state := AP_REQUEST_STATUS_SKIPPED\<rparr>
         else s)) (st_kernel st)\<rparr>)"

definition stop_ap_request_stream :: "nat \<Rightarrow> nat \<Rightarrow> stream_state \<Rightarrow> stream_state" where
  "stop_ap_request_stream c count st = fold (stop_ap_stream_slot c) [0..<count] st"

definition active_ap_request_slot_count :: "bool list \<Rightarrow> nat \<Rightarrow> nat" where
  "active_ap_request_slot_count active count = length (filter (\<lambda>i. active ! i) [0..<count])"

definition ap_request_stream_has_finished_slot :: "nat \<Rightarrow> nat \<Rightarrow> stream_state \<Rightarrow> bool" where
  "ap_request_stream_has_finished_slot c count st =
     list_ex (\<lambda>i. st_active st ! i \<and> ap_request_state_finished (slot_state (stream_slot st c i))) [0..<count]"

definition ap_stream_finished_slot_order :: "ap_request_slot_t \<Rightarrow> nat \<Rightarrow> u32" where
  "ap_stream_finished_slot_order slot slot_index =
     (if slot_state slot = AP_REQUEST_STATUS_DONE \<and> mt_handled_count (slot_metrics slot) \<noteq> 0
      then mt_handled_count (slot_metrics slot) else 0x80000000 + word_of_nat slot_index)"

definition ap_stream_has_earlier_finished_slot :: "nat \<Rightarrow> nat \<Rightarrow> nat \<Rightarrow> stream_state \<Rightarrow> bool" where
  "ap_stream_has_earlier_finished_slot c count slot_index st =
     (let slot_order = ap_stream_finished_slot_order (stream_slot st c slot_index) slot_index
      in list_ex (\<lambda>i. \<not> (i = slot_index \<or> \<not> st_active st ! i \<or>
             \<not> ap_request_state_finished (slot_state (stream_slot st c i))) \<and>
           ap_stream_finished_slot_order (stream_slot st c i) i < slot_order) [0..<count])"

definition ap_request_stream_should_stop :: "kernel_state \<Rightarrow> nat \<Rightarrow> bool" where
  "ap_request_stream_should_stop k c \<longleftrightarrow>
     bi_ap_state (boot_of k c) = AP_BOOT_STATE_FAULTED \<or> bi_ap_state (boot_of k c) = AP_BOOT_STATE_HALTED"

definition finish_ap_stream_slot :: "nat \<Rightarrow> nat \<Rightarrow> u32 \<Rightarrow> stream_state \<Rightarrow> bool \<times> stream_state" where
  "finish_ap_stream_slot c slot_index wait_loops st =
     (let state = slot_state (stream_slot st c slot_index) in
      if \<not> st_active st ! slot_index \<or> \<not> ap_request_state_finished state then (False, st)
      else
        (let st = st\<lparr>st_kernel := upd_slot c slot_index (\<lambda>s. s\<lparr>slot_metrics :=
               (slot_metrics s)\<lparr>mt_wait_loops := wait_loops\<rparr>\<rparr>) (st_kernel st)\<rparr>;
             st = record_ap_stream_slot c (st_completed_count st) slot_index st
         in (state = AP_REQUEST_STATUS_DONE,
             st\<lparr>st_active := (st_active st)[slot_index := False],
                st_completed_count := st_completed_count st + 1\<rparr>)))"

definition advance_ap_request_wait_loops :: "build_config \<Rightarrow> u32 \<Rightarrow> u32 \<Rightarrow> u32" where
  "advance_ap_request_wait_loops cfg wait_loops step =
     (if step \<ge> AP_REQUEST_TIMEOUT_LOOPS cfg - wait_loops then AP_REQUEST_TIMEOUT_LOOPS cfg
      else wait_loops + step)"

definition time_out_slot :: "build_config \<Rightarrow> ap_request_slot_t \<Rightarrow> ap_request_slot_t" where
  "time_out_slot cfg slot =
     (let slot = slot\<lparr>slot_metrics := (slot_metrics slot)\<lparr>mt_wait_loops := AP_REQUEST_TIMEOUT_LOOPS cfg\<rparr>\<rparr>
      in case cmpxchg_u32 (slot_state slot) AP_REQUEST_STATUS_PENDING AP_REQUEST_STATUS_TIMEOUT of
           (True, state) \<Rightarrow> slot\<lparr>slot_state := state\<rparr>
         | (False, _) \<Rightarrow> slot\<lparr>slot_state := snd (cmpxchg_u32 (slot_state slot) AP_REQUEST_STATUS_RUNNING
                              AP_REQUEST_STATUS_TIMEOUT)\<rparr>)"

definition finish_timed_out_slot :: "build_config \<Rightarrow> nat \<Rightarrow> nat \<Rightarrow> stream_state \<Rightarrow> stream_state" where
  "finish_timed_out_slot cfg c slot_index st =
     (if \<not> st_active st ! slot_index then st
      else
        (let st = (if ap_request_state_finished (slot_state (stream_slot st c slot_index)) then st
               else st\<lparr>st_kernel := upd_slot c slot_index (time_out_slot cfg) (st_kernel st)\<rparr>)
         in snd (finish_ap_stream_slot c slot_index (AP_REQUEST_TIMEOUT_LOOPS cfg) st)))"

definition finish_timed_out_ap_stream_slots :: "build_config \<Rightarrow> nat \<Rightarrow> nat \<Rightarrow> stream_state \<Rightarrow> stream_state" where
  "finish_timed_out_ap_stream_slots cfg c count st = fold (finish_timed_out_slot cfg c) [0..<count] st"

section \<open>Waiting\<close>

text \<open>The pause in which interrupts that are still on their way arrive.\<close>

definition drain_ap_request_ipis :: "environment \<Rightarrow> stream_state \<Rightarrow> stream_state" where
  "drain_ap_request_ipis env = ap_tick env"


text \<open>The AP and the interrupt handlers act while the BSP sleeps; \<open>t\<close> is the point in time.\<close>

definition bsp_wait_for_ap_request_event ::
    "build_config \<Rightarrow> environment \<Rightarrow> nat \<Rightarrow> kernel_state \<Rightarrow> u32 \<times> kernel_state" where
  "bsp_wait_for_ap_request_event cfg env t k =
     (let timer_count_before = wo_timer_count (ks_bsp_wait_observe k)
      in case bsp_arm_wait_timer (ks_system_lapic_base k) (ks_bsp_lapic k) of
           (False, _) \<Rightarrow> (1, env t k)
         | (True, l) \<Rightarrow>
             (let k = k\<lparr>ks_bsp_lapic := l, ks_bsp_wait_observe := (ks_bsp_wait_observe k)\<lparr>
                    wo_halt_count := wo_halt_count (ks_bsp_wait_observe k) + 1\<rparr>\<rparr>;
                  k = env t k;
                  k = k\<lparr>ks_bsp_lapic := bsp_disarm_wait_timer (ks_system_lapic_base k) (ks_bsp_lapic k),
                    ks_bsp_wait_observe := (ks_bsp_wait_observe k)\<lparr>
                      wo_wake_count := wo_wake_count (ks_bsp_wait_observe k) + 1\<rparr>\<rparr>
              in (if wo_timer_count (ks_bsp_wait_observe k) \<noteq> timer_count_before
                  then BSP_WAIT_TIMER_TIMEOUT_STEP cfg else 1, k)))"

section \<open>The stream\<close>

definition stream_publish_next :: "nat \<Rightarrow> ap_request_plan_t list \<Rightarrow> nat \<Rightarrow> stream_state \<Rightarrow> stream_state" where
  "stream_publish_next c plan slot_index st =
     (publish_ap_stream_slot c slot_index (plan ! st_next_plan st) st)\<lparr>st_next_plan := st_next_plan st + 1\<rparr>"

text \<open>The body of the inner loop for one slot.\<close>

definition stream_visit ::
    "build_config \<Rightarrow> environment \<Rightarrow> nat \<Rightarrow> ap_request_plan_t list \<Rightarrow> nat \<Rightarrow> nat \<Rightarrow> stream_state \<Rightarrow> stream_state" where
  "stream_visit cfg env c plan count slot_index st =
     (let st = ap_tick env st in
      if \<not> st_active st ! slot_index then st
      else if ap_request_state_finished (slot_state (stream_slot st c slot_index)) \<and>
              ap_stream_has_earlier_finished_slot c count slot_index st
      then st
      else
        (let (done, st) = finish_ap_stream_slot c slot_index (st_wait_loops st) st;
             st = (if \<not> st_active st ! slot_index \<and> \<not> done then st\<lparr>st_stopped := True\<rparr> else st)
         in if done \<and> \<not> st_stopped st \<and> st_wait_loops st < AP_REQUEST_TIMEOUT_LOOPS cfg \<and>
               st_next_plan st < length plan
            then (if ap_request_stream_should_stop (st_kernel st) c then st\<lparr>st_stopped := True\<rparr>
                  else stream_publish_next c plan slot_index st)
            else st))"

text \<open>The first half of an iteration: everything up to the count of active slots.\<close>

definition stream_pass ::
    "build_config \<Rightarrow> environment \<Rightarrow> nat \<Rightarrow> ap_request_plan_t list \<Rightarrow> nat \<Rightarrow> stream_state \<Rightarrow> stream_state" where
  "stream_pass cfg env c plan count st =
     (let st = ap_tick env st;
          st = (if ap_request_stream_should_stop (st_kernel st) c
                then stop_ap_request_stream c count (st\<lparr>st_stopped := True\<rparr>) else st);
          st = fold (stream_visit cfg env c plan count) [0..<count] st
      in if st_stopped st then stop_ap_request_stream c count st else st)"

text \<open>One iteration of the outer loop; the flag says whether it ends with \<^verbatim>\<open>break\<close>.\<close>

definition stream_iteration ::
    "build_config \<Rightarrow> environment \<Rightarrow> nat \<Rightarrow> ap_request_plan_t list \<Rightarrow> nat \<Rightarrow> stream_state \<Rightarrow> bool \<times> stream_state" where
  "stream_iteration cfg env c plan count st =
     (let st = stream_pass cfg env c plan count st;
          active_count = active_ap_request_slot_count (st_active st) count
      in if (st_next_plan st \<ge> length plan \<or> st_stopped st) \<and> active_count = 0 then (True, st)
         else if st_stopped st
         then (if ap_request_stream_has_finished_slot c count st then (False, st)
               else if st_wait_loops st \<ge> AP_REQUEST_TIMEOUT_LOOPS cfg then (True, st)
               else (False, ap_tick env (st\<lparr>st_wait_loops :=
                      advance_ap_request_wait_loops cfg (st_wait_loops st) 1\<rparr>)))
         else if st_wait_loops st \<ge> AP_REQUEST_TIMEOUT_LOOPS cfg then (True, st)
         else
           (let (step, k) = bsp_wait_for_ap_request_event cfg env (st_time st) (st_kernel st)
            in (False, st\<lparr>st_kernel := k, st_time := Suc (st_time st),
                 st_wait_loops := advance_ap_request_wait_loops cfg (st_wait_loops st) step\<rparr>)))"

partial_function (option) stream_loop ::
    "build_config \<Rightarrow> environment \<Rightarrow> nat \<Rightarrow> ap_request_plan_t list \<Rightarrow> nat \<Rightarrow> stream_state \<Rightarrow> stream_state option" where
  "stream_loop cfg env c plan count st =
     (if fst (stream_iteration cfg env c plan count st) then Some (snd (stream_iteration cfg env c plan count st))
      else stream_loop cfg env c plan count (snd (stream_iteration cfg env c plan count st)))"

text \<open>The first publications: a slot for every request while there are both.\<close>

definition stream_publish_first :: "nat \<Rightarrow> ap_request_plan_t list \<Rightarrow> nat \<Rightarrow> stream_state \<Rightarrow> stream_state" where
  "stream_publish_first c plan count st =
     fold (\<lambda>slot_index st. if st_next_plan st < length plan then stream_publish_next c plan slot_index st else st)
       [0..<count] st"

definition stream_reset :: "nat \<Rightarrow> nat \<Rightarrow> kernel_state \<Rightarrow> kernel_state" where
  "stream_reset c plan_count k =
     (let k = reset_ap_queue_summary c k;
          k = reset_ap_request_history c k;
          k = upd_queue c (\<lambda>q. q\<lparr>qs_planned_count := word_of_nat plan_count\<rparr>) k
      in fold (reset_ap_inbox_slot c) [0..<AP_REQUEST_SLOT_COUNT] k)"

text \<open>
  The whole function: its result, the final value of its completion counter and the state it
  leaves. \<open>None\<close> would mean that it does not return.
\<close>

definition run_ap_request_stream ::
    "build_config \<Rightarrow> environment \<Rightarrow> nat \<Rightarrow> ap_request_plan_t list \<Rightarrow> kernel_state \<Rightarrow>
     (bool \<times> stream_state) option" where
  "run_ap_request_stream cfg env c plan k =
     (let count = ap_inbox_slot_limit AP_REQUEST_SLOT_COUNT;
          st = \<lparr>st_kernel = k, st_active = replicate AP_REQUEST_SLOT_COUNT False, st_next_plan = 0,
                 st_completed_count = 0, st_counter_base = ctx_counter_value (ks_contexts k ! c),
                 st_wait_loops = 0, st_stopped = False, st_time = 0\<rparr>
      in if count = 0 then Some (length plan = 0, st)
         else
           (let k = stream_reset c (length plan) k;
                st = st\<lparr>st_kernel := k\<rparr>
            in if ap_request_stream_should_stop k c
               then Some (False, st\<lparr>st_kernel := upd_queue c (\<lambda>q. q\<lparr>qs_stop_reason :=
                      (if bi_ap_state (boot_of k c) = AP_BOOT_STATE_FAULTED then AP_QUEUE_STOP_FAULT
                       else AP_QUEUE_STOP_BAD_OP)\<rparr>) k\<rparr>)
               else (case stream_loop cfg env c plan count (stream_publish_first c plan count st) of
                 None \<Rightarrow> None
               | Some st \<Rightarrow>
                   (let k = st_kernel st;
                        k = k\<lparr>ks_bsp_lapic := bsp_disarm_wait_timer (ks_system_lapic_base k) (ks_bsp_lapic k)\<rparr>;
                        st = drain_ap_request_ipis env (st\<lparr>st_kernel := k\<rparr>);
                        st = finish_timed_out_ap_stream_slots cfg c count st
                    in Some (st_completed_count st = length plan \<and>
                              ap_request_all_done (st_kernel st) c count, st)))))"

end
