(* ===== verification/Ap_Stream_Inv.thy ===== *)
theory Ap_Stream_Inv
  imports Ap_Stream "HOL-Library.Multiset"
begin

text \<open>
  What the BSP may rely on while a stream runs, and the invariant of the stream: every request of
  the plan handed out so far is either in a slot that is still active or in the history, once.
\<close>

section \<open>The rely condition\<close>

text \<open>
  The AP answers pending and running requests and leaves everything else alone: it never
  rewrites a request, and a slot that is empty or finished stays as it is.
\<close>

definition in_flight :: "u32 \<Rightarrow> bool" where
  "in_flight state \<longleftrightarrow> state = AP_REQUEST_STATUS_PENDING \<or> state = AP_REQUEST_STATUS_RUNNING"

definition slot_rely :: "ap_request_slot_t \<Rightarrow> ap_request_slot_t \<Rightarrow> bool" where
  "slot_rely s s' \<longleftrightarrow> (if in_flight (slot_state s)
     then slot_request s' = slot_request s \<and> (in_flight (slot_state s') \<or> ap_request_state_terminal (slot_state s'))
     else s' = s)"

definition history_of :: "kernel_state \<Rightarrow> nat \<Rightarrow> ap_request_history_entry_t list" where
  "history_of k c = ctx_request_history (ks_contexts k ! c)"

text \<open>It also keeps its hands off the contexts of the other APs and the summary of the broadcast ping.\<close>

definition others_same :: "nat \<Rightarrow> kernel_state \<Rightarrow> kernel_state \<Rightarrow> bool" where
  "others_same c k k' \<longleftrightarrow> (\<forall>d. d \<noteq> c \<longrightarrow> ks_contexts k' ! d = ks_contexts k ! d) \<and>
     ks_broadcast_ping_summary k' = ks_broadcast_ping_summary k"

definition ap_rely :: "nat \<Rightarrow> kernel_state \<Rightarrow> kernel_state \<Rightarrow> bool" where
  "ap_rely c k k' \<longleftrightarrow> ks_wf k' \<and> (\<forall>i < 4. slot_rely (ap_inbox_slot k c i) (ap_inbox_slot k' c i)) \<and>
     history_of k' c = history_of k c \<and> others_same c k k'"

lemma state_facts:
  "in_flight s \<Longrightarrow> \<not> ap_request_state_finished s"
  "ap_request_state_terminal s \<Longrightarrow> ap_request_state_finished s"
  "in_flight AP_REQUEST_STATUS_PENDING"
  "ap_request_state_finished AP_REQUEST_STATUS_SKIPPED" "ap_request_state_finished AP_REQUEST_STATUS_FAULT"
  "ap_request_state_finished AP_REQUEST_STATUS_TIMEOUT" "ap_request_state_finished AP_REQUEST_STATUS_DONE"
  by (auto simp: in_flight_def ap_request_state_finished_def ap_request_state_terminal_def c_const)

section \<open>Views of the history\<close>

lemma history_view [ks_view]:
  assumes "ks_wf k" "c < 8"
  shows "history_of (upd_boot c b k) d = history_of k d" "history_of (upd_slot c i s k) d = history_of k d"
    "history_of (upd_queue c q k) d = history_of k d"
  using ks_wf_lengths(1) [OF assms(1)] assms(2)
  by (auto simp: history_of_def upd_defs ks_view)

lemma history_outbox_view [ks_view]:
  "history_of (set_committed_outbox c i ob k) d = history_of k d"
  "history_of (set_service_outbox c ob k) d = history_of k d"
  by (simp_all add: history_of_def ks_view)

lemma bsp_notify_view [ks_view]:
  assumes "ks_wf k" "c < 8"
  shows "ks_wf (bsp_notify_ap_request_pending c k)"
    and "ap_inbox_slot (bsp_notify_ap_request_pending c k) d j = ap_inbox_slot k d j"
    and "history_of (bsp_notify_ap_request_pending c k) d = history_of k d"
proof -
  let ?ctx = "ks_contexts k ! c"
  have len: "c < length (ks_contexts k)" using ks_wf_lengths(1) [OF assms(1)] assms(2) by simp
  then have "context_wf ?ctx" using assms(1) by (auto simp: ks_wf_def)
  moreover obtain sent l boot where send: "lapic_send_ipi (enable_lapic_if_needed (ks_bsp_lapic k))
      (bi_target_apic_id (ctx_boot ?ctx)) AP_REQUEST_KICK_IPI_VECTOR (ctx_boot ?ctx) = (sent, l, boot)"
    by (metis prod_cases3)
  note defs = bsp_notify_ap_request_pending_def Let_def send
  ultimately show "ks_wf (bsp_notify_ap_request_pending c k)"
    using assms(1) unfolding ks_wf_def
    by (auto simp: defs context_wf_def dest!: set_update_subset_insert [THEN subsetD])
  show "ap_inbox_slot (bsp_notify_ap_request_pending c k) d j = ap_inbox_slot k d j"
    "history_of (bsp_notify_ap_request_pending c k) d = history_of k d"
    using len by (auto simp: defs ap_inbox_slot_def history_of_def nth_list_update)
qed

lemma reset_inbox_view [ks_view]:
  assumes "ks_wf k" "c < 8" "i < 4"
  shows "ks_wf (reset_ap_inbox_slot c i k)"
    and "ap_inbox_slot (reset_ap_inbox_slot c i k) d j = (if d = c \<and> j = i then zero_slot else ap_inbox_slot k d j)"
    and "history_of (reset_ap_inbox_slot c i k) d = history_of k d"
    and "boot_of (reset_ap_inbox_slot c i k) d = boot_of k d"
proof -
  let ?k = "upd_slot c i reset_ap_request_slot k"
  have wf: "ks_wf ?k" using assms by blast
  have "outbox_wf (reset_ap_request_outbox (ap_committed_outbox_for_slot ?k c i))"
    using outbox.wf_reset ks_wf_outboxes(2) [OF wf assms(2,3)] by blast
  then show "ks_wf (reset_ap_inbox_slot c i k)"
    using wf assms by (simp add: reset_ap_inbox_slot_def Let_def ks_wf_set_outbox)
  show "ap_inbox_slot (reset_ap_inbox_slot c i k) d j = (if d = c \<and> j = i then zero_slot else ap_inbox_slot k d j)"
    "history_of (reset_ap_inbox_slot c i k) d = history_of k d"
    "boot_of (reset_ap_inbox_slot c i k) d = boot_of k d"
    using assms by (simp_all add: reset_ap_inbox_slot_def Let_def ks_view reset_ap_request_slot_zero)
qed

text \<open>A published slot carries its plan and is in flight or already answered.\<close>

lemma publish_view:
  assumes wf: "ks_wf k" "c < 8" "i < 4"
  shows "ks_wf (publish_ap_inbox_request c i p kick k)"
    and "history_of (publish_ap_inbox_request c i p kick k) c = history_of k c"
    and "j \<noteq> i \<Longrightarrow> ap_inbox_slot (publish_ap_inbox_request c i p kick k) c j = ap_inbox_slot k c j"
    and "plan_of_slot (ap_inbox_slot (publish_ap_inbox_request c i p kick k) c i) = p"
    and "in_flight (slot_state (ap_inbox_slot (publish_ap_inbox_request c i p kick k) c i)) \<or>
      ap_request_state_finished (slot_state (ap_inbox_slot (publish_ap_inbox_request c i p kick k) c i))"
proof -
  define k1 where "k1 = upd_slot c i (\<lambda>s. prepare_ap_request_slot_from_plan s (ap_context_index c + 1) p)
    (reset_ap_inbox_slot c i k)"
  have wf1: "ks_wf k1" unfolding k1_def using wf by (simp add: ks_view ks_wf_upd)
  have slots: "ap_inbox_slot k1 c j = (if j = i
      then prepare_ap_request_slot_from_plan zero_slot (ap_context_index c + 1) p else ap_inbox_slot k c j)"
    "history_of k1 c = history_of k c" for j
    unfolding k1_def using wf by (simp_all add: ks_view)
  have plan: "plan_of_slot (s\<lparr>slot_state := x\<rparr>) = plan_of_slot s"
    "plan_of_slot (s\<lparr>slot_reply := r\<rparr>) = plan_of_slot s" for s x r
    by (simp_all add: plan_of_slot_def)
  note defs = publish_ap_inbox_request_def Let_def k1_def [symmetric]
  show "ks_wf (publish_ap_inbox_request c i p kick k)"
    using wf wf1 by (simp add: defs ks_view ks_wf_upd)
  show "history_of (publish_ap_inbox_request c i p kick k) c = history_of k c"
    using wf wf1 slots by (simp add: defs ks_view ks_wf_upd)
  show "ap_inbox_slot (publish_ap_inbox_request c i p kick k) c j = ap_inbox_slot k c j" if "j \<noteq> i"
    using wf wf1 slots that by (simp add: defs ks_view ks_wf_upd)
  show "plan_of_slot (ap_inbox_slot (publish_ap_inbox_request c i p kick k) c i) = p"
    using wf wf1 slots by (simp add: defs ks_view ks_wf_upd plan plan_of_prepared_slot)
  show "in_flight (slot_state (ap_inbox_slot (publish_ap_inbox_request c i p kick k) c i)) \<or>
      ap_request_state_finished (slot_state (ap_inbox_slot (publish_ap_inbox_request c i p kick k) c i))"
    using wf wf1 slots by (simp add: defs ks_view ks_wf_upd state_facts)
qed

section \<open>The invariant\<close>

definition active_slots :: "stream_state \<Rightarrow> nat set" where
  "active_slots st = {i. i < 4 \<and> st_active st ! i}"

definition recorded_plans :: "nat \<Rightarrow> stream_state \<Rightarrow> ap_request_plan_t multiset" where
  "recorded_plans c st = mset (map (\<lambda>h. plan_of_slot (hi_request h))
     (take (st_completed_count st) (history_of (st_kernel st) c)))"

definition active_plans :: "nat \<Rightarrow> stream_state \<Rightarrow> ap_request_plan_t multiset" where
  "active_plans c st = image_mset (\<lambda>i. plan_of_slot (stream_slot st c i)) (mset_set (active_slots st))"

text \<open>Some recorded request did not end well.\<close>

definition recorded_failure :: "nat \<Rightarrow> stream_state \<Rightarrow> bool" where
  "recorded_failure c st \<longleftrightarrow> (\<exists>h \<in> set (take (st_completed_count st) (history_of (st_kernel st) c)).
     slot_state (hi_request h) \<noteq> AP_REQUEST_STATUS_DONE)"

definition stream_inv :: "nat \<Rightarrow> ap_request_plan_t list \<Rightarrow> stream_state \<Rightarrow> bool" where
  "stream_inv c plan st \<longleftrightarrow> ks_wf (st_kernel st) \<and> length (st_active st) = 4 \<and>
     st_next_plan st \<le> length plan \<and>
     st_completed_count st + card (active_slots st) = st_next_plan st \<and>
     recorded_plans c st + active_plans c st = mset (take (st_next_plan st) plan) \<and>
     (\<forall>i < 4. if i \<in> active_slots st
        then in_flight (slot_state (stream_slot st c i)) \<or> ap_request_state_finished (slot_state (stream_slot st c i))
        else \<not> in_flight (slot_state (stream_slot st c i))) \<and>
     (\<forall>i < 4. length plan \<le> i \<longrightarrow> i \<notin> active_slots st \<and> slot_state (stream_slot st c i) = AP_REQUEST_STATUS_EMPTY) \<and>
     (recorded_failure c st \<longrightarrow>
       (\<exists>i < 4. i \<notin> active_slots st \<and> slot_state (stream_slot st c i) \<noteq> AP_REQUEST_STATUS_DONE))"

lemma finite_active [simp]: "finite (active_slots st)"
  by (simp add: active_slots_def)

lemma active_slot_count_eq:
  "active_ap_request_slot_count (st_active st) 4 = card (active_slots st)"
proof -
  have "set (filter (\<lambda>i. st_active st ! i) [0..<4]) = active_slots st" by (auto simp: active_slots_def)
  then show ?thesis
    unfolding active_ap_request_slot_count_def by (metis distinct_card distinct_filter distinct_upt)
qed

text \<open>
  A change of the kernel state that keeps what the invariant looks at: the requests of active
  slots, the history, and whether slots are in flight or finished.
\<close>

definition keeps_slot :: "bool \<Rightarrow> ap_request_slot_t \<Rightarrow> ap_request_slot_t \<Rightarrow> bool" where
  "keeps_slot active s s' \<longleftrightarrow> (if active
     then slot_request s' = slot_request s \<and>
       (in_flight (slot_state s) \<or> ap_request_state_finished (slot_state s) \<longrightarrow>
        in_flight (slot_state s') \<or> ap_request_state_finished (slot_state s'))
     else s' = s)"

lemma stream_inv_keeps:
  assumes inv: "stream_inv c plan st" and wf: "ks_wf k'" and h: "history_of k' c = history_of (st_kernel st) c"
    and slots: "\<And>i. i < 4 \<Longrightarrow> keeps_slot (i \<in> active_slots st) (stream_slot st c i) (ap_inbox_slot k' c i)"
  shows "stream_inv c plan (st\<lparr>st_kernel := k'\<rparr>)"
proof -
  let ?st = "st\<lparr>st_kernel := k'\<rparr>"
  have act: "active_slots ?st = active_slots st" by (simp add: active_slots_def)
  have "plan_of_slot (ap_inbox_slot k' c i) = plan_of_slot (stream_slot st c i)" if "i \<in> active_slots st" for i
    using slots [of i] that by (simp add: keeps_slot_def plan_of_slot_def active_slots_def)
  then have "active_plans c ?st = active_plans c st"
    unfolding active_plans_def act by (intro image_mset_cong) simp
  moreover have "recorded_plans c ?st = recorded_plans c st" "recorded_failure c ?st = recorded_failure c st"
    by (simp_all add: recorded_plans_def recorded_failure_def h)
  moreover have "\<forall>i < 4. if i \<in> active_slots st
        then in_flight (slot_state (ap_inbox_slot k' c i)) \<or> ap_request_state_finished (slot_state (ap_inbox_slot k' c i))
        else \<not> in_flight (slot_state (ap_inbox_slot k' c i))"
    using slots inv by (auto simp: keeps_slot_def stream_inv_def split: if_splits)
  moreover have "ap_inbox_slot k' c i = stream_slot st c i" if "i < 4" "i \<notin> active_slots st" for i
    using slots [OF that(1)] that(2) by (simp add: keeps_slot_def)
  ultimately show ?thesis
    using inv wf unfolding stream_inv_def act by auto
qed

lemma stream_inv_ignores:
  "stream_inv c plan (st\<lparr>st_time := t\<rparr>) = stream_inv c plan st"
  "stream_inv c plan (st\<lparr>st_wait_loops := w\<rparr>) = stream_inv c plan st"
  "stream_inv c plan (st\<lparr>st_stopped := b\<rparr>) = stream_inv c plan st"
  "stream_inv c plan (st\<lparr>st_counter_base := n\<rparr>) = stream_inv c plan st"
  by (simp_all add: stream_inv_def active_slots_def recorded_plans_def recorded_failure_def active_plans_def)

section \<open>The steps keep the invariant\<close>

lemma record_history_view:
  assumes "ks_wf k" "c < 8" "n < 8"
  shows "ks_wf (record_ap_request_history c n i s v k)"
    and "ap_inbox_slot (record_ap_request_history c n i s v k) d j = ap_inbox_slot k d j"
    and "history_of (record_ap_request_history c n i s v k) c =
      (history_of k c)[n := (history_of k c ! n)\<lparr>hi_request := s, hi_counter_value := v,
         hi_slot := word_of_nat (i + 1), hi_valid := 1\<rparr>]"
    and "boot_of (record_ap_request_history c n i s v k) d = boot_of k d"
  using assms ks_wf_lengths(1) [OF assms(1)] unfolding record_ap_request_history_def
  by (auto intro!: ks_wf_upd_ctx simp: context_wf_def ap_inbox_slot_def history_of_def boot_of_def ks_view
      copy_ap_request_slot_eq AP_REQUEST_HISTORY_COUNT_def)

lemma finish_inactive:
  "\<not> st_active st ! i \<or> \<not> ap_request_state_finished (slot_state (stream_slot st c i)) \<Longrightarrow>
   finish_ap_stream_slot c i w st = (False, st)"
  by (simp add: finish_ap_stream_slot_def Let_def)

lemma finish_inv:
  assumes inv: "stream_inv c plan st" and c: "c < 8" and i: "i < 4" "st_active st ! i"
    and fin: "ap_request_state_finished (slot_state (stream_slot st c i))" and short: "length plan \<le> 8"
  obtains ok st' where "finish_ap_stream_slot c i w st = (ok, st')"
    "ok \<longleftrightarrow> slot_state (stream_slot st c i) = AP_REQUEST_STATUS_DONE"
    "stream_inv c plan st'" "active_slots st' = active_slots st - {i}" "\<not> st_active st' ! i"
    "st_next_plan st' = st_next_plan st" "st_wait_loops st' = st_wait_loops st" "st_stopped st' = st_stopped st"
    "st_completed_count st' = Suc (st_completed_count st)" "length (st_active st') = 4"
    "\<And>j. j \<noteq> i \<Longrightarrow> stream_slot st' c j = stream_slot st c j"
    "slot_state (stream_slot st' c i) = slot_state (stream_slot st c i)"
    "recorded_failure c st' \<longleftrightarrow> recorded_failure c st \<or> \<not> ok"
proof -
  let ?n = "st_completed_count st" and ?A = "active_slots st"
  let ?s = "(stream_slot st c i)\<lparr>slot_metrics := (slot_metrics (stream_slot st c i))\<lparr>mt_wait_loops := w\<rparr>\<rparr>"
  have wf: "ks_wf (st_kernel st)" and len: "length (st_active st) = 4"
    and count: "?n + card ?A = st_next_plan st" and le: "st_next_plan st \<le> length plan"
    using inv by (simp_all add: stream_inv_def)
  have iA: "i \<in> ?A" using i by (simp add: active_slots_def)
  then have card: "card ?A = Suc (card (?A - {i}))" by (rule card.remove [OF finite_active])
  then have n8: "?n < 8" using count le short by simp
  define k1 where "k1 = upd_slot c i (\<lambda>s. s\<lparr>slot_metrics := (slot_metrics s)\<lparr>mt_wait_loops := w\<rparr>\<rparr>) (st_kernel st)"
  have wf1: "ks_wf k1" unfolding k1_def using wf c by blast
  have slots1: "ap_inbox_slot k1 c j = (if j = i then ?s else stream_slot st c j)"
    "history_of k1 c = history_of (st_kernel st) c" for j
    unfolding k1_def using wf c i by (simp_all add: ks_view)
  obtain v where v: "record_ap_stream_slot c ?n i (st\<lparr>st_kernel := k1\<rparr>) = st\<lparr>st_counter_base := v,
      st_kernel := record_ap_request_history c ?n i ?s v k1\<rparr>"
    by (simp add: record_ap_stream_slot_def Let_def slots1)
  let ?k2 = "record_ap_request_history c ?n i ?s v k1"
  let ?st' = "st\<lparr>st_counter_base := v, st_kernel := ?k2, st_active := (st_active st)[i := False],
      st_completed_count := Suc ?n\<rparr>"
  note rec = record_history_view [OF wf1 c n8, of i ?s v]
  have run: "finish_ap_stream_slot c i w st = (slot_state (stream_slot st c i) = AP_REQUEST_STATUS_DONE, ?st')"
    using i(2) fin v by (simp add: finish_ap_stream_slot_def Let_def k1_def [symmetric])
  have act: "active_slots ?st' = ?A - {i}"
    using len i(1) by (auto simp: active_slots_def nth_list_update split: if_splits)
  have hlen: "length (history_of (st_kernel st) c) = 8"
    using ks_wf_lengths(6) [OF wf c] by (simp add: history_of_def)
  have "take (Suc ?n) (history_of ?k2 c) = take ?n (history_of (st_kernel st) c) @ [history_of ?k2 c ! ?n]"
    using n8 hlen by (simp add: rec(3) slots1(2) take_Suc_conv_app_nth)
  then have "recorded_plans c ?st' = recorded_plans c st + {#plan_of_slot (stream_slot st c i)#}"
    and failure: "recorded_failure c ?st' \<longleftrightarrow>
      recorded_failure c st \<or> slot_state (stream_slot st c i) \<noteq> AP_REQUEST_STATUS_DONE"
    using n8 hlen by (auto simp: recorded_plans_def recorded_failure_def rec(3) slots1(2) plan_of_slot_def)
  moreover have "active_plans c ?st' = image_mset (\<lambda>j. plan_of_slot (stream_slot st c j)) (mset_set (?A - {i}))"
    unfolding active_plans_def act by (intro image_mset_cong) (simp add: rec(2) slots1)
  moreover have "active_plans c st = {#plan_of_slot (stream_slot st c i)#} +
      image_mset (\<lambda>j. plan_of_slot (stream_slot st c j)) (mset_set (?A - {i}))"
    unfolding active_plans_def using mset_set.remove [OF finite_active iA] by simp
  ultimately have "recorded_plans c ?st' + active_plans c ?st' = mset (take (st_next_plan st) plan)"
    using inv by (simp add: stream_inv_def)
  moreover have "\<forall>j < 4. if j \<in> active_slots ?st'
      then in_flight (slot_state (ap_inbox_slot ?k2 c j)) \<or> ap_request_state_finished (slot_state (ap_inbox_slot ?k2 c j))
      else \<not> in_flight (slot_state (ap_inbox_slot ?k2 c j))"
    using inv fin unfolding act by (auto simp: rec(2) slots1 stream_inv_def dest: state_facts(1))
  moreover have "\<forall>j < 4. length plan \<le> j \<longrightarrow> j \<notin> active_slots ?st' \<and>
      slot_state (ap_inbox_slot ?k2 c j) = AP_REQUEST_STATUS_EMPTY"
    using inv unfolding act by (auto simp: rec(2) slots1 stream_inv_def)
  moreover have "recorded_failure c ?st' \<longrightarrow>
      (\<exists>j < 4. j \<notin> active_slots ?st' \<and> slot_state (ap_inbox_slot ?k2 c j) \<noteq> AP_REQUEST_STATUS_DONE)"
    using inv i(1) iA unfolding act failure by (auto simp: rec(2) slots1 stream_inv_def)
  ultimately have "stream_inv c plan ?st'"
    using rec(1) len count card le by (simp add: stream_inv_def act)
  then show thesis
    using that [OF run] len i failure by (simp add: act rec(2) slots1)
qed


lemma publish_inv:
  assumes inv: "stream_inv c plan st" and c: "c < 8" and i: "i < 4" "i \<notin> active_slots st" "i < length plan"
    and more: "st_next_plan st < length plan" and fine: "\<not> recorded_failure c st"
  shows "stream_inv c plan (stream_publish_next c plan i st)"
    and "active_slots (stream_publish_next c plan i st) = insert i (active_slots st)"
    and "st_next_plan (stream_publish_next c plan i st) = Suc (st_next_plan st)"
    and "st_wait_loops (stream_publish_next c plan i st) = st_wait_loops st"
    and "st_stopped (stream_publish_next c plan i st) = st_stopped st"
    and "\<not> recorded_failure c (stream_publish_next c plan i st)"
proof -
  let ?A = "active_slots st" and ?p = "plan ! st_next_plan st" and ?st' = "stream_publish_next c plan i st"
  have wf: "ks_wf (st_kernel st)" and len: "length (st_active st) = 4"
    and count: "st_completed_count st + card ?A = st_next_plan st" using inv by (simp_all add: stream_inv_def)
  note pub = publish_view [OF wf c i(1), where p = ?p and kick = True]
  note st' = stream_publish_next_def publish_ap_stream_slot_def
  have slots: "stream_slot ?st' c j = (if j = i then ap_inbox_slot (publish_ap_inbox_request c i ?p True (st_kernel st)) c i
      else stream_slot st c j)" for j
    using pub(3) [of j] by (simp add: st')
  show act: "active_slots ?st' = insert i ?A"
    using len i(1) by (auto simp: st' active_slots_def nth_list_update split: if_splits)
  have "mset_set (insert i ?A) = add_mset i (mset_set ?A)" by (rule mset_set.insert) (use i in auto)
  moreover have "image_mset (\<lambda>j. plan_of_slot (stream_slot ?st' c j)) (mset_set ?A) = active_plans c st"
    unfolding active_plans_def using i(2)
    by (intro image_mset_cong arg_cong [where f = plan_of_slot]) (auto simp: slots)
  ultimately have "active_plans c ?st' = add_mset ?p (active_plans c st)"
    unfolding active_plans_def act by (simp add: active_plans_def) (simp add: st' pub(4))
  moreover have "recorded_plans c ?st' = recorded_plans c st"
    by (simp add: recorded_plans_def st' pub(2))
  moreover show failure: "\<not> recorded_failure c ?st'"
    using fine by (simp add: recorded_failure_def st' pub(2))
  moreover have "mset (take (Suc (st_next_plan st)) plan) = add_mset ?p (mset (take (st_next_plan st) plan))"
    using more by (simp add: take_Suc_conv_app_nth)
  moreover have "\<forall>j < 4. if j \<in> insert i ?A
      then in_flight (slot_state (stream_slot ?st' c j)) \<or> ap_request_state_finished (slot_state (stream_slot ?st' c j))
      else \<not> in_flight (slot_state (stream_slot ?st' c j))"
    using inv pub(5) by (auto simp: slots stream_inv_def)
  moreover have "\<forall>j < 4. length plan \<le> j \<longrightarrow> j \<notin> insert i ?A \<and>
      slot_state (stream_slot ?st' c j) = AP_REQUEST_STATUS_EMPTY"
    using inv i(3) by (auto simp: slots stream_inv_def)
  moreover have "ks_wf (st_kernel ?st')" "length (st_active ?st') = 4" "st_next_plan ?st' = Suc (st_next_plan st)"
    "st_completed_count ?st' = st_completed_count st"
    using pub(1) len by (simp_all add: st')
  ultimately show "stream_inv c plan ?st'"
    using inv more count i(2) unfolding stream_inv_def act by simp
  show "st_next_plan ?st' = Suc (st_next_plan st)" "st_wait_loops ?st' = st_wait_loops st"
    "st_stopped ?st' = st_stopped st"
    by (simp_all add: st')
qed

section \<open>Steps of the stream\<close>

text \<open>
  What a piece of the loop may do. A failure that has been recorded stops the stream, and a
  stopped stream only shrinks: no slot is published, and a slot that has finished stays as it is
  until it is recorded.
\<close>

definition finished_slots :: "nat \<Rightarrow> stream_state \<Rightarrow> nat set" where
  "finished_slots c st = {i \<in> active_slots st. ap_request_state_finished (slot_state (stream_slot st c i))}"

definition stream_ok :: "nat \<Rightarrow> ap_request_plan_t list \<Rightarrow> stream_state \<Rightarrow> bool" where
  "stream_ok c plan st \<longleftrightarrow> stream_inv c plan st \<and> (recorded_failure c st \<longrightarrow> st_stopped st)"

definition stream_step :: "nat \<Rightarrow> ap_request_plan_t list \<Rightarrow> stream_state \<Rightarrow> stream_state \<Rightarrow> bool" where
  "stream_step c plan st st' \<longleftrightarrow> stream_ok c plan st' \<and> st_wait_loops st' = st_wait_loops st \<and>
     (st_stopped st \<longrightarrow> st_stopped st' \<and> active_slots st' \<subseteq> active_slots st \<and>
       (\<forall>i \<in> finished_slots c st \<inter> active_slots st'. stream_slot st' c i = stream_slot st c i))"

lemma stream_step_refl: "stream_ok c plan st \<Longrightarrow> stream_step c plan st st"
  by (simp add: stream_step_def)

lemma stream_step_trans [trans]:
  assumes "stream_step c plan st st'" "stream_step c plan st' st''"
  shows "stream_step c plan st st''"
  using assms unfolding stream_step_def finished_slots_def by (auto simp: subset_iff)

lemma stream_step_ok: "stream_step c plan st st' \<Longrightarrow> stream_ok c plan st'"
  by (simp add: stream_step_def)

lemma stream_step_fold:
  assumes "\<And>i st. i \<in> set is \<Longrightarrow> stream_ok c plan st \<Longrightarrow> stream_step c plan st (f i st)" "stream_ok c plan st"
  shows "stream_step c plan st (fold f is st)"
  using assms
proof (induction "is" arbitrary: st)
  case Nil
  then show ?case by (simp add: stream_step_refl)
next
  case (Cons i "is")
  have step: "stream_step c plan st (f i st)" using Cons.prems by simp
  also have "stream_step c plan (f i st) (fold f is (f i st))"
    using Cons.IH Cons.prems(1) stream_step_ok [OF step] by simp
  finally show ?case by simp
qed

lemma finished_mono:
  assumes "stream_step c plan st st'" "st_stopped st" "active_slots st' = active_slots st"
  shows "finished_slots c st \<subseteq> finished_slots c st'"
  using assms unfolding stream_step_def finished_slots_def by fastforce

lemma stop_slot_step:
  assumes ok: "stream_ok c plan st" and c: "c < 8" and i: "i < 4"
  shows "stream_step c plan st (stop_ap_stream_slot c i st)"
proof (cases "\<not> st_active st ! i \<or> ap_request_state_finished (slot_state (stream_slot st c i))")
  case True
  then show ?thesis using stream_step_refl [OF ok] by (auto simp: stop_ap_stream_slot_def Let_def)
next
  case False
  have inv: "stream_inv c plan st" and wf: "ks_wf (st_kernel st)"
    using ok by (simp_all add: stream_ok_def stream_inv_def)
  have iA: "i \<in> active_slots st" using False i by (simp add: active_slots_def)
  then have fl: "in_flight (slot_state (stream_slot st c i))" using inv False i by (auto simp: stream_inv_def)
  define f :: "ap_request_slot_t \<Rightarrow> ap_request_slot_t" where
    "f = (\<lambda>s. let s = s\<lparr>slot_metrics := (slot_metrics s)\<lparr>mt_wait_loops := st_wait_loops st\<rparr>\<rparr> in
      if bi_ap_state (boot_of (st_kernel st) c) = AP_BOOT_STATE_FAULTED \<and>
         slot_state (stream_slot st c i) = AP_REQUEST_STATUS_RUNNING
      then s\<lparr>slot_reply := (slot_reply s)\<lparr>rp_fault_code := ucast (bi_fault_vector (boot_of (st_kernel st) c))\<rparr>,
             slot_state := AP_REQUEST_STATUS_FAULT\<rparr>
      else if slot_state (stream_slot st c i) = AP_REQUEST_STATUS_PENDING
      then s\<lparr>slot_state := AP_REQUEST_STATUS_SKIPPED\<rparr> else s)"
  have eq: "stop_ap_stream_slot c i st = st\<lparr>st_kernel := upd_slot c i f (st_kernel st)\<rparr>"
    using False by (simp add: stop_ap_stream_slot_def Let_def f_def)
  have f: "slot_request (f (stream_slot st c i)) = slot_request (stream_slot st c i)"
    "in_flight (slot_state (f (stream_slot st c i))) \<or> ap_request_state_finished (slot_state (f (stream_slot st c i)))"
    using fl by (simp_all add: f_def Let_def state_facts)
  have slots: "ap_inbox_slot (upd_slot c i f (st_kernel st)) c j =
      (if j = i then f (stream_slot st c i) else stream_slot st c j)" for j
    using wf c i by (simp add: ks_view)
  have "stream_inv c plan (st\<lparr>st_kernel := upd_slot c i f (st_kernel st)\<rparr>)"
    using inv wf c i f iA
    by (intro stream_inv_keeps) (auto simp: ks_view slots keeps_slot_def)
  then show ?thesis
    using ok wf c False i
    by (auto simp: stream_step_def stream_ok_def eq recorded_failure_def ks_view slots finished_slots_def
        active_slots_def)
qed

end
