(* ===== verification/Ap_Stream_Run.thy ===== *)
theory Ap_Stream_Run
  imports Ap_Stream_Inv
begin

text \<open>
  The request stream runs to its end: the interface the BSP assumes of the AP as a locale, the
  loop under it, and the accounting of the requests of a plan.
\<close>

section \<open>Time\<close>

lemma advance_bounds:
  assumes "w < AP_REQUEST_TIMEOUT_LOOPS cfg" "n \<noteq> 0"
  shows "unat (AP_REQUEST_TIMEOUT_LOOPS cfg) - unat (advance_ap_request_wait_loops cfg w n) <
      unat (AP_REQUEST_TIMEOUT_LOOPS cfg) - unat w"
    and "advance_ap_request_wait_loops cfg w n \<le> AP_REQUEST_TIMEOUT_LOOPS cfg"
proof -
  let ?T = "AP_REQUEST_TIMEOUT_LOOPS cfg"
  have w: "unat w < unat ?T" using assms(1) by (simp add: word_less_nat_alt)
  have n: "0 < unat n" using assms(2) by (simp add: unat_gt_0)
  have sub: "unat (?T - w) = unat ?T - unat w" using assms(1) by (intro unat_sub) simp
  have "unat (w + n) = unat w + unat n \<and> unat w + unat n < unat ?T" if "unat n < unat (?T - w)"
  proof -
    have "unat w + unat n < unat ?T" using that w sub by simp
    moreover have "unat ?T < 2 ^ 32" using unat_bound_len [of ?T] by simp
    ultimately show ?thesis by (simp add: unat_word_ariths)
  qed
  then show "unat ?T - unat (advance_ap_request_wait_loops cfg w n) < unat ?T - unat w"
    "advance_ap_request_wait_loops cfg w n \<le> ?T"
    using w n by (auto simp: advance_ap_request_wait_loops_def not_le word_le_nat_alt)
qed

text \<open>The four ways an iteration ends after its pass.\<close>

lemma has_finished_slot_iff:
  "ap_request_stream_has_finished_slot c 4 st \<longleftrightarrow> finished_slots c st \<noteq> {}"
  by (auto simp: ap_request_stream_has_finished_slot_def finished_slots_def active_slots_def list_ex_iff)

lemma stream_iteration_cases:
  assumes it: "stream_iteration cfg env c plan 4 st = (stop, st')"
  obtains "stop" "st' = stream_pass cfg env c plan 4 st"
    | "\<not> stop" "st' = stream_pass cfg env c plan 4 st" "st_stopped (stream_pass cfg env c plan 4 st)"
      "finished_slots c (stream_pass cfg env c plan 4 st) \<noteq> {}"
    | "\<not> stop" "st_wait_loops (stream_pass cfg env c plan 4 st) < AP_REQUEST_TIMEOUT_LOOPS cfg"
      "st' = ap_tick env ((stream_pass cfg env c plan 4 st)\<lparr>st_wait_loops :=
         advance_ap_request_wait_loops cfg (st_wait_loops (stream_pass cfg env c plan 4 st)) 1\<rparr>)"
    | n k' where "\<not> stop" "st_wait_loops (stream_pass cfg env c plan 4 st) < AP_REQUEST_TIMEOUT_LOOPS cfg"
      "bsp_wait_for_ap_request_event cfg env (st_time (stream_pass cfg env c plan 4 st))
         (st_kernel (stream_pass cfg env c plan 4 st)) = (n, k')"
      "st' = (stream_pass cfg env c plan 4 st)\<lparr>st_kernel := k',
         st_time := Suc (st_time (stream_pass cfg env c plan 4 st)), st_wait_loops :=
         advance_ap_request_wait_loops cfg (st_wait_loops (stream_pass cfg env c plan 4 st)) n\<rparr>"
proof -
  define s where "s = stream_pass cfg env c plan 4 st"
  note it' = it [unfolded stream_iteration_def Let_def s_def [symmetric] has_finished_slot_iff]
  note cases = that [folded s_def]
  obtain n k' where wait: "bsp_wait_for_ap_request_event cfg env (st_time s) (st_kernel s) = (n, k')" by force
  show thesis
  proof (cases "(length plan \<le> st_next_plan s \<or> st_stopped s) \<and> active_ap_request_slot_count (st_active s) 4 = 0")
    case True
    then show ?thesis using it' cases(1) by simp
  next
    case run: False
    show ?thesis
    proof (cases "st_wait_loops s < AP_REQUEST_TIMEOUT_LOOPS cfg")
      case True
      then have nle: "\<not> AP_REQUEST_TIMEOUT_LOOPS cfg \<le> st_wait_loops s" by (simp add: not_le)
      consider "st_stopped s" "finished_slots c s \<noteq> {}" | "st_stopped s" "finished_slots c s = {}" | "\<not> st_stopped s"
        by blast
      then show ?thesis
      proof cases
        case 1
        then show ?thesis using it' run cases(2) by simp
      next
        case 2
        then show ?thesis using it' run nle cases(3) [OF _ True] by simp
      next
        case 3
        then show ?thesis using it' run nle wait cases(4) [OF _ True wait] by (auto split: if_splits)
      qed
    next
      case False
      then show ?thesis
        using it' run cases(1,2)
        by (cases "st_stopped s"; cases "finished_slots c s = {}") (auto simp: not_less split: if_splits)
    qed
  qed
qed

lemma time_out_in_flight:
  "in_flight (slot_state s) \<Longrightarrow> slot_request (time_out_slot cfg s) = slot_request s \<and>
     ap_request_state_finished (slot_state (time_out_slot cfg s))"
  by (cases "slot_state s = AP_REQUEST_STATUS_PENDING")
    (auto simp: time_out_slot_def in_flight_def Let_def state_facts)

lemma stream_ok_local:
  assumes ok: "stream_ok c plan st"
  shows "stream_ok c plan (st\<lparr>st_kernel := (st_kernel st)\<lparr>ks_bsp_lapic := l, ks_bsp_wait_observe := w\<rparr>\<rparr>)"
proof -
  have "stream_inv c plan st" "ks_wf (st_kernel st)" using ok by (simp_all add: stream_ok_def stream_inv_def)
  then have "stream_inv c plan (st\<lparr>st_kernel := (st_kernel st)\<lparr>ks_bsp_lapic := l, ks_bsp_wait_observe := w\<rparr>\<rparr>)"
    by (intro stream_inv_keeps) (auto simp: ks_wf_def history_of_def ap_inbox_slot_def keeps_slot_def)
  then show ?thesis using ok by (simp add: stream_ok_def recorded_failure_def history_of_def)
qed

lemma stream_ok_lapic:
  "stream_ok c plan st \<Longrightarrow> stream_ok c plan (st\<lparr>st_kernel := (st_kernel st)\<lparr>ks_bsp_lapic := l\<rparr>\<rparr>)"
  using stream_ok_local [where st = st and l = l and w = "ks_bsp_wait_observe (st_kernel st)"] by simp

lemma stream_ok_time: "stream_ok c plan (st\<lparr>st_time := t\<rparr>) = stream_ok c plan st"
  by (simp add: stream_ok_def stream_inv_ignores recorded_failure_def)

lemma stream_ok_waited: "stream_ok c plan st \<Longrightarrow> stream_ok c plan (st\<lparr>st_wait_loops := w\<rparr>)"
  by (simp add: stream_ok_def stream_inv_ignores recorded_failure_def)

section \<open>The interface of the AP\<close>

locale ap_environment =
  fixes env :: environment and c :: nat
  assumes target: "c < MAX_AP_CONTEXTS"
    and rely: "ks_wf k \<Longrightarrow> ap_rely c k (env t k)"
begin

lemma c8: "c < 8"
  using target by (simp add: c_const)

lemma tick_step:
  assumes ok: "stream_ok c plan st"
  shows "stream_step c plan st (ap_tick env st)" "st_stopped (ap_tick env st) = st_stopped st"
    "active_slots (ap_tick env st) = active_slots st" "st_active (ap_tick env st) = st_active st"
proof -
  let ?k = "env (st_time st) (st_kernel st)"
  have inv: "stream_inv c plan st" and wf: "ks_wf (st_kernel st)"
    using ok by (simp_all add: stream_ok_def stream_inv_def)
  note r = rely [OF wf, of "st_time st", unfolded ap_rely_def]
  have "keeps_slot (i \<in> active_slots st) (stream_slot st c i) (ap_inbox_slot ?k c i)" if "i < 4" for i
    using r inv that by (fastforce simp: slot_rely_def keeps_slot_def stream_inv_def state_facts split: if_splits)
  with inv r have "stream_inv c plan (st\<lparr>st_kernel := ?k\<rparr>)" by (intro stream_inv_keeps) auto
  moreover have "stream_inv c plan (ap_tick env st) = stream_inv c plan (st\<lparr>st_kernel := ?k\<rparr>)"
    unfolding ap_tick_def by (subst stream_inv_ignores(1) [symmetric]) simp
  ultimately have inv': "stream_inv c plan (ap_tick env st)" by simp
  have same: "ap_inbox_slot ?k c i = stream_slot st c i" if "i \<in> finished_slots c st" for i
  proof -
    have "i < 4" "\<not> in_flight (slot_state (stream_slot st c i))"
      using that by (auto simp: finished_slots_def active_slots_def dest: state_facts(1))
    then show ?thesis using r by (auto simp: slot_rely_def)
  qed
  show "stream_step c plan st (ap_tick env st)"
    using ok inv' r same
    by (auto simp: stream_step_def stream_ok_def ap_tick_def active_slots_def recorded_failure_def)
  show "st_stopped (ap_tick env st) = st_stopped st" "st_active (ap_tick env st) = st_active st"
    "active_slots (ap_tick env st) = active_slots st"
    by (simp_all add: ap_tick_def active_slots_def)
qed

lemma set_stopped_step:
  "stream_ok c plan st \<Longrightarrow> stream_step c plan st (st\<lparr>st_stopped := True\<rparr>)"
  by (simp add: stream_step_def stream_ok_def stream_inv_ignores active_slots_def)

lemma stop_step: "stream_ok c plan st \<Longrightarrow> stream_step c plan st (stop_ap_request_stream c 4 st)"
  unfolding stop_ap_request_stream_def by (rule stream_step_fold) (auto intro: stop_slot_step c8)

text \<open>A visit that passes over its slot.\<close>

lemma visit_skips:
  assumes "i < 4" and "i \<notin> finished_slots c (ap_tick env st) \<or> ap_stream_has_earlier_finished_slot c 4 i (ap_tick env st)"
  shows "stream_visit cfg env c plan 4 i st = ap_tick env st"
proof (cases "i \<in> finished_slots c (ap_tick env st)")
  case True
  with assms show ?thesis by (auto simp: stream_visit_def Let_def finished_slots_def active_slots_def)
next
  case False
  then have "\<not> st_active (ap_tick env st) ! i \<or>
      \<not> ap_request_state_finished (slot_state (stream_slot (ap_tick env st) c i))"
    using assms(1) by (auto simp: finished_slots_def active_slots_def)
  then show ?thesis by (auto simp: stream_visit_def Let_def finish_inactive)
qed

text \<open>A slot that has just been recorded is refilled, or the stream stops.\<close>

lemma refill_step:
  assumes ok: "stream_ok c plan st" and i: "i < 4" "i \<notin> active_slots st" "i < length plan"
    and v: "v = (if done' \<and> \<not> st_stopped st \<and> st_wait_loops st < T \<and> st_next_plan st < length plan
      then (if ap_request_stream_should_stop (st_kernel st) c then st\<lparr>st_stopped := True\<rparr>
            else stream_publish_next c plan i st) else st)"
  shows "stream_step c plan st v" "st_stopped st \<Longrightarrow> v = st"
proof -
  have "stream_step c plan st (stream_publish_next c plan i st)" if "\<not> st_stopped st" "st_next_plan st < length plan"
  proof -
    have "stream_inv c plan st" "\<not> recorded_failure c st" using ok that(1) by (auto simp: stream_ok_def)
    from publish_inv [OF this(1) c8 i that(2) this(2)] that(1)
    show ?thesis by (simp add: stream_step_def stream_ok_def)
  qed
  moreover have "stream_step c plan st (st\<lparr>st_stopped := True\<rparr>)" by (rule set_stopped_step [OF ok])
  ultimately show "stream_step c plan st v" unfolding v using stream_step_refl [OF ok] by (auto split: if_splits)
  show "st_stopped st \<Longrightarrow> v = st" unfolding v by simp
qed

text \<open>A visit that records its slot.\<close>

lemma visit_finishes:
  assumes ok: "stream_ok c plan (ap_tick env st)" and i: "i < 4" and short: "length plan \<le> 8"
    and fin: "i \<in> finished_slots c (ap_tick env st)"
    and first: "\<not> ap_stream_has_earlier_finished_slot c 4 i (ap_tick env st)"
  shows "stream_step c plan (ap_tick env st) (stream_visit cfg env c plan 4 i st)"
    and "st_stopped (ap_tick env st) \<Longrightarrow> i \<notin> active_slots (stream_visit cfg env c plan 4 i st)"
proof -
  let ?st = "ap_tick env st" and ?v = "stream_visit cfg env c plan 4 i st"
  have inv: "stream_inv c plan ?st" and fail: "recorded_failure c ?st \<longrightarrow> st_stopped ?st"
    using ok by (simp_all add: stream_ok_def)
  have a: "st_active ?st ! i" "i \<in> active_slots ?st" "ap_request_state_finished (slot_state (stream_slot ?st c i))"
    using fin by (auto simp: finished_slots_def active_slots_def)
  obtain done' st2 where f: "finish_ap_stream_slot c i (st_wait_loops ?st) ?st = (done', st2)"
    "stream_inv c plan st2" "active_slots st2 = active_slots ?st - {i}" "\<not> st_active st2 ! i"
    "st_wait_loops st2 = st_wait_loops ?st" "st_stopped st2 = st_stopped ?st"
    "\<And>j. j \<noteq> i \<Longrightarrow> stream_slot st2 c j = stream_slot ?st c j"
    "recorded_failure c st2 \<longleftrightarrow> recorded_failure c ?st \<or> \<not> done'"
    using finish_inv [OF inv c8 i a(1,3) short] by metis
  define st3 where "st3 = (if \<not> done' then st2\<lparr>st_stopped := True\<rparr> else st2)"
  have act3: "active_slots st3 = active_slots ?st - {i}" "stream_slot st3 c j = stream_slot st2 c j"
    "recorded_failure c st3 = recorded_failure c st2" "st_wait_loops st3 = st_wait_loops ?st" for j
    using f by (simp_all add: st3_def active_slots_def recorded_failure_def)
  have step3: "stream_step c plan ?st st3"
    using f act3 fail
    by (auto simp: stream_step_def stream_ok_def st3_def stream_inv_ignores finished_slots_def recorded_failure_def)
  have "i < length plan" using inv a(2) i by (meson not_le stream_inv_def)
  moreover have "?v = (if done' \<and> \<not> st_stopped st3 \<and> st_wait_loops st3 < AP_REQUEST_TIMEOUT_LOOPS cfg \<and>
      st_next_plan st3 < length plan
    then (if ap_request_stream_should_stop (st_kernel st3) c then st3\<lparr>st_stopped := True\<rparr>
          else stream_publish_next c plan i st3) else st3)"
    using a first f(1,4) by (simp add: stream_visit_def Let_def st3_def)
  moreover have "i \<notin> active_slots st3" by (simp add: act3(1))
  ultimately have refill: "stream_step c plan st3 ?v" "st_stopped st3 \<Longrightarrow> ?v = st3"
    using refill_step [OF stream_step_ok [OF step3] i] by metis+
  show "stream_step c plan ?st ?v" using step3 refill(1) by (rule stream_step_trans)
  assume "st_stopped ?st"
  then have "?v = st3" using refill(2) f(6) by (simp add: st3_def split: if_splits)
  with act3(1) show "i \<notin> active_slots ?v" by (metis DiffD2 insertI1)
qed

lemma visit_step:
  assumes ok: "stream_ok c plan st" and i: "i < 4" and short: "length plan \<le> 8"
  shows "stream_step c plan (ap_tick env st) (stream_visit cfg env c plan 4 i st)"
    and "i \<in> finished_slots c (ap_tick env st) \<Longrightarrow> st_stopped st \<Longrightarrow>
      i \<notin> active_slots (stream_visit cfg env c plan 4 i st) \<or>
      ap_stream_has_earlier_finished_slot c 4 i (ap_tick env st)"
proof -
  note tick = tick_step [OF ok]
  note ok1 = stream_step_ok [OF tick(1)]
  show "stream_step c plan (ap_tick env st) (stream_visit cfg env c plan 4 i st)"
    using visit_skips [OF i, where st = st and cfg = cfg and plan = plan] visit_finishes(1) [OF ok1 i short] stream_step_refl [OF ok1]
    by metis
  show "i \<notin> active_slots (stream_visit cfg env c plan 4 i st) \<or> ap_stream_has_earlier_finished_slot c 4 i (ap_tick env st)"
    if "i \<in> finished_slots c (ap_tick env st)" "st_stopped st"
    using visit_finishes(2) [OF ok1 i short that(1)] that(2) tick(2) by blast
qed

lemma visits_step:
  assumes "stream_ok c plan st" "length plan \<le> 8" "\<forall>i \<in> set is. i < 4"
  shows "stream_step c plan st (fold (stream_visit cfg env c plan 4) is st)"
  using assms by (intro stream_step_fold stream_step_trans [OF tick_step(1) visit_step(1)]) auto


text \<open>
  A pass over a stopped stream that loses no active slot sees a new slot finish, unless none has
  finished yet: the finished slot that is first in the recording order is only passed over for one
  that comes before it.
\<close>

lemma stopped_pass_progress:
  assumes ok: "stream_ok c plan st" and stopped: "st_stopped st" and short: "length plan \<le> 8"
    and st': "st' = fold (stream_visit cfg env c plan 4) [0..<4] st"
    and same: "active_slots st' = active_slots st" and some: "finished_slots c st \<noteq> {}"
  shows "finished_slots c st \<subset> finished_slots c st'"
proof -
  let ?order = "\<lambda>st i. ap_stream_finished_slot_order (stream_slot st c i) i" and ?F = "finished_slots c st"
  have "finite ?F" by (simp add: finished_slots_def)
  then obtain m where m: "m \<in> ?F" and least: "\<And>i. i \<in> ?F \<Longrightarrow> \<not> ?order st i < ?order st m"
    using ex_is_arg_min_if_finite [of ?F "?order st"] some by (auto simp: is_arg_min_def)
  have m4: "m < 4" using m by (simp add: finished_slots_def active_slots_def)
  define sa where "sa = fold (stream_visit cfg env c plan 4) [0..<m] st"
  define sb where "sb = stream_visit cfg env c plan 4 m sa"
  have "[0..<4] = [0..<m] @ m # [Suc m..<4]"
    using m4 upt_add_eq_append [of 0 m "4 - m"] upt_conv_Cons [of m 4] by simp
  then have st'_eq: "st' = fold (stream_visit cfg env c plan 4) [Suc m..<4] sb"
    by (simp add: st' sa_def sb_def)
  have step_a: "stream_step c plan st sa" unfolding sa_def using m4 by (intro visits_step ok short) auto
  note ok_a = stream_step_ok [OF step_a]
  have stop_a: "st_stopped sa" using step_a stopped by (simp add: stream_step_def)
  note tick = tick_step [OF ok_a]
  have step_b': "stream_step c plan (ap_tick env sa) sb" unfolding sb_def by (intro visit_step ok_a m4 short)
  then have step_b: "stream_step c plan sa sb" by (rule stream_step_trans [OF tick(1)])
  have step_c: "stream_step c plan sb st'" unfolding st'_eq by (intro visits_step stream_step_ok [OF step_b] short) auto
  have stop_b: "st_stopped sb" using step_b stop_a by (simp add: stream_step_def)
  have act: "active_slots sa = active_slots st" "active_slots sb = active_slots sa" "active_slots st' = active_slots sb"
    using step_a step_b step_c stopped stop_a stop_b same by (auto simp: stream_step_def)
  have step_t: "stream_step c plan st (ap_tick env sa)" by (rule stream_step_trans [OF step_a tick(1)])
  have keep: "i \<in> finished_slots c (ap_tick env sa) \<and> stream_slot (ap_tick env sa) c i = stream_slot st c i"
    if "i \<in> ?F" for i
    using step_t stopped that act tick(3) by (auto simp: stream_step_def finished_slots_def)
  have "ap_stream_has_earlier_finished_slot c 4 m (ap_tick env sa)"
    using visit_step(2) [OF ok_a m4 short, where cfg = cfg] keep [OF m] stop_a act m
    by (auto simp: sb_def finished_slots_def)
  then obtain j where j: "j \<in> finished_slots c (ap_tick env sa)" "?order (ap_tick env sa) j < ?order st m"
    using keep [OF m]
    by (auto simp: ap_stream_has_earlier_finished_slot_def Let_def list_ex_iff finished_slots_def active_slots_def)
  have "j \<notin> ?F" using least [of j] keep [of j] j(2) by auto
  have "j \<in> finished_slots c sb" using finished_mono [OF step_b'] j(1) act tick(2,3) stop_a by auto
  then have "j \<in> finished_slots c st'" using finished_mono [OF step_c stop_b act(3)] by auto
  moreover have "?F \<subseteq> finished_slots c st'"
    using finished_mono [OF stream_step_trans [OF stream_step_trans [OF step_a step_b] step_c] stopped same] .
  ultimately show ?thesis using \<open>j \<notin> ?F\<close> by blast
qed


text \<open>A whole pass is a step, and a pass of a stopped stream makes progress.\<close>

lemma pass_step:
  assumes ok: "stream_ok c plan st" and short: "length plan \<le> 8"
  shows "stream_step c plan st (stream_pass cfg env c plan 4 st)"
    and "st_stopped st \<Longrightarrow> active_slots (stream_pass cfg env c plan 4 st) = active_slots st \<Longrightarrow>
      finished_slots c (stream_pass cfg env c plan 4 st) \<noteq> {} \<Longrightarrow>
      finished_slots c st \<subset> finished_slots c (stream_pass cfg env c plan 4 st)"
proof -
  define s1 where "s1 = (if ap_request_stream_should_stop (st_kernel (ap_tick env st)) c
    then stop_ap_request_stream c 4 ((ap_tick env st)\<lparr>st_stopped := True\<rparr>) else ap_tick env st)"
  define s2 where "s2 = fold (stream_visit cfg env c plan 4) [0..<4] s1"
  let ?s3 = "stream_pass cfg env c plan 4 st"
  have s3: "?s3 = (if st_stopped s2 then stop_ap_request_stream c 4 s2 else s2)"
    unfolding stream_pass_def Let_def s1_def s2_def ..
  note tick = tick_step [OF ok]
  note ok1 = stream_step_ok [OF tick(1)]
  have "stream_step c plan (ap_tick env st) s1"
    unfolding s1_def using set_stopped_step [OF ok1] stop_step ok1
    by (auto intro: stream_step_refl stream_step_trans dest: stream_step_ok)
  then have step1: "stream_step c plan st s1" by (rule stream_step_trans [OF tick(1)])
  have step2: "stream_step c plan s1 s2"
    unfolding s2_def by (intro visits_step stream_step_ok [OF step1] short) auto
  have step3: "stream_step c plan s2 ?s3"
    unfolding s3 using stop_step stream_step_refl stream_step_ok [OF step2] by auto
  show "stream_step c plan st ?s3" using step1 step2 step3 by (blast intro: stream_step_trans)
  assume st: "st_stopped st" and same: "active_slots ?s3 = active_slots st" and some: "finished_slots c ?s3 \<noteq> {}"
  have stops: "st_stopped s1" "st_stopped s2" using step1 step2 st by (simp_all add: stream_step_def)
  have act: "active_slots s1 = active_slots st" "active_slots s2 = active_slots s1" "active_slots ?s3 = active_slots s2"
    using step1 step2 step3 st stops same by (auto simp: stream_step_def)
  have "finished_slots c s1 = {} \<or> finished_slots c s1 \<subset> finished_slots c s2"
    using stopped_pass_progress [OF stream_step_ok [OF step1] stops(1) short s2_def act(2)] by blast
  moreover have "finished_slots c st \<subseteq> finished_slots c s1" "finished_slots c s2 \<subseteq> finished_slots c ?s3"
    using finished_mono [OF step1 st act(1)] finished_mono [OF step3 stops(2) act(3)] by auto
  ultimately show "finished_slots c st \<subset> finished_slots c ?s3" using some by auto
qed


lemma wait_step:
  assumes ok: "stream_ok c plan st" and step: "BSP_WAIT_TIMER_TIMEOUT_STEP cfg \<noteq> 0"
    and wait: "bsp_wait_for_ap_request_event cfg env (st_time st) (st_kernel st) = (n, k')"
  shows "n \<noteq> 0" "stream_ok c plan (st\<lparr>st_kernel := k', st_time := Suc (st_time st)\<rparr>)"
proof -
  obtain armed l where arm: "bsp_arm_wait_timer (ks_system_lapic_base (st_kernel st)) (ks_bsp_lapic (st_kernel st)) = (armed, l)"
    by force
  note local = stream_ok_local
  have tick: "stream_ok c plan (s\<lparr>st_kernel := env (st_time s) (st_kernel s), st_time := Suc (st_time s)\<rparr>)"
    if "stream_ok c plan s" for s
    using stream_step_ok [OF tick_step(1) [OF that]] by (simp add: ap_tick_def)
  show "n \<noteq> 0" using wait step arm
    by (auto simp: bsp_wait_for_ap_request_event_def Let_def split: if_splits bool.splits)
  show "stream_ok c plan (st\<lparr>st_kernel := k', st_time := Suc (st_time st)\<rparr>)"
  proof (cases armed)
    case False
    then show ?thesis using wait arm tick [OF ok] by (simp add: bsp_wait_for_ap_request_event_def)
  next
    case True
    let ?k = "(st_kernel st)\<lparr>ks_bsp_lapic := l, ks_bsp_wait_observe := (ks_bsp_wait_observe (st_kernel st))\<lparr>
      wo_halt_count := wo_halt_count (ks_bsp_wait_observe (st_kernel st)) + 1\<rparr>\<rparr>"
    have "stream_ok c plan (st\<lparr>st_kernel := env (st_time st) ?k, st_time := Suc (st_time st)\<rparr>)"
      using tick [OF local [OF ok]] by simp
    then have "stream_ok c plan (st\<lparr>st_kernel := env (st_time st) ?k\<rparr>)" by (simp add: stream_ok_time)
    from local [OF this] show ?thesis
      using True wait arm by (auto simp: bsp_wait_for_ap_request_event_def Let_def stream_ok_time)
  qed
qed

text \<open>
  The order in which the loop makes progress: towards the time limit, then to a stopped stream,
  then to fewer active slots, then to fewer unfinished ones.
\<close>

definition stream_order :: "build_config \<Rightarrow> (stream_state \<times> stream_state) set" where
  "stream_order cfg = measures [\<lambda>st. unat (AP_REQUEST_TIMEOUT_LOOPS cfg) - unat (st_wait_loops st),
     \<lambda>st. if st_stopped st then 0 else 1, \<lambda>st. card (active_slots st),
     \<lambda>st. card (active_slots st - finished_slots c st)]"

lemma iteration_step:
  assumes ok: "stream_ok c plan st" and short: "length plan \<le> 8"
    and step: "BSP_WAIT_TIMER_TIMEOUT_STEP cfg \<noteq> 0" and w: "st_wait_loops st \<le> AP_REQUEST_TIMEOUT_LOOPS cfg"
    and it: "stream_iteration cfg env c plan 4 st = (stop, st')"
  shows "stream_ok c plan st'" "st_wait_loops st' \<le> AP_REQUEST_TIMEOUT_LOOPS cfg"
    and "\<not> stop \<Longrightarrow> (st', st) \<in> stream_order cfg"
proof -
  let ?T = "AP_REQUEST_TIMEOUT_LOOPS cfg" and ?s = "stream_pass cfg env c plan 4 st"
  have ps: "stream_step c plan st ?s" using pass_step(1) [OF ok short] .
  then have ok1: "stream_ok c plan ?s" and w1: "st_wait_loops ?s = st_wait_loops st"
    by (simp_all add: stream_step_def)
  consider (break) "stop" "st' = ?s"
    | (again) "\<not> stop" "st' = ?s" "st_stopped ?s" "finished_slots c ?s \<noteq> {}"
    | (pause) "\<not> stop" "st_wait_loops ?s < ?T"
        "st' = ap_tick env (?s\<lparr>st_wait_loops := advance_ap_request_wait_loops cfg (st_wait_loops ?s) 1\<rparr>)"
    | (wait) n k' where "\<not> stop" "st_wait_loops ?s < ?T"
        "bsp_wait_for_ap_request_event cfg env (st_time ?s) (st_kernel ?s) = (n, k')"
        "st' = ?s\<lparr>st_kernel := k', st_time := Suc (st_time ?s), st_wait_loops := advance_ap_request_wait_loops cfg (st_wait_loops ?s) n\<rparr>"
    using it by (rule stream_iteration_cases)
  then have "stream_ok c plan st' \<and> st_wait_loops st' \<le> ?T \<and> (\<not> stop \<longrightarrow> (st', st) \<in> stream_order cfg)"
  proof cases
    case break
    then show ?thesis using ok1 w w1 by simp
  next
    case again
    have "(?s, st) \<in> stream_order cfg"
    proof (cases "st_stopped st \<and> active_slots ?s = active_slots st")
      case True
      have "finished_slots c st \<subset> finished_slots c ?s" using pass_step(2) [OF ok short] True again(4) by blast
      moreover have "finished_slots c ?s \<subseteq> active_slots ?s" by (auto simp: finished_slots_def)
      ultimately have "active_slots ?s - finished_slots c ?s \<subset> active_slots st - finished_slots c st"
        using True by blast
      then have "card (active_slots ?s - finished_slots c ?s) < card (active_slots st - finished_slots c st)"
        by (intro psubset_card_mono) auto
      then show ?thesis using True again w1 by (simp add: stream_order_def)
    next
      case False
      have "card (active_slots ?s) < card (active_slots st)" if "st_stopped st"
        using that False ps by (intro psubset_card_mono) (auto simp: stream_step_def)
      then show ?thesis using again w1 by (simp add: stream_order_def)
    qed
    then show ?thesis using again ok1 w w1 by simp
  next
    case pause
    let ?s1 = "?s\<lparr>st_wait_loops := advance_ap_request_wait_loops cfg (st_wait_loops ?s) 1\<rparr>"
    have "stream_ok c plan ?s1" using stream_ok_waited ok1 by blast
    then show ?thesis
      using tick_step(1) [of plan ?s1] advance_bounds [OF pause(2), of 1] pause w1
      by (simp add: stream_order_def stream_step_def)
  next
    case wait
    note ws = wait_step [OF ok1 step wait(3)]
    then show ?thesis
      using advance_bounds [OF wait(2) ws(1)] stream_ok_waited [OF ws(2)] wait w1
      by (simp add: stream_order_def)
  qed
  then show "stream_ok c plan st'" "st_wait_loops st' \<le> ?T" "\<not> stop \<Longrightarrow> (st', st) \<in> stream_order cfg"
    by blast+
qed


lemma stream_loop_returns:
  assumes short: "length plan \<le> 8" and step: "BSP_WAIT_TIMER_TIMEOUT_STEP cfg \<noteq> 0"
    and start: "stream_ok c plan st" "st_wait_loops st \<le> AP_REQUEST_TIMEOUT_LOOPS cfg"
  shows "\<exists>st'. stream_loop cfg env c plan 4 st = Some st' \<and> stream_ok c plan st'"
proof -
  have "wf (stream_order cfg)" by (simp add: stream_order_def)
  then show ?thesis using start
  proof (induction st rule: wf_induct_rule)
    case (less st)
    obtain stop st' where it: "stream_iteration cfg env c plan 4 st = (stop, st')" by force
    note next' = iteration_step [OF less.prems(1) short step less.prems(2) it]
    show ?case
      using next' less.IH [of st'] it by (cases stop) (simp_all add: stream_loop.simps [of cfg env c plan 4 st])
  qed
qed

lemma timed_out_slot_inv:
  assumes inv: "stream_inv c plan st" and i: "i < 4" and short: "length plan \<le> 8"
  shows "stream_inv c plan (finish_timed_out_slot cfg c i st)"
    and "active_slots (finish_timed_out_slot cfg c i st) = active_slots st - {i}"
proof -
  have "stream_inv c plan (finish_timed_out_slot cfg c i st) \<and>
    active_slots (finish_timed_out_slot cfg c i st) = active_slots st - {i}"
  proof (cases "st_active st ! i")
    case False
    then show ?thesis using inv by (auto simp: finish_timed_out_slot_def active_slots_def)
  next
    case True
    let ?w = "AP_REQUEST_TIMEOUT_LOOPS cfg" and ?s = "stream_slot st c i"
    let ?f = "time_out_slot cfg"
    define st1 where "st1 = (if ap_request_state_finished (slot_state ?s) then st
      else st\<lparr>st_kernel := upd_slot c i ?f (st_kernel st)\<rparr>)"
    have wf: "ks_wf (st_kernel st)" and iA: "i \<in> active_slots st"
      using inv i True by (simp_all add: stream_inv_def active_slots_def)
    have slots: "ap_inbox_slot (upd_slot c i ?f (st_kernel st)) c j = (if j = i then ?f ?s else stream_slot st c j)" for j
      using wf c8 i by (simp add: ks_view)
    have f: "slot_request (?f ?s) = slot_request ?s" "ap_request_state_finished (slot_state (?f ?s))"
      if "\<not> ap_request_state_finished (slot_state ?s)"
      using inv i iA that time_out_in_flight [of ?s cfg] by (auto simp: stream_inv_def)
    have fin: "ap_request_state_finished (slot_state (stream_slot st1 c i))" using f by (simp add: st1_def slots)
    have act: "active_slots st1 = active_slots st" "st_active st1 ! i" using True by (simp_all add: st1_def active_slots_def)
    have inv1: "stream_inv c plan st1"
    proof (cases "ap_request_state_finished (slot_state ?s)")
      case False
      then have "stream_inv c plan (st\<lparr>st_kernel := upd_slot c i ?f (st_kernel st)\<rparr>)"
        using f iA wf c8 inv by (intro stream_inv_keeps) (auto simp: ks_view slots keeps_slot_def)
      then show ?thesis using False by (simp add: st1_def)
    qed (use inv in \<open>simp add: st1_def\<close>)
    have "finish_timed_out_slot cfg c i st = snd (finish_ap_stream_slot c i ?w st1)"
      using True by (simp add: finish_timed_out_slot_def Let_def st1_def)
    then show ?thesis using finish_inv [OF inv1 c8 i act(2) fin short, where w = ?w] act(1) by (metis snd_conv)
  qed
  then show "stream_inv c plan (finish_timed_out_slot cfg c i st)"
    "active_slots (finish_timed_out_slot cfg c i st) = active_slots st - {i}" by blast+
qed

lemma timed_out_slots_inv:
  assumes "stream_inv c plan st" "length plan \<le> 8" "n \<le> 4"
  shows "stream_inv c plan (fold (finish_timed_out_slot cfg c) [0..<n] st) \<and>
    active_slots (fold (finish_timed_out_slot cfg c) [0..<n] st) = active_slots st - {..<n}"
  using assms(3)
proof (induction n)
  case (Suc n)
  then show ?case using timed_out_slot_inv [of plan _ n cfg] assms(2) by auto
qed (use assms in simp)


lemma publish_first_ok:
  assumes start: "stream_ok c plan st" "st_next_plan st = 0" "active_slots st = {}" "\<not> st_stopped st"
    and n: "n \<le> 4"
  defines "st' \<equiv> fold (\<lambda>i st. if st_next_plan st < length plan then stream_publish_next c plan i st else st) [0..<n] st"
  shows "stream_ok c plan st' \<and> st_next_plan st' = min n (length plan) \<and> active_slots st' = {..<min n (length plan)} \<and>
    st_wait_loops st' = st_wait_loops st \<and> \<not> st_stopped st'"
  using n unfolding st'_def
proof (induction n)
  case 0
  then show ?case using start by simp
next
  case (Suc n)
  define s where "s = fold (\<lambda>i st. if st_next_plan st < length plan then stream_publish_next c plan i st else st) [0..<n] st"
  have s: "stream_ok c plan s" "st_next_plan s = min n (length plan)" "active_slots s = {..<min n (length plan)}"
    "st_wait_loops s = st_wait_loops st" "\<not> st_stopped s"
    using Suc unfolding s_def by simp_all
  show ?case
  proof (cases "n < length plan")
    case True
    have "stream_inv c plan s" "\<not> recorded_failure c s" using s by (auto simp: stream_ok_def)
    note p = publish_inv [OF this(1) c8 _ _ True _ this(2)]
    have "n < 4" using Suc.prems by simp
    with p True s show ?thesis by (simp add: s_def [symmetric] stream_ok_def min_def lessThan_Suc)
  next
    case False
    then show ?thesis using s by (simp add: s_def [symmetric] min_def)
  qed
qed

lemma stream_reset_view:
  assumes "ks_wf k"
  shows "ks_wf (stream_reset c n k)" "i < 4 \<Longrightarrow> ap_inbox_slot (stream_reset c n k) c i = zero_slot"
proof -
  define k1 where "k1 = upd_queue c (\<lambda>q. q\<lparr>qs_planned_count := word_of_nat n\<rparr>)
    (reset_ap_request_history c (reset_ap_queue_summary c k))"
  have wf1: "ks_wf k1"
    unfolding k1_def reset_ap_request_history_def reset_ap_queue_summary_def using assms c8
    by (intro ks_wf_upd ks_wf_upd_ctx) (auto simp: context_wf_def fold_length_invariant)
  have "m \<le> 4 \<Longrightarrow> ks_wf (fold (reset_ap_inbox_slot c) [0..<m] k1) \<and>
      (\<forall>i < m. ap_inbox_slot (fold (reset_ap_inbox_slot c) [0..<m] k1) c i = zero_slot)" for m
  proof (induction m)
    case (Suc m)
    then show ?case using c8 by (auto simp: ks_view less_Suc_eq)
  qed (use wf1 in simp)
  from this [of 4] show "ks_wf (stream_reset c n k)" "i < 4 \<Longrightarrow> ap_inbox_slot (stream_reset c n k) c i = zero_slot"
    by (simp_all add: stream_reset_def Let_def k1_def AP_REQUEST_SLOT_COUNT_def)
qed

text \<open>The whole run, for any AP that keeps to its side of the protocol.\<close>

lemma run_accounts:
  assumes wf: "ks_wf k" and short: "length plan \<le> 8" and step: "BSP_WAIT_TIMER_TIMEOUT_STEP cfg \<noteq> 0"
  shows "\<exists>ok st. run_ap_request_stream cfg env c plan k = Some (ok, st) \<and> stream_inv c plan st \<and> active_slots st = {} \<and>
    (ok \<longrightarrow> st_completed_count st = length plan \<and>
      (\<forall>i < 4. slot_state (ap_inbox_slot (st_kernel st) c i) = AP_REQUEST_STATUS_DONE))"
proof -
  let ?k = "stream_reset c (length plan) k"
  let ?st = "\<lparr>st_kernel = ?k, st_active = replicate AP_REQUEST_SLOT_COUNT False, st_next_plan = 0,
     st_completed_count = 0, st_counter_base = ctx_counter_value (ks_contexts k ! c),
     st_wait_loops = 0, st_stopped = False, st_time = 0\<rparr>"
  have limit: "ap_inbox_slot_limit AP_REQUEST_SLOT_COUNT = 4" by (simp add: ap_inbox_slot_limit_def c_const)
  have act: "active_slots ?st = {}" by (auto simp: active_slots_def AP_REQUEST_SLOT_COUNT_def)
  note reset = stream_reset_view [OF wf, where n = "length plan"]
  have inv0: "stream_inv c plan (?st\<lparr>st_kernel := k'\<rparr>)"
    if "ks_wf k'" "\<forall>i < 4. ap_inbox_slot k' c i = ap_inbox_slot ?k c i" for k'
  proof -
    have "slot_state (ap_inbox_slot k' c i) = AP_REQUEST_STATUS_EMPTY" if "i < 4" for i
      using that reset(2) [OF that] \<open>\<forall>i < 4. _\<close> by (simp add: zero_slot_def c_const)
    moreover have "\<not> in_flight AP_REQUEST_STATUS_EMPTY" by (simp add: in_flight_def c_const)
    moreover have "active_slots (?st\<lparr>st_kernel := k'\<rparr>) = {}" using act by (simp add: active_slots_def)
    ultimately show ?thesis
      using that(1) by (simp add: stream_inv_def recorded_plans_def recorded_failure_def active_plans_def
          AP_REQUEST_SLOT_COUNT_def)
  qed
  show ?thesis
  proof (cases "ap_request_stream_should_stop ?k c")
    case True
    let ?k' = "upd_queue c (\<lambda>q. q\<lparr>qs_stop_reason := (if bi_ap_state (boot_of ?k c) = AP_BOOT_STATE_FAULTED
      then AP_QUEUE_STOP_FAULT else AP_QUEUE_STOP_BAD_OP)\<rparr>) ?k"
    have "run_ap_request_stream cfg env c plan k = Some (False, ?st\<lparr>st_kernel := ?k'\<rparr>)"
      using True by (simp add: run_ap_request_stream_def Let_def limit)
    moreover have "stream_inv c plan (?st\<lparr>st_kernel := ?k'\<rparr>)"
      using reset c8 by (intro inv0) (auto simp: ks_view)
    moreover have "active_slots (?st\<lparr>st_kernel := ?k'\<rparr>) = {}" using act by (simp add: active_slots_def)
    ultimately show ?thesis by blast
  next
    case False
    have "stream_ok c plan ?st" using inv0 [of ?k] reset(1) by (simp add: stream_ok_def recorded_failure_def)
    from publish_first_ok [OF this _ act, of 4] have first: "stream_ok c plan (stream_publish_first c plan 4 ?st)"
      "st_wait_loops (stream_publish_first c plan 4 ?st) = 0"
      by (simp_all add: stream_publish_first_def)
    then obtain s where s: "stream_loop cfg env c plan 4 (stream_publish_first c plan 4 ?st) = Some s" "stream_ok c plan s"
      using stream_loop_returns [OF short step] by fastforce
    let ?s1 = "s\<lparr>st_kernel := (st_kernel s)\<lparr>ks_bsp_lapic :=
      bsp_disarm_wait_timer (ks_system_lapic_base (st_kernel s)) (ks_bsp_lapic (st_kernel s))\<rparr>\<rparr>"
    let ?s2 = "finish_timed_out_ap_stream_slots cfg c 4 (ap_tick env ?s1)"
    have run: "run_ap_request_stream cfg env c plan k = Some (st_completed_count ?s2 = length plan \<and>
        ap_request_all_done (st_kernel ?s2) c 4, ?s2)"
      using False s(1) by (simp add: run_ap_request_stream_def Let_def limit drain_ap_request_ipis_def)
    have "stream_inv c plan (ap_tick env ?s1)"
      using stream_step_ok [OF tick_step(1) [OF stream_ok_lapic [OF s(2)]]] by (simp add: stream_ok_def)
    from timed_out_slots_inv [OF this short, of 4 cfg] have "stream_inv c plan ?s2" "active_slots ?s2 = {}"
      by (auto simp: finish_timed_out_ap_stream_slots_def active_slots_def)
    then show ?thesis
      unfolding run by (auto simp: ap_request_all_done_def list_all_iff AP_REQUEST_SLOT_COUNT_def)
  qed
qed

end

end
