(* ===== verification/Ap_Guarantee.thy ===== *)
theory Ap_Guarantee
  imports Ap_Stream_Run
begin

text \<open>
  The AP keeps to its side of the protocol: every pass of its request loop, whether it goes on,
  halts on an unknown request, faults or hangs, changes only requests that are in flight, never
  rewrites one, and leaves the history alone. With this the two sides are put together.
\<close>

section \<open>The rely condition as a preorder\<close>

lemma slot_rely_refl [simp]: "slot_rely s s"
  by (simp add: slot_rely_def)

lemma ap_rely_refl: "ks_wf k \<Longrightarrow> ap_rely c k k"
  by (simp add: ap_rely_def others_same_def)

lemma slot_rely_trans: "slot_rely s s' \<Longrightarrow> slot_rely s' s'' \<Longrightarrow> slot_rely s s''"
  by (auto simp: slot_rely_def in_flight_def ap_request_state_terminal_def c_const split: if_splits)

lemma ap_rely_trans [trans]: "ap_rely c k k' \<Longrightarrow> ap_rely c k' k'' \<Longrightarrow> ap_rely c k k''"
  by (auto simp: ap_rely_def others_same_def intro: slot_rely_trans)

text \<open>Every update of the AP side works on its own context.\<close>

lemma others_same_updates [simp]:
  "others_same c k (upd_ctx c f k') = others_same c k k'"
  "others_same c k (upd_boot c b k') = others_same c k k'"
  "others_same c k (upd_slot c i s k') = others_same c k k'"
  "others_same c k (upd_queue c q k') = others_same c k k'"
  "others_same c k (set_committed_outbox c i ob k') = others_same c k k'"
  "others_same c k (set_service_outbox c ob k') = others_same c k k'"
  "others_same c k (k'\<lparr>ks_ap_lapics := l\<rparr>) = others_same c k k'"
  "others_same c k k"
  by (auto simp: others_same_def upd_defs upd_ctx_def set_committed_outbox_def set_service_outbox_def split: option.split)

lemma others_same_notify [simp]:
  "others_same c k (ap_notify_bsp_request_complete self c k') = others_same c k k'"
  "others_same c k (ap_queue_note_slot_terminal c i state reason k') = others_same c k k'"
  by (auto simp: ap_notify_bsp_request_complete_def ap_queue_note_slot_terminal_def others_same_def
      upd_queue_def upd_ctx_def Let_def split: prod.split)

lemma ap_relyI:
  assumes "others_same c k k'" "ks_wf k'" "history_of k' c = history_of k c"
    and "\<And>j. j < 4 \<Longrightarrow> j \<noteq> i \<Longrightarrow> ap_inbox_slot k' c j = ap_inbox_slot k c j"
    and "slot_rely (ap_inbox_slot k c i) (ap_inbox_slot k' c i)"
  shows "ap_rely c k k'"
  unfolding ap_rely_def using assms by (metis slot_rely_refl)

section \<open>The history is left alone\<close>

lemma history_upd_ctx:
  assumes "ks_wf k" "c < 8" "\<And>x. ctx_request_history (f x) = ctx_request_history x"
  shows "history_of (upd_ctx c f k) d = history_of k d"
  using ks_wf_lengths(1) [OF assms(1)] assms(2,3) by (simp add: history_of_def ks_view)

lemma history_current [ks_view]:
  "ks_wf k \<Longrightarrow> c < 8 \<Longrightarrow> history_of (upd_ctx c (\<lambda>x. x\<lparr>ctx_current_request_slot := v\<rparr>) k) d = history_of k d"
  "ks_wf k \<Longrightarrow> c < 8 \<Longrightarrow> history_of (upd_ctx c (\<lambda>x. x\<lparr>ctx_request_handled_count := n, ctx_counter_value := m\<rparr>) k) d =
     history_of k d"
  by (simp_all add: history_upd_ctx)

lemma history_notify [ks_view]:
  assumes "ks_wf k" "c < 8"
  shows "history_of (ap_notify_bsp_request_complete self c k) d = history_of k d"
  using ks_wf_lengths(1) [OF assms(1)] assms(2)
  by (auto simp: history_of_def ap_notify_bsp_request_complete_def Let_def nth_list_update split: prod.split)

lemma history_terminal [ks_view]:
  "ks_wf k \<Longrightarrow> c < 8 \<Longrightarrow> history_of (ap_queue_note_slot_terminal c i state reason k) d = history_of k d"
  by (simp add: ap_queue_note_slot_terminal_def Let_def ks_view ks_wf_upd)

section \<open>Claims\<close>

lemma ap_claim_rely:
  assumes wf: "ks_wf k" "c < 8" "i < 4" and claim: "ap_claim_slot c i k = (hit, k1)"
  shows "ap_rely c k k1" and "hit \<Longrightarrow> slot_state (ap_inbox_slot k1 c i) = AP_REQUEST_STATUS_RUNNING"
proof -
  have "ap_rely c k k1 \<and> (hit \<longrightarrow> slot_state (ap_inbox_slot k1 c i) = AP_REQUEST_STATUS_RUNNING)"
  proof (cases "slot_state (ap_inbox_slot k c i) = AP_REQUEST_STATUS_PENDING")
    case False
    then show ?thesis using claim wf ap_claim_slot_skip ap_rely_refl by auto
  next
    case True
    have k1: "ks_wf k1" "\<forall>d j. ap_inbox_slot k1 d j = (if d = c \<and> j = i
        then claimed (handled_of k c) (ap_inbox_slot k c i) else ap_inbox_slot k d j)"
      using ap_claim_slot_view [OF wf True] claim by auto
    moreover have "history_of k1 c = history_of k c"
      using claim ap_claim_slot_pending [OF wf True] wf by (auto intro: history_upd_ctx)
    ultimately show ?thesis
      using True claim ap_claim_slot_pending [OF wf True] by (auto intro!: ap_relyI [where i = i]
          simp: slot_rely_def in_flight_def claimed_def begin_ap_reply_def)
  qed
  then show "ap_rely c k k1" "hit \<Longrightarrow> slot_state (ap_inbox_slot k1 c i) = AP_REQUEST_STATUS_RUNNING" by blast+
qed

section \<open>Completions\<close>

lemma ap_complete_done_history:
  assumes wf: "ks_wf k" "c < 8" "i < 4" and run: "slot_state (ap_inbox_slot k c i) = AP_REQUEST_STATUS_RUNNING"
    and ob: "outbox_wf ob"
  shows "history_of (ap_complete_done c i ob k) c = history_of k c"
proof -
  have "outbox_wf (copy_ap_request_outbox (ap_committed_outbox_for_slot k c i) ob)"
    using outbox.wf_commit ks_wf_outboxes(2) [OF wf] ob by blast
  then show ?thesis
    unfolding ap_complete_done_run [OF wf run] using wf
    by (simp add: ks_view ks_wf_upd ks_wf_set_outbox)
qed

lemma ap_complete_bad_op_frame:
  assumes wf: "ks_wf k" "c < 8" "i < 4"
  shows "ks_wf (ap_complete_bad_op cfg sel c i k)" "history_of (ap_complete_bad_op cfg sel c i k) c = history_of k c"
proof -
  have lap: "ks_wf (x\<lparr>ks_ap_lapics := (ks_ap_lapics x)[c := l]\<rparr>) = ks_wf x"
    "history_of (x\<lparr>ks_ap_lapics := y\<rparr>) c = history_of x c" for x l y
    by (simp_all add: ks_wf_def history_of_def)
  show "ks_wf (ap_complete_bad_op cfg sel c i k)" "history_of (ap_complete_bad_op cfg sel c i k) c = history_of k c"
    unfolding ap_complete_bad_op_def Let_def lap using wf
    by (simp_all add: ks_view ks_wf_upd ap_notify_view)
qed

text \<open>The state a piece of the loop leaves, whatever its outcome.\<close>

fun outcome_state :: "ap_outcome \<Rightarrow> kernel_state" where
  "outcome_state (Ap_Continues k) = k"
| "outcome_state (Ap_Halted k) = k"
| "outcome_state (Ap_Faults v k) = k"
| "outcome_state (Ap_Hangs k) = k"

text \<open>A handler that returns: its results are stored and the request is completed.\<close>

lemma ap_handled_rely:
  assumes wf: "ks_wf k" "c < 8" "i < 4" and run: "slot_state (ap_inbox_slot k c i) = AP_REQUEST_STATUS_RUNNING"
    and s': "slot_state s' = AP_REQUEST_STATUS_RUNNING" "slot_request s' = slot_request (ap_inbox_slot k c i)"
    and ob: "outbox_wf (sc_outbox x')"
  shows "ap_rely c k (ap_complete_done c i (sc_outbox x') (ap_store_service_context c i x' s' k))"
proof -
  define f where "f = (\<lambda>x. x\<lparr>ctx_request_handled_count := sc_request_handled_count x',
    ctx_counter_value := sc_counter_value x'\<rparr> :: ap_context_t)"
  define k1 where "k1 = set_service_outbox c (sc_outbox x') (upd_slot c i (\<lambda>_. s') (upd_ctx c f k))"
  have k1: "ap_store_service_context c i x' s' k = k1" by (simp add: k1_def ap_store_service_context_def f_def)
  have wff: "ks_wf (upd_ctx c f k)" using wf by (auto intro!: ks_wf_upd_ctx simp: f_def context_wf_def)
  have wf1: "ks_wf k1" unfolding k1_def using wff wf ob by blast
  have "ap_inbox_slot (upd_ctx c f k) c j = ap_inbox_slot k c j" for j
    using ks_wf_lengths(1) [OF wf(1)] wf(2) by (simp add: ap_inbox_slot_def f_def ks_view)
  moreover have "history_of (upd_ctx c f k) c = history_of k c" using wf by (intro history_upd_ctx) (auto simp: f_def)
  ultimately have s1: "ap_inbox_slot k1 c j = (if j = i then s' else ap_inbox_slot k c j)"
    "history_of k1 c = history_of k c" for j
    unfolding k1_def using wff wf by (simp_all add: ks_view)
  have run1: "slot_state (ap_inbox_slot k1 c i) = AP_REQUEST_STATUS_RUNNING" using s1 s'(1) by simp
  note d = ap_complete_done_view [OF wf1 wf(2,3) run1 ob] ap_complete_done_history [OF wf1 wf(2,3) run1 ob]
  show ?thesis
    unfolding k1 using d s1 run s'(2) ap_complete_done_run [OF wf1 wf(2,3) run1, of "sc_outbox x'"]
    by (intro ap_relyI [where i = i]) (auto simp: slot_rely_def in_flight_def ap_request_state_terminal_def k1_def)
qed

lemma ap_run_rely:
  assumes wf: "ks_wf k" "c < 8" "i < 4" and run: "slot_state (ap_inbox_slot k c i) = AP_REQUEST_STATUS_RUNNING"
    and out: "ap_run_slot cfg sel c i k = outcome"
  shows "ap_rely c k (outcome_state outcome)"
proof -
  let ?ob = "reset_ap_request_outbox (ap_service_outbox_for_context k c)" and ?s = "ap_inbox_slot k c i"
  let ?x = "\<lparr>sc_request_handled_count = ctx_request_handled_count (ks_contexts k ! c),
    sc_counter_value = ctx_counter_value (ks_contexts k ! c), sc_outbox = ?ob\<rparr>"
  define k0 where "k0 = set_service_outbox c ?ob k"
  have ob: "outbox_wf ?ob" using outbox.wf_reset ks_wf_outboxes(1) [OF wf(1,2)] by blast
  have wf0: "ks_wf k0" unfolding k0_def using wf ob by blast
  have s0: "ap_inbox_slot k0 d j = ap_inbox_slot k d j" "history_of k0 c = history_of k c" "others_same c k k0" for d j
    unfolding k0_def by (simp_all add: ks_view)
  have r0: "ap_rely c k k0" using wf0 s0 by (simp add: ap_rely_def)
  have run0: "slot_state (ap_inbox_slot k0 c i) = AP_REQUEST_STATUS_RUNNING" using run s0 by simp
  show ?thesis
  proof (cases "find_ap_request_handler cfg sel (rq_service_id (slot_request ?s)) (rq_interface_id (slot_request ?s))")
    case None
    then have "outcome = Ap_Halted (ap_complete_bad_op cfg sel c i k0)"
      using out by (simp add: ap_run_slot_def Let_def k0_def)
    moreover have "ap_rely c k0 (ap_complete_bad_op cfg sel c i k0)"
      using ap_complete_bad_op_frame [OF wf0 wf(2,3)] ap_complete_bad_op_view(1) [OF wf0 wf(2,3)] run
      by (intro ap_relyI [where i = i])
        (auto simp: slot_rely_def in_flight_def complete_ap_request_def ap_request_state_terminal_def s0
          ap_complete_bad_op_def Let_def)
    ultimately show ?thesis using ap_rely_trans [OF r0] by simp
  next
    case (Some h)
    note law = registered_handler_contract [OF Some]
    show ?thesis
    proof (cases "h ?x ?s")
      case (Returns r)
      obtain x' s' where r: "r = (x', s')" by force
      note law = request_handler.keeps_state [OF law Returns [unfolded r]]
        request_handler.keeps_request [OF law Returns [unfolded r]]
        request_handler.keeps_wf [OF law Returns [unfolded r]]
      have "outcome = Ap_Continues (ap_complete_done c i (sc_outbox x') (ap_store_service_context c i x' s' k0))"
        using out Some Returns r by (simp add: ap_run_slot_def Let_def k0_def)
      then show ?thesis
        using ap_rely_trans [OF r0 ap_handled_rely [OF wf0 wf(2,3) run0, of s' x']] law ob run s0 by simp
    qed (use out Some r0 in \<open>auto simp: ap_run_slot_def Let_def k0_def\<close>)
  qed
qed

section \<open>A pass and the fault entry\<close>

lemma ap_scan_rely:
  assumes "ks_wf k" "c < 8" "\<forall>i \<in> set is. i < 4"
  shows "ap_scan_slots cfg sel c is (w, k) = (w', outcome) \<Longrightarrow> ap_rely c k (outcome_state outcome) \<and>
    (case outcome of Ap_Faults v k' \<Rightarrow> \<exists>i < 4. unat (ctx_current_request_slot (ks_contexts k' ! c)) = i \<and>
       slot_state (ap_inbox_slot k' c i) = AP_REQUEST_STATUS_RUNNING | _ \<Rightarrow> True)"
  using assms
proof (induction "is" arbitrary: k w)
  case Nil
  then show ?case by (auto intro: ap_rely_refl)
next
  case (Cons i "is")
  have i: "i < 4" using Cons.prems by simp
  obtain hit k1 where claim: "ap_claim_slot c i k = (hit, k1)" by force
  note r1 = ap_claim_rely [OF Cons.prems(2,3) i claim]
  have wf1: "ks_wf k1" using r1(1) by (simp add: ap_rely_def)
  show ?case
  proof (cases hit)
    case False
    with Cons.IH [OF _ wf1] Cons.prems claim show ?thesis
      using ap_rely_trans [OF r1(1)] by fastforce
  next
    case True
    note run = ap_run_rely [OF wf1 Cons.prems(3) i r1(2) [OF True] refl, of cfg sel]
    show ?thesis
    proof (cases "ap_run_slot cfg sel c i k1")
      case (Ap_Continues k2)
      with run have r2: "ap_rely c k k2" using ap_rely_trans [OF r1(1)] by simp
      then have "ks_wf k2" by (simp add: ap_rely_def)
      from Cons.IH [OF _ this] Cons.prems claim True Ap_Continues show ?thesis
        using ap_rely_trans [OF r2] by fastforce
    next
      case (Ap_Faults v k2)
      have "k2 = set_service_outbox c (reset_ap_request_outbox (ap_service_outbox_for_context k1 c)) k1"
        using ap_run_slot_faults [OF Ap_Faults] .
      then have "unat (ctx_current_request_slot (ks_contexts k2 ! c)) = i" "ap_inbox_slot k2 c i = ap_inbox_slot k1 c i"
        using ap_claim_slot_current(2) [OF Cons.prems(2,3) i] claim True by (simp_all add: ks_view)
      moreover have "outcome = Ap_Faults v k2" using Ap_Faults Cons.prems(1) claim True by simp
      moreover have "ap_rely c k k2" using ap_rely_trans [OF r1(1)] run Ap_Faults by simp
      ultimately show ?thesis using r1(2) [OF True] i by simp
    next
      case (Ap_Halted k2)
      moreover from this have "outcome = Ap_Halted k2" using Cons.prems(1) claim True by simp
      ultimately show ?thesis using ap_rely_trans [OF r1(1)] run by simp
    next
      case (Ap_Hangs k2)
      moreover from this have "outcome = Ap_Hangs k2" using Cons.prems(1) claim True by simp
      ultimately show ?thesis using ap_rely_trans [OF r1(1)] run by simp
    qed
  qed
qed

lemma ap_fault_dispatch_frame:
  assumes wf: "ks_wf k" and c: "c = ap_context_from_fault_frame cpu_at a"
  shows "ks_wf (ap_fault_dispatch cpu_at self a frame cr2 k)"
    and "history_of (ap_fault_dispatch cpu_at self a frame cr2 k) d = history_of k d"
proof -
  have c8: "c < 8" using c ap_context_from_fault_frame_bound by simp
  show "ks_wf (ap_fault_dispatch cpu_at self a frame cr2 k)"
    "history_of (ap_fault_dispatch cpu_at self a frame cr2 k) d = history_of k d"
    unfolding ap_fault_dispatch_def Let_def c [symmetric] using wf c8
    by (simp_all add: ks_view ks_wf_upd ap_notify_view)
qed

lemma ap_fault_rely:
  assumes wf: "ks_wf k" and c: "c = ap_context_from_fault_frame cpu_at a"
    and i: "unat (ctx_current_request_slot (ks_contexts k ! c)) = i" "i < 4"
      "slot_state (ap_inbox_slot k c i) = AP_REQUEST_STATUS_RUNNING"
  shows "ap_rely c k (ap_fault_dispatch cpu_at self a frame cr2 k)"
proof -
  have "i < AP_REQUEST_SLOT_COUNT" using i(2) by (simp add: c_const)
  moreover have "others_same c k (ap_fault_dispatch cpu_at self a frame cr2 k)"
    unfolding ap_fault_dispatch_def Let_def c [symmetric] by simp
  ultimately show ?thesis
    using ap_fault_dispatch_effect [OF wf c i(1) _ refl, of self frame cr2] i(3) ap_fault_dispatch_frame [OF wf c]
    by (intro ap_relyI [where i = i])
      (auto simp: Let_def slot_rely_def in_flight_def unanswered_def ap_request_state_terminal_def)
qed

section \<open>Both sides together\<close>

text \<open>
  What an AP does between two looks of the BSP: nothing when it has halted, faulted or is stuck in
  a handler; otherwise a pass of its loop, followed by the fault entry when the handler faults. The
  parameters of the fault entry are the addresses of the contexts, the frame the processor pushes
  for a vector, and \<^verbatim>\<open>CR2\<close>.
\<close>

record fault_setup =
  fs_cpu_at :: "nat \<Rightarrow> u64"
  fs_frame_addr :: u64
  fs_frame :: "u64 \<Rightarrow> fault_frame_t"
  fs_cr2 :: u64

definition ap_side :: "build_config \<Rightarrow> cpu_selectors \<Rightarrow> fault_setup \<Rightarrow> nat \<Rightarrow> environment" where
  "ap_side cfg sel fs c t k =
     (if ap_request_stream_should_stop k c \<or> bi_entry_state (boot_of k c) = AP_ENTRY_STATE_REQUEST then k
      else case snd (ap_scan_slots cfg sel c [0..<AP_REQUEST_SLOT_COUNT] (False, k)) of
        Ap_Faults v k' \<Rightarrow> ap_fault_dispatch (fs_cpu_at fs) c (fs_frame_addr fs) (fs_frame fs v) (fs_cr2 fs) k'
      | outcome \<Rightarrow> outcome_state outcome)"

lemma ap_side_rely:
  assumes c: "c = ap_context_from_fault_frame (fs_cpu_at fs) (fs_frame_addr fs)" and wf: "ks_wf k"
  shows "ap_rely c k (ap_side cfg sel fs c t k)"
proof -
  have c8: "c < 8" using c ap_context_from_fault_frame_bound by simp
  obtain w outcome where scan: "ap_scan_slots cfg sel c [0..<AP_REQUEST_SLOT_COUNT] (False, k) = (w, outcome)" by force
  note r = ap_scan_rely [OF wf c8 _ scan]
  have r: "ap_rely c k (outcome_state outcome)"
    "\<And>v k'. outcome = Ap_Faults v k' \<Longrightarrow> \<exists>i < 4. unat (ctx_current_request_slot (ks_contexts k' ! c)) = i \<and>
       slot_state (ap_inbox_slot k' c i) = AP_REQUEST_STATUS_RUNNING"
    using r by (auto simp: AP_REQUEST_SLOT_COUNT_def)
  have "ap_rely c k' (ap_fault_dispatch (fs_cpu_at fs) c (fs_frame_addr fs) (fs_frame fs v) (fs_cr2 fs) k')"
    if "outcome = Ap_Faults v k'" for v k'
    using r that ap_fault_rely [OF _ c, of k'] by (auto simp: ap_rely_def [of c k])
  then show ?thesis
    using r(1) scan ap_rely_refl [OF wf] by (auto simp: ap_side_def split: ap_outcome.split intro: ap_rely_trans)
qed

interpretation ap_loop_side: ap_environment
  "ap_side cfg sel fs (ap_context_from_fault_frame (fs_cpu_at fs) (fs_frame_addr fs))"
  "ap_context_from_fault_frame (fs_cpu_at fs) (fs_frame_addr fs)"
  by unfold_locales (use ap_context_from_fault_frame_bound ap_side_rely in \<open>auto simp: MAX_AP_CONTEXTS_def\<close>)

section \<open>Properties\<close>

lemma stream_accounts:
  assumes "c < MAX_AP_CONTEXTS" and "\<And>t k. ks_wf k \<Longrightarrow> ap_rely c k (env t k)"
    and "ks_wf k" "length plan \<le> AP_REQUEST_HISTORY_COUNT" "BSP_WAIT_TIMER_TIMEOUT_STEP cfg \<noteq> 0"
  shows "\<exists>ok st. run_ap_request_stream cfg env c plan k = Some (ok, st) \<and>
    (let n = st_completed_count st; h = take n (history_of (st_kernel st) c) in
     (\<forall>i < AP_REQUEST_SLOT_COUNT. \<not> in_flight (slot_state (stream_slot st c i))) \<and>
     n \<le> length plan \<and> length h = n \<and>
     mset (map (\<lambda>e. plan_of_slot (hi_request e)) h) = mset (take n plan) \<and>
     (ok \<longrightarrow> AP_REQUEST_SLOT_COUNT \<le> n \<and> n = length plan \<and>
       (\<forall>e \<in> set h. slot_state (hi_request e) = AP_REQUEST_STATUS_DONE)))"
proof -
  have env: "ap_environment env c" by unfold_locales (use assms in auto)
  have short: "length plan \<le> 8" using assms(4) by (simp add: c_const)
  obtain ok st where run: "run_ap_request_stream cfg env c plan k = Some (ok, st)"
    and inv: "stream_inv c plan st" and act: "active_slots st = {}"
    and ok: "ok \<longrightarrow> st_completed_count st = length plan \<and>
      (\<forall>i < 4. slot_state (stream_slot st c i) = AP_REQUEST_STATUS_DONE)"
    using ap_environment.run_accounts [OF env assms(3) short assms(5)] by blast
  have n: "st_completed_count st = st_next_plan st" "st_next_plan st \<le> length plan" and wf: "ks_wf (st_kernel st)"
    using inv act by (simp_all add: stream_inv_def)
  have hlen: "length (history_of (st_kernel st) c) = 8"
    using ks_wf_lengths(6) [OF wf ap_environment.c8 [OF env]] by (simp add: history_of_def)
  have "recorded_plans c st = mset (take (st_completed_count st) plan)"
    using inv act n by (simp add: stream_inv_def active_plans_def)
  moreover have "\<not> recorded_failure c st" if ok using that ok inv unfolding stream_inv_def by blast
  moreover have "4 \<le> length plan" if ok
  proof (rule ccontr)
    assume "\<not> 4 \<le> length plan"
    then have "length plan < 4" by simp
    then have "slot_state (stream_slot st c (length plan)) = AP_REQUEST_STATUS_EMPTY"
      using inv unfolding stream_inv_def by blast
    then show False using that ok \<open>length plan < 4\<close> by (simp add: c_const)
  qed
  ultimately show ?thesis
    using run inv act n hlen short ok
    by (auto simp: Let_def recorded_plans_def recorded_failure_def stream_inv_def AP_REQUEST_SLOT_COUNT_def)
qed

text \<open>
  C2. A request stream always returns and accounts for every request it handed out, whatever the
  AP does within its side of the protocol (it may be slow, stop, fault or hang). At the return no slot
  of the AP is in flight; the recorded history holds exactly the requests of the plan that were handed
  out, each once; and when the stream reports success, the whole plan was handed out and every recorded
  request is done. Success also requires at least four requests, because slots that were never used
  are not in the done state.
\<close>

theorem stream_accounts_for_plan:
  assumes "c < MAX_AP_CONTEXTS" and "\<And>t k. ks_wf k \<Longrightarrow> ap_rely c k (env t k)"
    and "ks_wf k" "length plan \<le> AP_REQUEST_HISTORY_COUNT" "BSP_WAIT_TIMER_TIMEOUT_STEP cfg \<noteq> 0"
  shows "\<exists>ok st. run_ap_request_stream cfg env c plan k = Some (ok, st) \<and>
    (let n = st_completed_count st; h = take n (history_of (st_kernel st) c) in
     (\<forall>i < AP_REQUEST_SLOT_COUNT. \<not> in_flight (slot_state (stream_slot st c i))) \<and>
     n \<le> length plan \<and> length h = n \<and>
     mset (map (\<lambda>e. plan_of_slot (hi_request e)) h) = mset (take n plan) \<and>
     (ok \<longrightarrow> AP_REQUEST_SLOT_COUNT \<le> n \<and> n = length plan \<and>
       (\<forall>e \<in> set h. slot_state (hi_request e) = AP_REQUEST_STATUS_DONE)))"
  using assms by (rule stream_accounts)

text \<open>An AP whose frames lie in the first interrupt stack of the third context.\<close>

definition example_faults :: fault_setup where
  "example_faults = \<lparr>fs_cpu_at = example_cpu_at, fs_frame_addr = 0x1020f00,
     fs_frame = (\<lambda>v. \<lparr>ff_vector = v, ff_error_code = 0, ff_rip = 0x1234, ff_cs = 8, ff_rflags = 2\<rparr>), fs_cr2 = 0\<rparr>"

lemma example_faults_context:
  "ap_context_from_fault_frame (fs_cpu_at example_faults) (fs_frame_addr example_faults) = 2"
proof -
  have "find (\<lambda>j. address_in_range 0x1020f00 (cpu_fault_stack_addr (example_cpu_at j)) CPU_FAULT_STACK_SIZE \<or>
      address_in_range 0x1020f00 (cpu_double_fault_stack_addr (example_cpu_at j)) CPU_FAULT_STACK_SIZE)
      [0..<MAX_AP_CONTEXTS] = Some 2"
    by code_simp
  then show ?thesis by (simp add: ap_context_from_fault_frame_def example_faults_def)
qed

theorem stream_accounts_for_plan_witness:
  "\<exists>ok st. run_ap_request_stream ud2_build
      (ap_side ud2_build \<lparr>sel_cs = 8, sel_tr = 24\<rparr> example_faults 2) 2
      [zero_plan\<lparr>pl_service_id := AP_REQUEST_SERVICE_PING\<rparr>] example_kernel = Some (ok, st) \<and>
    \<not> ok \<and> st_completed_count st \<le> 1"
proof -
  have rely: "ks_wf k \<Longrightarrow> ap_rely 2 k (ap_side ud2_build \<lparr>sel_cs = 8, sel_tr = 24\<rparr> example_faults 2 t k)" for t k
    using ap_loop_side.rely [where fs = example_faults] example_faults_context by simp
  have "2 < MAX_AP_CONTEXTS" "BSP_WAIT_TIMER_TIMEOUT_STEP ud2_build \<noteq> 0"
    by (simp_all add: ud2_build_def c_const)
  with stream_accounts_for_plan [OF _ rely example_kernel_wf, of "[zero_plan\<lparr>pl_service_id := AP_REQUEST_SERVICE_PING\<rparr>]"]
  show ?thesis by (fastforce simp: Let_def c_const)
qed

end
