(* ===== verification/Ap_Broadcast.thy ===== *)
theory Ap_Broadcast
  imports Ap_Guarantee
begin

text \<open>
  The broadcast ping of \<^verbatim>\<open>kernel/kernel.c\<close>: one ping to every AP that can take one, a wait
  for the answers with a time limit, and a summary; the counters of the AP that the request stream
  will use are put back afterwards. Also the initialisation of the AP contexts.
\<close>

section \<open>The summary\<close>

definition reset_ap_broadcast_ping_summary :: "kernel_state \<Rightarrow> kernel_state" where
  "reset_ap_broadcast_ping_summary k = k\<lparr>ks_broadcast_ping_summary := \<lparr>ps_planned_count = 0,
     ps_completed_count = 0, ps_ok_count = 0, ps_fail_count = 0,
     ps_entries = replicate MAX_AP_CONTEXTS \<lparr>pe_valid = 0, pe_apic_id = 0, pe_state = 0,
       pe_result_code = 0, pe_fault_code = 0, pe_wait_loops = 0\<rparr>\<rparr>\<rparr>"

definition ap_context_can_accept_broadcast_ping :: "kernel_state \<Rightarrow> nat \<Rightarrow> bool" where
  "ap_context_can_accept_broadcast_ping k c \<longleftrightarrow> bi_error (boot_of k c) = AP_BOOT_OK \<and>
     bi_online (boot_of k c) \<noteq> 0 \<and> bi_ap_state (boot_of k c) \<noteq> AP_BOOT_STATE_HALTED \<and>
     bi_ap_state (boot_of k c) \<noteq> AP_BOOT_STATE_FAULTED"

definition ap_broadcast_ping_result_ok :: "ap_request_slot_t \<Rightarrow> bool" where
  "ap_broadcast_ping_result_ok slot \<longleftrightarrow> slot_state slot = AP_REQUEST_STATUS_DONE \<and>
     rq_opcode (slot_request slot) = AP_REQUEST_OP_PING \<and>
     rq_service_id (slot_request slot) = AP_REQUEST_SERVICE_PING \<and>
     rq_interface_id (slot_request slot) = AP_REQUEST_INTERFACE_PING \<and>
     rp_result_code (slot_reply slot) = 0 \<and> rp_fault_code (slot_reply slot) = 0 \<and>
     rq_id_high (slot_request slot) = rp_request_id_high (slot_reply slot) \<and>
     rq_id_low (slot_request slot) = rp_request_id_low (slot_reply slot)"

definition record_ap_broadcast_ping_result ::
    "nat \<Rightarrow> nat \<Rightarrow> ap_request_slot_t \<Rightarrow> u32 \<Rightarrow> kernel_state \<Rightarrow> kernel_state" where
  "record_ap_broadcast_ping_result index c slot wait_loops k =
     (if index \<ge> MAX_AP_CONTEXTS then k
      else
        (let s = ks_broadcast_ping_summary k;
             s = s\<lparr>ps_entries := (ps_entries s)[index := \<lparr>pe_valid = 1,
                   pe_apic_id = bi_target_apic_id (boot_of k c), pe_state = slot_state slot,
                   pe_result_code = rp_result_code (slot_reply slot),
                   pe_fault_code = rp_fault_code (slot_reply slot), pe_wait_loops = wait_loops\<rparr>],
                 ps_completed_count := ps_completed_count s + 1\<rparr>;
             s = (if ap_broadcast_ping_result_ok slot then s\<lparr>ps_ok_count := ps_ok_count s + 1\<rparr>
                  else s\<lparr>ps_fail_count := ps_fail_count s + 1\<rparr>)
         in k\<lparr>ks_broadcast_ping_summary := s\<rparr>))"

definition timeout_ap_broadcast_ping_slot :: "build_config \<Rightarrow> ap_request_slot_t \<Rightarrow> ap_request_slot_t" where
  "timeout_ap_broadcast_ping_slot cfg slot =
     (let slot = slot\<lparr>slot_metrics := (slot_metrics slot)\<lparr>mt_wait_loops := AP_REQUEST_TIMEOUT_LOOPS cfg\<rparr>\<rparr>
      in if ap_request_state_finished (slot_state slot) then slot
         else case cmpxchg_u32 (slot_state slot) AP_REQUEST_STATUS_PENDING AP_REQUEST_STATUS_TIMEOUT of
           (True, state) \<Rightarrow> slot\<lparr>slot_state := state\<rparr>
         | (False, _) \<Rightarrow> slot\<lparr>slot_state := snd (cmpxchg_u32 (slot_state slot) AP_REQUEST_STATUS_RUNNING
                              AP_REQUEST_STATUS_TIMEOUT)\<rparr>)"

definition reset_ap_request_transport_observe :: "nat \<Rightarrow> kernel_state \<Rightarrow> kernel_state" where
  "reset_ap_request_transport_observe c = upd_ctx c (\<lambda>x. x\<lparr>
     ctx_interrupts := (ctx_interrupts x)\<lparr>io_kick_ipi := zero_trace, io_completion_ipi := zero_trace\<rparr>,
     ctx_request_kick_ipi_send_count := 0, ctx_request_kick_ipi_send_fail_count := 0,
     ctx_request_ipi_send_count := 0, ctx_request_ipi_send_fail_count := 0\<rparr>)"

section \<open>The broadcast\<close>

record ping_state =
  pg_kernel :: kernel_state
  pg_active :: "bool list"
  pg_active_count :: nat
  pg_wait_loops :: u32
  pg_time :: nat

definition broadcast_ping_plan :: "nat \<Rightarrow> ap_request_plan_t" where
  "broadcast_ping_plan i = \<lparr>pl_opcode = AP_REQUEST_OP_PING, pl_service_id = AP_REQUEST_SERVICE_PING,
     pl_interface_id = AP_REQUEST_INTERFACE_PING,
     pl_sequence = AP_BROADCAST_PING_SEQUENCE_BASE + word_of_nat i,
     pl_envelope = \<lparr>ev_parent_id_high = 0, ev_parent_id_low = 0, ev_reply_service_id = 0,
       ev_reply_interface_id = 0, ev_payload_addr = 0, ev_payload_len = 0, ev_flags = 0\<rparr>\<rparr>"

definition ping_tick :: "environment \<Rightarrow> ping_state \<Rightarrow> ping_state" where
  "ping_tick env st = st\<lparr>pg_kernel := env (pg_time st) (pg_kernel st), pg_time := Suc (pg_time st)\<rparr>"

definition ping_publish :: "nat \<Rightarrow> ping_state \<Rightarrow> ping_state" where
  "ping_publish i st =
     (if \<not> ap_context_can_accept_broadcast_ping (pg_kernel st) i then st
      else
        (let k = publish_ap_inbox_request i AP_BROADCAST_PING_SLOT_INDEX (broadcast_ping_plan i) False (pg_kernel st);
             s = ks_broadcast_ping_summary k
         in st\<lparr>pg_kernel := k\<lparr>ks_broadcast_ping_summary := s\<lparr>ps_planned_count := ps_planned_count s + 1\<rparr>\<rparr>,
               pg_active := (pg_active st)[i := True], pg_active_count := pg_active_count st + 1\<rparr>))"

definition ping_collect :: "environment \<Rightarrow> nat \<Rightarrow> ping_state \<Rightarrow> ping_state" where
  "ping_collect env i st =
     (let st = ping_tick env st; k = pg_kernel st in
      if \<not> pg_active st ! i then st
      else if \<not> ap_request_state_finished (slot_state (ap_inbox_slot k i AP_BROADCAST_PING_SLOT_INDEX)) then st
      else
        (let k = upd_slot i AP_BROADCAST_PING_SLOT_INDEX (\<lambda>s. s\<lparr>slot_metrics :=
                   (slot_metrics s)\<lparr>mt_wait_loops := pg_wait_loops st\<rparr>\<rparr>) k;
             k = record_ap_broadcast_ping_result i i (ap_inbox_slot k i AP_BROADCAST_PING_SLOT_INDEX)
                   (pg_wait_loops st) k
         in st\<lparr>pg_kernel := k, pg_active := (pg_active st)[i := False],
               pg_active_count := pg_active_count st - 1\<rparr>))"

definition ping_give_up :: "build_config \<Rightarrow> environment \<Rightarrow> nat \<Rightarrow> ping_state \<Rightarrow> ping_state" where
  "ping_give_up cfg env i st =
     (let st = ping_tick env st; k = pg_kernel st in
      if \<not> pg_active st ! i then st
      else
        (let k = upd_slot i AP_BROADCAST_PING_SLOT_INDEX (timeout_ap_broadcast_ping_slot cfg) k;
             k = record_ap_broadcast_ping_result i i (ap_inbox_slot k i AP_BROADCAST_PING_SLOT_INDEX)
                   (AP_REQUEST_TIMEOUT_LOOPS cfg) k
         in st\<lparr>pg_kernel := k, pg_active := (pg_active st)[i := False]\<rparr>))"

partial_function (option) ping_loop ::
    "build_config \<Rightarrow> environment \<Rightarrow> nat \<Rightarrow> ping_state \<Rightarrow> ping_state option" where
  "ping_loop cfg env context_count st =
     (if pg_active_count st > 0 \<and> pg_wait_loops st < AP_REQUEST_TIMEOUT_LOOPS cfg
      then
        (let st = fold (ping_collect env) [0..<context_count] st
         in if pg_active_count st = 0 then Some st
            else
              (let (step, k) = bsp_wait_for_ap_request_event cfg env (pg_time st) (pg_kernel st)
               in ping_loop cfg env context_count (st\<lparr>pg_kernel := k, pg_time := Suc (pg_time st),
                    pg_wait_loops := advance_ap_request_wait_loops cfg (pg_wait_loops st) step\<rparr>)))
      else Some st)"

definition run_ap_broadcast_ping ::
    "build_config \<Rightarrow> environment \<Rightarrow> nat \<Rightarrow> nat option \<Rightarrow> kernel_state \<Rightarrow> kernel_state option" where
  "run_ap_broadcast_ping cfg env context_count request_target k =
     (let target_handled_count = (case request_target of Some r \<Rightarrow> ctx_request_handled_count (ks_contexts k ! r) | None \<Rightarrow> 0);
          target_counter_value = (case request_target of Some r \<Rightarrow> ctx_counter_value (ks_contexts k ! r) | None \<Rightarrow> 0);
          k = reset_ap_broadcast_ping_summary k;
          context_count = (if context_count > MAX_AP_CONTEXTS then MAX_AP_CONTEXTS else context_count);
          st = \<lparr>pg_kernel = k, pg_active = replicate MAX_AP_CONTEXTS False, pg_active_count = 0,
                 pg_wait_loops = 0, pg_time = 0\<rparr>;
          st = fold ping_publish [0..<context_count] st
      in case ping_loop cfg env context_count st of
           None \<Rightarrow> None
         | Some st \<Rightarrow>
             (let st = (if pg_active_count st > 0 then fold (ping_give_up cfg env) [0..<context_count] st else st);
                  k = pg_kernel st;
                  k = k\<lparr>ks_bsp_lapic := bsp_disarm_wait_timer (ks_system_lapic_base k) (ks_bsp_lapic k)\<rparr>;
                  k = env (pg_time st) k
              in Some (case request_target of
                   None \<Rightarrow> k
                 | Some r \<Rightarrow> reset_ap_request_transport_observe r (upd_ctx r (\<lambda>x. x\<lparr>
                       ctx_request_handled_count := target_handled_count,
                       ctx_counter_value := target_counter_value\<rparr>) k))))"

section \<open>The interface of the APs\<close>

text \<open>What the BSP relies on from all APs together: ping slots are only answered, and the summary is its own.\<close>

definition ping_slot :: "kernel_state \<Rightarrow> nat \<Rightarrow> ap_request_slot_t" where
  "ping_slot k c = ap_inbox_slot k c AP_BROADCAST_PING_SLOT_INDEX"

definition fleet_rely :: "kernel_state \<Rightarrow> kernel_state \<Rightarrow> bool" where
  "fleet_rely k k' \<longleftrightarrow> ks_wf k' \<and> (\<forall>c < 8. slot_rely (ping_slot k c) (ping_slot k' c)) \<and>
     ks_broadcast_ping_summary k' = ks_broadcast_ping_summary k"

lemma fleet_rely_trans [trans]: "fleet_rely k k' \<Longrightarrow> fleet_rely k' k'' \<Longrightarrow> fleet_rely k k''"
  by (auto simp: fleet_rely_def intro: slot_rely_trans)

lemma fleet_rely_refl: "ks_wf k \<Longrightarrow> fleet_rely k k"
  by (simp add: fleet_rely_def)

lemma ap_rely_fleet:
  assumes "ap_rely c k k'"
  shows "fleet_rely k k'"
  using assms unfolding ap_rely_def fleet_rely_def others_same_def ping_slot_def AP_BROADCAST_PING_SLOT_INDEX_def ap_inbox_slot_def
  by (metis slot_rely_refl zero_less_numeral)

section \<open>The invariant of the broadcast\<close>

definition pinged :: "ping_state \<Rightarrow> nat set" where
  "pinged st = {i. i < 8 \<and> pg_active st ! i}"

definition answered_ok :: "nat set \<Rightarrow> kernel_state \<Rightarrow> nat set" where
  "answered_ok D k = {i \<in> D. ap_broadcast_ping_result_ok (ping_slot k i)}"

definition summary_holds :: "nat set \<Rightarrow> nat set \<Rightarrow> kernel_state \<Rightarrow> bool" where
  "summary_holds P D k \<longleftrightarrow> (let s = ks_broadcast_ping_summary k in
     ps_planned_count s = word_of_nat (card P) \<and> ps_completed_count s = word_of_nat (card D) \<and>
     ps_ok_count s = word_of_nat (card (answered_ok D k)) \<and>
     ps_fail_count s = word_of_nat (card (D - answered_ok D k)) \<and> length (ps_entries s) = 8 \<and>
     (\<forall>i < 8. if i \<in> D
        then pe_valid (ps_entries s ! i) = 1 \<and> pe_state (ps_entries s ! i) = slot_state (ping_slot k i) \<and>
          ap_request_state_finished (slot_state (ping_slot k i))
        else pe_valid (ps_entries s ! i) = 0))"

definition ping_inv :: "nat set \<Rightarrow> ping_state \<Rightarrow> bool" where
  "ping_inv P st \<longleftrightarrow> ks_wf (pg_kernel st) \<and> length (pg_active st) = 8 \<and> P \<subseteq> {..<8} \<and> pinged st \<subseteq> P \<and>
     summary_holds P (P - pinged st) (pg_kernel st) \<and>
     (\<forall>i \<in> pinged st. in_flight (slot_state (ping_slot (pg_kernel st) i)) \<or>
        ap_request_state_finished (slot_state (ping_slot (pg_kernel st) i)))"

lemma summary_holds_rely:
  assumes "fleet_rely k k'" "summary_holds P D k" "D \<subseteq> {..<8}"
  shows "summary_holds P D k'"
proof -
  have same: "ping_slot k' i = ping_slot k i" if "i \<in> D" for i
  proof -
    have "i < 8" "ap_request_state_finished (slot_state (ping_slot k i))"
      using assms(2,3) that by (auto simp: summary_holds_def Let_def)
    moreover from this have "\<not> in_flight (slot_state (ping_slot k i))" using state_facts(1) by blast
    ultimately show ?thesis using assms(1) by (simp add: fleet_rely_def slot_rely_def)
  qed
  then have "answered_ok D k' = answered_ok D k" by (auto simp: answered_ok_def)
  then show ?thesis using assms(1,2) same by (auto simp: summary_holds_def Let_def fleet_rely_def)
qed

lemma ping_inv_rely:
  assumes "ping_inv P st" "fleet_rely (pg_kernel st) k'"
  shows "ping_inv P (st\<lparr>pg_kernel := k'\<rparr>)"
proof -
  let ?k = "pg_kernel st"
  have "in_flight (slot_state (ping_slot k' i)) \<or> ap_request_state_finished (slot_state (ping_slot k' i))"
    if "i \<in> pinged st" for i
  proof -
    have "slot_rely (ping_slot ?k i) (ping_slot k' i)"
      "in_flight (slot_state (ping_slot ?k i)) \<or> ap_request_state_finished (slot_state (ping_slot ?k i))"
      using assms that by (auto simp: ping_inv_def fleet_rely_def pinged_def)
    then show ?thesis by (auto simp: slot_rely_def state_facts split: if_splits)
  qed
  moreover have "summary_holds P (P - pinged st) k'"
    by (rule summary_holds_rely [OF assms(2)]) (use assms(1) in \<open>auto simp: ping_inv_def\<close>)
  ultimately show ?thesis
    using assms by (simp add: ping_inv_def pinged_def fleet_rely_def)
qed

lemma ping_inv_ignores [simp]:
  "ping_inv P (st\<lparr>pg_time := t\<rparr>) = ping_inv P st" "ping_inv P (st\<lparr>pg_wait_loops := w\<rparr>) = ping_inv P st"
  "ping_inv P (st\<lparr>pg_active_count := n\<rparr>) = ping_inv P st"
  "pinged (st\<lparr>pg_time := t\<rparr>) = pinged st" "pinged (st\<lparr>pg_wait_loops := w\<rparr>) = pinged st"
  "pinged (st\<lparr>pg_active_count := n\<rparr>) = pinged st" "pinged (st\<lparr>pg_kernel := k\<rparr>) = pinged st"
  by (simp_all add: ping_inv_def pinged_def)

text \<open>Recording the answer of one AP.\<close>

lemma record_ping_view [simp]:
  "ping_slot (record_ap_broadcast_ping_result i c s w k) j = ping_slot k j"
  "boot_of (record_ap_broadcast_ping_result i c s w k) d = boot_of k d"
  "ks_wf (record_ap_broadcast_ping_result i c s w k) = ks_wf k"
  by (simp_all add: record_ap_broadcast_ping_result_def Let_def ping_slot_def ap_inbox_slot_def boot_of_def ks_wf_def)

lemma record_ping_inv:
  assumes inv: "ping_inv P st" and i: "i \<in> pinged st"
    and k: "k = upd_slot i AP_BROADCAST_PING_SLOT_INDEX f (pg_kernel st)"
    and f: "ap_request_state_finished (slot_state (f (ping_slot (pg_kernel st) i)))"
  shows "ping_inv P (st\<lparr>pg_kernel := record_ap_broadcast_ping_result i i (ping_slot k i) w k,
    pg_active := (pg_active st)[i := False]\<rparr>)"
    and "pinged (st\<lparr>pg_kernel := k', pg_active := (pg_active st)[i := False]\<rparr>) = pinged st - {i}"
proof -
  let ?k' = "record_ap_broadcast_ping_result i i (ping_slot k i) w k" and ?D = "P - pinged st" and ?s = "ping_slot k i"
  let ?st' = "st\<lparr>pg_kernel := ?k', pg_active := (pg_active st)[i := False]\<rparr>"
  have wf: "ks_wf (pg_kernel st)" and len: "length (pg_active st) = 8" and P: "P \<subseteq> {..<8}" "pinged st \<subseteq> P"
    and sum: "summary_holds P ?D (pg_kernel st)" using inv by (auto simp: ping_inv_def)
  have i8: "i < 8" and fin: "finite P" using i P by (auto simp: pinged_def intro: finite_subset)
  show act: "pinged (st\<lparr>pg_kernel := k', pg_active := (pg_active st)[i := False]\<rparr>) = pinged st - {i}" for k'
    using len i8 by (auto simp: pinged_def nth_list_update split: if_splits)
  have wfk: "ks_wf k" using k wf i8 by auto
  have slots: "ping_slot k j = (if j = i then f (ping_slot (pg_kernel st) i) else ping_slot (pg_kernel st) j)" for j
    using wf i8 by (simp add: k ping_slot_def AP_BROADCAST_PING_SLOT_INDEX_def ks_view)
  have sumk: "ks_broadcast_ping_summary k = ks_broadcast_ping_summary (pg_kernel st)"
    by (simp add: k upd_defs ks_view)
  have D: "P - (pinged st - {i}) = insert i ?D" "i \<notin> ?D" "finite ?D" using i P fin by auto
  let ?ok = "answered_ok ?D (pg_kernel st)"
  have ok: "answered_ok (insert i ?D) ?k' = (if ap_broadcast_ping_result_ok ?s then insert i ?ok else ?ok)"
    "i \<notin> ?ok" "?ok \<subseteq> ?D"
    using i P(2) by (auto simp: answered_ok_def slots split: if_splits)
  have fok: "finite ?ok" using finite_subset [OF ok(3) D(3)] .
  have s': "ks_broadcast_ping_summary ?k' = (let s = ks_broadcast_ping_summary (pg_kernel st);
      s = s\<lparr>ps_entries := (ps_entries s)[i := \<lparr>pe_valid = 1, pe_apic_id = bi_target_apic_id (boot_of k i),
             pe_state = slot_state ?s, pe_result_code = rp_result_code (slot_reply ?s),
             pe_fault_code = rp_fault_code (slot_reply ?s), pe_wait_loops = w\<rparr>],
           ps_completed_count := ps_completed_count s + 1\<rparr>
      in if ap_broadcast_ping_result_ok ?s then s\<lparr>ps_ok_count := ps_ok_count s + 1\<rparr>
         else s\<lparr>ps_fail_count := ps_fail_count s + 1\<rparr>)"
    using i8 by (simp add: record_ap_broadcast_ping_result_def sumk MAX_AP_CONTEXTS_def Let_def)
  have minus: "insert i ?D - insert i ?ok = ?D - ?ok" "insert i ?D - ?ok = insert i (?D - ?ok)" using D(2) ok(2) by auto
  have entries: "\<forall>j < 8. if j \<in> insert i ?D
      then pe_valid (ps_entries (ks_broadcast_ping_summary ?k') ! j) = 1 \<and>
        pe_state (ps_entries (ks_broadcast_ping_summary ?k') ! j) = slot_state (ping_slot ?k' j) \<and>
        ap_request_state_finished (slot_state (ping_slot ?k' j))
      else pe_valid (ps_entries (ks_broadcast_ping_summary ?k') ! j) = 0"
    using sum i8 f unfolding s' summary_holds_def Let_def
    by (simp add: nth_list_update slots del: insert_iff) (auto simp: D(2))
  have "ps_planned_count (ks_broadcast_ping_summary ?k') = word_of_nat (card P)"
    "ps_completed_count (ks_broadcast_ping_summary ?k') = word_of_nat (card (insert i ?D))"
    "ps_ok_count (ks_broadcast_ping_summary ?k') = word_of_nat (card (answered_ok (insert i ?D) ?k'))"
    "ps_fail_count (ks_broadcast_ping_summary ?k') = word_of_nat (card (insert i ?D - answered_ok (insert i ?D) ?k'))"
    "length (ps_entries (ks_broadcast_ping_summary ?k')) = 8"
    using sum D(2,3) ok(2) fok unfolding ok(1) s' summary_holds_def Let_def by (simp_all add: minus)
  with entries have "summary_holds P (insert i ?D) ?k'" unfolding summary_holds_def Let_def by blast
  then show "ping_inv P ?st'"
    using inv wfk D(1) unfolding ping_inv_def act
    by (auto simp: slots)
qed

section \<open>The broadcast under the contract\<close>

text \<open>The number of APs still waited for is the number of active entries.\<close>

definition counted :: "nat set \<Rightarrow> ping_state \<Rightarrow> bool" where
  "counted P st \<longleftrightarrow> ping_inv P st \<and> pg_active_count st = card (pinged st)"

locale ap_fleet =
  fixes env :: environment
  assumes fleet: "ks_wf k \<Longrightarrow> fleet_rely k (env t k)"
begin

lemma ping_tick_inv:
  assumes "ping_inv P st"
  shows "ping_inv P (ping_tick env st)" "pinged (ping_tick env st) = pinged st"
    "pg_active (ping_tick env st) = pg_active st" "pg_active_count (ping_tick env st) = pg_active_count st"
    "pg_wait_loops (ping_tick env st) = pg_wait_loops st"
proof -
  have "ks_wf (pg_kernel st)" using assms by (simp add: ping_inv_def)
  then show "ping_inv P (ping_tick env st)"
    unfolding ping_tick_def using ping_inv_rely [OF assms fleet] by simp
qed (simp_all add: ping_tick_def)

lemma ping_collect_inv:
  assumes "counted P st" "i < 8"
  shows "counted P (ping_collect env i st)" "pg_wait_loops (ping_collect env i st) = pg_wait_loops st"
proof -
  let ?st = "ping_tick env st"
  let ?k = "upd_slot i AP_BROADCAST_PING_SLOT_INDEX
    (\<lambda>s. s\<lparr>slot_metrics := (slot_metrics s)\<lparr>mt_wait_loops := pg_wait_loops ?st\<rparr>\<rparr>) (pg_kernel ?st)"
  have inv: "ping_inv P st" and cnt: "pg_active_count st = card (pinged st)" using assms(1) by (simp_all add: counted_def)
  note tick = ping_tick_inv [OF inv]
  have "counted P (ping_collect env i st) \<and> pg_wait_loops (ping_collect env i st) = pg_wait_loops st"
  proof (cases "pg_active ?st ! i \<and> ap_request_state_finished (slot_state (ping_slot (pg_kernel ?st) i))")
    case False
    then have "ping_collect env i st = ?st" by (auto simp: ping_collect_def Let_def ping_slot_def)
    then show ?thesis using tick cnt by (simp add: counted_def)
  next
    case True
    have i: "i \<in> pinged ?st" using True assms(2) by (simp add: pinged_def)
    let ?f = "\<lambda>s :: ap_request_slot_t. s\<lparr>slot_metrics := (slot_metrics s)\<lparr>mt_wait_loops := pg_wait_loops ?st\<rparr>\<rparr>"
    have "ap_request_state_finished (slot_state (?f (ping_slot (pg_kernel ?st) i)))" using True by simp
    note r = record_ping_inv [where f = ?f, OF tick(1) i refl this]
    have "ping_collect env i st = ?st\<lparr>pg_kernel := record_ap_broadcast_ping_result i i (ping_slot ?k i) (pg_wait_loops ?st) ?k,
        pg_active := (pg_active ?st)[i := False], pg_active_count := pg_active_count ?st - 1\<rparr>"
      using True by (simp add: ping_collect_def Let_def ping_slot_def)
    moreover have "card (pinged ?st - {i}) = card (pinged ?st) - 1" using i by simp
    ultimately show ?thesis
      using r tick cnt by (simp add: counted_def)
  qed
  then show "counted P (ping_collect env i st)" "pg_wait_loops (ping_collect env i st) = pg_wait_loops st" by blast+
qed

lemma ping_pass_inv:
  assumes "counted P st" "\<forall>i \<in> set is. i < 8"
  shows "counted P (fold (ping_collect env) is st) \<and> pg_wait_loops (fold (ping_collect env) is st) = pg_wait_loops st"
  using assms by (induction "is" arbitrary: st) (auto simp: ping_collect_inv)

lemma ping_give_up_inv:
  assumes "ping_inv P st" "i < 8"
  shows "ping_inv P (ping_give_up cfg env i st) \<and> pinged (ping_give_up cfg env i st) = pinged st - {i}"
proof -
  let ?st = "ping_tick env st"
  let ?k = "upd_slot i AP_BROADCAST_PING_SLOT_INDEX (timeout_ap_broadcast_ping_slot cfg) (pg_kernel ?st)"
  note tick = ping_tick_inv [OF assms(1)]
  show ?thesis
  proof (cases "i \<in> pinged ?st")
    case False
    then show ?thesis using tick assms(2) by (auto simp: ping_give_up_def Let_def pinged_def)
  next
    case True
    have "in_flight (slot_state (ping_slot (pg_kernel ?st) i)) \<or> ap_request_state_finished (slot_state (ping_slot (pg_kernel ?st) i))"
      using tick(1) True by (simp add: ping_inv_def)
    then have "ap_request_state_finished (slot_state (timeout_ap_broadcast_ping_slot cfg (ping_slot (pg_kernel ?st) i)))"
      by (cases "slot_state (ping_slot (pg_kernel ?st) i) = AP_REQUEST_STATUS_PENDING")
        (auto simp: timeout_ap_broadcast_ping_slot_def Let_def in_flight_def state_facts)
    moreover have "ping_give_up cfg env i st = ?st\<lparr>pg_kernel :=
        record_ap_broadcast_ping_result i i (ping_slot ?k i) (AP_REQUEST_TIMEOUT_LOOPS cfg) ?k,
        pg_active := (pg_active ?st)[i := False]\<rparr>"
      using True by (simp add: ping_give_up_def Let_def ping_slot_def pinged_def)
    ultimately show ?thesis
      using record_ping_inv [OF tick(1) True refl, of "timeout_ap_broadcast_ping_slot cfg"] tick(2) by simp
  qed
qed

lemma ping_give_up_all:
  assumes "ping_inv P st" "n \<le> 8"
  shows "ping_inv P (fold (ping_give_up cfg env) [0..<n] st) \<and>
    pinged (fold (ping_give_up cfg env) [0..<n] st) = pinged st - {..<n}"
  using assms(2)
proof (induction n)
  case (Suc n)
  then show ?case using ping_give_up_inv [of P _ n cfg] by auto
qed (use assms in simp)

lemma ping_wait_inv:
  assumes inv: "counted P st" and step: "BSP_WAIT_TIMER_TIMEOUT_STEP cfg \<noteq> 0"
    and wait: "bsp_wait_for_ap_request_event cfg env (pg_time st) (pg_kernel st) = (n, k')"
  shows "n \<noteq> 0" "counted P (st\<lparr>pg_kernel := k'\<rparr>)"
proof -
  show "n \<noteq> 0" using wait step
    by (auto simp: bsp_wait_for_ap_request_event_def Let_def split: if_splits bool.splits prod.splits)
  have loc: "fleet_rely k (k\<lparr>ks_bsp_lapic := l, ks_bsp_wait_observe := w\<rparr>)" if "ks_wf k" for k l w
    using that by (simp add: fleet_rely_def ks_wf_def ping_slot_def ap_inbox_slot_def)
  have wf: "ks_wf (pg_kernel st)" using inv by (simp add: counted_def ping_inv_def)
  have wfs: "fleet_rely k k' \<Longrightarrow> ks_wf k'" for k k' by (simp add: fleet_rely_def)
  have "fleet_rely (pg_kernel st) k'"
  proof (cases "bsp_arm_wait_timer (ks_system_lapic_base (pg_kernel st)) (ks_bsp_lapic (pg_kernel st))")
    case (Pair armed l)
    show ?thesis
    proof (cases armed)
      case False
      then show ?thesis using wait Pair fleet [OF wf] by (auto simp: bsp_wait_for_ap_request_event_def)
    next
      case True
      let ?k = "(pg_kernel st)\<lparr>ks_bsp_lapic := l, ks_bsp_wait_observe := (ks_bsp_wait_observe (pg_kernel st))\<lparr>
        wo_halt_count := wo_halt_count (ks_bsp_wait_observe (pg_kernel st)) + 1\<rparr>\<rparr>"
      have r: "fleet_rely (pg_kernel st) (env (pg_time st) ?k)"
        using loc [OF wf] fleet [OF wfs [OF loc [OF wf]]] fleet_rely_trans by blast
      show ?thesis
        using fleet_rely_trans [OF r loc [OF wfs [OF r]]] wait Pair True
        by (auto simp: bsp_wait_for_ap_request_event_def Let_def)
    qed
  qed
  then show "counted P (st\<lparr>pg_kernel := k'\<rparr>)" using inv ping_inv_rely by (simp add: counted_def)
qed

lemma ping_loop_returns:
  assumes step: "BSP_WAIT_TIMER_TIMEOUT_STEP cfg \<noteq> 0" and n: "n \<le> 8" and start: "counted P st"
  shows "\<exists>st'. ping_loop cfg env n st = Some st' \<and> counted P st'"
  using start
proof (induction "unat (AP_REQUEST_TIMEOUT_LOOPS cfg) - unat (pg_wait_loops st)" arbitrary: st rule: less_induct)
  case less
  let ?st = "fold (ping_collect env) [0..<n] st"
  have pass: "counted P ?st" "pg_wait_loops ?st = pg_wait_loops st" using ping_pass_inv [OF less.prems] n by auto
  obtain m k' where wait: "bsp_wait_for_ap_request_event cfg env (pg_time ?st) (pg_kernel ?st) = (m, k')" by force
  note w = ping_wait_inv [OF pass(1) step wait]
  show ?case
  proof (cases "pg_active_count st > 0 \<and> pg_wait_loops st < AP_REQUEST_TIMEOUT_LOOPS cfg \<and> pg_active_count ?st \<noteq> 0")
    case True
    let ?st' = "?st\<lparr>pg_kernel := k', pg_time := Suc (pg_time ?st),
      pg_wait_loops := advance_ap_request_wait_loops cfg (pg_wait_loops ?st) m\<rparr>"
    have "counted P ?st'" using w(2) by (simp add: counted_def)
    then show ?thesis
      using less.hyps [of ?st'] True advance_bounds(1) [of "pg_wait_loops st" cfg m] w(1) wait pass(2)
      by (simp add: ping_loop.simps [of cfg env n st] Let_def)
  next
    case False
    then show ?thesis using less.prems pass by (auto simp: ping_loop.simps [of cfg env n st] Let_def)
  qed
qed


lemma broadcast_returns:
  assumes step: "BSP_WAIT_TIMER_TIMEOUT_STEP cfg \<noteq> 0" and n: "n \<le> 8" and start: "counted P st"
    and P: "P \<subseteq> {..<n}"
  shows "\<exists>st'. ping_loop cfg env n st = Some st' \<and> (let st'' = (if pg_active_count st' > 0
    then fold (ping_give_up cfg env) [0..<n] st' else st') in ping_inv P st'' \<and> pinged st'' = {})"
proof -
  obtain st' where st': "ping_loop cfg env n st = Some st'" "counted P st'"
    using ping_loop_returns [OF step n start] by blast
  have "pinged st' \<subseteq> {..<n}" "finite (pinged st')" using st'(2) P by (auto simp: counted_def ping_inv_def pinged_def)
  then show ?thesis
    using st' ping_give_up_all [of P st' n cfg] n by (auto simp: counted_def Let_def)
qed

end

section \<open>The first phase\<close>

lemma others_same_publish [simp]:
  "others_same c k (publish_ap_inbox_request c i p False k') = others_same c k k'"
  by (simp add: publish_ap_inbox_request_def reset_ap_inbox_slot_def Let_def)

lemma publish_quiet_boot:
  assumes "ks_wf k" "c < 8" "i < 4"
  shows "boot_of (publish_ap_inbox_request c i p False k) d = boot_of k d"
proof -
  define k1 where "k1 = upd_slot c i (\<lambda>s. prepare_ap_request_slot_from_plan s (ap_context_index c + 1) p)
    (reset_ap_inbox_slot c i k)"
  have "ks_wf k1" "boot_of k1 d = boot_of k d" unfolding k1_def using assms by (simp_all add: ks_view ks_wf_upd)
  then show ?thesis
    using assms by (simp add: publish_ap_inbox_request_def Let_def k1_def [symmetric] ks_view)
qed

definition ping_targets :: "kernel_state \<Rightarrow> nat \<Rightarrow> nat set" where
  "ping_targets k n = {i. i < n \<and> ap_context_can_accept_broadcast_ping k i}"

lemma summary_holds_nothing:
  "summary_holds P {} k \<longleftrightarrow> (let s = ks_broadcast_ping_summary k in ps_planned_count s = word_of_nat (card P) \<and>
     ps_completed_count s = 0 \<and> ps_ok_count s = 0 \<and> ps_fail_count s = 0 \<and> length (ps_entries s) = 8 \<and>
     (\<forall>i < 8. pe_valid (ps_entries s ! i) = 0))"
  by (simp add: summary_holds_def answered_ok_def Let_def)

lemma ping_publish_step:
  assumes inv: "ping_inv P st" "pinged st = P" "pg_active_count st = card P" and n: "n < 8" "n \<notin> P"
    and boots: "\<forall>d. boot_of (pg_kernel st) d = boot_of k d"
  defines "P' \<equiv> if ap_context_can_accept_broadcast_ping k n then insert n P else P"
  shows "ping_inv P' (ping_publish n st) \<and> pinged (ping_publish n st) = P' \<and>
    pg_active_count (ping_publish n st) = card P' \<and> pg_wait_loops (ping_publish n st) = pg_wait_loops st \<and>
    (\<forall>d. boot_of (pg_kernel (ping_publish n st)) d = boot_of k d)"
proof (cases "ap_context_can_accept_broadcast_ping k n")
  case False
  moreover from this have "\<not> ap_context_can_accept_broadcast_ping (pg_kernel st) n"
    using boots by (simp add: ap_context_can_accept_broadcast_ping_def)
  ultimately show ?thesis using inv boots by (simp add: P'_def ping_publish_def)
next
  case True
  then have acc: "ap_context_can_accept_broadcast_ping (pg_kernel st) n"
    using boots by (simp add: ap_context_can_accept_broadcast_ping_def)
  define k1 where "k1 = publish_ap_inbox_request n AP_BROADCAST_PING_SLOT_INDEX (broadcast_ping_plan n) False (pg_kernel st)"
  define k2 where "k2 = k1\<lparr>ks_broadcast_ping_summary := (ks_broadcast_ping_summary k1)\<lparr>
    ps_planned_count := ps_planned_count (ks_broadcast_ping_summary k1) + 1\<rparr>\<rparr>"
  have slot0: "AP_BROADCAST_PING_SLOT_INDEX < 4" by (simp add: AP_BROADCAST_PING_SLOT_INDEX_def)
  have wf: "ks_wf (pg_kernel st)" and len: "length (pg_active st) = 8" and P: "P \<subseteq> {..<8}" "finite P"
    and sum: "summary_holds P {} (pg_kernel st)"
    using inv by (auto simp: ping_inv_def intro: finite_subset)
  note pub = publish_view [OF wf n(1) slot0, where p = "broadcast_ping_plan n" and kick = False, folded k1_def]
  have same: "others_same n (pg_kernel st) k1" by (simp add: k1_def)
  have pings: "ping_slot k2 j = ping_slot k1 j" "boot_of k2 j = boot_of k1 j" "ks_wf k2 = ks_wf k1" for j
    by (simp_all add: k2_def ping_slot_def ap_inbox_slot_def boot_of_def ks_wf_def)
  have others: "ping_slot k1 j = ping_slot (pg_kernel st) j" if "j \<noteq> n" for j
    using same that by (simp add: others_same_def ping_slot_def ap_inbox_slot_def)
  have boot1: "boot_of k1 d = boot_of k d" for d
    using publish_quiet_boot [OF wf n(1) slot0] boots by (simp add: k1_def)
  have run: "ping_publish n st = st\<lparr>pg_kernel := k2, pg_active := (pg_active st)[n := True],
      pg_active_count := pg_active_count st + 1\<rparr>"
    using acc by (simp add: ping_publish_def Let_def k1_def [symmetric] k2_def)
  have act: "pinged (ping_publish n st) = insert n P"
    using len n(1) inv(2) by (auto simp: run pinged_def nth_list_update split: if_splits)
  have "summary_holds (insert n P) {} k2"
    using sum same n(2) P(2) by (simp add: summary_holds_nothing Let_def k2_def others_same_def)
  moreover have "in_flight (slot_state (ping_slot k1 i)) \<or> ap_request_state_finished (slot_state (ping_slot k1 i))"
    if "i \<in> insert n P" for i
    using that inv others [of i] pub(5) by (cases "i = n") (auto simp: ping_inv_def ping_slot_def)
  ultimately have "ping_inv (insert n P) (ping_publish n st)"
    using act pub(1) len P n(1) unfolding ping_inv_def by (simp add: run pings)
  then show ?thesis using True act inv(3) n(2) P(2) boot1 by (simp add: P'_def run pings)
qed

lemma ping_publish_all:
  assumes "ping_inv {} st" "pinged st = {}" "pg_active_count st = 0" "n \<le> 8"
    and "\<forall>d. boot_of (pg_kernel st) d = boot_of k d"
  shows "ping_inv (ping_targets k n) (fold ping_publish [0..<n] st) \<and> pinged (fold ping_publish [0..<n] st) = ping_targets k n \<and>
    pg_active_count (fold ping_publish [0..<n] st) = card (ping_targets k n) \<and>
    (\<forall>d. boot_of (pg_kernel (fold ping_publish [0..<n] st)) d = boot_of k d)"
  using assms(4)
proof (induction n)
  case 0
  then show ?case using assms by (simp add: ping_targets_def)
next
  case (Suc n)
  have "ping_targets k (Suc n) = (if ap_context_can_accept_broadcast_ping k n
      then insert n (ping_targets k n) else ping_targets k n)"
    by (auto simp: ping_targets_def less_Suc_eq)
  moreover have "n \<notin> ping_targets k n" by (simp add: ping_targets_def)
  ultimately show ?case
    using Suc ping_publish_step [of "ping_targets k n" "fold ping_publish [0..<n] st" n k] by simp
qed

section \<open>A fleet of request loops\<close>

text \<open>
  Several APs, each given by the set-up of its fault entry, take their turns between two looks of
  the BSP.
\<close>

definition fleet_side :: "build_config \<Rightarrow> cpu_selectors \<Rightarrow> fault_setup list \<Rightarrow> environment" where
  "fleet_side cfg sel fss t k =
     fold (\<lambda>fs. ap_side cfg sel fs (ap_context_from_fault_frame (fs_cpu_at fs) (fs_frame_addr fs)) t) fss k"

lemma fleet_side_rely: "ks_wf k \<Longrightarrow> fleet_rely k (fleet_side cfg sel fss t k)"
proof (induction fss arbitrary: k)
  case Nil
  then show ?case by (simp add: fleet_side_def fleet_rely_refl)
next
  case (Cons fs fss)
  let ?k = "ap_side cfg sel fs (ap_context_from_fault_frame (fs_cpu_at fs) (fs_frame_addr fs)) t k"
  have "fleet_rely k ?k" using ap_rely_fleet [OF ap_loop_side.rely [OF Cons.prems]] .
  moreover have "fleet_rely ?k (fleet_side cfg sel fss t ?k)"
    using Cons.IH calculation by (simp add: fleet_rely_def [of k])
  ultimately show ?case by (simp add: fleet_side_def) (rule fleet_rely_trans)
qed

interpretation fleet: ap_fleet "fleet_side cfg sel fss"
  by unfold_locales (rule fleet_side_rely)

section \<open>Properties\<close>

lemma broadcast_start:
  assumes wf: "ks_wf k" and m: "m \<le> 8"
  shows "counted (ping_targets k m) (fold ping_publish [0..<m] \<lparr>pg_kernel = reset_ap_broadcast_ping_summary k,
    pg_active = replicate MAX_AP_CONTEXTS False, pg_active_count = 0, pg_wait_loops = 0, pg_time = 0\<rparr>)"
proof -
  let ?st = "\<lparr>pg_kernel = reset_ap_broadcast_ping_summary k, pg_active = replicate MAX_AP_CONTEXTS False,
    pg_active_count = 0, pg_wait_loops = 0, pg_time = 0\<rparr>"
  have st: "pinged ?st = {}" "\<forall>d. boot_of (pg_kernel ?st) d = boot_of k d"
    by (auto simp: pinged_def reset_ap_broadcast_ping_summary_def boot_of_def MAX_AP_CONTEXTS_def)
  have "ks_wf (pg_kernel ?st)" using wf by (simp add: reset_ap_broadcast_ping_summary_def ks_wf_def)
  then have "ping_inv {} ?st"
    using st(1) by (simp add: ping_inv_def summary_holds_nothing reset_ap_broadcast_ping_summary_def MAX_AP_CONTEXTS_def Let_def)
  from ping_publish_all [OF this st(1) _ m st(2)] show ?thesis by (simp add: counted_def)
qed

lemma target_restored:
  fixes k :: kernel_state and r :: nat and h n :: u32
  assumes wf: "ks_wf k" and r: "r < 8"
  defines "k' \<equiv> reset_ap_request_transport_observe r (upd_ctx r (\<lambda>x. x\<lparr>ctx_request_handled_count := h,
    ctx_counter_value := n\<rparr>) k)"
  shows "handled_of k' r = h" "counter_of k' r = n" "ping_slot k' i = ping_slot k i"
    "ks_broadcast_ping_summary k' = ks_broadcast_ping_summary k"
  using ks_wf_lengths(1) [OF wf] r
  by (auto simp: k'_def reset_ap_request_transport_observe_def handled_of_def counter_of_def ping_slot_def
      ap_inbox_slot_def ks_view upd_ctx_compose)

lemma broadcast_ping_run:
  assumes "ks_wf k" and "\<And>t k. ks_wf k \<Longrightarrow> fleet_rely k (env t k)"
    and "BSP_WAIT_TIMER_TIMEOUT_STEP cfg \<noteq> 0" and "\<And>r. target = Some r \<Longrightarrow> r < MAX_AP_CONTEXTS"
  shows "\<exists>k'. run_ap_broadcast_ping cfg env n target k = Some k' \<and> ks_wf k' \<and>
    (let P = ping_targets k (min n MAX_AP_CONTEXTS); s = ks_broadcast_ping_summary k';
         good = {i \<in> P. ap_broadcast_ping_result_ok (ping_slot k' i)} in
     ps_planned_count s = word_of_nat (card P) \<and> ps_completed_count s = word_of_nat (card P) \<and>
     ps_ok_count s = word_of_nat (card good) \<and> ps_fail_count s = word_of_nat (card (P - good)) \<and>
     (\<forall>i < MAX_AP_CONTEXTS. if i \<in> P
        then pe_valid (ps_entries s ! i) = 1 \<and> pe_state (ps_entries s ! i) = slot_state (ping_slot k' i) \<and>
          ap_request_state_finished (slot_state (ping_slot k' i))
        else pe_valid (ps_entries s ! i) = 0)) \<and>
    (case target of None \<Rightarrow> True
     | Some r \<Rightarrow> handled_of k' r = handled_of k r \<and> counter_of k' r = counter_of k r)"
proof -
  have env: "ap_fleet env" by unfold_locales (rule assms(2))
  define m where "m = min n MAX_AP_CONTEXTS"
  have m: "m \<le> 8" "(if n > MAX_AP_CONTEXTS then MAX_AP_CONTEXTS else n) = m" by (auto simp: m_def c_const)
  let ?P = "ping_targets k m"
  let ?st = "\<lparr>pg_kernel = reset_ap_broadcast_ping_summary k, pg_active = replicate MAX_AP_CONTEXTS False,
    pg_active_count = 0, pg_wait_loops = 0, pg_time = 0\<rparr>"
  have P: "?P \<subseteq> {..<m}" by (auto simp: ping_targets_def)
  obtain st1 where loop: "ping_loop cfg env m (fold ping_publish [0..<m] ?st) = Some st1"
    and end': "let st'' = (if pg_active_count st1 > 0 then fold (ping_give_up cfg env) [0..<m] st1 else st1)
      in ping_inv ?P st'' \<and> pinged st'' = {}"
    using ap_fleet.broadcast_returns [OF env assms(3) m(1) broadcast_start [OF assms(1) m(1)] P] by blast
  define st2 where "st2 = (if pg_active_count st1 > 0 then fold (ping_give_up cfg env) [0..<m] st1 else st1)"
  have st2: "st2 = (if pg_active_count st1 > 0 then fold (ping_give_up cfg env) [0..<m] st1 else st1)"
    "ping_inv ?P st2" "pinged st2 = {}"
    using end' by (simp_all add: Let_def st2_def)
  define k1 where "k1 = env (pg_time st2) ((pg_kernel st2)\<lparr>ks_bsp_lapic :=
    bsp_disarm_wait_timer (ks_system_lapic_base (pg_kernel st2)) (ks_bsp_lapic (pg_kernel st2))\<rparr>)"
  define k' where "k' = (case target of None \<Rightarrow> k1 | Some r \<Rightarrow> reset_ap_request_transport_observe r (upd_ctx r (\<lambda>x. x\<lparr>
    ctx_request_handled_count := handled_of k r, ctx_counter_value := counter_of k r\<rparr>) k1))"
  have run: "run_ap_broadcast_ping cfg env n target k = Some k'"
    using loop unfolding run_ap_broadcast_ping_def m(2) Let_def
    by (cases target) (simp_all add: k'_def k1_def st2(1) [symmetric] handled_of_def counter_of_def)
  have "fleet_rely (pg_kernel st2) ((pg_kernel st2)\<lparr>ks_bsp_lapic := l\<rparr>)" for l
    using st2(2) by (simp add: ping_inv_def fleet_rely_def ks_wf_def ping_slot_def ap_inbox_slot_def)
  then have r1: "fleet_rely (pg_kernel st2) k1"
    unfolding k1_def using assms(2) fleet_rely_trans by (metis fleet_rely_def)
  then have wf1: "ks_wf k1" by (simp add: fleet_rely_def)
  have "summary_holds ?P ?P k1"
    using summary_holds_rely [OF r1] st2(2,3) by (simp add: ping_inv_def)
  moreover have "ping_slot k' i = ping_slot k1 i" "ks_broadcast_ping_summary k' = ks_broadcast_ping_summary k1" for i
    using target_restored [OF wf1] assms(4) by (auto simp: k'_def MAX_AP_CONTEXTS_def split: option.split)
  ultimately have "summary_holds ?P ?P k'" by (simp add: summary_holds_def answered_ok_def cong: if_cong)
  moreover have "case target of None \<Rightarrow> True
     | Some r \<Rightarrow> handled_of k' r = handled_of k r \<and> counter_of k' r = counter_of k r"
    using target_restored(1,2) [OF wf1] assms(4) by (auto simp: k'_def MAX_AP_CONTEXTS_def split: option.split)
  moreover have "ks_wf k'"
    using wf1 assms(4) by (auto simp: k'_def reset_ap_request_transport_observe_def context_wf_def MAX_AP_CONTEXTS_def
        split: option.split intro!: ks_wf_upd_ctx)
  ultimately show ?thesis
    using run by (auto simp: summary_holds_def answered_ok_def Let_def MAX_AP_CONTEXTS_def m_def)
qed

text \<open>
  C22. The broadcast ping returns and its summary is true, whatever the APs do within their side
  of the protocol: exactly the APs that could take a ping are planned and recorded, once each; the entry
  of each shows the final state of its ping slot, which is answered, skipped or timed out; the successes
  are exactly the pings whose slot holds a good reply, and the rest are failures. The AP that the stream
  will use gets its handled count and its counter back, so the pings leave no trace there.
\<close>

theorem broadcast_ping_summary_true:
  assumes "ks_wf k" and "\<And>t k. ks_wf k \<Longrightarrow> fleet_rely k (env t k)"
    and "BSP_WAIT_TIMER_TIMEOUT_STEP cfg \<noteq> 0" and "\<And>r. target = Some r \<Longrightarrow> r < MAX_AP_CONTEXTS"
  shows "\<exists>k'. run_ap_broadcast_ping cfg env n target k = Some k' \<and>
    (let P = ping_targets k (min n MAX_AP_CONTEXTS); s = ks_broadcast_ping_summary k';
         good = {i \<in> P. ap_broadcast_ping_result_ok (ping_slot k' i)} in
     ps_planned_count s = word_of_nat (card P) \<and> ps_completed_count s = word_of_nat (card P) \<and>
     ps_ok_count s = word_of_nat (card good) \<and> ps_fail_count s = word_of_nat (card (P - good)) \<and>
     (\<forall>i < MAX_AP_CONTEXTS. if i \<in> P
        then pe_valid (ps_entries s ! i) = 1 \<and> pe_state (ps_entries s ! i) = slot_state (ping_slot k' i) \<and>
          ap_request_state_finished (slot_state (ping_slot k' i))
        else pe_valid (ps_entries s ! i) = 0)) \<and>
    (case target of None \<Rightarrow> True
     | Some r \<Rightarrow> handled_of k' r = handled_of k r \<and> counter_of k' r = counter_of k r)"
  by (rule ex_forward [OF broadcast_ping_run [where k = k and env = env and cfg = cfg and target = target and n = n]])
    ((rule assms | assumption | (elim conjE, intro conjI))+)

theorem broadcast_ping_summary_true_witness:
  "\<exists>k'. run_ap_broadcast_ping default_build (fleet_side default_build \<lparr>sel_cs = 8, sel_tr = 24\<rparr> [example_faults])
      8 (Some 2) example_kernel = Some k' \<and>
    ps_completed_count (ks_broadcast_ping_summary k') = 8 \<and> handled_of k' 2 = handled_of example_kernel 2"
proof -
  have all: "ping_targets example_kernel 8 = {..<8}"
  proof -
    have "ap_context_can_accept_broadcast_ping example_kernel i" if "i < 8" for i
      using that by (auto simp: ap_context_can_accept_broadcast_ping_def boot_of_def example_kernel_def
          nth_list_update context_with_def boot_with_def c_const)
    then show ?thesis by (auto simp: ping_targets_def)
  qed
  have step: "BSP_WAIT_TIMER_TIMEOUT_STEP default_build \<noteq> 0" by (simp add: c_const)
  have target: "r < MAX_AP_CONTEXTS" if "Some (2::nat) = Some r" for r using that by (simp add: c_const)
  let ?env = "fleet_side default_build \<lparr>sel_cs = 8, sel_tr = 24\<rparr> [example_faults]"
  have rely: "fleet_rely k (?env t k)" if "ks_wf k" for t k by (rule fleet.fleet [OF that])
  note true = broadcast_ping_summary_true [where n = 8 and target = "Some 2" and env = ?env]
  have "\<exists>k'. run_ap_broadcast_ping default_build ?env 8 (Some 2) example_kernel = Some k' \<and>
      ps_completed_count (ks_broadcast_ping_summary k') = word_of_nat (card (ping_targets example_kernel (min 8 MAX_AP_CONTEXTS))) \<and>
      handled_of k' 2 = handled_of example_kernel 2"
    by (rule ex_forward [OF true [OF example_kernel_wf rely step target]]) (simp_all add: Let_def)
  then show ?thesis by (simp add: MAX_AP_CONTEXTS_def all)
qed

end
