(* ===== verification/Ap_Report.thy ===== *)
theory Ap_Report
  imports Report_Lines Acpi Ap_Broadcast
begin

text \<open>
  What the kernel reports about ACPI and the APs (\<^verbatim>\<open>kernel/kernel.c\<close>, \<^verbatim>\<open>draw_acpi_info\<close>,
  the \<^verbatim>\<open>_name\<close> functions, \<^verbatim>\<open>ap_request_result_ok\<close> and the \<^verbatim>\<open>draw_ap_\<close> functions). Each
  \<^verbatim>\<open>draw_\<close> function is the list of the lines it draws. The lemmas show that every line fits the array
  it is built in, whatever the numbers are, and which lines can be read from the screen.
\<close>

record palette =
  pal_bg :: u32
  pal_fg :: u32
  pal_accent :: u32
  pal_muted :: u32
  pal_warn :: u32

section \<open>Names\<close>

definition fault_vector_name :: "u64 \<Rightarrow> string" where
  "fault_vector_name vector =
     (if vector = 6 then ''INVALID OPCODE'' else if vector = 8 then ''DOUBLE FAULT''
      else if vector = 13 then ''GENERAL PROTECTION'' else if vector = 14 then ''PAGE FAULT'' else ''UNKNOWN'')"

definition ap_boot_error_name :: "u32 \<Rightarrow> string" where
  "ap_boot_error_name error =
     (if error = AP_BOOT_OK then ''OK''
      else if error = AP_BOOT_ERR_NO_TRAMPOLINE then ''NO-TRAMP''
      else if error = AP_BOOT_ERR_NO_TARGET then ''NO-TARGET''
      else if error = AP_BOOT_ERR_X2APIC then ''X2APIC''
      else if error = AP_BOOT_ERR_BAD_TRAMPOLINE then ''BAD-TRAMP''
      else if error = AP_BOOT_ERR_HIGH_CR3 then ''HIGH-CR3''
      else if error = AP_BOOT_ERR_LAPIC_RANGE then ''LAPIC-RANGE''
      else if error = AP_BOOT_ERR_ICR_TIMEOUT then ''ICR-TIMEOUT''
      else if error = AP_BOOT_ERR_ONLINE_TIMEOUT then ''ONLINE-TIMEOUT''
      else ''UNKNOWN'')"

definition ap_boot_state_name :: "u32 \<Rightarrow> string" where
  "ap_boot_state_name state =
     (if state = AP_BOOT_STATE_NONE then ''NONE'' else if state = AP_BOOT_STATE_READY then ''READY''
      else if state = AP_BOOT_STATE_SENT_INIT then ''SENT-INIT''
      else if state = AP_BOOT_STATE_SENT_SIPI then ''SENT-SIPI''
      else if state = AP_BOOT_STATE_ONLINE then ''ONLINE'' else if state = AP_BOOT_STATE_HALTED then ''HALTED''
      else if state = AP_BOOT_STATE_FAULTED then ''FAULTED'' else ''UNKNOWN'')"

definition ap_entry_state_name :: "u32 \<Rightarrow> string" where
  "ap_entry_state_name state =
     (if state = AP_ENTRY_STATE_NONE then ''NONE'' else if state = AP_ENTRY_STATE_C then ''C''
      else if state = AP_ENTRY_STATE_TABLES then ''TABLES'' else if state = AP_ENTRY_STATE_HALTED then ''HALTED''
      else if state = AP_ENTRY_STATE_FAULT then ''FAULT'' else if state = AP_ENTRY_STATE_LOOP then ''LOOP''
      else if state = AP_ENTRY_STATE_REQUEST then ''REQUEST'' else ''UNKNOWN'')"

definition ap_fault_phase_name :: "u32 \<Rightarrow> string" where
  "ap_fault_phase_name phase =
     (if phase = AP_FAULT_PHASE_NONE then ''NONE'' else if phase = AP_FAULT_PHASE_STARTUP then ''STARTUP''
      else if phase = AP_FAULT_PHASE_LOOP then ''LOOP'' else if phase = AP_FAULT_PHASE_REQUEST then ''REQUEST''
      else ''UNKNOWN'')"

definition ap_request_state_name :: "u32 \<Rightarrow> string" where
  "ap_request_state_name state =
     (if state = AP_REQUEST_STATUS_EMPTY then ''EMPTY'' else if state = AP_REQUEST_STATUS_PENDING then ''PENDING''
      else if state = AP_REQUEST_STATUS_RUNNING then ''RUNNING'' else if state = AP_REQUEST_STATUS_DONE then ''DONE''
      else if state = AP_REQUEST_STATUS_TIMEOUT then ''TIMEOUT'' else if state = AP_REQUEST_STATUS_BAD_OP then ''BAD-OP''
      else if state = AP_REQUEST_STATUS_FAULT then ''FAULT'' else if state = AP_REQUEST_STATUS_SKIPPED then ''SKIPPED''
      else ''UNKNOWN'')"

definition ap_request_op_name :: "u32 \<Rightarrow> string" where
  "ap_request_op_name opcode =
     (if opcode = AP_REQUEST_OP_NONE then ''NONE'' else if opcode = AP_REQUEST_OP_PING then ''PING''
      else if opcode = AP_REQUEST_OP_COUNTER then ''COUNTER'' else ''UNKNOWN'')"

definition ap_queue_stop_reason_name :: "u32 \<Rightarrow> string" where
  "ap_queue_stop_reason_name reason =
     (if reason = AP_QUEUE_STOP_NONE then ''NONE'' else if reason = AP_QUEUE_STOP_DRAINED then ''DRAINED''
      else if reason = AP_QUEUE_STOP_BAD_OP then ''BAD-OP'' else if reason = AP_QUEUE_STOP_FAULT then ''FAULT''
      else ''UNKNOWN'')"

definition ap_request_route_mode_name :: "u32 \<Rightarrow> string" where
  "ap_request_route_mode_name mode =
     (if mode = AP_REQUEST_ROUTE_OWNER then ''OWNER'' else if mode = AP_REQUEST_ROUTE_EXPLICIT then ''EXPLICIT''
      else if mode = AP_REQUEST_ROUTE_SCHEDULER_FALLBACK then ''FALLBACK'' else ''UNKNOWN'')"

section \<open>ACPI\<close>

definition ACPI_CPU_LIST_OUTPUT_LIMIT :: u32 where [c_const]: "ACPI_CPU_LIST_OUTPUT_LIMIT = 5"

definition acpi_cpu_pieces :: "acpi_info_t \<Rightarrow> nat \<Rightarrow> piece list" where
  "acpi_cpu_pieces acpi i =
     (if 0 < i then [Chr CHR '' ''] else [])
   @ [Dec (ac_acpi_uid (ai_cpus acpi ! i)), Chr CHR ''/'', Dec (ac_apic_id (ai_cpus acpi ! i))]
   @ (if ac_x2apic (ai_cpus acpi ! i) \<noteq> 0 then [Str ''(X2)''] else [])"

definition acpi_report :: "palette \<Rightarrow> acpi_info_t \<Rightarrow> report" where
  "acpi_report pal acpi =
     (let output_count = (if ai_stored_cpu_count acpi > ACPI_CPU_LIST_OUTPUT_LIMIT
                          then ACPI_CPU_LIST_OUTPUT_LIMIT else ai_stored_cpu_count acpi)
      in [(make_line [Str ''ACPI: '', Str (acpi_error_name (ai_error acpi)),
             Str ''  RSDP: '', Hex64 (ai_rsdp acpi), Str ''  XSDT: '', Hex64 (ai_xsdt acpi),
             Str ''  ENTRIES: '', Dec (ai_xsdt_entries acpi)],
           if ai_error acpi = ACPI_OK then pal_accent pal else pal_warn pal),
          (make_line [Str ''MADT: '', Hex64 (ai_madt acpi), Str ''  LAPIC BASE: '', Hex64 (ai_local_apic_base acpi),
             Str ''  FLAGS: '', Hex64 (ucast (ai_madt_flags acpi)), Str ''  BSP APIC ID: '', Dec (ai_bsp_apic_id acpi)],
           pal_fg pal),
          (make_line ([Str ''ENABLED CPU/APIC: '', Dec (ai_enabled_cpu_count acpi), Str ''  LIST: '']
             @ concat (map (acpi_cpu_pieces acpi) [0..<unat output_count])
             @ (if ai_enabled_cpu_count acpi > output_count
                then [Str '' +'', Dec (ai_enabled_cpu_count acpi - output_count)] else [])),
           pal_fg pal)])"

section \<open>One AP\<close>

definition ok_no :: "u32 \<Rightarrow> string" where
  "ok_no flag = (if flag \<noteq> 0 then ''OK'' else ''NO'')"

definition ap_boot_fault_report :: "palette \<Rightarrow> ap_boot_info_t \<Rightarrow> report" where
  "ap_boot_fault_report pal boot =
     [(make_line [Str ''AP FAULT: '', Str (ap_fault_phase_name (bi_fault_phase boot)),
         Str ''  VEC: '', Dec64 (bi_fault_vector boot), Str '' '', Str (fault_vector_name (bi_fault_vector boot)),
         Str ''  ERR: '', Hex64 (bi_fault_error_code boot), Str ''  CR2: '', Hex64 (bi_fault_cr2 boot)], pal_warn pal),
      (make_line [Str ''AP RIP: '', Hex64 (bi_fault_rip boot), Str ''  CS: '', Hex64 (bi_fault_cs boot),
         Str ''  RFLAGS: '', Hex64 (bi_fault_rflags boot)], pal_warn pal)]
   @ (if bi_fault_phase boot = AP_FAULT_PHASE_REQUEST then
     [(make_line [Str ''AP FAULT REQ: '', Str (ap_request_op_name (bi_fault_request_opcode boot)),
         Str ''  STATE: '', Str (ap_request_state_name (bi_fault_request_state boot)),
         Str ''  SEQ: '', Dec (bi_fault_request_sequence boot), Str ''  ID: '', Hex64 (bi_fault_request_id_high boot),
         Chr CHR ''-'', Hex64 (bi_fault_request_id_low boot)], pal_warn pal),
      (make_line [Str ''AP FAULT KEY: SVC: '', Hex64 (bi_fault_request_service_id boot),
         Str ''  IFACE: '', Hex64 (bi_fault_request_interface_id boot)], pal_warn pal)] else [])"

definition ap_boot_report :: "palette \<Rightarrow> ap_boot_info_t \<Rightarrow> report" where
  "ap_boot_report pal boot =
     [(make_line [Str ''AP START: '', Str (ap_boot_error_name (bi_error boot)),
         Str ''  TARGET UID/APIC: '', Dec (bi_target_acpi_uid boot), Chr CHR ''/'', Dec (bi_target_apic_id boot),
         Str ''  ONLINE: '', Dec (if bi_online boot \<noteq> 0 then 1 else 0)],
       if bi_error boot = AP_BOOT_OK then pal_accent pal else pal_warn pal),
      (make_line [Str ''AP STATE: '', Str (ap_boot_state_name (bi_ap_state boot)),
         Str ''  TRAMP: '', Hex64 (bi_trampoline_base boot), Str ''  SIPI: '', Dec (bi_sipi_vector boot),
         Str ''  ICR-TO: '', Dec (bi_icr_timeouts boot)], pal_fg pal),
      (make_line [Str ''AP ENTRY: '', Str (ap_entry_state_name (bi_entry_state boot)),
         Str ''  GDT: '', Str (ok_no (bi_gdt_ok boot)), Str ''  TSS: '', Str (ok_no (bi_tss_ok boot)),
         Str ''  IDT: '', Str (ok_no (bi_idt_ok boot)), Str ''  CS: '', Hex64 (bi_ap_cs boot),
         Str ''  TR: '', Hex64 (bi_ap_tr boot)],
       if bi_gdt_ok boot \<noteq> 0 \<and> bi_tss_ok boot \<noteq> 0 \<and> bi_idt_ok boot \<noteq> 0 then pal_accent pal else pal_fg pal),
      (make_line [Str ''AP IST1: '', Hex64 (bi_ap_ist1 boot), Str ''  IST2: '', Hex64 (bi_ap_ist2 boot)], pal_fg pal)]
   @ (if bi_fault_vector boot \<noteq> 0 then ap_boot_fault_report pal boot else [])"

definition ap_queue_report :: "palette \<Rightarrow> ap_context_t \<Rightarrow> report" where
  "ap_queue_report pal ctx =
     (let queue = ctx_queue_summary ctx in
      [(make_line [Str ''AP QUEUE: HANDLED '', Dec (qs_handled_count queue), Chr CHR ''/'',
          Dec (if qs_planned_count queue \<noteq> 0 then qs_planned_count queue else word_of_nat AP_REQUEST_SLOT_COUNT),
          Str ''  LAST: '', Dec (qs_last_slot queue), Chr CHR '' '', Str (ap_request_state_name (qs_last_state queue)),
          Str ''  STOP: '', Str (ap_queue_stop_reason_name (qs_stop_reason queue)),
          Str ''  CURRENT: '', Dec (qs_current_slot queue),
          Str ''  IPI RX/TX/FAIL: '', Dec (tr_count (io_completion_ipi (ctx_interrupts ctx))), Chr CHR ''/'',
          Dec (ctx_request_ipi_send_count ctx), Chr CHR ''/'', Dec (ctx_request_ipi_send_fail_count ctx)],
        if qs_stop_reason queue = AP_QUEUE_STOP_DRAINED then pal_accent pal
        else if qs_stop_reason queue = AP_QUEUE_STOP_BAD_OP \<or> qs_stop_reason queue = AP_QUEUE_STOP_FAULT
        then pal_warn pal else pal_fg pal)])"

definition ap_kick_report :: "palette \<Rightarrow> ap_context_t \<Rightarrow> bsp_wait_observe_t \<Rightarrow> report" where
  "ap_kick_report pal ctx bsp_wait_observe =
     [(make_line [Str ''AP KICK: RX/TX/FAIL: '', Dec (tr_count (io_kick_ipi (ctx_interrupts ctx))), Chr CHR ''/'',
         Dec (ctx_request_kick_ipi_send_count ctx), Chr CHR ''/'', Dec (ctx_request_kick_ipi_send_fail_count ctx)],
       if ctx_request_kick_ipi_send_count ctx \<noteq> 0 \<and> ctx_request_kick_ipi_send_fail_count ctx = 0 then pal_accent pal
       else if ctx_request_kick_ipi_send_fail_count ctx \<noteq> 0 then pal_warn pal else pal_fg pal),
      (make_line [Str ''AP IDLE: HALT/WAKE/TIMER: '', Dec (ctx_idle_halt_count ctx), Chr CHR ''/'',
         Dec (ctx_idle_wake_count ctx), Chr CHR ''/'', Dec (io_idle_timer_count (ctx_interrupts ctx))], pal_fg pal),
      (make_line [Str ''BSP WAIT: HALT/WAKE/TIMER: '', Dec (wo_halt_count bsp_wait_observe), Chr CHR ''/'',
         Dec (wo_wake_count bsp_wait_observe), Chr CHR ''/'', Dec (wo_timer_count bsp_wait_observe)], pal_fg pal)]"

section \<open>Request history\<close>

definition ap_request_result_ok :: "ap_request_slot_t \<Rightarrow> u32 \<Rightarrow> bool" where
  "ap_request_result_ok request counter_value =
     (if slot_state request \<noteq> AP_REQUEST_STATUS_DONE \<or> rp_fault_code (slot_reply request) \<noteq> 0
         \<or> rq_id_high (slot_request request) \<noteq> rp_request_id_high (slot_reply request)
         \<or> rq_id_low (slot_request request) \<noteq> rp_request_id_low (slot_reply request) then False
      else if rq_service_id (slot_request request) = AP_REQUEST_SERVICE_PING
         \<and> rq_interface_id (slot_request request) = AP_REQUEST_INTERFACE_PING
      then rq_opcode (slot_request request) = AP_REQUEST_OP_PING \<and> rp_result_code (slot_reply request) = 0
      else if rq_service_id (slot_request request) = AP_REQUEST_SERVICE_COUNTER
         \<and> rq_interface_id (slot_request request) = AP_REQUEST_INTERFACE_COUNTER_INCREMENT
      then rq_opcode (slot_request request) = AP_REQUEST_OP_COUNTER
         \<and> rp_result_code (slot_reply request) = counter_value \<and> counter_value > 0
      else False)"

definition ap_history_entry_line :: "palette \<Rightarrow> ap_request_history_entry_t \<Rightarrow> u32 \<Rightarrow> string \<times> u32" where
  "ap_history_entry_line pal entry history_number =
     (let request = hi_request entry;
          ok = ap_request_result_ok request (hi_counter_value entry)
      in (make_line [Str ''AP HIST '', Dec history_number, Str '' SLOT '', Dec (hi_slot entry), Str '': '',
            Str (ap_request_op_name (rq_opcode (slot_request request))), Str (if ok then '' OK'' else '' NOT-OK''),
            Str ''  STATE: '', Str (ap_request_state_name (slot_state request)),
            Str ''  SEQ: '', Dec (rq_sequence (slot_request request)),
            Str ''  WAIT: '', Dec (mt_wait_loops (slot_metrics request)),
            Str ''  COUNT: '', Dec (mt_handled_count (slot_metrics request)),
            Str ''  RESULT: '', Dec (rp_result_code (slot_reply request)),
            Str ''  FAULT: '', Dec (rp_fault_code (slot_reply request)),
            Str ''  S/I: '', Hex32 (ucast (rq_service_id (slot_request request))), Chr CHR ''/'',
            Hex32 (ucast (rq_interface_id (slot_request request)))],
          if slot_state request = AP_REQUEST_STATUS_SKIPPED \<or> slot_state request = AP_REQUEST_STATUS_TIMEOUT
          then pal_warn pal else if ok then pal_accent pal else pal_warn pal))"

definition ap_history_report :: "palette \<Rightarrow> ap_request_history_entry_t list \<Rightarrow> nat \<Rightarrow> report" where
  "ap_history_report pal history n =
     (let shown = filter (\<lambda>i. hi_valid (history ! i) \<noteq> 0) [0..<n]
      in if shown = [] then [(''AP HISTORY: NONE'', pal_warn pal)]
         else map (\<lambda>i. ap_history_entry_line pal (history ! i) (word_of_nat (i + 1))) shown)"

section \<open>All APs\<close>

text \<open>The colour \<^verbatim>\<open>color ? color : fg\<close>: the foreground stands in for a black one.\<close>

definition or_fg :: "palette \<Rightarrow> u32 \<Rightarrow> u32" where
  "or_fg pal c = (if c \<noteq> 0 then c else pal_fg pal)"

definition ap_context_pieces :: "ap_context_t list \<Rightarrow> nat \<Rightarrow> piece list" where
  "ap_context_pieces contexts i =
     [Chr CHR '' '', Dec (bi_target_apic_id (ctx_boot (contexts ! i)))]
   @ (if bi_online (ctx_boot (contexts ! i)) = 0 then [Str ''!''] else [])"

definition ap_context_report :: "palette \<Rightarrow> ap_context_t list \<Rightarrow> nat \<Rightarrow> nat option \<Rightarrow> report" where
  "ap_context_report pal contexts context_count target_context =
     (let context_count = (if context_count > MAX_AP_CONTEXTS then MAX_AP_CONTEXTS else context_count);
          online_count = (word_of_nat (length (filter (\<lambda>i. bi_online (ctx_boot (contexts ! i)) \<noteq> 0) [0..<context_count])) :: u32)
      in [(make_line ([Str ''AP ONLINE: '', Dec online_count, Chr CHR ''/'', Dec (word_of_nat context_count)]
             @ (case target_context of None \<Rightarrow> [] | Some c \<Rightarrow>
                  [Str ''  TARGET: '', Dec (ap_context_index c + 1), Chr CHR ''/'',
                   Dec (bi_target_apic_id (ctx_boot (contexts ! c)))])
             @ [Str ''  APIC:''] @ (if context_count = 0 then [Str '' NONE''] else [])
             @ concat (map (ap_context_pieces contexts) [0..<context_count])),
           or_fg pal (if 0 < context_count \<and> online_count = word_of_nat context_count then pal_accent pal else pal_warn pal))])"

definition ap_scheduler_report :: "palette \<Rightarrow> ap_scheduler_t \<Rightarrow> report" where
  "ap_scheduler_report pal sched =
     [(make_line ([Str ''AP SCHED: '', Str (if sch_explicit_target sched \<noteq> 0 then ''EXPLICIT'' else ''RR''),
         Str ''  ONLINE: '', Dec (sch_online_count sched), Str ''  PICK: '']
       @ (if sch_selected_context_index sched = AP_REQUEST_TARGET_SCHEDULER then [Str ''NONE'']
          else [Dec (sch_selected_context_index sched + 1), Chr CHR ''/'', Dec (sch_selected_apic_id sched)])
       @ [Str ''  NEXT: '', Dec (if sch_online_count sched \<noteq> 0 then sch_next_index sched + 1 else 0)]),
       or_fg pal (if sch_online_count sched \<noteq> 0 then pal_accent pal else pal_warn pal))]"

definition ap_route_report :: "palette \<Rightarrow> ap_request_route_t \<Rightarrow> report" where
  "ap_route_report pal route =
     [(make_line ([Str ''AP ROUTE: '', Str (ap_request_route_mode_name (rt_mode route)),
         Str ''  TARGET: '', Dec (rt_target_context_index route + 1), Chr CHR ''/'', Dec (rt_target_apic_id route)]
       @ (if rt_owner_context_index route \<noteq> AP_REQUEST_TARGET_SCHEDULER
          then [Str ''  OWNER: '', Dec (rt_owner_context_index route + 1)] else [])),
       or_fg pal (if rt_mode route = AP_REQUEST_ROUTE_SCHEDULER_FALLBACK then pal_warn pal else pal_accent pal))]"

definition ap_ping_pieces :: "ap_broadcast_ping_entry_t \<Rightarrow> piece list" where
  "ap_ping_pieces entry =
     (if pe_valid entry = 0 then []
      else [Chr CHR '' '', Dec (pe_apic_id entry), Chr CHR '':'',
            Str (if pe_state entry = AP_REQUEST_STATUS_DONE \<and> pe_result_code entry = 0 \<and> pe_fault_code entry = 0
                 then ''OK'' else ''FAIL'')])"

definition ap_broadcast_ping_report :: "palette \<Rightarrow> ap_broadcast_ping_summary_t \<Rightarrow> report" where
  "ap_broadcast_ping_report pal summary =
     [(make_line ([Str ''AP BCAST PING: OK '', Dec (ps_ok_count summary), Chr CHR ''/'', Dec (ps_planned_count summary),
         Str ''  FAIL: '', Dec (ps_fail_count summary), Str ''  APIC:'']
       @ (if ps_planned_count summary = 0 then [Str '' NONE''] else [])
       @ concat (map (\<lambda>i. ap_ping_pieces (ps_entries summary ! i)) [0..<MAX_AP_CONTEXTS])),
       or_fg pal (if ps_planned_count summary > 0 \<and> ps_completed_count summary = ps_planned_count summary
                     \<and> ps_fail_count summary = 0 then pal_accent pal else pal_warn pal))]"

section \<open>Every line fits its array\<close>

definition fits_array :: "nat \<Rightarrow> report \<Rightarrow> bool" where
  "fits_array n = list_all (\<lambda>(str, c). length str < n)"

lemma fits_array_simps [simp]:
  "fits_array n []" "fits_array n ((str, c) # ls) \<longleftrightarrow> length str < n \<and> fits_array n ls"
  "fits_array n (ls @ ms) \<longleftrightarrow> fits_array n ls \<and> fits_array n ms"
  by (simp_all add: fits_array_def)

lemma name_lengths:
  "length (acpi_error_name x0) \<le> 9"
  "length (fault_vector_name x1) \<le> 18"
  "length (ap_boot_error_name x2) \<le> 14"
  "length (ap_boot_state_name x3) \<le> 9"
  "length (ap_entry_state_name x4) \<le> 7"
  "length (ap_fault_phase_name x5) \<le> 7"
  "length (ap_request_state_name x6) \<le> 7"
  "length (ap_request_op_name x7) \<le> 7"
  "length (ap_queue_stop_reason_name x8) \<le> 7"
  "length (ap_request_route_mode_name x9) \<le> 8"
  "length (ok_no x10) \<le> 2"
  by (simp_all add: acpi_error_name_def fault_vector_name_def ap_boot_error_name_def ap_boot_state_name_def
      ap_entry_state_name_def ap_fault_phase_name_def ap_request_state_name_def ap_request_op_name_def
      ap_queue_stop_reason_name_def ap_request_route_mode_name_def ok_no_def)

lemma acpi_report_fits: "fits_array 192 (acpi_report pal acpi)"
proof -
  define k where "k = (if ai_stored_cpu_count acpi > ACPI_CPU_LIST_OUTPUT_LIMIT
    then ACPI_CPU_LIST_OUTPUT_LIMIT else ai_stored_cpu_count acpi)"
  have "unat k \<le> 5" by (auto simp: k_def c_const word_le_nat_alt word_less_nat_alt)
  then have "line_max (concat (map (acpi_cpu_pieces acpi) [0..<unat k])) \<le> 5 * 26"
    by (intro line_max_concat_le) (auto simp: acpi_cpu_pieces_def)
  then show ?thesis
    unfolding acpi_report_def k_def [symmetric] Let_def fits_array_simps
    using name_lengths(1) [of "ai_error acpi"]
    by (intro conjI make_line_fits) auto
qed

lemma ap_boot_report_fits: "fits_array 192 (ap_boot_report pal boot)"
proof -
  have "fits_array 192 (ap_boot_fault_report pal boot)"
    unfolding ap_boot_fault_report_def fits_array_simps
    using name_lengths(6) [of "bi_fault_phase boot"] name_lengths(2) [of "bi_fault_vector boot"]
      name_lengths(7) [of "bi_fault_request_state boot"] name_lengths(8) [of "bi_fault_request_opcode boot"]
    by (auto intro!: make_line_fits)
  then show ?thesis
    unfolding ap_boot_report_def fits_array_simps
    using name_lengths(3) [of "bi_error boot"] name_lengths(4) [of "bi_ap_state boot"]
      name_lengths(5) [of "bi_entry_state boot"] name_lengths(11) [of "bi_gdt_ok boot"]
      name_lengths(11) [of "bi_tss_ok boot"] name_lengths(11) [of "bi_idt_ok boot"]
    by (auto intro!: make_line_fits)
qed

lemma ap_queue_report_fits: "fits_array 192 (ap_queue_report pal ctx)"
  unfolding ap_queue_report_def Let_def fits_array_simps
  using name_lengths(7) [of "qs_last_state (ctx_queue_summary ctx)"]
    name_lengths(9) [of "qs_stop_reason (ctx_queue_summary ctx)"]
  by (auto intro!: make_line_fits)

lemma ap_kick_report_fits: "fits_array 192 (ap_kick_report pal ctx w)"
  unfolding ap_kick_report_def fits_array_simps by (auto intro!: make_line_fits)

lemma ap_history_report_fits: "fits_array 256 (ap_history_report pal history n)"
proof -
  have "length (fst (ap_history_entry_line pal entry k)) < 256" for entry k
    unfolding ap_history_entry_line_def Let_def
    using name_lengths(8) [of "rq_opcode (slot_request (hi_request entry))"]
      name_lengths(7) [of "slot_state (hi_request entry)"]
    by (auto intro!: make_line_fits)
  then show ?thesis
    by (auto simp: ap_history_report_def Let_def fits_array_def list_all_iff case_prod_beta)
qed

lemma ap_context_report_fits: "fits_array 192 (ap_context_report pal contexts n target)"
proof -
  define k where "k = (if n > MAX_AP_CONTEXTS then MAX_AP_CONTEXTS else n)"
  have "k \<le> 8" by (simp add: k_def c_const)
  then have "line_max (concat (map (ap_context_pieces contexts) [0..<k])) \<le> 8 * 12"
    by (intro line_max_concat_le) (auto simp: ap_context_pieces_def)
  then show ?thesis
    unfolding ap_context_report_def k_def [symmetric] Let_def fits_array_simps
    by (intro conjI make_line_fits) (auto split: option.split)
qed

lemma ap_scheduler_report_fits: "fits_array 192 (ap_scheduler_report pal sched)"
  unfolding ap_scheduler_report_def fits_array_simps by (auto intro!: make_line_fits)

lemma ap_route_report_fits: "fits_array 192 (ap_route_report pal route)"
  unfolding ap_route_report_def fits_array_simps
  using name_lengths(10) [of "rt_mode route"] by (auto intro!: make_line_fits)

lemma ap_broadcast_ping_report_fits: "fits_array 256 (ap_broadcast_ping_report pal summary)"
proof -
  have "line_max (concat (map (\<lambda>i. ap_ping_pieces (ps_entries summary ! i)) [0..<MAX_AP_CONTEXTS])) \<le> 8 * 16"
    by (intro line_max_concat_le) (auto simp: ap_ping_pieces_def c_const)
  then show ?thesis
    unfolding ap_broadcast_ping_report_def fits_array_simps
    by (intro conjI make_line_fits) auto
qed

section \<open>Every line can be drawn\<close>

definition drawable :: "report \<Rightarrow> bool" where
  "drawable = list_all (\<lambda>(str, c). list_all has_glyph str)"

lemma drawable_simps [simp]:
  "drawable []" "drawable ((str, c) # ls) \<longleftrightarrow> list_all has_glyph str \<and> drawable ls"
  "drawable (ls @ ms) \<longleftrightarrow> drawable ls \<and> drawable ms"
  by (simp_all add: drawable_def)

lemma drawable_chars [simp]:
  "has_glyph CHR ''A''" "has_glyph CHR ''B''" "has_glyph CHR ''C''" "has_glyph CHR ''D''"
  "has_glyph CHR ''E''" "has_glyph CHR ''F''" "has_glyph CHR ''G''" "has_glyph CHR ''H''"
  "has_glyph CHR ''I''" "has_glyph CHR ''J''" "has_glyph CHR ''K''" "has_glyph CHR ''L''"
  "has_glyph CHR ''M''" "has_glyph CHR ''N''" "has_glyph CHR ''O''" "has_glyph CHR ''P''"
  "has_glyph CHR ''Q''" "has_glyph CHR ''R''" "has_glyph CHR ''S''" "has_glyph CHR ''T''"
  "has_glyph CHR ''U''" "has_glyph CHR ''V''" "has_glyph CHR ''W''" "has_glyph CHR ''X''"
  "has_glyph CHR ''Y''" "has_glyph CHR ''Z''" "has_glyph CHR ''0''" "has_glyph CHR ''1''"
  "has_glyph CHR ''2''" "has_glyph CHR ''3''" "has_glyph CHR ''4''" "has_glyph CHR ''5''"
  "has_glyph CHR ''6''" "has_glyph CHR ''7''" "has_glyph CHR ''8''" "has_glyph CHR ''9''"
  "has_glyph CHR '':''" "has_glyph CHR ''.''" "has_glyph CHR '',''" "has_glyph CHR ''-''"
  "has_glyph CHR ''_''" "has_glyph CHR ''/''" "has_glyph CHR ''(''" "has_glyph CHR '')''"
  "has_glyph CHR ''+''" "has_glyph CHR ''@''" "has_glyph CHR '' ''"
  by code_simp+


lemma drawable_names [simp]:
  "list_all has_glyph (acpi_error_name x0)"
  "list_all has_glyph (fault_vector_name x1)"
  "list_all has_glyph (ap_boot_error_name x2)"
  "list_all has_glyph (ap_boot_state_name x3)"
  "list_all has_glyph (ap_entry_state_name x4)"
  "list_all has_glyph (ap_fault_phase_name x5)"
  "list_all has_glyph (ap_request_state_name x6)"
  "list_all has_glyph (ap_request_op_name x7)"
  "list_all has_glyph (ap_queue_stop_reason_name x8)"
  "list_all has_glyph (ap_request_route_mode_name x9)"
  "list_all has_glyph (ok_no x10)"
  by (simp_all add: acpi_error_name_def fault_vector_name_def ap_boot_error_name_def ap_boot_state_name_def
      ap_entry_state_name_def ap_fault_phase_name_def ap_request_state_name_def ap_request_op_name_def
      ap_queue_stop_reason_name_def ap_request_route_mode_name_def ok_no_def)



lemma acpi_report_drawable: "drawable (acpi_report pal acpi)"
  by (auto simp: acpi_report_def Let_def acpi_cpu_pieces_def list_all_iff [of piece_drawable] intro!: drawable_make_line)

lemma ap_boot_report_drawable: "drawable (ap_boot_report pal boot)"
  by (auto simp: ap_boot_report_def ap_boot_fault_report_def intro!: drawable_make_line)

lemma ap_queue_report_drawable: "drawable (ap_queue_report pal ctx)"
  by (auto simp: ap_queue_report_def Let_def intro!: drawable_make_line)

lemma ap_kick_report_drawable: "drawable (ap_kick_report pal ctx w)"
  by (auto simp: ap_kick_report_def intro!: drawable_make_line)

lemma ap_history_report_drawable: "drawable (ap_history_report pal history n)"
proof -
  have "list_all has_glyph (fst (ap_history_entry_line pal entry k))" for entry k
    by (auto simp: ap_history_entry_line_def Let_def intro!: drawable_make_line)
  then show ?thesis
    by (auto simp: ap_history_report_def Let_def drawable_def list_all_iff [of "case_prod _"] case_prod_beta)
qed

lemma ap_context_report_drawable:
  assumes "\<And>i. i < n \<Longrightarrow> i < 8 \<Longrightarrow> bi_online (ctx_boot (contexts ! i)) \<noteq> 0"
  shows "drawable (ap_context_report pal contexts n target)"
  using assms
  by (auto simp: ap_context_report_def Let_def ap_context_pieces_def c_const list_all_iff [of piece_drawable]
      split: option.split intro!: drawable_make_line)

lemma ap_scheduler_report_drawable: "drawable (ap_scheduler_report pal sched)"
  by (auto simp: ap_scheduler_report_def intro!: drawable_make_line)

lemma ap_route_report_drawable: "drawable (ap_route_report pal route)"
  by (auto simp: ap_route_report_def intro!: drawable_make_line)

lemma ap_broadcast_ping_report_drawable: "drawable (ap_broadcast_ping_report pal summary)"
  by (auto simp: ap_broadcast_ping_report_def ap_ping_pieces_def list_all_iff [of piece_drawable] intro!: drawable_make_line)

end
