(* ===== verification/Memory_Report.thy ===== *)
theory Memory_Report
  imports Ap_Report "HOL-Library.Multiset"
begin

text \<open>
  The report of the memory map (\<^verbatim>\<open>kernel/kernel.c\<close>, \<^verbatim>\<open>memory_type_name\<close>, \<^verbatim>\<open>draw_map_line\<close>,
  \<^verbatim>\<open>memory_line_color\<close>, \<^verbatim>\<open>draw_memory_map\<close> and \<^verbatim>\<open>draw_paging_failure\<close>). The table of the
  descriptors is printed in order of their addresses by repeated selection; the lemmas show that the
  selection is the stable sort by start address, and that every line fits its array.
\<close>

section \<open>Names and colours\<close>

definition memory_type_name :: "u32 \<Rightarrow> string" where
  "memory_type_name type =
     (if type = EfiReservedMemoryType then ''RSV'' else if type = EfiLoaderCode then ''LOAD-CODE''
      else if type = EfiLoaderData then ''LOAD-DATA'' else if type = EfiBootServicesCode then ''BS-CODE''
      else if type = EfiBootServicesData then ''BS-DATA'' else if type = EfiRuntimeServicesCode then ''RT-CODE''
      else if type = EfiRuntimeServicesData then ''RT-DATA'' else if type = EfiConventionalMemory then ''CONV''
      else if type = EfiUnusableMemory then ''UNUSABLE'' else if type = EfiACPIReclaimMemory then ''ACPI-R''
      else if type = EfiACPIMemoryNVS then ''ACPI-NVS'' else if type = EfiMemoryMappedIO then ''MMIO''
      else if type = EfiMemoryMappedIOPortSpace then ''MMIO-PORT'' else if type = EfiPalCode then ''PAL''
      else if type = EfiPersistentMemory then ''PERSIST'' else if type = EfiUnacceptedMemoryType then ''UNACCEPT''
      else ''UNKNOWN'')"

definition memory_line_color :: "palette \<Rightarrow> efi_memory_descriptor \<Rightarrow> u32" where
  "memory_line_color pal desc =
     (if md_Type desc = EfiConventionalMemory then pal_fg pal
      else if md_Type desc = EfiMemoryMappedIO \<or> md_Type desc = EfiMemoryMappedIOPortSpace then pal_warn pal
      else if md_Type desc = EfiReservedMemoryType \<or> md_Type desc = EfiUnusableMemory then pal_accent pal
      else pal_muted pal)"

section \<open>Totals\<close>

record memory_totals =
  mt_conventional :: u64
  mt_loader :: u64
  mt_boot :: u64
  mt_runtime :: u64
  mt_acpi :: u64
  mt_mmio :: u64
  mt_reserved :: u64
  mt_total :: u64
  mt_max_end :: u64

definition zero_totals :: memory_totals where
  "zero_totals = \<lparr>mt_conventional = 0, mt_loader = 0, mt_boot = 0, mt_runtime = 0, mt_acpi = 0, mt_mmio = 0,
     mt_reserved = 0, mt_total = 0, mt_max_end = 0\<rparr>"

definition add_descriptor_pages :: "efi_memory_descriptor \<Rightarrow> memory_totals \<Rightarrow> memory_totals" where
  "add_descriptor_pages desc t =
     (let pages = md_NumberOfPages desc;
          memory_end = md_PhysicalStart desc + push_bit 12 pages;
          t = t\<lparr>mt_total := mt_total t + pages\<rparr>;
          t = (if memory_end > mt_max_end t then t\<lparr>mt_max_end := memory_end\<rparr> else t);
          type = md_Type desc
      in if type = EfiConventionalMemory then t\<lparr>mt_conventional := mt_conventional t + pages\<rparr>
         else if type = EfiLoaderCode \<or> type = EfiLoaderData then t\<lparr>mt_loader := mt_loader t + pages\<rparr>
         else if type = EfiBootServicesCode \<or> type = EfiBootServicesData then t\<lparr>mt_boot := mt_boot t + pages\<rparr>
         else if type = EfiRuntimeServicesCode \<or> type = EfiRuntimeServicesData
         then t\<lparr>mt_runtime := mt_runtime t + pages\<rparr>
         else if type = EfiACPIReclaimMemory \<or> type = EfiACPIMemoryNVS then t\<lparr>mt_acpi := mt_acpi t + pages\<rparr>
         else if type = EfiMemoryMappedIO \<or> type = EfiMemoryMappedIOPortSpace
         then t\<lparr>mt_mmio := mt_mmio t + pages\<rparr>
         else t\<lparr>mt_reserved := mt_reserved t + pages\<rparr>)"

definition memory_totals_of :: "efi_memory_map_t \<Rightarrow> memory_totals" where
  "memory_totals_of mmap =
     fold (\<lambda>i. add_descriptor_pages (memory_desc_at mmap (word_of_nat i))) [0..<unat (mm_descriptor_count mmap)]
       zero_totals"

section \<open>The lines above the table\<close>

definition paging_report :: "palette \<Rightarrow> paging_info_t \<Rightarrow> report" where
  "paging_report pal paging =
     [(make_line [Str ''PAGING: 4K IDENTITY  CR3: '', Hex64 (pi_loaded_cr3 paging), Str ''  IDT: '',
         Str (if pi_idt_self_test_ok paging \<noteq> 0 then ''OK'' else ''FAIL'')], pal_accent pal),
      (make_line [Str ''PT POOL: '', Hex64 (pi_pool_start paging), Str ''-'', Hex64 (pi_pool_end paging - 1),
         Str ''  RESERVED: '', Dec64 (pi_reserved_pages paging), Str ''  USED: '', Dec64 (pi_allocated_pages paging)],
       pal_fg pal),
      (make_line [Str ''IDENTITY END: '', Hex64 (pi_max_identity_end paging),
         Str ''  MAPPED PAGES: '', Dec64 (pi_mapped_pages paging), Str ''  RANGES: '', Dec64 (pi_mapped_ranges paging)],
       pal_fg pal)]"

definition memory_summary_report :: "palette \<Rightarrow> efi_memory_map_t \<Rightarrow> report" where
  "memory_summary_report pal mmap =
     (let t = memory_totals_of mmap in
      [(make_line [Str ''DESCRIPTORS: '', Dec64 (mm_descriptor_count mmap),
          Str ''  DESC SIZE: '', Dec64 (mm_descriptor_size mmap),
          Str ''  VERSION: '', Dec (mm_descriptor_version mmap)], pal_accent pal),
       (make_line [Str ''TOTAL PAGES: '', Dec64 (mt_total t), Str ''  MAX END: '', Hex64 (mt_max_end t)], pal_muted pal),
       (make_line [Str ''CONV: '', Dec64 (mt_conventional t), Str '' PGS ('', Dec64 (mt_conventional t div 256),
          Str '' MIB)  BOOT: '', Dec64 (mt_boot t), Str ''  LOADER: '', Dec64 (mt_loader t)], pal_fg pal),
       (make_line [Str ''RUNTIME: '', Dec64 (mt_runtime t), Str ''  ACPI: '', Dec64 (mt_acpi t),
          Str ''  MMIO: '', Dec64 (mt_mmio t), Str ''  RESERVED-OTHER: '', Dec64 (mt_reserved t)], pal_fg pal)])"

definition memory_table_header :: "palette \<Rightarrow> string \<times> u32" where
  "memory_table_header pal =
     (make_line [Left ''IDX'' 3, Chr CHR '' '', Left ''TYPE'' 10, Chr CHR '' '', Left ''START'' 18, Chr CHR '' '',
        Left ''END'' 18, Chr CHR '' '', Left ''PAGES'' 8, Chr CHR '' '', Left ''ATTR'' 18], pal_accent pal)"

section \<open>The table\<close>

definition hole_row :: "palette \<Rightarrow> u64 \<Rightarrow> u64 \<Rightarrow> string \<times> u32" where
  "hole_row pal cursor start =
     (make_line [Left ''---'' 3, Chr CHR '' '', Left ''HOLE'' 10, Chr CHR '' '', Hex64_width cursor 18, Chr CHR '' '',
        Hex64_width (start - 1) 18, Chr CHR '' '', Dec64_width (drop_bit 12 (start - cursor)) 8, Chr CHR '' '',
        Left '''' 18], pal_warn pal)"

definition desc_end :: "efi_memory_descriptor \<Rightarrow> u64" where
  "desc_end desc = md_PhysicalStart desc + push_bit 12 (md_NumberOfPages desc)"

definition desc_row :: "palette \<Rightarrow> nat \<Rightarrow> efi_memory_descriptor \<Rightarrow> string \<times> u32" where
  "desc_row pal index desc =
     (let end_inclusive = (if desc_end desc = 0 then 0 else desc_end desc - 1)
      in (make_line [Dec64_width (word_of_nat index) 3, Chr CHR '' '', Left (memory_type_name (md_Type desc)) 10,
            Chr CHR '' '', Hex64_width (md_PhysicalStart desc) 18, Chr CHR '' '', Hex64_width end_inclusive 18,
            Chr CHR '' '', Dec64_width (md_NumberOfPages desc) 8, Chr CHR '' '', Hex64_width (md_Attribute desc) 18],
          memory_line_color pal desc))"

text \<open>The rows printed for one descriptor, and the address up to which memory is accounted for.\<close>

definition desc_rows :: "palette \<Rightarrow> efi_memory_map_t \<Rightarrow> nat \<Rightarrow> u64 \<Rightarrow> report" where
  "desc_rows pal mmap index cursor =
     (let desc = memory_desc_at mmap (word_of_nat index); start = md_PhysicalStart desc
      in (if start > cursor then [hole_row pal cursor start] else []) @ [desc_row pal index desc])"

definition next_cursor :: "efi_memory_map_t \<Rightarrow> nat \<Rightarrow> u64 \<Rightarrow> u64" where
  "next_cursor mmap index cursor =
     (let end_exclusive = desc_end (memory_desc_at mmap (word_of_nat index))
      in if end_exclusive > cursor then end_exclusive else cursor)"

definition desc_start :: "efi_memory_map_t \<Rightarrow> nat \<Rightarrow> u64" where
  "desc_start mmap i = md_PhysicalStart (memory_desc_at mmap (word_of_nat i))"

text \<open>The scan for the lowest descriptor not yet printed; the index \<open>n\<close> means that there is none.\<close>

definition scan_step :: "efi_memory_map_t \<Rightarrow> nat \<Rightarrow> bool list \<Rightarrow> nat \<Rightarrow> nat \<times> u64 \<Rightarrow> nat \<times> u64" where
  "scan_step mmap n emitted i best =
     (if \<not> emitted ! i \<and> (desc_start mmap i < snd best \<or> fst best = n) then (i, desc_start mmap i) else best)"

definition best_index :: "efi_memory_map_t \<Rightarrow> nat \<Rightarrow> bool list \<Rightarrow> nat" where
  "best_index mmap n emitted = fst (fold (scan_step mmap n emitted) [0..<n] (n, NOT 0))"

text \<open>The loop over \<^verbatim>\<open>printed\<close>: the rows in the order in which they are drawn.\<close>

fun table_loop :: "palette \<Rightarrow> efi_memory_map_t \<Rightarrow> nat \<Rightarrow> nat \<Rightarrow> bool list \<Rightarrow> u64 \<Rightarrow> report" where
  "table_loop pal mmap n 0 emitted cursor = []"
| "table_loop pal mmap n (Suc rounds) emitted cursor =
     (let best = best_index mmap n emitted
      in if best = n then []
         else desc_rows pal mmap best cursor
           @ table_loop pal mmap n rounds (emitted[best := True]) (next_cursor mmap best cursor))"

definition memory_table_rows :: "palette \<Rightarrow> efi_memory_map_t \<Rightarrow> nat \<Rightarrow> report" where
  "memory_table_rows pal mmap n = table_loop pal mmap n n (replicate n False) 0"

definition draw_map_line :: "framebuffer_t \<Rightarrow> string \<Rightarrow> u32 \<Rightarrow> u32 \<Rightarrow> screen \<times> u32 \<Rightarrow> bool \<times> screen \<times> u32" where
  "draw_map_line fb str fg bg st =
     (if snd st + 20 > fb_height fb then (False, st) else (True, draw_line fb 48 str fg bg 2 st))"

text \<open>The first row that does not fit on the screen ends the report.\<close>

fun draw_map_rows :: "framebuffer_t \<Rightarrow> u32 \<Rightarrow> report \<Rightarrow> screen \<times> u32 \<Rightarrow> screen \<times> u32" where
  "draw_map_rows fb bg [] st = st"
| "draw_map_rows fb bg ((str, c) # rows) st =
     (case draw_map_line fb str c bg st of
        (False, st) \<Rightarrow> st
      | (True, st) \<Rightarrow> draw_map_rows fb bg rows st)"

section \<open>The whole report\<close>

record report_state =
  rs_kernel :: kernel_state
  rs_scheduler :: ap_scheduler_t
  rs_route :: ap_request_route_t
  rs_context_count :: nat

definition ap_report :: "palette \<Rightarrow> report_state \<Rightarrow> nat \<Rightarrow> report" where
  "ap_report pal rs target =
     (let k = rs_kernel rs; ctx = ks_contexts k ! target
      in ap_context_report pal (ks_contexts k) (rs_context_count rs) (Some target)
       @ ap_scheduler_report pal (rs_scheduler rs)
       @ ap_route_report pal (rs_route rs)
       @ ap_broadcast_ping_report pal (ks_broadcast_ping_summary k)
       @ ap_boot_report pal (ctx_boot ctx)
       @ ap_queue_report pal ctx
       @ ap_kick_report pal ctx (ks_bsp_wait_observe k)
       @ ap_history_report pal (ctx_request_history ctx) AP_REQUEST_HISTORY_COUNT)"

definition skip_rows :: "u32 \<Rightarrow> screen \<times> u32 \<Rightarrow> screen \<times> u32" where
  "skip_rows n = (\<lambda>(s, y). (s, y + n))"

definition draw_memory_map ::
    "framebuffer_t \<Rightarrow> palette \<Rightarrow> efi_memory_map_t \<Rightarrow> paging_info_t option \<Rightarrow> acpi_info_t option \<Rightarrow>
     nat option \<Rightarrow> report_state \<Rightarrow> screen \<Rightarrow> screen" where
  "draw_memory_map fb pal mmap paging acpi target_context rs s =
     (let draw = draw_report fb (pal_bg pal);
          st = (draw_text fb 48 42 ''UEFI MEMORY MAP'' (pal_fg pal) (pal_bg pal) 4 s, 42 + 58);
          st = (case paging of None \<Rightarrow> st | Some p \<Rightarrow> skip_rows 8 (draw (paging_report pal p) st));
          st = (case acpi of None \<Rightarrow> st | Some a \<Rightarrow> skip_rows 8 (draw (acpi_report pal a) st));
          st = (case target_context of None \<Rightarrow> st | Some c \<Rightarrow> skip_rows 8 (draw (ap_report pal rs c) st));
          st = skip_rows 8 (draw (memory_summary_report pal mmap) st);
          st = draw [memory_table_header pal] st;
          count = unat (mm_descriptor_count mmap);
          st = (if count > 512 then draw [(''OUTPUT TRUNCATED TO 512 DESCRIPTORS'', pal_warn pal)] st else st)
      in fst (draw_map_rows fb (pal_bg pal) (memory_table_rows pal mmap (if count > 512 then 512 else count)) st))"

definition paging_failure_report :: "palette \<Rightarrow> paging_info_t \<Rightarrow> report" where
  "paging_failure_report pal paging =
     [(make_line [Str ''ERROR: '', Str (paging_error_name (pi_error paging)),
         Str ''  RESERVED PAGES: '', Dec64 (pi_reserved_pages paging), Str ''  USED: '', Dec64 (pi_allocated_pages paging)],
       pal_fg pal),
      (make_line [Str ''PT POOL: '', Hex64 (pi_pool_start paging), Str ''-'', Hex64 (pi_pool_end paging)], pal_fg pal)]"

definition draw_paging_failure :: "framebuffer_t \<Rightarrow> palette \<Rightarrow> paging_info_t \<Rightarrow> screen \<Rightarrow> screen" where
  "draw_paging_failure fb pal paging s =
     (let s = clear_screen fb (pal_bg pal) s;
          s = draw_text fb 48 48 ''PAGING FAILED'' (pal_warn pal) (pal_bg pal) 4 s
      in fst (draw_report fb (pal_bg pal) (paging_failure_report pal paging) (s, 48 + 64)))"

section \<open>The selection is a stable sort\<close>

definition first_min :: "('a \<Rightarrow> 'b::linorder) \<Rightarrow> 'a list \<Rightarrow> 'a \<Rightarrow> bool" where
  "first_min f xs b \<longleftrightarrow> (\<exists>us vs. xs = us @ b # vs \<and> (\<forall>u \<in> set us. f b < f u) \<and> (\<forall>v \<in> set vs. f b \<le> f v))"

lemma first_min_single: "first_min f [i] i"
  by (auto simp: first_min_def intro: exI [of _ "[]"])

lemma sort_key_first_min:
  assumes "\<forall>u \<in> set us. f b < f u" "\<forall>v \<in> set vs. f b \<le> f v"
  shows "sort_key f (us @ b # vs) = b # sort_key f (us @ vs)"
proof (rule properties_for_sort_key)
  show "mset (b # sort_key f (us @ vs)) = mset (us @ b # vs)" by simp
  show "sorted (map f (b # sort_key f (us @ vs)))" using assms by (auto simp: less_imp_le)
  fix k
  have "filter (\<lambda>x. f k = f x) us = []" if "f k = f b" using assms(1) that by (auto simp: filter_empty_conv)
  moreover have "filter (\<lambda>x. f k = f x) (sort_key f (us @ vs)) = filter (\<lambda>x. f k = f x) (us @ vs)"
    using sort_key_stable [of f "f k" "us @ vs"] by (simp add: eq_commute)
  ultimately show "filter (\<lambda>x. f k = f x) (b # sort_key f (us @ vs)) = filter (\<lambda>x. f k = f x) (us @ b # vs)"
    by auto
qed

definition remaining :: "nat \<Rightarrow> bool list \<Rightarrow> nat list" where
  "remaining n emitted = filter (\<lambda>i. \<not> emitted ! i) [0..<n]"

text \<open>The scan finds the first of the lowest among the remaining descriptors.\<close>

lemma scan_first_min:
  assumes "\<forall>i \<in> set xs. i < n"
  shows "case filter (\<lambda>i. \<not> emitted ! i) xs of
      [] \<Rightarrow> fold (scan_step mmap n emitted) xs (n, NOT 0) = (n, NOT 0)
    | _ \<Rightarrow> \<exists>b < n. fold (scan_step mmap n emitted) xs (n, NOT 0) = (b, desc_start mmap b)
        \<and> first_min (desc_start mmap) (filter (\<lambda>i. \<not> emitted ! i) xs) b"
  using assms
proof (induction xs rule: rev_induct)
  case (snoc i xs)
  let ?f = "desc_start mmap" and ?rem = "filter (\<lambda>i. \<not> emitted ! i) xs"
  have i: "i < n" using snoc.prems by simp
  show ?case
  proof (cases "emitted ! i")
    case True
    then show ?thesis using snoc by (auto simp: scan_step_def [of _ _ _ i] split: list.splits)
  next
    case not_emitted: False
    show ?thesis
    proof (cases "?rem")
      case Nil
      then have "fold (scan_step mmap n emitted) xs (n, NOT 0) = (n, NOT 0)" using snoc by simp
      then show ?thesis using Nil not_emitted i
        by (simp add: scan_step_def [of _ _ _ i] first_min_single)
    next
      case (Cons a as)
      then obtain b where b: "b < n" "fold (scan_step mmap n emitted) xs (n, NOT 0) = (b, ?f b)" "first_min ?f ?rem b"
        using snoc by auto
      then obtain us vs where rem: "?rem = us @ b # vs" "\<forall>u \<in> set us. ?f b < ?f u" "\<forall>v \<in> set vs. ?f b \<le> ?f v"
        by (auto simp: first_min_def)
      have "first_min ?f (?rem @ [i]) (if ?f i < ?f b then i else b)"
      proof (cases "?f i < ?f b")
        case True
        then have "\<forall>u \<in> set ?rem. ?f i < ?f u" using rem by (auto intro: less_trans less_le_trans)
        then show ?thesis
          using True unfolding first_min_def by (intro exI [of _ ?rem] exI [of _ "[]"]) simp
      next
        case False
        then show ?thesis
          using rem unfolding first_min_def by (intro exI [of _ us] exI [of _ "vs @ [i]"]) auto
      qed
      then show ?thesis using b i not_emitted by (auto simp: scan_step_def [of _ _ _ i] split: list.split)
    qed
  qed
qed simp

lemma best_index_cases:
  obtains (none) "remaining n emitted = []" "best_index mmap n emitted = n"
  | (some) us vs where "best_index mmap n emitted < n" "remaining n emitted = us @ best_index mmap n emitted # vs"
      "\<forall>u \<in> set us. desc_start mmap (best_index mmap n emitted) < desc_start mmap u"
      "\<forall>v \<in> set vs. desc_start mmap (best_index mmap n emitted) \<le> desc_start mmap v"
proof (cases "remaining n emitted")
  case Nil
  then show ?thesis
    using scan_first_min [where xs = "[0..<n]" and n = n and emitted = emitted and mmap = mmap] none by (simp add: remaining_def best_index_def)
next
  case (Cons a as)
  then show ?thesis
    using scan_first_min [where xs = "[0..<n]" and n = n and emitted = emitted and mmap = mmap] some
    by (auto simp: remaining_def best_index_def first_min_def)
qed

lemma remaining_emit:
  assumes "length emitted = n" "b < n" "remaining n emitted = us @ b # vs"
  shows "remaining n (emitted[b := True]) = us @ vs"
proof -
  have "remaining n (emitted[b := True]) = filter (\<lambda>i. i \<noteq> b) (remaining n emitted)"
    using assms(1,2) by (auto simp: remaining_def nth_list_update intro: filter_cong)
  moreover have "b \<notin> set us" "b \<notin> set vs"
    using assms(3) distinct_filter [of "[0..<n]" "\<lambda>i. \<not> emitted ! i"] by (auto simp: remaining_def)
  then have "filter (\<lambda>i. i \<noteq> b) us = us" "filter (\<lambda>i. i \<noteq> b) vs = vs" by (auto simp: filter_id_conv)
  ultimately show ?thesis using assms(3) by simp
qed

text \<open>The rows of the descriptors in the order of a list of indices.\<close>

fun rows_along :: "palette \<Rightarrow> efi_memory_map_t \<Rightarrow> nat list \<Rightarrow> u64 \<Rightarrow> report" where
  "rows_along pal mmap [] cursor = []"
| "rows_along pal mmap (i # is) cursor = desc_rows pal mmap i cursor @ rows_along pal mmap is (next_cursor mmap i cursor)"

lemma table_loop_sorts:
  assumes "length emitted = n" "length (remaining n emitted) \<le> rounds"
  shows "table_loop pal mmap n rounds emitted cursor
    = rows_along pal mmap (sort_key (desc_start mmap) (remaining n emitted)) cursor"
  using assms
proof (induction rounds arbitrary: emitted cursor)
  case (Suc rounds)
  show ?case
  proof (cases rule: best_index_cases [of n emitted mmap])
    case none
    then show ?thesis by simp
  next
    case (some us vs)
    let ?b = "best_index mmap n emitted"
    have rem: "remaining n (emitted[?b := True]) = us @ vs"
      using Suc.prems(1) some(1,2) by (rule remaining_emit)
    then have "length (remaining n (emitted[?b := True])) \<le> rounds"
      using Suc.prems(2) some(2) by simp
    then show ?thesis
      using Suc.IH [of "emitted[?b := True]" "next_cursor mmap ?b cursor"] Suc.prems(1) rem some
      by (simp add: sort_key_first_min Let_def)
  qed
qed simp

text \<open>Every descriptor is counted under one heading: the headings add up to the total.\<close>

lemma memory_totals_add_up:
  "mt_total t = mt_conventional t + mt_loader t + mt_boot t + mt_runtime t + mt_acpi t + mt_mmio t + mt_reserved t"
  if "t = memory_totals_of mmap"
proof -
  let ?ok = "\<lambda>t. mt_total t = mt_conventional t + mt_loader t + mt_boot t + mt_runtime t + mt_acpi t + mt_mmio t
    + mt_reserved t"
  have "?ok (add_descriptor_pages desc t)" if "?ok t" for desc t
    using that by (simp add: add_descriptor_pages_def Let_def algebra_simps)
  then have "?ok (fold (\<lambda>i. add_descriptor_pages (memory_desc_at mmap (word_of_nat i))) is t)" if "?ok t" for "is" t
    using that by (induction "is" arbitrary: t) simp_all
  then show ?thesis using that by (simp add: memory_totals_of_def zero_totals_def)
qed

section \<open>Every line fits its array\<close>

lemma memory_type_name_facts [simp]: "length (memory_type_name x) \<le> 9" "list_all has_glyph (memory_type_name x)"
  by (simp_all add: memory_type_name_def)

lemma paging_error_name_facts: "length (paging_error_name x) \<le> 11" "list_all has_glyph (paging_error_name x)"
  by (simp_all add: paging_error_name_def)

lemma fits_array_Cons: "fits_array n (l # ls) \<longleftrightarrow> length (fst l) < n \<and> fits_array n ls"
  by (cases l) simp

lemma paging_report_fits: "fits_array 192 (paging_report pal paging)"
  unfolding paging_report_def fits_array_simps by (auto intro!: make_line_fits)

lemma memory_summary_report_fits: "fits_array 192 (memory_summary_report pal mmap)"
  unfolding memory_summary_report_def Let_def fits_array_simps by (auto intro!: make_line_fits)

lemma memory_table_header_fits: "length (fst (memory_table_header pal)) < 192"
  unfolding memory_table_header_def fst_conv by (auto intro!: make_line_fits)

lemma paging_failure_report_fits: "fits_array 192 (paging_failure_report pal paging)"
  unfolding paging_failure_report_def fits_array_simps
  using paging_error_name_facts(1) [of "pi_error paging"] by (auto intro!: make_line_fits)

lemma desc_rows_fits: "fits_array 192 (desc_rows pal mmap i cursor)"
  by (auto simp: desc_rows_def hole_row_def desc_row_def Let_def intro!: make_line_fits)

lemma memory_table_rows_fits: "fits_array 192 (memory_table_rows pal mmap n)"
proof -
  have "fits_array 192 (table_loop pal mmap n rounds emitted cursor)" for rounds emitted cursor
    by (induction rounds arbitrary: emitted cursor) (simp_all add: Let_def desc_rows_fits)
  then show ?thesis by (simp add: memory_table_rows_def)
qed

section \<open>The properties\<close>

text \<open>The highest address any of the first \<open>j\<close> printed descriptors reaches, from a first address on.\<close>

definition covered_to :: "u64 \<Rightarrow> efi_memory_descriptor list \<Rightarrow> nat \<Rightarrow> u64" where
  "covered_to cursor ds j = Max (insert cursor (set (map desc_end (take j ds))))"

lemma next_cursor_max: "next_cursor mmap i cursor = max cursor (desc_end (memory_desc_at mmap (word_of_nat i)))"
  by (auto simp: next_cursor_def Let_def max_def)

lemma Max_insert_max: "finite A \<Longrightarrow> Max (insert a (insert b A)) = Max (insert (max a b) A)"
  for a :: "'a::linorder"
  by (cases "A = {}") (simp_all add: max.assoc)

lemma rows_along_holes:
  fixes mmap
  defines "desc \<equiv> \<lambda>i. memory_desc_at mmap (word_of_nat i)"
  shows "rows_along pal mmap is cursor = concat (map (\<lambda>j. let d = desc (is ! j); c = covered_to cursor (map desc is) j in
    (if c < md_PhysicalStart d then [hole_row pal c (md_PhysicalStart d)] else []) @ [desc_row pal (is ! j) d]) [0..<length is])"
proof (induction "is" arbitrary: cursor)
  case (Cons i "is")
  have cov: "covered_to cursor (map desc (i # is)) (Suc j) = covered_to (next_cursor mmap i cursor) (map desc is) j" for j
    using Max_insert_max [of "set (map desc_end (take j (map desc is)))" cursor "desc_end (desc i)"]
    by (simp add: covered_to_def next_cursor_max desc_def del: set_map)
  have "[0..<length (i # is)] = 0 # map Suc [0..<length is]" by (simp add: upt_conv_Cons map_Suc_upt del: upt_Suc)
  moreover have "covered_to cursor (map desc (i # is)) 0 = cursor" by (simp add: covered_to_def)
  ultimately show ?case
    using Cons.IH [of "next_cursor mmap i cursor"]
    by (simp add: cov [unfolded desc_def list.map] comp_def desc_rows_def Let_def desc_def del: upt_Suc cong: if_cong)
qed simp

text \<open>
  C12. The table of the memory map is printed in the order of a stable sort and without gaps: the rows the selection loop
  produces for the first \<open>n\<close> descriptors are the rows of the descriptors sorted by start address, those
  with equal addresses in the order of the map; and the row of a descriptor follows a row for the hole below it exactly when
  it starts above the highest end of all descriptors printed before it, the hole reaching from that end to its start.
\<close>

theorem memory_table_is_sorted:
  "memory_table_rows pal mmap n =
    (let desc = (\<lambda>i. memory_desc_at mmap (word_of_nat i));
         order = sort_key (\<lambda>i. md_PhysicalStart (desc i)) [0..<n]
     in concat (map (\<lambda>j.
          let d = desc (order ! j); covered = Max (insert 0 (set (map (desc_end \<circ> desc) (take j order)))) in
          (if covered < md_PhysicalStart d then [hole_row pal covered (md_PhysicalStart d)] else []) @
          [desc_row pal (order ! j) d]) [0..<n]))"
proof -
  have "remaining n (replicate n False) = [0..<n]" by (auto simp: remaining_def intro: filter_True)
  then have "memory_table_rows pal mmap n = rows_along pal mmap (sort_key (desc_start mmap) [0..<n]) 0"
    unfolding memory_table_rows_def using table_loop_sorts [of "replicate n False" n n pal mmap 0] by simp
  then show ?thesis
    by (simp add: rows_along_holes covered_to_def take_map desc_start_def [abs_def] Let_def comp_def)
qed

text \<open>
  C23. No report overruns the array it is built in: whatever numbers, states and names are reported, every
  line of the paging, ACPI, AP, memory and paging-failure reports with its terminating zero fits the 192
  characters of its array, and the broadcast line and the history lines fit their 256.
\<close>

theorem report_lines_fit_arrays:
  "fits_array 192 (paging_report pal paging @ acpi_report pal acpi
      @ ap_context_report pal contexts n target @ ap_scheduler_report pal sched @ ap_route_report pal route
      @ ap_boot_report pal boot @ ap_queue_report pal ctx @ ap_kick_report pal ctx w
      @ memory_summary_report pal mmap @ [memory_table_header pal] @ memory_table_rows pal mmap k
      @ paging_failure_report pal paging)
   \<and> fits_array 256 (ap_broadcast_ping_report pal summary @ ap_history_report pal history j)"
  by (simp add: paging_report_fits acpi_report_fits ap_context_report_fits ap_scheduler_report_fits
      ap_route_report_fits ap_boot_report_fits ap_queue_report_fits ap_kick_report_fits memory_summary_report_fits
      memory_table_header_fits memory_table_rows_fits paging_failure_report_fits
      ap_broadcast_ping_report_fits ap_history_report_fits fits_array_Cons)

section \<open>Drawing the report\<close>

text \<open>Nothing off the screen is written.\<close>

definition kept_off_screen :: "framebuffer_t \<Rightarrow> screen \<Rightarrow> screen \<Rightarrow> bool" where
  "kept_off_screen fb s s' \<longleftrightarrow> (\<forall>i. off_screen fb i \<longrightarrow> scr_pixels s' i = scr_pixels s i)"

lemma kept_refl [simp]: "kept_off_screen fb s s"
  by (simp add: kept_off_screen_def)

lemma kept_trans: "kept_off_screen fb s t \<Longrightarrow> kept_off_screen fb t u \<Longrightarrow> kept_off_screen fb s u"
  by (simp add: kept_off_screen_def)

lemma kept_draw_text: "kept_off_screen fb s (draw_text fb x y str fg bg scale s)"
  by (simp add: kept_off_screen_def draw_text_off)

lemma kept_clear_screen: "kept_off_screen fb s (clear_screen fb c s)"
  by (auto simp: kept_off_screen_def clear_screen_pixels off_screen_def)

lemma kept_draw_line: "kept_off_screen fb (fst st) (fst (draw_line fb x str fg bg scale st))"
  by (simp add: draw_line_def kept_draw_text split: prod.split)

lemma kept_draw_report: "kept_off_screen fb (fst st) (fst (draw_report fb bg lines st))"
proof (induction lines arbitrary: st)
  case (Cons l lines)
  then show ?case
    using kept_trans [OF kept_draw_line Cons.IH] by (cases l) (simp add: draw_report_def)
qed (simp add: draw_report_def)

lemma kept_draw_map_rows: "kept_off_screen fb (fst st) (fst (draw_map_rows fb bg rows st))"
proof (induction rows arbitrary: st)
  case (Cons row rows)
  obtain str c where row: "row = (str, c)" by (cases row)
  show ?case
    using kept_trans [OF kept_draw_line Cons.IH [of "draw_line fb 48 str c bg 2 st"]]
    by (cases "fb_height fb < snd st + 20") (simp_all add: draw_map_line_def row)
qed simp

lemma fst_skip_rows [simp]: "fst (skip_rows n st) = fst st"
  by (simp add: skip_rows_def split: prod.split)

lemma kept_draw_memory_map: "kept_off_screen fb s (draw_memory_map fb pal mmap paging acpi target rs s)"
  unfolding draw_memory_map_def Let_def
  by (intro kept_trans [OF _ kept_draw_map_rows])
    (auto intro!: kept_trans [OF _ kept_draw_report] kept_draw_text split: option.split)

lemma kept_draw_paging_failure: "kept_off_screen fb s (draw_paging_failure fb pal paging s)"
  unfolding draw_paging_failure_def Let_def
  by (rule kept_trans [OF _ kept_draw_report]) (auto intro: kept_trans [OF kept_clear_screen kept_draw_text])

end
