(* ===== verification/Fault_Report.thy ===== *)
theory Fault_Report
  imports Memory_Report
begin

text \<open>
  The fault screen of the BSP (\<^verbatim>\<open>kernel/kernel.c\<close>, \<^verbatim>\<open>fault_dispatch\<close>): the handler that the
  fault entry points of the BSP call. It draws the fault on the screen it was given at start and halts;
  the result is the screen on which it halts. The control registers it reads are arguments.
\<close>

record bsp_fault_display_t =
  bd_framebuffer :: framebuffer_t
  bd_bg :: u32
  bd_fg :: u32
  bd_accent :: u32
  bd_warn :: u32

record fault_registers =
  fr_cr2 :: u64
  fr_cr3 :: u64
  fr_tr :: u16

definition fault_report :: "bsp_fault_display_t \<Rightarrow> fault_frame_t \<Rightarrow> fault_registers \<Rightarrow> cpu_local_t \<Rightarrow> report" where
  "fault_report display frame regs cpu =
     [(make_line [Str ''VECTOR: '', Dec64 (ff_vector frame), Str ''  '', Str (fault_vector_name (ff_vector frame)),
         Str ''  ERROR: '', Hex64 (ff_error_code frame)], bd_fg display),
      (make_line [Str ''RIP: '', Hex64 (ff_rip frame), Str ''  CS: '', Hex64 (ff_cs frame),
         Str ''  RFLAGS: '', Hex64 (ff_rflags frame)], bd_fg display),
      (make_line [Str ''CR2: '', Hex64 (fr_cr2 regs), Str ''  CR3: '', Hex64 (fr_cr3 regs)], bd_fg display),
      (make_line [Str ''CPU: '', Dec (cpu_id cpu), Str ''  TR: '', Hex64 (ucast (fr_tr regs)),
         Str ''  LOADED TR: '', Hex64 (ucast (cpu_loaded_tr cpu)),
         Str ''  TSS: '', Str (if cpu_tss_ready cpu \<noteq> 0 then ''READY'' else ''NOT-READY'')], bd_fg display),
      (make_line [Str ''IST1: '', Hex64 (tss_ist (cpu_tss cpu) ! (CPU_IST_FAULT - 1)),
         Str ''  IST2: '', Hex64 (tss_ist (cpu_tss cpu) ! (CPU_IST_DOUBLE_FAULT - 1))], bd_fg display),
      (''CURRENT REQUEST: N/A'', bd_accent display),
      (''HALTED'', bd_warn display)]"

definition fault_dispatch ::
    "bsp_fault_display_t \<Rightarrow> fault_registers \<Rightarrow> cpu_local_t \<Rightarrow> fault_frame_t \<Rightarrow> screen \<Rightarrow> screen" where
  "fault_dispatch display regs cpu frame s =
     (let fb = bd_framebuffer display
      in if fb_base fb = 0 \<or> fb_width fb = 0 \<or> fb_height fb = 0 then s
         else let s = clear_screen fb (bd_bg display) s;
                  s = draw_text fb 48 48 ''BSP FAULT'' (bd_warn display) (bd_bg display) 4 s
              in fst (draw_report fb (bd_bg display) (fault_report display frame regs cpu) (s, 48 + 64)))"

section \<open>Lemmas\<close>

lemma fault_report_fits: "fits_array 192 (fault_report display frame regs cpu)"
  unfolding fault_report_def fits_array_simps
  using name_lengths(2) [of "ff_vector frame"] by (auto intro!: make_line_fits)

lemma fault_report_drawable: "drawable (fault_report display frame regs cpu)"
  by (auto simp: fault_report_def intro!: drawable_make_line)

lemma fault_report_colours:
  assumes "bd_bg display \<notin> {bd_fg display, bd_accent display, bd_warn display}"
  shows "list_all (\<lambda>(str, c). c \<noteq> bd_bg display) (fault_report display frame regs cpu)"
  using assms by (auto simp: fault_report_def)

lemma length_fault_report [simp]: "length (fault_report display frame regs cpu) = 7"
  by (simp add: fault_report_def)

lemma kept_fault_dispatch: "kept_off_screen (bd_framebuffer display) s (fault_dispatch display regs cpu frame s)"
  unfolding fault_dispatch_def Let_def
  by (auto intro!: kept_trans [OF _ kept_draw_report] intro: kept_trans [OF kept_clear_screen kept_draw_text])

section \<open>What can be read from the screen\<close>

text \<open>
  A text as a reader sees it: words, decimal numbers and hexadecimal numbers of sixteen digits. This
  does not refer to the functions that print.
\<close>

datatype field = Word string | Decimal nat | Hexadecimal nat

fun text_shows :: "field list \<Rightarrow> string \<Rightarrow> bool" where
  "text_shows [] t \<longleftrightarrow> t = []"
| "text_shows (Word w # fs) t \<longleftrightarrow> (\<exists>u. t = w @ u \<and> text_shows fs u)"
| "text_shows (Decimal n # fs) t \<longleftrightarrow>
     (\<exists>d u. t = d @ u \<and> d \<noteq> [] \<and> set d \<subseteq> set ''0123456789'' \<and> read_base 10 d = n \<and> text_shows fs u)"
| "text_shows (Hexadecimal n # fs) t \<longleftrightarrow>
     (\<exists>d u. t = ''0X'' @ d @ u \<and> length d = 16 \<and> set d \<subseteq> set ''0123456789ABCDEF'' \<and> read_base 16 d = n \<and>
        text_shows fs u)"

text \<open>Row \<open>r\<close> below the title shows the fields in the colour \<open>c\<close>.\<close>

definition row_shows :: "framebuffer_t \<Rightarrow> pixels \<Rightarrow> nat \<Rightarrow> u32 \<Rightarrow> field list \<Rightarrow> bool" where
  "row_shows fb px r c fs \<longleftrightarrow> (\<exists>t. text_shows fs t \<and>
     read_text fb px 48 (112 + 20 * word_of_nat r) 2 c (length t) = map Some t)"

definition exception_names :: "(nat \<times> string) list" where
  "exception_names = [(6, ''INVALID OPCODE''), (8, ''DOUBLE FAULT''), (13, ''GENERAL PROTECTION''), (14, ''PAGE FAULT'')]"

definition exception_name :: "nat \<Rightarrow> string" where
  "exception_name v = (case map_of exception_names v of Some name \<Rightarrow> name | None \<Rightarrow> ''UNKNOWN'')"

lemma fault_vector_name_table: "fault_vector_name v = exception_name (unat v)"
proof -
  have "(v = word_of_nat n) = (unat v = n)" if "n < 2 ^ 64" for n
    using that by (auto simp: unat_of_nat take_bit_nat_eq_self)
  from this [of 6] this [of 8] this [of 13] this [of 14] show ?thesis
    by (simp add: fault_vector_name_def exception_name_def exception_names_def)
qed

text \<open>The pieces of a line as fields.\<close>

fun field_of :: "piece \<Rightarrow> field option" where
  "field_of (Str s) = (if CHR 0x00 \<in> set s then None else Some (Word s))"
| "field_of (Dec v) = Some (Decimal (unat v))"
| "field_of (Dec64 v) = Some (Decimal (unat v))"
| "field_of (Hex64 v) = Some (Hexadecimal (unat v))"
| "field_of _ = None"

lemma dec_tmp_digits: "set (dec_tmp v) \<subseteq> set ''0123456789''"
proof (induction v rule: dec_tmp.induct)
  case (1 v)
  have "list_all (\<lambda>d. char_of (48 + d) \<in> set ''0123456789'') [0 :: nat ..< 10]" by code_simp
  then have "char_of (48 + v mod 10) \<in> set ''0123456789''" unfolding list_all_iff by force
  then show ?case using 1 by (subst dec_tmp.simps) auto
qed

lemma dec_tmp_not_Nil: "0 < v \<Longrightarrow> dec_tmp v \<noteq> []"
  by (subst dec_tmp.simps) simp

lemma shows_decimal:
  assumes "text_shows fs u"
  shows "text_shows (Decimal (unat v) # fs) (append_dec [] v @ u)" "text_shows (Decimal (unat w) # fs) (append_dec64 [] w @ u)"
proof -
  have zero: "read_base 10 ''0'' = 0" by code_simp
  have "d \<noteq> [] \<and> set d \<subseteq> set ''0123456789'' \<and> read_base 10 d = n"
    if "d = (if n = 0 then ''0'' else rev (dec_tmp n))" for d n
    using dec_tmp_digits [of n] dec_tmp_not_Nil [of n] by (simp add: that zero read_dec_tmp)
  moreover have "append_dec [] v = (if unat v = 0 then ''0'' else rev (dec_tmp (unat v)))"
    "append_dec64 [] w = (if unat w = 0 then ''0'' else rev (dec_tmp (unat w)))"
    by (simp_all add: append_dec_def append_dec64_def unat_eq_0)
  ultimately show "text_shows (Decimal (unat v) # fs) (append_dec [] v @ u)"
    "text_shows (Decimal (unat w) # fs) (append_dec64 [] w @ u)"
    using assms unfolding text_shows.simps by blast+
qed

lemma shows_hexadecimal:
  assumes "text_shows fs u"
  shows "text_shows (Hexadecimal (unat w) # fs) (append_hex64 [] w @ u)"
proof -
  let ?s = "[60, 56, 52, 48, 44, 40, 36, 32, 28, 24, 20, 16, 12, 8, 4, 0] :: nat list"
  have "map (\<lambda>i. 4 * i) (rev [0..<16]) = ?s" by code_simp
  then have "read_base 16 (hex_digits_at w ?s) = unat w"
    using read_hex_digits [of w 16] unat_bound_len [of w] by simp
  moreover have "set (hex_digits_at w ?s) \<subseteq> set ''0123456789ABCDEF''"
  proof -
    have "hex_digits ! i \<in> set hex_digits" if "i < 16" for i
      using that by (intro nth_mem) (simp add: hex_digits_def)
    then show ?thesis unfolding hex_digits_at_def using unat_nibble [of _ w] by (auto simp: hex_digits_def)
  qed
  moreover have "length (hex_digits_at w ?s) = 16" by (simp add: hex_digits_at_def)
  moreover have "append_hex64 [] w = ''0X'' @ hex_digits_at w ?s" by (simp add: append_hex64_def append_str_no_nul)
  ultimately show ?thesis using assms unfolding text_shows.simps by (metis append_assoc)
qed

lemma put_piece_shows:
  assumes "field_of x = Some f"
  shows "put_piece x p = p @ put_piece x []" "text_shows fs u \<Longrightarrow> text_shows (f # fs) (put_piece x [] @ u)"
proof -
  show "put_piece x p = p @ put_piece x []"
    using assms append_dec_eq [of p] append_dec64_eq [of p]
    by (cases x) (simp_all add: append_str_no_nul append_hex64_def split: if_splits)
  show "text_shows (f # fs) (put_piece x [] @ u)" if "text_shows fs u"
    using assms that by (cases x)
      (auto simp: append_str_no_nul shows_decimal [OF that] shows_hexadecimal [OF that] simp del: text_shows.simps(3,4)
        split: if_splits)
qed

lemma make_line_shows:
  assumes "map field_of ps = map Some fs"
  shows "text_shows fs (make_line ps)"
proof -
  have "\<exists>u. fold put_piece ps p = p @ u \<and> text_shows fs u" for p
    using assms
  proof (induction ps arbitrary: fs p)
    case (Cons x ps)
    then obtain f fs' where fs: "fs = f # fs'" "field_of x = Some f" "map field_of ps = map Some fs'" by auto
    obtain u where u: "fold put_piece ps (put_piece x p) = put_piece x p @ u" "text_shows fs' u"
      using Cons.IH [OF fs(3)] by blast
    have "fold put_piece (x # ps) p = p @ put_piece x [] @ u"
      using u(1) put_piece_shows(1) [OF fs(2), of p] by simp
    then show ?case using put_piece_shows(2) [OF fs(2) u(2)] unfolding fs(1) by blast
  qed simp
  from this [of "[]"] show ?thesis by (simp add: make_line_def)
qed

lemma report_row:
  assumes "report_reads fb px y lines" "r < length lines"
  shows "read_text fb px 48 (y + 20 * word_of_nat r) 2 (snd (lines ! r)) (length (fst (lines ! r))) =
    map (Some \<circ> upper_char) (fst (lines ! r))"
  using assms
proof (induction lines arbitrary: y r)
  case (Cons l lines)
  then show ?case
  proof (cases r)
    case (Suc n)
    have "y + 20 * word_of_nat (Suc n) = (y + 20) + 20 * word_of_nat n" by (simp add: distrib_left)
    then show ?thesis using Cons.IH [of "y + 20" n] Cons.prems by (cases l) (simp add: Suc add.assoc)
  qed (cases l; simp)
qed simp

fun upper_field :: "field \<Rightarrow> bool" where
  "upper_field (Word w) \<longleftrightarrow> map upper_char w = w"
| "upper_field _ \<longleftrightarrow> True"

lemma text_shows_upper: "text_shows fs t \<Longrightarrow> list_all upper_field fs \<Longrightarrow> map upper_char t = t"
proof (induction fs t rule: text_shows.induct)
  have "list_all (\<lambda>c. upper_char c = c) ''0123456789ABCDEF''" "upper_char CHR ''X'' = CHR ''X''" by code_simp+
  then have digits: "map upper_char d = d" if "set d \<subseteq> set ''0123456789ABCDEF''" for d
    using that by (intro map_idI) (auto simp: list_all_iff)
  case (3 n fs t)
  then show ?case using digits by fastforce
next
  have "list_all (\<lambda>c. upper_char c = c) ''0123456789ABCDEF''" and x: "upper_char CHR ''X'' = CHR ''X''" by code_simp+
  then have digits: "map upper_char d = d" if "set d \<subseteq> set ''0123456789ABCDEF''" for d
    using that by (intro map_idI) (auto simp: list_all_iff)
  case (4 n fs t)
  then obtain d u where t: "t = ''0X'' @ d @ u" "set d \<subseteq> set ''0123456789ABCDEF''" "text_shows fs u" by auto
  have "upper_char CHR ''0'' = CHR ''0''" by code_simp
  with 4 t digits [OF t(2)] x show ?case by simp
qed auto

lemma row_showsI:
  assumes "report_reads fb px 112 (map (map_prod make_line id) rows)" "r < length rows" "snd (rows ! r) = c"
    and "map field_of (fst (rows ! r)) = map Some fs" "list_all upper_field fs"
  shows "row_shows fb px r c fs"
proof -
  note t = make_line_shows [OF assms(4)]
  have "map (Some \<circ> upper_char) (make_line (fst (rows ! r))) = map Some (make_line (fst (rows ! r)))"
    using text_shows_upper [OF t assms(5)] by (metis map_map)
  then show ?thesis using report_row [OF assms(1), of r] assms(2,3) t by (auto simp: row_shows_def)
qed

lemma exception_name_plain:
  "CHR 0x00 \<notin> set (exception_name n)" "upper_field (Word (exception_name n))"
proof -
  have "list_all (\<lambda>(n, name). CHR 0x00 \<notin> set name \<and> map upper_char name = name) exception_names"
    "map upper_char ''UNKNOWN'' = ''UNKNOWN''" by code_simp+
  moreover have "map_of exception_names n = Some name \<Longrightarrow> (n, name) \<in> set exception_names" for name
    by (rule map_of_SomeD)
  ultimately show "CHR 0x00 \<notin> set (exception_name n)" "upper_field (Word (exception_name n))"
    by (auto simp: exception_name_def list_all_iff split: option.split)
qed

text \<open>The report of a fault fits on every screen of 1080 columns.\<close>

lemma fault_report_fits_screen:
  assumes "1080 \<le> unat (fb_width fb)" "fb_width fb \<le> fb_stride fb" "252 \<le> unat (fb_height fb)"
  shows "report_fits fb 112 (fault_report display frame regs cpu)"
proof -
  have "fits_array 87 (fault_report display frame regs cpu)"
    unfolding fault_report_def fits_array_simps
    using name_lengths(2) [of "ff_vector frame"] by (auto intro!: make_line_fits)
  then show ?thesis using assms by (auto simp: report_fits_def fits_array_def list_all_iff)
qed

lemma fault_screen_report:
  assumes "report_fits (bd_framebuffer display) 112 (fault_report display frame regs cpu)"
    and "bd_bg display \<notin> {bd_fg display, bd_accent display, bd_warn display}"
    and "fb_base (bd_framebuffer display) \<noteq> 0" "dot_glyph (scr_glyph s)"
  shows "report_reads (bd_framebuffer display) (scr_pixels (fault_dispatch display regs cpu frame s)) 112
    (fault_report display frame regs cpu)"
    and "read_text (bd_framebuffer display) (scr_pixels (fault_dispatch display regs cpu frame s)) 48 48 4
      (bd_warn display) 9 = map Some ''BSP FAULT''"
proof -
  let ?fb = "bd_framebuffer display" and ?r = "fault_report display frame regs cpu"
  define t where "t = draw_text ?fb 48 48 ''BSP FAULT'' (bd_warn display) (bd_bg display) 4
    (clear_screen ?fb (bd_bg display) s)"
  let ?out = "fst (draw_report ?fb (bd_bg display) ?r (t, 112))"
  have size: "fb_width ?fb \<noteq> 0" "fb_height ?fb \<noteq> 0"
    using assms(1) by (auto simp: report_fits_def fault_report_def)
  have out: "fault_dispatch display regs cpu frame s = ?out"
    using assms(3) size by (simp add: fault_dispatch_def Let_def t_def)
  have "list_all (\<lambda>(str, c). list_all has_glyph str \<and> c \<noteq> bd_bg display) ?r"
    using fault_report_drawable [of display frame regs cpu] fault_report_colours [OF assms(2), of frame regs cpu]
    unfolding drawable_def list_all_iff by fast
  moreover have "dot_glyph (scr_glyph t)" using assms(4) by (simp add: t_def draw_text_dot_glyph)
  ultimately show "report_reads ?fb (scr_pixels (fault_dispatch display regs cpu frame s)) 112 ?r"
    unfolding out using assms(1) by (intro draw_report_reads) auto
  have line: "48 + 12 * length (fst (?r ! 5)) \<le> unat (fb_width ?fb)" "112 \<le> unat (fb_height ?fb)"
      "fb_width ?fb \<le> fb_stride ?fb"
    using assms(1) by (auto simp: report_fits_def fault_report_def)
  then have title: "fits ?fb 48 48 4 9" by (simp add: fits_def fault_report_def)
  have glyphs: "list_all has_glyph ''BSP FAULT''" "CHR 0x00 \<notin> set ''BSP FAULT''"
    "map (Some \<circ> upper_char) ''BSP FAULT'' = map Some ''BSP FAULT''" by code_simp+
  have nine: "length ''BSP FAULT'' = 9" by simp
  have "read_glyphs ?fb (scr_pixels ?out) 48 48 4 (bd_warn display) 9 = read_glyphs ?fb (scr_pixels t) 48 48 4 (bd_warn display) 9"
    using title assms(1) by (intro read_glyphs_cong draw_report_above) auto
  also have "\<dots> = shown_glyphs (scr_glyph (clear_screen ?fb (bd_bg display) s)) ''BSP FAULT''"
    unfolding t_def using assms(2,4) glyphs(1,2)
    by (intro read_glyphs_draw_text [of _ _ _ _ "''BSP FAULT''", unfolded nine] title) auto
  finally show "read_text ?fb (scr_pixels (fault_dispatch display regs cpu frame s)) 48 48 4 (bd_warn display) 9 =
      map Some ''BSP FAULT''"
    unfolding out read_text_def by (simp only: char_of_shown [OF glyphs(1)] glyphs(3))
qed

text \<open>
  C17. A fault of the BSP can be read from the screen. On a framebuffer of at least 1080 by 252 pixels whose
  text colours differ from the background, whatever the screen showed before, the pixels left by the
  fault handler read as the title and seven rows: the number of the vector in decimal digits with the name of
  the exception, and in sixteen hexadecimal digits each the error code, the instruction pointer, the code segment and the
  flags of the frame, CR2 and CR3, the task register and the one the CPU loaded, the readiness of the task state
  segment, and the two fault stacks; then that no request was being served, and that the processor halted.
\<close>

theorem fault_screen_reads_back:
  assumes "1080 \<le> unat (fb_width (bd_framebuffer display))" "252 \<le> unat (fb_height (bd_framebuffer display))"
    and "fb_width (bd_framebuffer display) \<le> fb_stride (bd_framebuffer display)"
    and "bd_bg display \<notin> {bd_fg display, bd_accent display, bd_warn display}"
    and "fb_base (bd_framebuffer display) \<noteq> 0" "dot_glyph (scr_glyph s)"
  shows "let px = scr_pixels (fault_dispatch display regs cpu frame s);
      shows = row_shows (bd_framebuffer display) px;
      hex = (\<lambda>w :: u64. Hexadecimal (unat w))
    in read_text (bd_framebuffer display) px 48 48 4 (bd_warn display) 9 = map Some ''BSP FAULT''
     \<and> shows 0 (bd_fg display) [Word ''VECTOR: '', Decimal (unat (ff_vector frame)), Word ''  '',
         Word (exception_name (unat (ff_vector frame))), Word ''  ERROR: '', hex (ff_error_code frame)]
     \<and> shows 1 (bd_fg display) [Word ''RIP: '', hex (ff_rip frame), Word ''  CS: '', hex (ff_cs frame),
         Word ''  RFLAGS: '', hex (ff_rflags frame)]
     \<and> shows 2 (bd_fg display) [Word ''CR2: '', hex (fr_cr2 regs), Word ''  CR3: '', hex (fr_cr3 regs)]
     \<and> shows 3 (bd_fg display) [Word ''CPU: '', Decimal (unat (cpu_id cpu)), Word ''  TR: '',
         Hexadecimal (unat (fr_tr regs)), Word ''  LOADED TR: '', Hexadecimal (unat (cpu_loaded_tr cpu)),
         Word ''  TSS: '', Word (if cpu_tss_ready cpu = 0 then ''NOT-READY'' else ''READY'')]
     \<and> shows 4 (bd_fg display) [Word ''IST1: '', hex (tss_ist (cpu_tss cpu) ! 0), Word ''  IST2: '',
         hex (tss_ist (cpu_tss cpu) ! 1)]
     \<and> shows 5 (bd_accent display) [Word ''CURRENT REQUEST: N/A'']
     \<and> shows 6 (bd_warn display) [Word ''HALTED'']"
proof -
  let ?fb = "bd_framebuffer display" and ?out = "fault_dispatch display regs cpu frame s"
  note reads = fault_screen_report [OF fault_report_fits_screen [OF assms(1,3,2)] assms(4-6), of regs cpu frame]
  let ?rows = "[([Str ''VECTOR: '', Dec64 (ff_vector frame), Str ''  '', Str (fault_vector_name (ff_vector frame)),
         Str ''  ERROR: '', Hex64 (ff_error_code frame)], bd_fg display),
      ([Str ''RIP: '', Hex64 (ff_rip frame), Str ''  CS: '', Hex64 (ff_cs frame),
         Str ''  RFLAGS: '', Hex64 (ff_rflags frame)], bd_fg display),
      ([Str ''CR2: '', Hex64 (fr_cr2 regs), Str ''  CR3: '', Hex64 (fr_cr3 regs)], bd_fg display),
      ([Str ''CPU: '', Dec (cpu_id cpu), Str ''  TR: '', Hex64 (ucast (fr_tr regs)),
         Str ''  LOADED TR: '', Hex64 (ucast (cpu_loaded_tr cpu)),
         Str ''  TSS: '', Str (if cpu_tss_ready cpu \<noteq> 0 then ''READY'' else ''NOT-READY'')], bd_fg display),
      ([Str ''IST1: '', Hex64 (tss_ist (cpu_tss cpu) ! (CPU_IST_FAULT - 1)),
         Str ''  IST2: '', Hex64 (tss_ist (cpu_tss cpu) ! (CPU_IST_DOUBLE_FAULT - 1))], bd_fg display),
      ([Str ''CURRENT REQUEST: N/A''], bd_accent display), ([Str ''HALTED''], bd_warn display)]"
  have "make_line [Str ''HALTED''] = ''HALTED''" "make_line [Str ''CURRENT REQUEST: N/A''] = ''CURRENT REQUEST: N/A''"
    by code_simp+
  then have rows: "fault_report display frame regs cpu = map (map_prod make_line id) ?rows"
    by (simp add: fault_report_def)
  note row = row_showsI [OF reads(1) [unfolded rows]]
  have plain: "list_all upper_field (map Word [''VECTOR: '', ''  '', ''  ERROR: '', ''RIP: '', ''  CS: '', ''  RFLAGS: '',
      ''CR2: '', ''  CR3: '', ''CPU: '', ''  TR: '', ''  LOADED TR: '', ''  TSS: '', ''NOT-READY'', ''READY'', ''IST1: '',
      ''  IST2: '', ''CURRENT REQUEST: N/A'', ''HALTED''])" by code_simp
  have ist: "CPU_IST_FAULT - Suc 0 = 0" "CPU_IST_DOUBLE_FAULT - Suc 0 = 1" by (simp_all add: c_const)
  note facts = exception_name_plain fault_vector_name_table ist numeral_eq_Suc
  show ?thesis
    unfolding Let_def
    by (intro conjI reads(2) row)
      (use plain in \<open>simp_all add: facts del: upper_field.simps(1)\<close>)
qed

definition wide_fb :: framebuffer_t where
  "wide_fb = \<lparr>fb_base = 0xC0000000, fb_width = 2400, fb_height = 1080, fb_stride = 2400, fb_size = 10368000,
     fb_format = 1\<rparr>"

definition wide_display :: bsp_fault_display_t where
  "wide_display = \<lparr>bd_framebuffer = wide_fb, bd_bg = 0x05070b, bd_fg = 0xf2f2f2, bd_accent = 0x5cd691,
     bd_warn = 0xffc85c\<rparr>"

lemma report_fits_wide:
  assumes "fits_array 192 lines" "length lines \<le> 48"
  shows "report_fits wide_fb 112 lines"
  using assms by (auto simp: report_fits_def wide_fb_def fits_array_def list_all_iff)

theorem fault_screen_reads_back_witness:
  "let px = scr_pixels (fault_dispatch wide_display \<lparr>fr_cr2 = 0x7ffffffff000, fr_cr3 = 0x101000, fr_tr = 0x18\<rparr>
      zero_cpu_local \<lparr>ff_vector = 14, ff_error_code = 2, ff_rip = 0x100123, ff_cs = 8, ff_rflags = 2\<rparr> blank_screen)
    in row_shows wide_fb px 0 0xf2f2f2 [Word ''VECTOR: '', Decimal 14, Word ''  '', Word ''PAGE FAULT'', Word ''  ERROR: '',
         Hexadecimal 2] \<and>
       row_shows wide_fb px 2 0xf2f2f2 [Word ''CR2: '', Hexadecimal 0x7ffffffff000, Word ''  CR3: '', Hexadecimal 0x101000]"
proof -
  have "bd_framebuffer wide_display = wide_fb" "bd_fg wide_display = 0xf2f2f2" "exception_name 14 = ''PAGE FAULT''"
    by (simp_all add: wide_display_def exception_name_def exception_names_def)
  moreover have "dot_glyph (scr_glyph blank_screen)" by (simp add: blank_screen_def dot_glyph_space)
  ultimately show ?thesis
    using fault_screen_reads_back [of wide_display blank_screen "\<lparr>fr_cr2 = 0x7ffffffff000, fr_cr3 = 0x101000, fr_tr = 0x18\<rparr>"
        zero_cpu_local "\<lparr>ff_vector = 14, ff_error_code = 2, ff_rip = 0x100123, ff_cs = 8, ff_rflags = 2\<rparr>"]
    by (simp add: Let_def wide_fb_def wide_display_def)
qed

end
