(* ===== verification/Isr.thy ===== *)
theory Isr
  imports Ap_Types "HOL-Library.Monad_Syntax"
begin

text \<open>
  The interrupt entry points of \<^verbatim>\<open>kernel/kernel.c\<close>, which are a block of assembly. The block is
  a list of labels and instructions, transcribed line by line, and a small machine executes it. A
  value is a number or a pointer into a block of memory: the stack the processor switched to, a
  variable of the kernel, or the register page of the local APIC. Distinct blocks do not overlap, and
  a cell is named by the offset at which it starts; the code reads every cell with the width it was
  written with.
\<close>

section \<open>The machine\<close>

datatype symbol =
    Bsp_interrupt_observe | System_interrupt_observe | Bsp_wait_observe
  | Ap_request_interrupts | System_lapic_base | Ap_contexts

datatype block = Stack | Variable symbol | Lapic_page

datatype val = Num u64 | Ptr block int

datatype reg = RAX | RDX | RDI | RSP

text \<open>\<open>Off n r\<close> is the operand \<^verbatim>\<open>n(%r)\<close>, \<open>Rip x n\<close> is \<^verbatim>\<open>x+n(%rip)\<close>.\<close>

datatype address = Off int reg | Rip symbol int

datatype instr =
    Pushq reg | Pushq_imm u64 | Popq reg
  | Movq_load address reg | Movq_store reg address | Movq reg reg
  | Movl_load address reg | Movl_store reg address | Movl_imm u32 address
  | Addl_imm u32 reg | Addl_mem u32 address
  | Andq_minus_16 reg | Testq reg | Jz string | Jmp string | Call string
  | Cld | Cli | Hlt | Iretq

datatype item = Label string | Ins instr

record machine =
  mc_code :: "item list"
  mc_regs :: "reg \<Rightarrow> val"
  mc_mem :: "block \<times> int \<Rightarrow> val"
  mc_zero :: bool

text \<open>How an entry point leaves: it calls a C function, returns from the interrupt, or halts.\<close>

datatype isr_exit = Calls string machine | Returned machine | Halts machine

definition address_of :: "machine \<Rightarrow> address \<Rightarrow> (block \<times> int) option" where
  "address_of m a = (case a of
     Off n r \<Rightarrow> (case mc_regs m r of Ptr b i \<Rightarrow> Some (b, i + n) | Num _ \<Rightarrow> None)
   | Rip x n \<Rightarrow> Some (Variable x, n))"

definition low_half :: "val \<Rightarrow> u32 option" where
  "low_half v = (case v of Num n \<Rightarrow> Some (ucast n) | Ptr _ _ \<Rightarrow> None)"

definition set_reg :: "reg \<Rightarrow> val \<Rightarrow> machine \<Rightarrow> machine" where
  "set_reg r v m = m\<lparr>mc_regs := (mc_regs m)(r := v)\<rparr>"

definition store :: "block \<times> int \<Rightarrow> val \<Rightarrow> machine \<Rightarrow> machine" where
  "store a v m = m\<lparr>mc_mem := (mc_mem m)(a := v)\<rparr>"

definition push :: "val \<Rightarrow> machine \<Rightarrow> machine option" where
  "push v m = (case mc_regs m RSP of
     Ptr b i \<Rightarrow> Some (set_reg RSP (Ptr b (i - 8)) (store (b, i - 8) v m)) | Num _ \<Rightarrow> None)"

definition goto :: "item list \<Rightarrow> string \<Rightarrow> machine \<Rightarrow> machine option" where
  "goto program l m = (case dropWhile (\<lambda>x. x \<noteq> Label l) program of
     [] \<Rightarrow> None | _ # code \<Rightarrow> Some (m\<lparr>mc_code := code\<rparr>))"

text \<open>One instruction that neither leaves nor ends the code; no result means that the machine is stuck.\<close>

definition exec :: "item list \<Rightarrow> instr \<Rightarrow> machine \<Rightarrow> machine option" where
  "exec program i m = (case i of
     Pushq r \<Rightarrow> push (mc_regs m r) m
   | Pushq_imm n \<Rightarrow> push (Num n) m
   | Popq r \<Rightarrow> (case mc_regs m RSP of
       Ptr b o' \<Rightarrow> Some (set_reg r (mc_mem m (b, o')) (set_reg RSP (Ptr b (o' + 8)) m)) | Num _ \<Rightarrow> None)
   | Movq_load a r \<Rightarrow> do { p \<leftarrow> address_of m a; Some (set_reg r (mc_mem m p) m) }
   | Movq_store r a \<Rightarrow> do { p \<leftarrow> address_of m a; Some (store p (mc_regs m r) m) }
   | Movq r r' \<Rightarrow> Some (set_reg r' (mc_regs m r) m)
   | Movl_load a r \<Rightarrow> do { p \<leftarrow> address_of m a; v \<leftarrow> low_half (mc_mem m p);
       Some (set_reg r (Num (ucast v)) m) }
   | Movl_store r a \<Rightarrow> do { p \<leftarrow> address_of m a; v \<leftarrow> low_half (mc_regs m r);
       Some (store p (Num (ucast v)) m) }
   | Movl_imm n a \<Rightarrow> do { p \<leftarrow> address_of m a; Some (store p (Num (ucast n)) m) }
   | Addl_imm n r \<Rightarrow> do { v \<leftarrow> low_half (mc_regs m r);
       Some (set_reg r (Num (ucast (v + n))) (m\<lparr>mc_zero := (v + n = 0)\<rparr>)) }
   | Addl_mem n a \<Rightarrow> do { p \<leftarrow> address_of m a; v \<leftarrow> low_half (mc_mem m p);
       Some (store p (Num (ucast (v + n))) (m\<lparr>mc_zero := (v + n = 0)\<rparr>)) }
   | Andq_minus_16 r \<Rightarrow> (case mc_regs m r of
       Ptr b o' \<Rightarrow> Some (set_reg r (Ptr b (o' - o' mod 16)) m)
     | Num n \<Rightarrow> Some (set_reg r (Num (n AND (- 16))) m))
   | Testq r \<Rightarrow> Some (m\<lparr>mc_zero := (mc_regs m r = Num 0)\<rparr>)
   | Jz l \<Rightarrow> (if mc_zero m then goto program l m else Some m)
   | Jmp l \<Rightarrow> goto program l m
   | Cld \<Rightarrow> Some m
   | Cli \<Rightarrow> Some m
   | _ \<Rightarrow> None)"

fun isr_run :: "item list \<Rightarrow> nat \<Rightarrow> machine \<Rightarrow> isr_exit option" where
  "isr_run program 0 m = None"
| "isr_run program (Suc n) m = (case mc_code m of
     [] \<Rightarrow> None
   | Label _ # code \<Rightarrow> isr_run program n (m\<lparr>mc_code := code\<rparr>)
   | Ins i # code \<Rightarrow>
       (let m = m\<lparr>mc_code := code\<rparr> in
        case i of
          Call f \<Rightarrow> Some (Calls f m)
        | Iretq \<Rightarrow> Some (Returned m)
        | Hlt \<Rightarrow> Some (Halts m)
        | _ \<Rightarrow> Option.bind (exec program i m) (isr_run program n)))"

section \<open>The code\<close>

definition breakpoint_code :: "item list" where
  "breakpoint_code = [
     Label ''isr_breakpoint'',
     Ins (Pushq RAX),
     Ins (Movq_load (Off 8 RSP) RAX),
     Ins (Movq_store RAX (Rip Bsp_interrupt_observe 8)),
     Ins (Movq_load (Off 16 RSP) RAX),
     Ins (Movq_store RAX (Rip Bsp_interrupt_observe 16)),
     Ins (Movq_load (Off 24 RSP) RAX),
     Ins (Movq_store RAX (Rip Bsp_interrupt_observe 24)),
     Ins (Movl_imm 3 (Rip Bsp_interrupt_observe 0)),
     Ins (Movl_load (Rip Bsp_interrupt_observe 4) RAX),
     Ins (Addl_imm 1 RAX),
     Ins (Movl_store RAX (Rip Bsp_interrupt_observe 4)),
     Ins (Popq RAX),
     Ins Iretq]"

definition bsp_fault_code :: "item list" where
  "bsp_fault_code = [
     Label ''isr_fault_ud'',
     Ins (Pushq_imm 0),
     Ins (Pushq_imm 6),
     Ins (Jmp ''isr_fault_common''),
     Label ''isr_fault_df'',
     Ins (Pushq_imm 8),
     Ins (Jmp ''isr_fault_common''),
     Label ''isr_fault_gp'',
     Ins (Pushq_imm 13),
     Ins (Jmp ''isr_fault_common''),
     Label ''isr_fault_pf'',
     Ins (Pushq_imm 14),
     Ins (Jmp ''isr_fault_common''),
     Label ''isr_fault_common'',
     Ins Cld,
     Ins (Movq RSP RDI),
     Ins (Andq_minus_16 RSP),
     Ins (Call ''fault_dispatch''),
     Label ''2'',
     Ins Cli,
     Ins Hlt,
     Ins (Jmp ''2''),
     Label ''isr_unhandled'',
     Ins Cli,
     Label ''1'',
     Ins Hlt,
     Ins (Jmp ''1'')]"

definition kick_code :: "item list" where
  "kick_code = [
     Label ''isr_ap_request_kick_ipi'',
     Ins (Pushq RAX),
     Ins (Pushq RDX),
     Ins (Movq_load (Rip Ap_request_interrupts 0) RAX),
     Ins (Movq_load (Off 16 RSP) RDX),
     Ins (Movq_store RDX (Off 8 RAX)),
     Ins (Movq_load (Off 24 RSP) RDX),
     Ins (Movq_store RDX (Off 16 RAX)),
     Ins (Movq_load (Off 32 RSP) RDX),
     Ins (Movq_store RDX (Off 24 RAX)),
     Ins (Movl_imm 0xf0 (Off 0 RAX)),
     Ins (Movl_load (Off 4 RAX) RDX),
     Ins (Addl_imm 1 RDX),
     Ins (Movl_store RDX (Off 4 RAX)),
     Ins (Movq_load (Rip System_lapic_base 0) RAX),
     Ins (Testq RAX),
     Ins (Jz ''6''),
     Ins (Movl_imm 0 (Off 0xb0 RAX)),
     Label ''6'',
     Ins (Popq RDX),
     Ins (Popq RAX),
     Ins Iretq]"

definition completion_code :: "item list" where
  "completion_code = [
     Label ''isr_ap_request_ipi'',
     Ins (Pushq RAX),
     Ins (Pushq RDX),
     Ins (Movq_load (Rip Ap_request_interrupts 0) RAX),
     Ins (Movq_load (Off 16 RSP) RDX),
     Ins (Movq_store RDX (Off 40 RAX)),
     Ins (Movq_load (Off 24 RSP) RDX),
     Ins (Movq_store RDX (Off 48 RAX)),
     Ins (Movq_load (Off 32 RSP) RDX),
     Ins (Movq_store RDX (Off 56 RAX)),
     Ins (Movl_imm 0xf1 (Off 32 RAX)),
     Ins (Movl_load (Off 36 RAX) RDX),
     Ins (Addl_imm 1 RDX),
     Ins (Movl_store RDX (Off 36 RAX)),
     Ins (Movq_load (Rip System_lapic_base 0) RAX),
     Ins (Testq RAX),
     Ins (Jz ''5''),
     Ins (Movl_imm 0 (Off 0xb0 RAX)),
     Label ''5'',
     Ins (Popq RDX),
     Ins (Popq RAX),
     Ins Iretq]"

definition timer_code :: "item list" where
  "timer_code = [
     Label ''isr_ap_idle_timer'',
     Ins (Pushq RAX),
     Ins (Movq_load (Rip Ap_request_interrupts 0) RAX),
     Ins (Addl_mem 1 (Off 64 RAX)),
     Ins (Movq_load (Rip System_lapic_base 0) RAX),
     Ins (Testq RAX),
     Ins (Jz ''7''),
     Ins (Movl_imm 0 (Off 0xb0 RAX)),
     Label ''7'',
     Ins (Popq RAX),
     Ins Iretq,
     Label ''isr_bsp_wait_timer'',
     Ins (Pushq RAX),
     Ins (Movl_load (Rip Bsp_wait_observe 8) RAX),
     Ins (Addl_imm 1 RAX),
     Ins (Movl_store RAX (Rip Bsp_wait_observe 8)),
     Ins (Movq_load (Rip System_lapic_base 0) RAX),
     Ins (Testq RAX),
     Ins (Jz ''8''),
     Ins (Movl_imm 0 (Off 0xb0 RAX)),
     Label ''8'',
     Ins (Popq RAX),
     Ins Iretq]"

definition spurious_code :: "item list" where
  "spurious_code = [
     Label ''isr_spurious_interrupt'',
     Ins (Pushq RAX),
     Ins (Movq_load (Off 8 RSP) RAX),
     Ins (Movq_store RAX (Rip System_interrupt_observe 8)),
     Ins (Movq_load (Off 16 RSP) RAX),
     Ins (Movq_store RAX (Rip System_interrupt_observe 16)),
     Ins (Movq_load (Off 24 RSP) RAX),
     Ins (Movq_store RAX (Rip System_interrupt_observe 24)),
     Ins (Movl_imm 0xff (Rip System_interrupt_observe 0)),
     Ins (Movl_load (Rip System_interrupt_observe 4) RAX),
     Ins (Addl_imm 1 RAX),
     Ins (Movl_store RAX (Rip System_interrupt_observe 4)),
     Ins (Popq RAX),
     Ins Iretq]"

definition ap_fault_code :: "item list" where
  "ap_fault_code = [
     Label ''isr_ap_fault_ud'',
     Ins (Pushq_imm 0),
     Ins (Pushq_imm 6),
     Ins (Jmp ''isr_ap_fault_common''),
     Label ''isr_ap_fault_df'',
     Ins (Pushq_imm 8),
     Ins (Jmp ''isr_ap_fault_common''),
     Label ''isr_ap_fault_gp'',
     Ins (Pushq_imm 13),
     Ins (Jmp ''isr_ap_fault_common''),
     Label ''isr_ap_fault_pf'',
     Ins (Pushq_imm 14),
     Ins (Jmp ''isr_ap_fault_common''),
     Label ''isr_ap_fault_common'',
     Ins Cld,
     Ins (Movq RSP RDI),
     Ins (Andq_minus_16 RSP),
     Ins (Call ''ap_fault_dispatch''),
     Label ''4'',
     Ins Cli,
     Ins Hlt,
     Ins (Jmp ''4''),
     Label ''isr_ap_unhandled'',
     Ins Cli,
     Label ''3'',
     Ins Hlt,
     Ins (Jmp ''3'')]"

definition isr_code :: "item list" where
  "isr_code = breakpoint_code @ bsp_fault_code @ kick_code @ completion_code @ timer_code @
     spurious_code @ ap_fault_code"

section \<open>Delivering an interrupt\<close>

text \<open>
  What the processor pushes: stack segment and pointer, flags, code segment and instruction
  pointer of the interrupted code and, for some exceptions, an error code. Offsets on the stack count
  from its top, which the processor aligns to 16 bytes.
\<close>

record int_frame =
  if_ss :: u64
  if_rsp :: u64
  if_rflags :: u64
  if_cs :: u64
  if_rip :: u64

definition deliver :: "int_frame \<Rightarrow> u64 option \<Rightarrow> machine \<Rightarrow> machine" where
  "deliver f error m =
     (let m = set_reg RSP (Ptr Stack (-40))
            (store (Stack, -40) (Num (if_rip f)) (store (Stack, -32) (Num (if_cs f))
              (store (Stack, -24) (Num (if_rflags f)) (store (Stack, -16) (Num (if_rsp f))
                (store (Stack, -8) (Num (if_ss f)) m)))))
      in case error of None \<Rightarrow> m
         | Some e \<Rightarrow> set_reg RSP (Ptr Stack (-48)) (store (Stack, -48) (Num e) m))"

text \<open>Running the entry point with the given name; 40 instructions are more than any of them has.\<close>

definition run_entry :: "string \<Rightarrow> int_frame \<Rightarrow> u64 option \<Rightarrow> machine \<Rightarrow> isr_exit option" where
  "run_entry entry f error m =
     Option.bind (goto isr_code entry (deliver f error m)) (isr_run isr_code 40)"

text \<open>The structures in memory.\<close>

definition num_at :: "(block \<times> int \<Rightarrow> val) \<Rightarrow> block \<Rightarrow> int \<Rightarrow> u64" where
  "num_at mem b o' = (case mem (b, o') of Num n \<Rightarrow> n | Ptr _ _ \<Rightarrow> 0)"

definition trace_at :: "(block \<times> int \<Rightarrow> val) \<Rightarrow> block \<Rightarrow> int \<Rightarrow> interrupt_trace_t" where
  "trace_at mem b o' = \<lparr>tr_vector = ucast (num_at mem b o'), tr_count = ucast (num_at mem b (o' + 4)),
     tr_rip = num_at mem b (o' + 8), tr_cs = num_at mem b (o' + 16), tr_rflags = num_at mem b (o' + 24)\<rparr>"

definition frame_at :: "(block \<times> int \<Rightarrow> val) \<Rightarrow> block \<Rightarrow> int \<Rightarrow> fault_frame_t" where
  "frame_at mem b o' = \<lparr>ff_vector = num_at mem b o', ff_error_code = num_at mem b (o' + 8),
     ff_rip = num_at mem b (o' + 16), ff_cs = num_at mem b (o' + 24), ff_rflags = num_at mem b (o' + 32)\<rparr>"

text \<open>
  The self test of the interrupt table: the trace is cleared, the breakpoint instruction goes
  through gate 3 of the table, and the entry point there has to have recorded it.
\<close>

definition isr_label :: "isr_addresses \<Rightarrow> u64 \<Rightarrow> string option" where
  "isr_label isr a = map_of [
     (isr_breakpoint isr, ''isr_breakpoint''), (isr_fault_ud isr, ''isr_fault_ud''),
     (isr_fault_df isr, ''isr_fault_df''), (isr_fault_gp isr, ''isr_fault_gp''),
     (isr_fault_pf isr, ''isr_fault_pf''), (isr_unhandled isr, ''isr_unhandled''),
     (isr_ap_request_kick_ipi isr, ''isr_ap_request_kick_ipi''),
     (isr_ap_request_ipi isr, ''isr_ap_request_ipi''), (isr_ap_idle_timer isr, ''isr_ap_idle_timer''),
     (isr_bsp_wait_timer isr, ''isr_bsp_wait_timer''),
     (isr_spurious_interrupt isr, ''isr_spurious_interrupt''),
     (isr_ap_fault_ud isr, ''isr_ap_fault_ud''), (isr_ap_fault_df isr, ''isr_ap_fault_df''),
     (isr_ap_fault_gp isr, ''isr_ap_fault_gp''), (isr_ap_fault_pf isr, ''isr_ap_fault_pf''),
     (isr_ap_unhandled isr, ''isr_ap_unhandled'')] a"

definition run_idt_self_test ::
    "isr_addresses \<Rightarrow> idt_entry_t list \<Rightarrow> int_frame \<Rightarrow> machine \<Rightarrow> (bool \<times> machine) option" where
  "run_idt_self_test isr idt f m =
     (let m = fold (\<lambda>o'. store (Variable Bsp_interrupt_observe, o') (Num 0)) [0, 4, 8, 16, 24] m in
      case Option.bind (isr_label isr (gate_address (idt ! 3))) (\<lambda>l. run_entry l f None m) of
        Some (Returned m) \<Rightarrow>
          (let trace = trace_at (mc_mem m) (Variable Bsp_interrupt_observe) 0
           in Some (tr_vector trace = 3 \<and> tr_count trace = 1, m))
      | _ \<Rightarrow> None)"

section \<open>What the entry points do\<close>

text \<open>The machine as a tuple, and one equation per instruction.\<close>

definition mc :: "item list \<Rightarrow> (reg \<Rightarrow> val) \<Rightarrow> (block \<times> int \<Rightarrow> val) \<Rightarrow> bool \<Rightarrow> machine" where
  "mc code R M z = \<lparr>mc_code = code, mc_regs = R, mc_mem = M, mc_zero = z\<rparr>"

definition cell :: "(reg \<Rightarrow> val) \<Rightarrow> address \<Rightarrow> (block \<times> int) option" where
  "cell R a = (case a of Off n r \<Rightarrow> (case R r of Ptr b i \<Rightarrow> Some (b, i + n) | Num _ \<Rightarrow> None)
     | Rip x n \<Rightarrow> Some (Variable x, n))"

named_theorems isr_steps \<open>execution of the interrupt entry points\<close>

lemma cell_eqs [isr_steps]:
  "cell R (Off n r) = (case R r of Ptr b i \<Rightarrow> Some (b, i + n) | Num _ \<Rightarrow> None)"
  "cell R (Rip x n) = Some (Variable x, n)"
  by (simp_all add: cell_def)

lemma isr_run_steps:
  "isr_run P (Suc n) (mc (Label l # code) R M z) = isr_run P n (mc code R M z)"
  "isr_run P (Suc n) (mc (Ins (Pushq r) # code) R M z) = (case R RSP of
     Ptr b i \<Rightarrow> isr_run P n (mc code (R(RSP := Ptr b (i - 8))) (M((b, i - 8) := R r)) z) | Num _ \<Rightarrow> None)"
  "isr_run P (Suc n) (mc (Ins (Pushq_imm v) # code) R M z) = (case R RSP of
     Ptr b i \<Rightarrow> isr_run P n (mc code (R(RSP := Ptr b (i - 8))) (M((b, i - 8) := Num v)) z) | Num _ \<Rightarrow> None)"
  "isr_run P (Suc n) (mc (Ins (Popq r) # code) R M z) = (case R RSP of
     Ptr b i \<Rightarrow> isr_run P n (mc code (R(RSP := Ptr b (i + 8), r := M (b, i))) M z) | Num _ \<Rightarrow> None)"
  "isr_run P (Suc n) (mc (Ins (Movq_load a r) # code) R M z) = (case cell R a of
     Some p \<Rightarrow> isr_run P n (mc code (R(r := M p)) M z) | None \<Rightarrow> None)"
  "isr_run P (Suc n) (mc (Ins (Movq_store r a) # code) R M z) = (case cell R a of
     Some p \<Rightarrow> isr_run P n (mc code R (M(p := R r)) z) | None \<Rightarrow> None)"
  "isr_run P (Suc n) (mc (Ins (Movq r r') # code) R M z) = isr_run P n (mc code (R(r' := R r)) M z)"
  "isr_run P (Suc n) (mc (Ins (Movl_imm d a) # code) R M z) = (case cell R a of
     Some p \<Rightarrow> isr_run P n (mc code R (M(p := Num (ucast d))) z) | None \<Rightarrow> None)"
  "isr_run P (Suc n) (mc (Ins (Movl_load a r) # code) R M z) = (case cell R a of
     Some p \<Rightarrow> (case M p of Num v \<Rightarrow> isr_run P n (mc code (R(r := Num (ucast (ucast v :: u32)))) M z)
       | Ptr _ _ \<Rightarrow> None) | None \<Rightarrow> None)"
  "isr_run P (Suc n) (mc (Ins (Movl_store r a) # code) R M z) = (case cell R a of
     Some p \<Rightarrow> (case R r of Num v \<Rightarrow> isr_run P n (mc code R (M(p := Num (ucast (ucast v :: u32)))) z)
       | Ptr _ _ \<Rightarrow> None) | None \<Rightarrow> None)"
  "isr_run P (Suc n) (mc (Ins (Addl_imm d r) # code) R M z) = (case R r of
     Num v \<Rightarrow> isr_run P n (mc code (R(r := Num (ucast (ucast v + d)))) M (ucast v + d = 0)) | Ptr _ _ \<Rightarrow> None)"
  "isr_run P (Suc n) (mc (Ins (Addl_mem d a) # code) R M z) = (case cell R a of
     Some p \<Rightarrow> (case M p of Num v \<Rightarrow> isr_run P n (mc code R (M(p := Num (ucast (ucast v + d)))) (ucast v + d = 0))
       | Ptr _ _ \<Rightarrow> None) | None \<Rightarrow> None)"
  "isr_run P (Suc n) (mc (Ins (Andq_minus_16 r) # code) R M z) = (case R r of
     Ptr b i \<Rightarrow> isr_run P n (mc code (R(r := Ptr b (i - i mod 16))) M z)
   | Num v \<Rightarrow> isr_run P n (mc code (R(r := Num (v AND (- 16)))) M z))"
  "isr_run P (Suc n) (mc (Ins (Testq r) # code) R M z) = isr_run P n (mc code R M (R r = Num 0))"
  "isr_run P (Suc n) (mc (Ins (Jz l) # code) R M z) =
     (if z then Option.bind (goto P l (mc code R M z)) (isr_run P n) else isr_run P n (mc code R M z))"
  "isr_run P (Suc n) (mc (Ins (Jmp l) # code) R M z) = Option.bind (goto P l (mc code R M z)) (isr_run P n)"
  "isr_run P (Suc n) (mc (Ins Cld # code) R M z) = isr_run P n (mc code R M z)"
  "isr_run P (Suc n) (mc (Ins Cli # code) R M z) = isr_run P n (mc code R M z)"
  "isr_run P (Suc n) (mc (Ins Hlt # code) R M z) = Some (Halts (mc code R M z))"
  "isr_run P (Suc n) (mc (Ins Iretq # code) R M z) = Some (Returned (mc code R M z))"
  "isr_run P (Suc n) (mc (Ins (Call f) # code) R M z) = Some (Calls f (mc code R M z))"
  by (auto simp: mc_def cell_def exec_def address_of_def low_half_def set_reg_def store_def push_def
      split: address.split val.split)

declare isr_run.simps [simp del]

lemmas isr_run_steps_numeral [isr_steps] = isr_run_steps [where n = "pred_numeral w" for w, folded numeral_eq_Suc]

text \<open>The code behind each label that is jumped to.\<close>

lemma mc_code_mc [simp]: "(mc code R M z)\<lparr>mc_code := code'\<rparr> = mc code' R M z"
  by (simp add: mc_def)

lemma goto_mc [isr_steps]:
  "goto isr_code l (mc code R M z) = (case dropWhile (\<lambda>x. x \<noteq> Label l) isr_code of
     [] \<Rightarrow> None | _ # code \<Rightarrow> Some (mc code R M z))"
  by (simp add: goto_def cong: list.case_cong)

lemma deliver_mc [isr_steps]:
  "deliver f error (mc code R M z) =
     (let M = M((Stack, -8) := Num (if_ss f), (Stack, -16) := Num (if_rsp f), (Stack, -24) := Num (if_rflags f),
        (Stack, -32) := Num (if_cs f), (Stack, -40) := Num (if_rip f))
      in case error of None \<Rightarrow> mc code (R(RSP := Ptr Stack (-40))) M z
         | Some e \<Rightarrow> mc code (R(RSP := Ptr Stack (-48))) (M((Stack, -48) := Num e)) z)"
  by (simp add: deliver_def mc_def set_reg_def store_def Let_def split: option.split)

lemma mc_eta: "m = mc (mc_code m) (mc_regs m) (mc_mem m) (mc_zero m)"
  by (simp add: mc_def)

lemma mc_sel [simp]:
  "mc_code (mc code R M z) = code" "mc_regs (mc code R M z) = R" "mc_mem (mc code R M z) = M"
  by (simp_all add: mc_def)

text \<open>What the handlers are meant to do to memory.\<close>

definition end_of_interrupt :: "(block \<times> int \<Rightarrow> val) \<Rightarrow> block \<times> int \<Rightarrow> val" where
  "end_of_interrupt M = (if M (Variable System_lapic_base, 0) = Num 0 then M else M((Lapic_page, 0xb0) := Num 0))"

definition count_at :: "block \<Rightarrow> int \<Rightarrow> (block \<times> int \<Rightarrow> val) \<Rightarrow> block \<times> int \<Rightarrow> val" where
  "count_at b o' M = M((b, o') := Num (ucast (ucast (num_at M b o') + 1 :: u32)))"

definition record_trace ::
    "block \<Rightarrow> int \<Rightarrow> u32 \<Rightarrow> int_frame \<Rightarrow> (block \<times> int \<Rightarrow> val) \<Rightarrow> block \<times> int \<Rightarrow> val" where
  "record_trace b o' v f M = count_at b (o' + 4) (M((b, o' + 8) := Num (if_rip f),
     (b, o' + 16) := Num (if_cs f), (b, o' + 24) := Num (if_rflags f), (b, o') := Num (ucast v)))"

text \<open>
  The entry returns to the interrupted code: all registers are as they were, the stack pointer is at
  the frame the processor pushed and that frame is intact, and outside the stack memory is \<open>M'\<close>.
\<close>

definition resumes :: "string \<Rightarrow> int_frame \<Rightarrow> machine \<Rightarrow> (block \<times> int \<Rightarrow> val) \<Rightarrow> bool" where
  "resumes entry f m M' \<longleftrightarrow> (\<exists>m'. run_entry entry f None m = Some (Returned m') \<and>
     mc_regs m' = (mc_regs m)(RSP := Ptr Stack (-40)) \<and>
     (\<forall>b i. b \<noteq> Stack \<longrightarrow> mc_mem m' (b, i) = M' (b, i)) \<and>
     (\<forall>i\<ge>-40. mc_mem m' (Stack, i) = mc_mem (deliver f None m) (Stack, i)))"

text \<open>The pointers and counters the handlers use.\<close>

definition is_num :: "val \<Rightarrow> bool" where "is_num v = (case v of Num _ \<Rightarrow> True | Ptr _ _ \<Rightarrow> False)"

definition observed :: "machine \<Rightarrow> int \<Rightarrow> bool" where
  "observed m o' \<longleftrightarrow> mc_mem m (Variable Ap_request_interrupts, 0) = Ptr (Variable Ap_contexts) o' \<and>
     mc_mem m (Variable System_lapic_base, 0) \<in> {Num 0, Ptr Lapic_page 0} \<and>
     list_all (\<lambda>a. is_num (mc_mem m a)) [(Variable Ap_contexts, o' + 4), (Variable Ap_contexts, o' + 36),
       (Variable Ap_contexts, o' + 64), (Variable Bsp_interrupt_observe, 4), (Variable Bsp_wait_observe, 8),
       (Variable System_interrupt_observe, 4)]"

lemma run_entry_mc:
  "run_entry entry f error m = (case dropWhile (\<lambda>x. x \<noteq> Label entry) isr_code of
     [] \<Rightarrow> None | _ # code \<Rightarrow> isr_run isr_code 40 ((deliver f error m)\<lparr>mc_code := code\<rparr>))"
  by (cases "dropWhile (\<lambda>x. x \<noteq> Label entry) isr_code")
    (simp_all add: run_entry_def goto_def del: dropWhile_eq_Nil_conv)

lemma is_num_eq: "is_num v \<longleftrightarrow> (\<exists>n. v = Num n)"
  by (cases v) (simp_all add: is_num_def)

lemma mc_exists: "\<exists>code R M z. m = mc code R M z"
  using mc_eta by blast

lemma isr_blocks:
  "dropWhile (\<lambda>x. x \<noteq> Label ''isr_breakpoint'') isr_code = breakpoint_code @ bsp_fault_code @ kick_code @
     completion_code @ timer_code @ spurious_code @ ap_fault_code"
  "dropWhile (\<lambda>x. x \<noteq> Label ''isr_ap_request_kick_ipi'') isr_code = kick_code @
     completion_code @ timer_code @ spurious_code @ ap_fault_code"
  "dropWhile (\<lambda>x. x \<noteq> Label ''6'') isr_code = drop 18 kick_code @
     completion_code @ timer_code @ spurious_code @ ap_fault_code"
  "dropWhile (\<lambda>x. x \<noteq> Label ''isr_ap_request_ipi'') isr_code = completion_code @ timer_code @ spurious_code @
     ap_fault_code"
  "dropWhile (\<lambda>x. x \<noteq> Label ''5'') isr_code = drop 18 completion_code @ timer_code @ spurious_code @ ap_fault_code"
  "dropWhile (\<lambda>x. x \<noteq> Label ''isr_ap_idle_timer'') isr_code = timer_code @ spurious_code @ ap_fault_code"
  "dropWhile (\<lambda>x. x \<noteq> Label ''7'') isr_code = drop 8 timer_code @ spurious_code @ ap_fault_code"
  "dropWhile (\<lambda>x. x \<noteq> Label ''isr_bsp_wait_timer'') isr_code = drop 11 timer_code @ spurious_code @ ap_fault_code"
  "dropWhile (\<lambda>x. x \<noteq> Label ''8'') isr_code = drop 20 timer_code @ spurious_code @ ap_fault_code"
  "dropWhile (\<lambda>x. x \<noteq> Label ''isr_spurious_interrupt'') isr_code = spurious_code @ ap_fault_code"
  by code_simp+

lemma ucast_round [simp]: "ucast (ucast (v :: u32) :: u64) = v"
  by (rule bit_word_eqI) (auto simp: bit_simps)

lemma regs_restored [simp]:
  "R(RSP := p, RAX := R RAX) = R(RSP := p)" "R(RSP := p, RDX := R RDX, RAX := R RAX) = R(RSP := p)"
  by auto

lemmas resumes_simps = resumes_def observed_def is_num_eq run_entry_mc isr_blocks isr_steps Let_def
  end_of_interrupt_def record_trace_def count_at_def num_at_def

lemma breakpoint_resumes:
  "observed (mc code R M z) o' \<Longrightarrow>
     resumes ''isr_breakpoint'' f (mc code R M z) (record_trace (Variable Bsp_interrupt_observe) 0 3 f M)"
  by (auto simp: resumes_simps breakpoint_code_def)

lemma kick_resumes:
  "observed (mc code R M z) o' \<Longrightarrow> resumes ''isr_ap_request_kick_ipi'' f (mc code R M z)
     (end_of_interrupt (record_trace (Variable Ap_contexts) o' 0xf0 f M))"
  by (auto simp: resumes_simps kick_code_def)

lemma completion_resumes:
  "observed (mc code R M z) o' \<Longrightarrow> resumes ''isr_ap_request_ipi'' f (mc code R M z)
     (end_of_interrupt (record_trace (Variable Ap_contexts) (o' + 32) 0xf1 f M))"
  by (auto simp: resumes_simps completion_code_def add.commute [of 36])

lemma idle_timer_resumes:
  "observed (mc code R M z) o' \<Longrightarrow> resumes ''isr_ap_idle_timer'' f (mc code R M z)
     (end_of_interrupt (count_at (Variable Ap_contexts) (o' + 64) M))"
  by (auto simp: resumes_simps timer_code_def)

lemma wait_timer_resumes:
  "observed (mc code R M z) o' \<Longrightarrow> resumes ''isr_bsp_wait_timer'' f (mc code R M z)
     (end_of_interrupt (count_at (Variable Bsp_wait_observe) 8 M))"
  by (auto simp: resumes_simps timer_code_def)

lemma spurious_resumes:
  "observed (mc code R M z) o' \<Longrightarrow> resumes ''isr_spurious_interrupt'' f (mc code R M z)
     (record_trace (Variable System_interrupt_observe) 0 0xff f M)"
  by (auto simp: resumes_simps spurious_code_def)

text \<open>
  C15. Every interrupt entry returns to the interrupted code with all registers and the frame of the
  processor intact. The breakpoint, kick, completion and spurious entries record the vector and the
  interrupted position in their trace and count it modulo \<^verbatim>\<open>2^32\<close>, the two timer entries count
  their interrupt; the entries for APIC interrupts acknowledge them exactly when the base of the APIC
  is known, and nothing else in memory changes.
\<close>

theorem interrupt_entries_record:
  assumes "observed m o'"
  shows "resumes ''isr_breakpoint'' f m (record_trace (Variable Bsp_interrupt_observe) 0 3 f (mc_mem m)) \<and>
    resumes ''isr_ap_request_kick_ipi'' f m
      (end_of_interrupt (record_trace (Variable Ap_contexts) o' 0xf0 f (mc_mem m))) \<and>
    resumes ''isr_ap_request_ipi'' f m
      (end_of_interrupt (record_trace (Variable Ap_contexts) (o' + 32) 0xf1 f (mc_mem m))) \<and>
    resumes ''isr_ap_idle_timer'' f m (end_of_interrupt (count_at (Variable Ap_contexts) (o' + 64) (mc_mem m))) \<and>
    resumes ''isr_bsp_wait_timer'' f m (end_of_interrupt (count_at (Variable Bsp_wait_observe) 8 (mc_mem m))) \<and>
    resumes ''isr_spurious_interrupt'' f m
      (record_trace (Variable System_interrupt_observe) 0 0xff f (mc_mem m))"
proof -
  obtain code R M z where m: "m = mc code R M z" using mc_exists by blast
  show ?thesis
    using assms breakpoint_resumes kick_resumes completion_resumes idle_timer_resumes wait_timer_resumes
      spurious_resumes unfolding m by simp
qed

definition example_isr_machine :: machine where
  "example_isr_machine = \<lparr>mc_code = [], mc_regs = (\<lambda>_. Num 0),
     mc_mem = (\<lambda>_. Num 0)((Variable Ap_request_interrupts, 0) := Ptr (Variable Ap_contexts) 100,
       (Variable System_lapic_base, 0) := Ptr Lapic_page 0), mc_zero = False\<rparr>"

theorem interrupt_entries_record_witness:
  "resumes ''isr_ap_idle_timer'' \<lparr>if_ss = 16, if_rsp = 0x7000, if_rflags = 2, if_cs = 8, if_rip = 0x2000\<rparr>
     example_isr_machine
     (end_of_interrupt (count_at (Variable Ap_contexts) 164 (mc_mem example_isr_machine)))"
proof -
  have "observed example_isr_machine 100"
    by (simp add: observed_def example_isr_machine_def is_num_def)
  from interrupt_entries_record [OF this] show ?thesis by simp
qed

lemma fault_blocks:
  "dropWhile (\<lambda>x. x \<noteq> Label ''isr_fault_ud'') isr_code = bsp_fault_code @ drop 41 isr_code"
  "dropWhile (\<lambda>x. x \<noteq> Label ''isr_fault_df'') isr_code = drop 4 bsp_fault_code @ drop 41 isr_code"
  "dropWhile (\<lambda>x. x \<noteq> Label ''isr_fault_gp'') isr_code = drop 7 bsp_fault_code @ drop 41 isr_code"
  "dropWhile (\<lambda>x. x \<noteq> Label ''isr_fault_pf'') isr_code = drop 10 bsp_fault_code @ drop 41 isr_code"
  "dropWhile (\<lambda>x. x \<noteq> Label ''isr_fault_common'') isr_code = drop 13 bsp_fault_code @ drop 41 isr_code"
  "dropWhile (\<lambda>x. x \<noteq> Label ''isr_unhandled'') isr_code = drop 22 bsp_fault_code @ drop 41 isr_code"
  "dropWhile (\<lambda>x. x \<noteq> Label ''isr_ap_fault_ud'') isr_code = ap_fault_code"
  "dropWhile (\<lambda>x. x \<noteq> Label ''isr_ap_fault_df'') isr_code = drop 4 ap_fault_code"
  "dropWhile (\<lambda>x. x \<noteq> Label ''isr_ap_fault_gp'') isr_code = drop 7 ap_fault_code"
  "dropWhile (\<lambda>x. x \<noteq> Label ''isr_ap_fault_pf'') isr_code = drop 10 ap_fault_code"
  "dropWhile (\<lambda>x. x \<noteq> Label ''isr_ap_fault_common'') isr_code = drop 13 ap_fault_code"
  "dropWhile (\<lambda>x. x \<noteq> Label ''isr_ap_unhandled'') isr_code = drop 22 ap_fault_code"
  by code_simp+

text \<open>The fault entries: label, vector, whether the processor pushes an error code, and the C handler.\<close>

definition fault_entries :: "(string \<times> u64 \<times> bool \<times> string) list" where
  "fault_entries = [
     (''isr_fault_ud'', 6, False, ''fault_dispatch''), (''isr_fault_df'', 8, True, ''fault_dispatch''),
     (''isr_fault_gp'', 13, True, ''fault_dispatch''), (''isr_fault_pf'', 14, True, ''fault_dispatch''),
     (''isr_ap_fault_ud'', 6, False, ''ap_fault_dispatch''), (''isr_ap_fault_df'', 8, True, ''ap_fault_dispatch''),
     (''isr_ap_fault_gp'', 13, True, ''ap_fault_dispatch''), (''isr_ap_fault_pf'', 14, True, ''ap_fault_dispatch'')]"

definition calls_with_frame :: "string \<Rightarrow> fault_frame_t \<Rightarrow> isr_exit option \<Rightarrow> bool" where
  "calls_with_frame handler frame r = (case r of
     Some (Calls h m) \<Rightarrow> h = handler \<and> mc_regs m RDI = Ptr Stack (-56) \<and> mc_regs m RSP = Ptr Stack (-64) \<and>
       frame_at (mc_mem m) Stack (-56) = frame
   | _ \<Rightarrow> False)"

lemma fault_entries_run:
  "list_all (\<lambda>(entry, vector, pushes, handler). calls_with_frame handler
       \<lparr>ff_vector = vector, ff_error_code = (if pushes then e else 0), ff_rip = if_rip f, ff_cs = if_cs f,
         ff_rflags = if_rflags f\<rparr>
       (run_entry entry f (if pushes then Some e else None) m)) fault_entries \<and>
   (\<exists>m'. run_entry ''isr_unhandled'' f None m = Some (Halts m')) \<and>
   (\<exists>m'. run_entry ''isr_ap_unhandled'' f None m = Some (Halts m'))"
proof -
  obtain code R M z where m: "m = mc code R M z" using mc_exists by blast
  note run = m run_entry_mc fault_blocks isr_steps Let_def calls_with_frame_def frame_at_def num_at_def
    bsp_fault_code_def ap_fault_code_def
  show ?thesis by (simp add: fault_entries_def run)
qed

text \<open>
  C25. Every fault entry of the BSP and of an AP calls its C handler with a pointer to a frame that
  holds the vector of the fault, the error code (zero where the processor pushes none) and the
  position of the faulting instruction, on a stack aligned to 16 bytes. The frame starts 56 bytes
  below the top of the interrupt stack. All other vectors halt the processor.
\<close>

theorem fault_entries_call_handler:
  "list_all (\<lambda>(entry, vector, pushes, handler). calls_with_frame handler
       \<lparr>ff_vector = vector, ff_error_code = (if pushes then e else 0), ff_rip = if_rip f, ff_cs = if_cs f,
         ff_rflags = if_rflags f\<rparr>
       (run_entry entry f (if pushes then Some e else None) m)) fault_entries \<and>
   (\<exists>m'. run_entry ''isr_unhandled'' f None m = Some (Halts m')) \<and>
   (\<exists>m'. run_entry ''isr_ap_unhandled'' f None m = Some (Halts m'))"
  by (rule fault_entries_run)

text \<open>
  The self test of the interrupt table succeeds: with the table the BSP installs,
  the breakpoint instruction reaches its handler and comes back, and the
  cleared trace then shows exactly one interrupt with vector 3.
\<close>

theorem idt_self_test_passes:
  assumes "length table = 256" "install_bsp_idt isr idt_addr table regs = (idt, regs')"
  shows "\<exists>m'. run_idt_self_test isr idt f m = Some (True, m') \<and>
    trace_at (mc_mem m') (Variable Bsp_interrupt_observe) 0 =
      \<lparr>tr_vector = 3, tr_count = 1, tr_rip = if_rip f, tr_cs = if_cs f, tr_rflags = if_rflags f\<rparr>"
proof -
  have "gate_view (idt ! 3) = (isr_breakpoint isr, cr_cs regs, 0, 0xef)"
    using set_all_idt_gates_nth [OF assms(1), of 3] assms(2)
    by (auto simp: install_bsp_idt_def Let_def set_idt_gates_nth bsp_idt_gates_def c_const)
  then have gate: "gate_address (idt ! 3) = isr_breakpoint isr" by (simp add: gate_view_def)
  obtain code R M z where m: "m = mc code R M z" using mc_exists by blast
  have store: "store a v (mc code R M z) = mc code R (M(a := v)) z" for a v M by (simp add: store_def mc_def)
  show ?thesis
    by (simp add: run_idt_self_test_def isr_label_def gate m store run_entry_mc isr_blocks isr_steps Let_def
        breakpoint_code_def trace_at_def num_at_def)
qed

theorem idt_self_test_passes_witness:
  "\<exists>m'. run_idt_self_test example_isr (fst (install_bsp_idt example_isr 0x6000 blank_idt example_registers))
     \<lparr>if_ss = 16, if_rsp = 0x7000, if_rflags = 2, if_cs = 8, if_rip = 0x2000\<rparr> example_isr_machine = Some (True, m')"
  using idt_self_test_passes [where table = blank_idt and isr = example_isr and idt_addr = "0x6000" and
      regs = example_registers and m = example_isr_machine and
      idt = "fst (install_bsp_idt example_isr 0x6000 blank_idt example_registers)" and
      regs' = "snd (install_bsp_idt example_isr 0x6000 blank_idt example_registers)" and
      f = "\<lparr>if_ss = 16, if_rsp = 0x7000, if_rflags = 2, if_cs = 8, if_rip = 0x2000\<rparr>"]
  by (auto simp: blank_idt_def)

end
