(* ===== verification/Ap_Entry.thy ===== *)
theory Ap_Entry
  imports Ap_Loop Trampoline Isr
begin

text \<open>
  The start of an AP context and of the AP itself (\<^verbatim>\<open>kernel/kernel.c\<close>): clearing the contexts
  and outboxes before any AP runs, and the C entry point the trampoline calls, which gives the
  processor its own descriptor tables and interrupt table, checks them and enters the request loop.
\<close>

section \<open>Clearing the contexts\<close>

definition zero_history :: ap_request_history_entry_t where
  "zero_history = \<lparr>hi_request = zero_slot, hi_counter_value = 0, hi_slot = 0, hi_valid = 0\<rparr>"

definition zero_context :: ap_context_t where
  "zero_context = \<lparr>ctx_boot = zero_boot, ctx_cpu = zero_cpu_local, ctx_idt = blank_idt,
     ctx_interrupts = \<lparr>io_kick_ipi = zero_trace, io_completion_ipi = zero_trace, io_idle_timer_count = 0\<rparr>,
     ctx_request_slots = replicate AP_REQUEST_SLOT_COUNT zero_slot,
     ctx_request_history = replicate AP_REQUEST_HISTORY_COUNT zero_history,
     ctx_queue_summary = \<lparr>qs_current_slot = 0, qs_handled_count = 0, qs_last_slot = 0, qs_last_state = 0,
       qs_stop_reason = 0, qs_planned_count = 0\<rparr>,
     ctx_current_request_slot = 0, ctx_request_handled_count = 0, ctx_counter_value = 0,
     ctx_request_kick_ipi_send_count = 0, ctx_request_kick_ipi_send_fail_count = 0,
     ctx_request_ipi_send_count = 0, ctx_request_ipi_send_fail_count = 0,
     ctx_idle_halt_count = 0, ctx_idle_wake_count = 0, ctx_completion_target_apic_id = 0\<rparr>"

definition init_ap_context :: "ap_boot_info_t \<Rightarrow> u32 \<Rightarrow> nat \<Rightarrow> kernel_state \<Rightarrow> kernel_state" where
  "init_ap_context trampoline_boot completion_target_apic_id c k =
     (let k = upd_ctx c (\<lambda>_. zero_context) k;
          k = upd_boot c (\<lambda>b. b\<lparr>bi_trampoline_base := bi_trampoline_base trampoline_boot\<rparr>) k;
          k = upd_boot c (\<lambda>b. b\<lparr>bi_sipi_vector := bi_sipi_vector trampoline_boot\<rparr>) k;
          k = upd_boot c (\<lambda>b. b\<lparr>bi_error := bi_error trampoline_boot\<rparr>) k;
          k = fold (reset_ap_inbox_slot c) [0..<AP_REQUEST_SLOT_COUNT] k;
          k = reset_ap_request_history c k;
          k = reset_ap_queue_summary c k;
          k = upd_ctx c (\<lambda>x. x\<lparr>ctx_current_request_slot := AP_REQUEST_NO_SLOT\<rparr>) k
      in upd_ctx c (\<lambda>x. x\<lparr>ctx_completion_target_apic_id := completion_target_apic_id\<rparr>) k)"

definition init_ap_contexts :: "ap_boot_info_t \<Rightarrow> u32 \<Rightarrow> kernel_state \<Rightarrow> kernel_state" where
  "init_ap_contexts trampoline_boot completion_target_apic_id k =
     fold (\<lambda>i k. let k = init_ap_context trampoline_boot completion_target_apic_id i k
            in set_service_outbox i (reset_ap_request_outbox (Some (ks_service_outboxes k ! i))) k)
       [0..<MAX_AP_CONTEXTS] k"

section \<open>The entry point of an AP\<close>

text \<open>
  The fault tests a build may compile in. \<open>mapped\<close> tells whether the page tables map an address:
  reading an unmapped one raises the page fault, vector 14.
\<close>

definition run_ap_fault_test_if_enabled :: "build_config \<Rightarrow> (u64 \<Rightarrow> bool) \<Rightarrow> unit execution" where
  "run_ap_fault_test_if_enabled cfg mapped =
     (if VIBE_AP_FAULT_TEST cfg = VIBE_AP_FAULT_TEST_UD2 then Faults 6
      else if VIBE_AP_FAULT_TEST cfg = VIBE_AP_FAULT_TEST_PF
      then (if mapped (LOW_CANONICAL_LIMIT - PAGE_SIZE_4K) then Returns () else Faults 14)
      else Returns ())"

text \<open>
  The entry point up to the fault test. \<open>cpu_at\<close> and \<open>idt_at\<close> are the addresses of the
  \<^verbatim>\<open>cpu\<close> and \<^verbatim>\<open>idt\<close> fields of the contexts, \<open>regs\<close> the registers of the AP.
\<close>

definition ap_entry_tables ::
    "isr_addresses \<Rightarrow> (nat \<Rightarrow> u64) \<Rightarrow> (nat \<Rightarrow> u64) \<Rightarrow> nat \<Rightarrow> cpu_registers \<Rightarrow> kernel_state \<Rightarrow>
     cpu_registers \<times> kernel_state" where
  "ap_entry_tables isr cpu_at idt_at c regs k =
     (let k = upd_boot c (\<lambda>b. b\<lparr>bi_entry_state := AP_ENTRY_STATE_C\<rparr>) k;
          (local_cpu, regs) = load_cpu_tables (cpu_at c) (init_cpu_local (cpu_at c) (ap_context_index c + 1)) regs;
          k = upd_ctx c (\<lambda>x. x\<lparr>ctx_cpu := local_cpu\<rparr>) k;
          k = upd_ctx c (\<lambda>x. x\<lparr>ctx_idt := init_ap_idt isr (ctx_idt x)\<rparr>) k;
          regs = load_idt_entries (idt_at c) regs;
          base = ks_system_lapic_base k;
          k = (if base \<noteq> 0
               then k\<lparr>ks_ap_lapics := (ks_ap_lapics k)[c :=
                 ap_disarm_idle_timer base (enable_lapic_if_needed (ks_ap_lapics k ! c))]\<rparr>
               else k);
          gdtr = cr_gdtr regs; idtr = cr_idtr regs; tss = cpu_tss local_cpu;
          k = upd_boot c (\<lambda>b. b\<lparr>
                bi_ap_cs := ucast (cr_cs regs), bi_ap_tr := ucast (cr_tr regs),
                bi_ap_ist1 := tss_ist tss ! (CPU_IST_FAULT - 1),
                bi_ap_ist2 := tss_ist tss ! (CPU_IST_DOUBLE_FAULT - 1)\<rparr>) k;
          k = upd_boot c (\<lambda>b. b\<lparr>
                bi_gdt_ok := (if dt_base gdtr = cpu_gdt_addr (cpu_at c) \<and>
                  dt_limit gdtr = word_of_nat (8 * CPU_GDT_ENTRIES - 1) then 1 else 0),
                bi_tss_ok := (if bi_ap_tr b = ucast KERNEL_TSS_SELECTOR \<and> cpu_tss_ready local_cpu \<noteq> 0 \<and>
                  bi_ap_ist1 b \<noteq> 0 \<and> bi_ap_ist2 b \<noteq> 0 then 1 else 0),
                bi_idt_ok := (if dt_base idtr = idt_at c \<and>
                  dt_limit idtr = word_of_nat (16 * 256 - 1) then 1 else 0)\<rparr>) k
      in (regs, upd_boot c (\<lambda>b. b\<lparr>bi_entry_state := AP_ENTRY_STATE_TABLES\<rparr>) k))"

text \<open>The whole entry point, with the first \<open>n\<close> iterations of the request loop.\<close>

definition ap_entry_one ::
    "build_config \<Rightarrow> isr_addresses \<Rightarrow> (nat \<Rightarrow> u64) \<Rightarrow> (nat \<Rightarrow> u64) \<Rightarrow> (u64 \<Rightarrow> bool) \<Rightarrow>
     (nat \<Rightarrow> kernel_state \<Rightarrow> kernel_state) \<Rightarrow> nat \<Rightarrow> nat \<Rightarrow> cpu_registers \<Rightarrow> kernel_state \<Rightarrow> ap_outcome" where
  "ap_entry_one cfg isr cpu_at idt_at mapped wake n c regs k =
     (let (regs, k) = ap_entry_tables isr cpu_at idt_at c regs k in
      case run_ap_fault_test_if_enabled cfg mapped of
        Faults vector \<Rightarrow> Ap_Faults vector k
      | Hangs \<Rightarrow> Ap_Hangs k
      | Returns _ \<Rightarrow> ap_request_loop cfg \<lparr>sel_cs = cr_cs regs, sel_tr = cr_tr regs\<rparr> wake c n k)"

section \<open>The cleared state\<close>

text \<open>The arrays have the lengths their declarations give them; their contents are arbitrary.\<close>

definition outbox_shape :: "ap_request_outbox_t \<Rightarrow> bool" where
  "outbox_shape ob \<longleftrightarrow> length (ob_entries ob) = 4"

definition ks_shape :: "kernel_state \<Rightarrow> bool" where
  "ks_shape k \<longleftrightarrow> length (ks_contexts k) = MAX_AP_CONTEXTS \<and> length (ks_ap_lapics k) = MAX_AP_CONTEXTS \<and>
     length (ks_service_outboxes k) = MAX_AP_CONTEXTS \<and> list_all outbox_shape (ks_service_outboxes k) \<and>
     length (ks_committed_outboxes k) = MAX_AP_CONTEXTS \<and>
     list_all (\<lambda>row. length row = AP_REQUEST_SLOT_COUNT \<and> list_all outbox_shape row) (ks_committed_outboxes k)"

text \<open>The context an AP starts with.\<close>

definition fresh_context :: "ap_boot_info_t \<Rightarrow> u32 \<Rightarrow> ap_context_t" where
  "fresh_context boot apic_id = zero_context\<lparr>
     ctx_boot := zero_boot\<lparr>bi_trampoline_base := bi_trampoline_base boot,
       bi_sipi_vector := bi_sipi_vector boot, bi_error := bi_error boot\<rparr>,
     ctx_queue_summary := (ctx_queue_summary zero_context)\<lparr>qs_planned_count := 4\<rparr>,
     ctx_current_request_slot := AP_REQUEST_NO_SLOT,
     ctx_completion_target_apic_id := apic_id\<rparr>"

lemma upt_small: "[0..<4] = [0, 1, 2, 3]" "[0..<8] = [0, 1, 2, 3, 4, 5, 6, 7]"
  by (simp_all add: upt_rec numeral_eq_Suc)

lemma reset_outbox_empty:
  "outbox_shape ob \<Longrightarrow> reset_ap_request_outbox (Some ob) = Some empty_outbox"
  using reset_outbox_eq [of ob]
  by (cases ob) (simp add: outbox_shape_def empty_outbox_def del: reset_ap_request_outbox.simps)

lemma replicate_drop_update:
  "n < length xs \<Longrightarrow> (replicate n y @ drop n xs)[n := y] = replicate (Suc n) y @ drop (Suc n) xs"
  using Cons_nth_drop_Suc [of n xs]
  by (metis append_Cons append_assoc append_Nil length_replicate list_update_length replicate_Suc replicate_append_same)

text \<open>Resetting one slot, on a state whose context and row of outboxes are given.\<close>

lemma reset_ap_inbox_slot_run:
  assumes "c < length (ks_contexts k)" "c < length (ks_committed_outboxes k)" "c < 8" "i < 4"
    and "outbox_shape (ks_committed_outboxes k ! c ! i)"
  shows "reset_ap_inbox_slot c i k = k\<lparr>
     ks_contexts := (ks_contexts k)[c := (ks_contexts k ! c)\<lparr>ctx_request_slots :=
       (ctx_request_slots (ks_contexts k ! c))[i := zero_slot]\<rparr>],
     ks_committed_outboxes := (ks_committed_outboxes k)[c := (ks_committed_outboxes k ! c)[i := empty_outbox]]\<rparr>"
  using assms
  by (simp add: reset_ap_inbox_slot_def upd_slot_def upd_ctx_def set_committed_outbox_def Let_def
      ap_committed_outbox_for_slot_def reset_ap_request_slot_zero reset_outbox_empty c_const
      del: reset_ap_request_outbox.simps)

lemma reset_inbox_slots:
  assumes len: "c < length (ks_contexts k)" "c < length (ks_committed_outboxes k)" "c < 8"
    and slots: "length (ctx_request_slots (ks_contexts k ! c)) = 4"
    and row: "length (ks_committed_outboxes k ! c) = 4" "list_all outbox_shape (ks_committed_outboxes k ! c)"
    and n: "n \<le> 4"
  shows "fold (reset_ap_inbox_slot c) [0..<n] k = k\<lparr>
     ks_contexts := (ks_contexts k)[c := (ks_contexts k ! c)\<lparr>ctx_request_slots :=
       replicate n zero_slot @ drop n (ctx_request_slots (ks_contexts k ! c))\<rparr>],
     ks_committed_outboxes := (ks_committed_outboxes k)[c :=
       replicate n empty_outbox @ drop n (ks_committed_outboxes k ! c)]\<rparr>"
  using n
proof (induction n)
  case (Suc n)
  have shape: "outbox_shape (ks_committed_outboxes k ! c ! n)"
    using Suc.prems row by (simp add: list_all_length)
  have "(replicate n empty_outbox @ drop n (ks_committed_outboxes k ! c)) ! n = ks_committed_outboxes k ! c ! n"
    using Suc.prems row(1) by (simp add: nth_append)
  then show ?case
    using Suc len slots row(1) shape
    by (simp add: reset_ap_inbox_slot_run replicate_drop_update del: replicate.simps)
qed simp

lemma reset_history_entry_zero [simp]: "reset_history_entry h = zero_history"
  by (cases h) (simp add: reset_history_entry_def zero_history_def reset_ap_request_slot_zero)

lemma reset_zero_history:
  "fold (\<lambda>i h. h[i := zero_history]) [0..<8] (replicate 8 zero_history) = replicate 8 zero_history"
  by (simp add: upt_small) (simp add: numeral_eq_Suc)

lemma init_ap_context_run:
  assumes len: "c < length (ks_contexts k)" "c < length (ks_committed_outboxes k)" "c < 8"
    and row: "length (ks_committed_outboxes k ! c) = 4" "list_all outbox_shape (ks_committed_outboxes k ! c)"
  shows "init_ap_context boot apic_id c k = k\<lparr>
     ks_contexts := (ks_contexts k)[c := fresh_context boot apic_id],
     ks_committed_outboxes := (ks_committed_outboxes k)[c := replicate 4 empty_outbox]\<rparr>"
proof -
  let ?x = "zero_context\<lparr>ctx_boot := zero_boot\<lparr>bi_trampoline_base := bi_trampoline_base boot,
       bi_sipi_vector := bi_sipi_vector boot, bi_error := bi_error boot\<rparr>\<rparr>"
  let ?k = "k\<lparr>ks_contexts := (ks_contexts k)[c := ?x]\<rparr>"
  have slots: "ctx_request_slots ?x = replicate 4 zero_slot" "ctx_request_history ?x = replicate 8 zero_history"
    "ctx_boot zero_context = zero_boot"
    by (simp_all add: zero_context_def c_const)
  have fold: "fold (reset_ap_inbox_slot c) [0..<4] ?k =
      ?k\<lparr>ks_committed_outboxes := (ks_committed_outboxes k)[c := replicate 4 empty_outbox]\<rparr>"
    using reset_inbox_slots [where k = ?k and c = c and n = 4] len row slots
    by (simp add: zero_context_def c_const)
  have "fresh_context boot apic_id = ?x\<lparr>
      ctx_request_history := replicate 8 zero_history,
      ctx_queue_summary := (ctx_queue_summary ?x)\<lparr>qs_current_slot := 0, qs_handled_count := 0, qs_last_slot := 0,
        qs_last_state := 0, qs_stop_reason := 0, qs_planned_count := 4\<rparr>,
      ctx_current_request_slot := AP_REQUEST_NO_SLOT, ctx_completion_target_apic_id := apic_id\<rparr>"
    by (simp add: fresh_context_def zero_context_def c_const)
  then show ?thesis
    using len fold slots(2,3)
    by (simp add: init_ap_context_def Let_def upd_boot_def upd_queue_def upd_ctx_def reset_ap_request_history_def
        reset_ap_queue_summary_def reset_zero_history c_const)
qed

lemma init_ap_contexts_run:
  assumes "ks_shape k"
  shows "init_ap_contexts boot apic_id k = k\<lparr>
     ks_contexts := replicate 8 (fresh_context boot apic_id),
     ks_service_outboxes := replicate 8 empty_outbox,
     ks_committed_outboxes := replicate 8 (replicate 4 empty_outbox)\<rparr>"
proof -
  let ?f = "\<lambda>i k. let k = init_ap_context boot apic_id i k
            in set_service_outbox i (reset_ap_request_outbox (Some (ks_service_outboxes k ! i))) k"
  have "fold ?f [0..<n] k = k\<lparr>
     ks_contexts := replicate n (fresh_context boot apic_id) @ drop n (ks_contexts k),
     ks_service_outboxes := replicate n empty_outbox @ drop n (ks_service_outboxes k),
     ks_committed_outboxes := replicate n (replicate 4 empty_outbox) @ drop n (ks_committed_outboxes k)\<rparr>"
    if "n \<le> 8" for n
    using that
  proof (induction n)
    case (Suc n)
    let ?k = "k\<lparr>
     ks_contexts := replicate n (fresh_context boot apic_id) @ drop n (ks_contexts k),
     ks_service_outboxes := replicate n empty_outbox @ drop n (ks_service_outboxes k),
     ks_committed_outboxes := replicate n (replicate 4 empty_outbox) @ drop n (ks_committed_outboxes k)\<rparr>"
    have len: "n < length (ks_contexts k)" "n < length (ks_committed_outboxes k)" "n < length (ks_service_outboxes k)"
      using Suc.prems assms by (simp_all add: ks_shape_def c_const)
    have shape: "outbox_shape (ks_service_outboxes k ! n)" "length (ks_committed_outboxes k ! n) = 4"
      "list_all outbox_shape (ks_committed_outboxes k ! n)"
      using len assms by (simp_all add: ks_shape_def list_all_length c_const)
    have "init_ap_context boot apic_id n ?k = ?k\<lparr>
       ks_contexts := (ks_contexts ?k)[n := fresh_context boot apic_id],
       ks_committed_outboxes := (ks_committed_outboxes ?k)[n := replicate 4 empty_outbox]\<rparr>"
      using len shape Suc.prems by (intro init_ap_context_run) (simp_all add: nth_append)
    moreover have "fold ?f [0..<Suc n] k = ?f n ?k" using Suc by simp
    moreover have "ks_service_outboxes ?k ! n = ks_service_outboxes k ! n" using len by (simp add: nth_append)
    ultimately show ?case
      using len shape(1)
      by (simp add: Let_def set_service_outbox_def reset_outbox_empty replicate_drop_update
          del: replicate.simps reset_ap_request_outbox.simps)
  qed simp
  from this [of 8] show ?thesis
    using assms by (simp add: init_ap_contexts_def ks_shape_def c_const)
qed

text \<open>
  C24. Clearing the contexts gives every AP a well-formed, idle context, whatever the memory held
  before: the arrays have their declared lengths and every outbox is empty, every request slot is
  empty, no history entry is valid, no slot is current and no AP is online; the boot record carries
  the trampoline and its error, and the completion interrupt goes to the given APIC. The rest of the
  state is untouched.
\<close>

theorem init_ap_contexts_type:
  fixes boot :: ap_boot_info_t and apic_id :: u32 and k :: kernel_state
  assumes "ks_shape k"
  defines "k' \<equiv> init_ap_contexts boot apic_id k"
  shows "ks_wf k' \<and> ks_bsp_lapic k' = ks_bsp_lapic k \<and> ks_ap_lapics k' = ks_ap_lapics k \<and>
    (\<forall>c<MAX_AP_CONTEXTS. let x = ks_contexts k' ! c; b = boot_of k' c in
      bi_online b = 0 \<and> bi_ap_state b = AP_BOOT_STATE_NONE \<and> bi_entry_state b = AP_ENTRY_STATE_NONE \<and>
      bi_trampoline_base b = bi_trampoline_base boot \<and> bi_sipi_vector b = bi_sipi_vector boot \<and>
      bi_error b = bi_error boot \<and> length (ctx_idt x) = 256 \<and>
      ctx_current_request_slot x = AP_REQUEST_NO_SLOT \<and> ctx_completion_target_apic_id x = apic_id \<and>
      ctx_request_handled_count x = 0 \<and> ctx_counter_value x = 0 \<and>
      list_all (\<lambda>h. hi_valid h = 0) (ctx_request_history x) \<and>
      outbox_plans (ap_service_outbox_for_context k' c) = [] \<and>
      (\<forall>i<AP_REQUEST_SLOT_COUNT. slot_state (ap_inbox_slot k' c i) = AP_REQUEST_STATUS_EMPTY \<and>
        outbox_plans (ap_committed_outbox_for_slot k' c i) = []))"
proof -
  have k': "k' = k\<lparr>ks_contexts := replicate 8 (fresh_context boot apic_id),
     ks_service_outboxes := replicate 8 empty_outbox,
     ks_committed_outboxes := replicate 8 (replicate 4 empty_outbox)\<rparr>"
    using init_ap_contexts_run [OF assms(1)] by (simp add: k'_def)
  have fresh: "context_wf (fresh_context boot apic_id)" "outbox_plans (Some empty_outbox) = []"
    "slot_state zero_slot = AP_REQUEST_STATUS_EMPTY"
    by (simp_all add: fresh_context_def zero_context_def context_wf_def outbox_plans_def empty_outbox_def
        zero_slot_def c_const)
  have "ks_wf k'"
    using assms(1) fresh(1) empty_outbox_wf by (simp add: k' ks_wf_def ks_shape_def c_const)
  moreover have "length (ctx_idt (fresh_context boot apic_id)) = 256"
    by (simp add: fresh_context_def zero_context_def blank_idt_def)
  ultimately show ?thesis
    using fresh(2,3)
    by (simp add: k' boot_of_def ap_inbox_slot_def ap_service_outbox_for_context_def Let_def
        ap_committed_outbox_for_slot_def c_const)
      (simp add: fresh_context_def zero_context_def zero_boot_def zero_history_def list_all_length c_const)
qed

theorem init_ap_contexts_type_witness:
  "ks_wf (init_ap_contexts (boot_with 0 0 0) 7 example_kernel) \<and>
   ctx_completion_target_apic_id (ks_contexts (init_ap_contexts (boot_with 0 0 0) 7 example_kernel) ! 5) = 7"
proof -
  have "ks_shape example_kernel"
    by (simp add: ks_shape_def example_kernel_def outbox_shape_def empty_outbox_def list_all_length c_const)
  from init_ap_contexts_type [OF this, of "boot_with 0 0 0" 7] show ?thesis
    by (simp add: Let_def c_const)
qed

section \<open>Entering the loop\<close>

text \<open>The boot record after a successful check of the tables.\<close>

definition checked_boot :: "u64 \<Rightarrow> ap_boot_info_t \<Rightarrow> ap_boot_info_t" where
  "checked_boot cpu b = b\<lparr>bi_ap_cs := 8, bi_ap_tr := 0x18,
     bi_ap_ist1 := cpu + 160 + 0x4000, bi_ap_ist2 := cpu + 160 + 0x8000,
     bi_gdt_ok := 1, bi_tss_ok := 1, bi_idt_ok := 1, bi_entry_state := AP_ENTRY_STATE_TABLES\<rparr>"

lemma init_cpu_local_view:
  "tss_ist (cpu_tss (init_cpu_local cpu n)) = [cpu + 160 + 0x4000, cpu + 160 + 0x8000, 0, 0, 0, 0, 0]"
  "cpu_tss_ready (init_cpu_local cpu n) = 1"
  by (simp_all add: init_cpu_local_def Let_def zero_tss_def zero_cpu_local_def c_const replicate_small
        cpu_fault_stack_addr_def cpu_double_fault_stack_addr_def)

lemma ap_entry_tables_run:
  assumes wf: "ks_wf k" "c < 8" and stacks: "cpu_at c + 160 + 0x4000 \<noteq> 0" "cpu_at c + 160 + 0x8000 \<noteq> 0"
  shows "\<exists>l regs'. ap_entry_tables isr cpu_at idt_at c regs k = (regs', upd_ctx c (\<lambda>x. x\<lparr>
      ctx_cpu := (init_cpu_local (cpu_at c) (ap_context_index c + 1))\<lparr>cpu_loaded_tr := 0x18\<rparr>,
      ctx_idt := init_ap_idt isr (ctx_idt x), ctx_boot := checked_boot (cpu_at c) (ctx_boot x)\<rparr>) (k\<lparr>ks_ap_lapics := (ks_ap_lapics k)[c := l]\<rparr>)) \<and>
    cr_cs regs' = 8 \<and> cr_tr regs' = 0x18 \<and> dt_base (cr_idtr regs') = idt_at c \<and>
    dt_base (cr_gdtr regs') = cpu_gdt_addr (cpu_at c)"
proof -
  let ?l = "if ks_system_lapic_base k \<noteq> 0 then ap_disarm_idle_timer (ks_system_lapic_base k)
    (enable_lapic_if_needed (ks_ap_lapics k ! c)) else ks_ap_lapics k ! c"
  have len: "c < length (ks_contexts k)" using ks_wf_lengths(1) [OF wf(1)] wf(2) by simp
  have tss: "ucast KERNEL_TSS_SELECTOR = (0x18 :: u64)" by (simp add: c_const)
  show ?thesis
    using len stacks
    by (intro exI [of _ ?l])
      (auto simp: ap_entry_tables_def Let_def upd_boot_def upd_ctx_def load_cpu_tables_def load_idt_entries_def
        init_cpu_local_view checked_boot_def tss c_const)
qed

lemma ap_lapic_view [ks_view]:
  "ks_wf k \<Longrightarrow> ks_wf (k\<lparr>ks_ap_lapics := (ks_ap_lapics k)[c := l]\<rparr>)"
  "ap_inbox_slot (k\<lparr>ks_ap_lapics := ls\<rparr>) d j = ap_inbox_slot k d j"
  "boot_of (k\<lparr>ks_ap_lapics := ls\<rparr>) d = boot_of k d"
  by (simp_all add: ks_wf_def ap_inbox_slot_def boot_of_def)

lemma ap_entry_tables_view:
  assumes wf: "ks_wf k" "c < 8" and stacks: "cpu_at c + 160 + 0x4000 \<noteq> 0" "cpu_at c + 160 + 0x8000 \<noteq> 0"
  obtains regs' k' where "ap_entry_tables isr cpu_at idt_at c regs k = (regs', k')"
    "cr_cs regs' = 8" "cr_tr regs' = 0x18" "dt_base (cr_idtr regs') = idt_at c" "ks_wf k'"
    "ctx_idt (ks_contexts k' ! c) = init_ap_idt isr (ctx_idt (ks_contexts k ! c))"
    "ctx_current_request_slot (ks_contexts k' ! c) = ctx_current_request_slot (ks_contexts k ! c)"
    "\<And>d. boot_of k' d = (if d = c then checked_boot (cpu_at c) (boot_of k c) else boot_of k d)"
    "\<And>d j. ap_inbox_slot k' d j = ap_inbox_slot k d j"
    "\<And>d. d \<noteq> c \<Longrightarrow> ks_contexts k' ! d = ks_contexts k ! d"
proof -
  let ?f = "\<lambda>x. x\<lparr>ctx_cpu := (init_cpu_local (cpu_at c) (ap_context_index c + 1))\<lparr>cpu_loaded_tr := 0x18\<rparr>,
      ctx_idt := init_ap_idt isr (ctx_idt x), ctx_boot := checked_boot (cpu_at c) (ctx_boot x)\<rparr>"
  obtain l regs' where run: "ap_entry_tables isr cpu_at idt_at c regs k =
      (regs', upd_ctx c ?f (k\<lparr>ks_ap_lapics := (ks_ap_lapics k)[c := l]\<rparr>))"
    "cr_cs regs' = 8" "cr_tr regs' = 0x18" "dt_base (cr_idtr regs') = idt_at c"
    using ap_entry_tables_run [where cpu_at = cpu_at, OF assms, of isr idt_at regs] by auto
  have len: "c < length (ks_contexts k)" using ks_wf_lengths(1) [OF wf(1)] wf(2) by simp
  show ?thesis
    by (rule that [OF run])
      (use len wf in \<open>auto intro!: ks_wf_upd_ctx simp: ks_view context_wf_def boot_of_def ap_inbox_slot_def\<close>)
qed

text \<open>
  An AP that starts finds its tables in order and enters the request loop: after the entry point
  has loaded them, the checks it performs on the registers it reads back all succeed, the boot record
  shows the kernel code and task selectors and the tops of the two interrupt stacks of this AP, the AP
  is online, and from there on it runs the request loop. No slot and no other context is touched.
\<close>

theorem ap_entry_one_enters_loop:
  assumes "ks_wf k" "c < MAX_AP_CONTEXTS" "cpu_at c + 160 + 0x4000 \<noteq> 0" "cpu_at c + 160 + 0x8000 \<noteq> 0"
    and "run_ap_fault_test_if_enabled cfg mapped = Returns ()"
  shows "\<exists>k'. (\<forall>n. ap_entry_one cfg isr cpu_at idt_at mapped wake n c regs k =
        ap_request_loop_from cfg \<lparr>sel_cs = 8, sel_tr = 0x18\<rparr> wake c n k') \<and> ks_wf k' \<and>
    ctx_idt (ks_contexts k' ! c) = init_ap_idt isr (ctx_idt (ks_contexts k ! c)) \<and>
    boot_of k' c = (checked_boot (cpu_at c) (boot_of k c))\<lparr>bi_ap_state := AP_BOOT_STATE_ONLINE,
      bi_entry_state := AP_ENTRY_STATE_LOOP, bi_online := 1\<rparr> \<and>
    (\<forall>d j. ap_inbox_slot k' d j = ap_inbox_slot k d j) \<and>
    (\<forall>d. d \<noteq> c \<longrightarrow> ks_contexts k' ! d = ks_contexts k ! d)"
proof -
  have c: "c < 8" using assms(2) by (simp add: c_const)
  obtain regs' k1 where run: "ap_entry_tables isr cpu_at idt_at c regs k = (regs', k1)"
    "cr_cs regs' = 8" "cr_tr regs' = 0x18" "ks_wf k1"
    "ctx_idt (ks_contexts k1 ! c) = init_ap_idt isr (ctx_idt (ks_contexts k ! c))"
    "boot_of k1 c = checked_boot (cpu_at c) (boot_of k c)"
    "\<And>d j. ap_inbox_slot k1 d j = ap_inbox_slot k d j"
    "\<And>d. d \<noteq> c \<Longrightarrow> ks_contexts k1 ! d = ks_contexts k ! d"
    using ap_entry_tables_view [where cpu_at = cpu_at, OF assms(1) c assms(3,4), of isr idt_at regs] by metis
  have len: "c < length (ks_contexts k1)" using ks_wf_lengths(1) [OF run(4)] c by simp
  have ctx: "ctx_idt (ks_contexts (ap_loop_enter c k1) ! c) = ctx_idt (ks_contexts k1 ! c)"
    "d \<noteq> c \<Longrightarrow> ks_contexts (ap_loop_enter c k1) ! d = ks_contexts k1 ! d" for d
    using len by (simp_all add: ap_loop_enter_def upd_boot_def ks_view)
  show ?thesis
    using run c assms(5) ctx
    by (intro exI [of _ "ap_loop_enter c k1"])
      (simp add: ap_entry_one_def ap_request_loop_def, simp add: ap_loop_enter_def ks_view ks_wf_upd)
qed

definition test_build :: "u32 \<Rightarrow> build_config" where
  "test_build t = default_build\<lparr>VIBE_AP_FAULT_TEST := t\<rparr>"

theorem ap_entry_one_enters_loop_witness:
  "\<exists>k'. (\<forall>n. ap_entry_one default_build example_isr example_cpu_at (\<lambda>_. 0x5000) (\<lambda>_. True) (\<lambda>_ k. k) n 2
       example_registers example_kernel = ap_request_loop_from default_build \<lparr>sel_cs = 8, sel_tr = 0x18\<rparr> (\<lambda>_ k. k) 2 n k') \<and>
     bi_tss_ok (boot_of k' 2) = 1"
proof -
  have "run_ap_fault_test_if_enabled default_build (\<lambda>_. True) = Returns ()"
    by (simp add: run_ap_fault_test_if_enabled_def c_const)
  from ap_entry_one_enters_loop [where cpu_at = example_cpu_at and c = 2, OF example_kernel_wf _ _ _ this,
      of example_isr "\<lambda>_. 0x5000" "\<lambda>_ k. k" example_registers]
  show ?thesis by (auto simp: c_const example_cpu_at_def checked_boot_def)
qed

section \<open>A fault before the loop\<close>

lemma ap_fault_dispatch_no_slot:
  fixes k :: kernel_state and frame :: fault_frame_t and cr2 a :: u64 and self :: nat and cpu_at :: "nat \<Rightarrow> u64"
  assumes wf: "ks_wf k" and c: "ap_context_from_fault_frame cpu_at a = c"
    and none: "\<not> unat (ctx_current_request_slot (ks_contexts k ! c)) < AP_REQUEST_SLOT_COUNT"
  defines "k' \<equiv> ap_fault_dispatch cpu_at self a frame cr2 k"
  shows "ks_wf k'" "ks_bsp_lapic k' = ks_bsp_lapic k"
    "bi_target_apic_id (boot_of k' c) = bi_target_apic_id (boot_of k c)"
    "bi_sipi_vector (boot_of k' c) = bi_sipi_vector (boot_of k c)"
    "ap_inbox_slot k' d j = ap_inbox_slot k d j" "d \<noteq> c \<Longrightarrow> boot_of k' d = boot_of k d"
    "bi_ap_state (boot_of k' c) = AP_BOOT_STATE_FAULTED" "bi_entry_state (boot_of k' c) = AP_ENTRY_STATE_FAULT"
    "bi_online (boot_of k' c) = 1" "bi_fault_vector (boot_of k' c) = ff_vector frame"
    "bi_fault_rip (boot_of k' c) = ff_rip frame"
    "bi_fault_phase (boot_of k' c) = fault_phase_of False (bi_entry_state (boot_of k c)) AP_REQUEST_STATUS_EMPTY"
proof -
  have c8: "c < 8" using ap_context_from_fault_frame_bound [of cpu_at a] c by simp
  define k1 where "k1 = upd_boot c (\<lambda>b. b\<lparr>bi_entry_state := AP_ENTRY_STATE_FAULT,
                bi_ap_state := AP_BOOT_STATE_FAULTED\<rparr>) (upd_boot c (\<lambda>b. b\<lparr>
            bi_fault_vector := ff_vector frame, bi_fault_error_code := ff_error_code frame,
            bi_fault_rip := ff_rip frame, bi_fault_cs := ff_cs frame,
            bi_fault_rflags := ff_rflags frame, bi_fault_cr2 := cr2,
            bi_fault_phase := fault_phase_of False (bi_entry_state (boot_of k c)) AP_REQUEST_STATUS_EMPTY,
            bi_fault_request_state := AP_REQUEST_STATUS_EMPTY, bi_fault_request_opcode := AP_REQUEST_OP_NONE,
            bi_fault_request_sequence := 0, bi_fault_request_service_id := 0, bi_fault_request_interface_id := 0,
            bi_fault_request_id_high := 0, bi_fault_request_id_low := 0\<rparr>) k)"
  have wf1: "ks_wf k1" using wf c8 by (auto simp: k1_def)
  note notify = ap_notify_view [OF wf1 c8, of self]
  have k': "k' = upd_boot c (\<lambda>b. b\<lparr>bi_online := 1\<rparr>) (ap_notify_bsp_request_complete self c k1)"
    using none by (simp add: k'_def ap_fault_dispatch_def c k1_def Let_def)
  obtain n where n: "boot_of (ap_notify_bsp_request_complete self c k1) c = (boot_of k1 c)\<lparr>bi_icr_timeouts := n\<rparr>"
    using notify(3) [of c] by auto
  have other: "boot_of (ap_notify_bsp_request_complete self c k1) d = boot_of k1 d" if "d \<noteq> c" for d
    using notify(3) [of d] that by auto
  note view = boot_view [OF notify(1) c8] slot_view [OF notify(1) c8]
  show "ks_wf k'" unfolding k' using notify(1) c8 by auto
  have "ks_bsp_lapic (ap_notify_bsp_request_complete self c k1) = ks_bsp_lapic k1"
    by (simp add: ap_notify_bsp_request_complete_def Let_def split: prod.split)
  then show "ks_bsp_lapic k' = ks_bsp_lapic k" by (simp add: k' k1_def upd_boot_def ks_view)
  show "ap_inbox_slot k' d j = ap_inbox_slot k d j"
    using wf c8 by (simp add: k' view notify(2)) (simp add: k1_def ks_view ks_wf_upd)
  show "d \<noteq> c \<Longrightarrow> boot_of k' d = boot_of k d"
    using wf c8 by (simp add: k' view other) (simp add: k1_def ks_view ks_wf_upd)
  show "bi_target_apic_id (boot_of k' c) = bi_target_apic_id (boot_of k c)"
    "bi_sipi_vector (boot_of k' c) = bi_sipi_vector (boot_of k c)"
    "bi_ap_state (boot_of k' c) = AP_BOOT_STATE_FAULTED" "bi_entry_state (boot_of k' c) = AP_ENTRY_STATE_FAULT"
    "bi_online (boot_of k' c) = 1" "bi_fault_vector (boot_of k' c) = ff_vector frame"
    "bi_fault_rip (boot_of k' c) = ff_rip frame"
    "bi_fault_phase (boot_of k' c) = fault_phase_of False (bi_entry_state (boot_of k c)) AP_REQUEST_STATUS_EMPTY"
    using wf c8 by (simp_all add: k' view n) (simp_all add: k1_def ks_view ks_wf_upd)
qed

text \<open>The contexts lie in memory one after another, with room for the two interrupt stacks.\<close>

definition context_layout :: "(nat \<Rightarrow> u64) \<Rightarrow> bool" where
  "context_layout cpu_at \<longleftrightarrow> (\<exists>stride. 32928 \<le> stride \<and> unat (cpu_at 0) + MAX_AP_CONTEXTS * stride < 2 ^ 64 \<and>
     (\<forall>j<MAX_AP_CONTEXTS. unat (cpu_at j) = unat (cpu_at 0) + j * stride))"

lemma context_layout_stacks:
  assumes "context_layout cpu_at" "c < 8"
  shows "cpu_at c + 160 + 0x4000 \<noteq> 0" "cpu_at c + 160 + 0x8000 \<noteq> 0"
    "ap_context_from_fault_frame cpu_at (cpu_at c + 160 + 0x4000 - 56) = c"
proof -
  obtain stride where st: "32928 \<le> stride" "unat (cpu_at 0) + 8 * stride < 2 ^ 64"
    "\<And>j. j < 8 \<Longrightarrow> unat (cpu_at j) = unat (cpu_at 0) + j * stride"
    using assms(1) unfolding context_layout_def MAX_AP_CONTEXTS_def by blast
  have "Suc c * stride \<le> 8 * stride" using assms(2) by (intro mult_le_mono1) simp
  then have room: "unat (cpu_at c) + 32928 < 2 ^ 64"
    using st(3) [OF assms(2)] st(1,2) unfolding mult_Suc by linarith
  have add: "unat (cpu_at c + w) = unat (cpu_at c) + unat w" if "unat w \<le> 32928" for w
    using room that by (simp add: unat_word_ariths(1))
  have nz: "unat (cpu_at c + 160 + 0x4000) = unat (cpu_at c) + 16544"
    "unat (cpu_at c + 160 + 0x8000) = unat (cpu_at c) + 32928"
    "unat (cpu_at c + 160 + 0x4000 - 56) = unat (cpu_at c) + 16488"
    "unat (cpu_fault_stack_addr (cpu_at c)) = unat (cpu_at c) + 160"
    "unat (cpu_fault_stack_addr (cpu_at c) + CPU_FAULT_STACK_SIZE) = unat (cpu_at c) + 16544"
    using add [of 16544] add [of 32928] add [of 16488] add [of 160]
    by (simp_all add: cpu_fault_stack_addr_def CPU_FAULT_STACK_SIZE_def add.assoc add.commute [of "16488 :: u64"])
  then show "cpu_at c + 160 + 0x4000 \<noteq> 0" "cpu_at c + 160 + 0x8000 \<noteq> 0"
    by (metis add_is_0 unat_0 zero_neq_numeral)+
  show "ap_context_from_fault_frame cpu_at (cpu_at c + 160 + 0x4000 - 56) = c"
  proof (rule fault_frame_context [of c cpu_at "cpu_at 0" stride])
    show "unat (cpu_at j) = unat (cpu_at 0) + j * stride" if "j < MAX_AP_CONTEXTS" for j
      using that by (intro st(3)) (simp add: MAX_AP_CONTEXTS_def)
    show "address_in_range (cpu_at c + 160 + 0x4000 - 56) (cpu_fault_stack_addr (cpu_at c)) CPU_FAULT_STACK_SIZE \<or>
      address_in_range (cpu_at c + 160 + 0x4000 - 56) (cpu_double_fault_stack_addr (cpu_at c)) CPU_FAULT_STACK_SIZE"
      unfolding address_in_range_def word_le_nat_alt word_less_nat_alt nz by simp
  qed (use st(1,2) assms(2) in \<open>simp_all add: MAX_AP_CONTEXTS_def\<close>)
qed

text \<open>
  C16. A fault during start-up reaches the BSP. When a build with a start-up fault test runs, the
  fault goes through the gate of its vector in the table the AP has just loaded to an entry point that
  calls the handler with a frame on the fault stack of this AP; from the address of that frame the
  handler finds the context of this AP, and afterwards the boot record shows the AP as faulted and
  online, in the start-up phase, with the vector and the position of the fault. No request slot and no
  other AP is affected. The addresses of the entry points must not coincide.
\<close>

theorem startup_fault_is_reported:
  assumes wf: "ks_wf k" "c < MAX_AP_CONTEXTS" "context_layout cpu_at"
    and idle: "ctx_current_request_slot (ks_contexts k ! c) = AP_REQUEST_NO_SLOT"
    and idt: "length (ctx_idt (ks_contexts k ! c)) = 256"
    and test: "run_ap_fault_test_if_enabled cfg mapped = Faults v"
    and labels: "isr_label isr (isr_ap_fault_ud isr) = Some ''isr_ap_fault_ud''"
      "isr_label isr (isr_ap_fault_pf isr) = Some ''isr_ap_fault_pf''"
  shows "\<exists>k1 entry m'. ap_entry_one cfg isr cpu_at idt_at mapped wake n c regs k = Ap_Faults v k1 \<and>
    isr_label isr (gate_address (ctx_idt (ks_contexts k1 ! c) ! unat v)) = Some entry \<and>
    run_entry entry f (if v = 14 then Some e else None) m = Some (Calls ''ap_fault_dispatch'' m') \<and>
    mc_regs m' RDI = Ptr Stack (-56) \<and>
    (let k2 = ap_fault_dispatch cpu_at c (bi_ap_ist1 (boot_of k1 c) - 56)
                (frame_at (mc_mem m') Stack (-56)) cr2 k1; b = boot_of k2 c in
     bi_ap_state b = AP_BOOT_STATE_FAULTED \<and> bi_online b = 1 \<and> bi_fault_phase b = AP_FAULT_PHASE_STARTUP \<and>
     bi_fault_vector b = v \<and> bi_fault_rip b = if_rip f \<and>
     (\<forall>d j. ap_inbox_slot k2 d j = ap_inbox_slot k d j) \<and> (\<forall>d. d \<noteq> c \<longrightarrow> boot_of k2 d = boot_of k d))"
proof -
  have c: "c < 8" using wf(2) by (simp add: c_const)
  obtain regs' k1 where run: "ap_entry_tables isr cpu_at idt_at c regs k = (regs', k1)" "ks_wf k1"
    and ctx: "ctx_idt (ks_contexts k1 ! c) = init_ap_idt isr (ctx_idt (ks_contexts k ! c))"
    "ctx_current_request_slot (ks_contexts k1 ! c) = ctx_current_request_slot (ks_contexts k ! c)"
    and boots: "\<And>d. boot_of k1 d = (if d = c then checked_boot (cpu_at c) (boot_of k c) else boot_of k d)"
    "\<And>d j. ap_inbox_slot k1 d j = ap_inbox_slot k d j"
    using ap_entry_tables_view [where cpu_at = cpu_at, OF wf(1) c context_layout_stacks(1,2) [OF wf(3) c],
        of isr idt_at regs] by metis
  have entry: "ap_entry_one cfg isr cpu_at idt_at mapped wake n c regs k = Ap_Faults v k1"
    by (simp add: ap_entry_one_def run(1) test)
  from test consider "v = 6" | "v = 14" by (auto simp: run_ap_fault_test_if_enabled_def split: if_splits)
  then obtain l m' where l: "isr_label isr (gate_address (ctx_idt (ks_contexts k1 ! c) ! unat v)) = Some l"
    and m': "run_entry l f (if v = 14 then Some e else None) m = Some (Calls ''ap_fault_dispatch'' m')"
      "mc_regs m' RDI = Ptr Stack (-56)" "ff_vector (frame_at (mc_mem m') Stack (-56)) = v"
      "ff_rip (frame_at (mc_mem m') Stack (-56)) = if_rip f"
  proof cases
    case 1
    have "gate_view (init_ap_idt isr (ctx_idt (ks_contexts k ! c)) ! 6) = (isr_ap_fault_ud isr, 8, 1, 0x8e)"
      using set_all_idt_gates_nth [OF idt, of 6]
      by (simp add: init_ap_idt_def set_idt_gates_nth ap_idt_gates_def c_const)
    then show ?thesis
      using that [of "''isr_ap_fault_ud''"] fault_entries_run [of e f m] labels(1)
      by (auto simp: 1 ctx gate_view_def fault_entries_def calls_with_frame_def split: option.splits isr_exit.splits)
  next
    case 2
    have "gate_view (init_ap_idt isr (ctx_idt (ks_contexts k ! c)) ! 14) = (isr_ap_fault_pf isr, 8, 1, 0x8e)"
      using set_all_idt_gates_nth [OF idt, of 14]
      by (simp add: init_ap_idt_def set_idt_gates_nth ap_idt_gates_def c_const)
    then show ?thesis
      using that [of "''isr_ap_fault_pf''"] fault_entries_run [of e f m] labels(2)
      by (auto simp: 2 ctx gate_view_def fault_entries_def calls_with_frame_def split: option.splits isr_exit.splits)
  qed
  have ist: "bi_ap_ist1 (boot_of k1 c) = cpu_at c + 160 + 0x4000"
    "bi_entry_state (boot_of k1 c) = AP_ENTRY_STATE_TABLES"
    using boots(1) [of c] by (simp_all add: checked_boot_def)
  have "\<not> unat (ctx_current_request_slot (ks_contexts k1 ! c)) < AP_REQUEST_SLOT_COUNT"
    using idle ctx(2) by (simp add: c_const)
  note dispatch = ap_fault_dispatch_no_slot [OF run(2) context_layout_stacks(3) [OF wf(3) c] this,
      where self = c and frame = "frame_at (mc_mem m') Stack (-56)" and ?cr2.0 = cr2, unfolded m'(3,4) ist(2) boots(2)]
  have phase: "fault_phase_of False AP_ENTRY_STATE_TABLES AP_REQUEST_STATUS_EMPTY = AP_FAULT_PHASE_STARTUP"
    by (simp add: fault_phase_of_def AP_ENTRY_STATE_TABLES_def AP_ENTRY_STATE_LOOP_def)
  have others: "boot_of k1 d = boot_of k d" if "d \<noteq> c" for d using boots(1) [of d] that by simp
  show ?thesis
    unfolding Let_def
    by (intro exI [of _ k1] exI [of _ l] exI [of _ m'] conjI allI impI entry l m'(1,2))
      (simp_all only: ist(1) dispatch phase others simp_thms)
qed

lemma example_layout: "context_layout example_cpu_at"
  unfolding context_layout_def MAX_AP_CONTEXTS_def
proof (intro exI [of _ "0x10000"] conjI allI impI)
  show "unat (example_cpu_at j) = unat (example_cpu_at 0) + j * 65536" if "j < 8" for j
    using example_cpu_at_layout [OF that] by (simp add: example_cpu_at_def)
qed (simp_all add: example_cpu_at_def)

theorem startup_fault_is_reported_witness:
  "\<exists>k1. ap_entry_one (test_build VIBE_AP_FAULT_TEST_UD2) example_isr example_cpu_at (\<lambda>_. 0x5000) (\<lambda>_. True) (\<lambda>_ k. k) 9 2
      example_registers example_kernel = Ap_Faults 6 k1"
proof -
  have "run_ap_fault_test_if_enabled (test_build VIBE_AP_FAULT_TEST_UD2) (\<lambda>_. True) = Faults 6"
    by (simp add: run_ap_fault_test_if_enabled_def test_build_def)
  moreover have "ctx_current_request_slot (ks_contexts example_kernel ! 2) = AP_REQUEST_NO_SLOT"
    "length (ctx_idt (ks_contexts example_kernel ! 2)) = 256"
    by (simp_all add: example_kernel_def context_with_def blank_idt_def c_const)
  moreover have "isr_label example_isr (isr_ap_fault_ud example_isr) = Some ''isr_ap_fault_ud''"
    "isr_label example_isr (isr_ap_fault_pf example_isr) = Some ''isr_ap_fault_pf''"
    by (simp_all add: isr_label_def example_isr_def)
  ultimately show ?thesis
    using startup_fault_is_reported [OF example_kernel_wf _ example_layout, of 2
        "test_build VIBE_AP_FAULT_TEST_UD2" "\<lambda>_. True" 6 example_isr "\<lambda>_. 0x5000" "\<lambda>_ k. k" 9 example_registers]
    by (simp add: c_const) blast
qed

end
