(* ===== verification/Acpi_Bounds.thy ===== *)
theory Acpi_Bounds
  imports Acpi
begin

text \<open>
  The processor table the ACPI parser fills: it never overruns its 32 entries, the counters agree
  with it, and the AP targets the boot code picks by index are the supported processors of the table
  in order.
\<close>

section \<open>The processor table stays in bounds\<close>

definition acpi_table_ok :: "acpi_info_t \<Rightarrow> bool" where
  "acpi_table_ok info \<longleftrightarrow> length (ai_cpus info) = ACPI_MAX_CPUS \<and>
     unat (ai_stored_cpu_count info) = min ACPI_MAX_CPUS (unat (ai_enabled_cpu_count info))"

lemma acpi_table_ok_ignores [simp]:
  "acpi_table_ok (info\<lparr>ai_error := e\<rparr>) = acpi_table_ok info"
  "acpi_table_ok (info\<lparr>ai_madt := a\<rparr>) = acpi_table_ok info"
  "acpi_table_ok (info\<lparr>ai_local_apic_base := a\<rparr>) = acpi_table_ok info"
  "acpi_table_ok (info\<lparr>ai_madt_flags := f\<rparr>) = acpi_table_ok info"
  "acpi_table_ok (info\<lparr>ai_xsdt := a\<rparr>) = acpi_table_ok info"
  "acpi_table_ok (info\<lparr>ai_xsdt_entries := n\<rparr>) = acpi_table_ok info"
  "acpi_table_ok (info\<lparr>ai_rsdp := a\<rparr>) = acpi_table_ok info"
  "acpi_table_ok (info\<lparr>ai_rsdp_revision := n\<rparr>) = acpi_table_ok info"
  "acpi_table_ok (info\<lparr>ai_bsp_apic_id := n\<rparr>) = acpi_table_ok info"
  by (simp_all add: acpi_table_ok_def)

lemma acpi_table_ok_zero: "acpi_table_ok zero_acpi_info"
  by (simp add: acpi_table_ok_def zero_acpi_info_def)

lemma add_acpi_cpu_ok:
  assumes "acpi_table_ok info" "unat (ai_enabled_cpu_count info) < 2 ^ 31"
  shows "acpi_table_ok (add_acpi_cpu info uid apic flags x2)"
    "unat (ai_enabled_cpu_count (add_acpi_cpu info uid apic flags x2)) = Suc (unat (ai_enabled_cpu_count info))"
proof -
  have up: "unat (ai_enabled_cpu_count info + 1) = Suc (unat (ai_enabled_cpu_count info))"
    by (rule unat_Suc_word [of _ "2 ^ 31"]) (use assms(2) in \<open>simp add: word_less_nat_alt\<close>)
  then show "unat (ai_enabled_cpu_count (add_acpi_cpu info uid apic flags x2)) = Suc (unat (ai_enabled_cpu_count info))"
    by (simp add: add_acpi_cpu_def Let_def)
  show "acpi_table_ok (add_acpi_cpu info uid apic flags x2)"
  proof (cases "unat (ai_stored_cpu_count info) \<ge> ACPI_MAX_CPUS")
    case True
    then show ?thesis using assms(1) up by (simp add: acpi_table_ok_def add_acpi_cpu_def)
  next
    case False
    then have "unat (ai_stored_cpu_count info + 1) = Suc (unat (ai_stored_cpu_count info))"
      by (intro unat_Suc_word [of _ 32]) (simp add: word_less_nat_alt ACPI_MAX_CPUS_def)
    then show ?thesis using assms(1) up False by (auto simp: acpi_table_ok_def add_acpi_cpu_def min_def)
  qed
qed

lemma parse_madt_entry_table:
  assumes "parse_madt_entry mem e type len info = Some info'" "acpi_table_ok info"
    "unat (ai_enabled_cpu_count info) < 2 ^ 31"
  shows "acpi_table_ok info' \<and> unat (ai_enabled_cpu_count info') \<le> Suc (unat (ai_enabled_cpu_count info))"
  using assms by (auto simp: parse_madt_entry_def add_acpi_cpu_ok bind_eq_Some_conv split: if_splits)

lemma parse_madt_entries_cases:
  assumes "parse_madt_entries mem madt table_len offset info = Some info'"
  obtains (stop) e where "info' = info \<or> info' = info\<lparr>ai_error := e\<rparr>"
  | (entry) ty len info1 where "offset < table_len" "mem (madt + word_of_nat offset) = Some ty"
      "mem (madt + word_of_nat offset + 1) = Some len" "\<not> (len < 2 \<or> offset + unat len > table_len)"
      "parse_madt_entry mem (madt + word_of_nat offset) ty len info = Some info1"
      "parse_madt_entries mem madt table_len (offset + unat len) info1 = Some info'"
proof (cases "offset < table_len")
  case False
  then show ?thesis using assms stop by (simp add: parse_madt_entries.simps [of mem madt table_len offset])
next
  case True
  note eq = assms [unfolded parse_madt_entries.simps [of mem madt table_len offset]]
  obtain ty where ty: "mem (madt + word_of_nat offset) = Some ty"
    using eq True by (cases "mem (madt + word_of_nat offset)") simp_all
  obtain len where len: "mem (madt + word_of_nat offset + 1) = Some len"
    using eq True ty by (cases "mem (madt + word_of_nat offset + 1)") simp_all
  show ?thesis
  proof (cases "len < 2 \<or> offset + unat len > table_len")
    case bad: True
    then show ?thesis using eq True ty len stop by auto
  next
    case False
    obtain info1 where "parse_madt_entry mem (madt + word_of_nat offset) ty len info = Some info1"
      using eq True ty len False by (cases "parse_madt_entry mem (madt + word_of_nat offset) ty len info") simp_all
    then show ?thesis using entry [OF True ty len False] eq True ty len False by simp
  qed
qed

lemma parse_madt_entries_table:
  assumes "parse_madt_entries mem madt table_len offset info = Some info'" "acpi_table_ok info"
    "unat (ai_enabled_cpu_count info) \<le> offset" "offset \<le> table_len" "table_len < 2 ^ 31"
  shows "acpi_table_ok info'"
  using assms
proof (induction mem madt table_len offset info rule: parse_madt_entries.induct)
  case (1 mem madt table_len offset info)
  from 1(2) show ?case
  proof (cases rule: parse_madt_entries_cases)
    case (entry ty len info1)
    have t: "acpi_table_ok info1" "unat (ai_enabled_cpu_count info1) \<le> Suc (unat (ai_enabled_cpu_count info))"
      using parse_madt_entry_table [OF entry(5) 1(3)] 1(4-6) entry(1) by auto
    have "2 \<le> unat len" using entry(4) by (simp add: word_less_nat_alt not_less)
    then have "unat (ai_enabled_cpu_count info1) \<le> offset + unat len" "offset + unat len \<le> table_len"
      using t(2) 1(4) entry(4) by auto
    then show ?thesis using 1(1) [OF _ entry(2-6) t(1)] entry(1) 1(6) by blast
  qed (use 1(3) in auto)
qed

lemma parse_madt_table:
  assumes "parse_madt mem mmap madt info = Some info'" "acpi_table_ok info" "ai_enabled_cpu_count info = 0"
  shows "acpi_table_ok info'"
proof -
  consider e where "info' = info\<lparr>ai_madt := madt, ai_error := e\<rparr>"
    | len :: u32 and base :: u32 and flags where "44 \<le> unat len" "unat len \<le> 2 ^ 20"
      "parse_madt_entries mem madt (unat len) 44
        (info\<lparr>ai_madt := madt, ai_local_apic_base := ucast base, ai_madt_flags := flags\<rparr>) = Some info'"
    using assms(1)
    by (auto simp: parse_madt_def Let_def bind_eq_Some_conv c_const word_less_nat_alt not_less split: if_splits)
  then show ?thesis
  proof cases
    case 2
    then show ?thesis using parse_madt_entries_table [OF 2(3)] assms(2,3) by simp
  qed (use assms(2) in simp)
qed

text \<open>The way down from the RSDP: every early return keeps the table, and so does \<^const>\<open>parse_madt\<close>.\<close>

lemma pred_option_bind: "pred_option P (Option.bind m f) \<longleftrightarrow> (\<forall>x. m = Some x \<longrightarrow> pred_option P (f x))"
  by (cases m) auto

lemma find_madt_table:
  assumes "acpi_table_ok info" "ai_enabled_cpu_count info = 0"
  shows "pred_option acpi_table_ok (find_madt mem mmap entries n info)"
proof (induction n arbitrary: entries)
  case (Suc n)
  have "pred_option acpi_table_ok (parse_madt mem mmap a info)" for a
    using parse_madt_table assms by (cases "parse_madt mem mmap a info") auto
  then show ?case using Suc assms by (simp add: pred_option_bind)
qed (use assms in simp)

lemma parse_xsdt_table:
  assumes "acpi_table_ok info" "ai_enabled_cpu_count info = 0"
  shows "pred_option acpi_table_ok (parse_xsdt mem mmap xsdt info)"
  using assms by (simp add: parse_xsdt_def Let_def pred_option_bind find_madt_table)

lemma parse_acpi_table: "pred_option acpi_table_ok (parse_acpi mem cpuid rsdp mmap)"
proof -
  define info0 where "info0 = zero_acpi_info\<lparr>ai_bsp_apic_id := read_bsp_apic_id cpuid\<rparr>"
  have "acpi_table_ok info0" "ai_enabled_cpu_count info0 = 0"
    using acpi_table_ok_zero by (simp add: info0_def) (simp add: info0_def zero_acpi_info_def)
  then show ?thesis
    unfolding parse_acpi_def info0_def [symmetric] Let_def by (simp add: pred_option_bind parse_xsdt_table)
qed

section \<open>Targets\<close>

text \<open>The processors of the table that can be started, in the order of the table.\<close>

definition supported_aps :: "acpi_info_t \<Rightarrow> acpi_cpu_t list" where
  "supported_aps acpi = filter (acpi_cpu_is_supported_ap acpi)
     (map (\<lambda>i. ai_cpus acpi ! i) [0..<unat (ai_stored_cpu_count acpi)])"

lemma fold_count: "fold (\<lambda>i n. if P (f i) then n + 1 else n) xs n = n + length (filter P (map f xs))"
  by (induction xs arbitrary: n) auto

lemma select_ap_target_from_nth:
  "select_ap_target_from acpi cpus j (j + i) boot =
     (let ok = filter (acpi_cpu_is_supported_ap acpi) cpus in
      if i < length ok
      then (True, boot\<lparr>bi_target_acpi_uid := ac_acpi_uid (ok ! i), bi_target_apic_id := ac_apic_id (ok ! i)\<rparr>)
      else (False, boot))"
proof (induction cpus arbitrary: i j)
  case (Cons cpu cpus)
  show ?case
  proof (cases "acpi_cpu_is_supported_ap acpi cpu \<and> i \<noteq> 0")
    case True
    then obtain i' where i: "i = Suc i'" by (cases i) auto
    then show ?thesis using Cons.IH [of "j + 1" i'] True by (simp add: Let_def)
  next
    case False
    then show ?thesis using Cons.IH [of j i] by (auto simp: Let_def)
  qed
qed simp

text \<open>
  The boot code enumerates the APs it can start by an index: below the counted number of
  targets every index selects the processor at that position among the supported ones, above it none,
  and nothing but the two target fields of the boot record changes.
\<close>

theorem select_ap_target_enumerates:
  "count_supported_ap_targets acpi = (if ai_error acpi = ACPI_OK then length (supported_aps acpi) else 0) \<and>
   select_ap_target acpi i boot =
     (if i < count_supported_ap_targets acpi
      then (True, boot\<lparr>bi_target_acpi_uid := ac_acpi_uid (supported_aps acpi ! i),
              bi_target_apic_id := ac_apic_id (supported_aps acpi ! i)\<rparr>)
      else (False, boot))"
proof -
  have "count_supported_ap_targets acpi = (if ai_error acpi = ACPI_OK then length (supported_aps acpi) else 0)"
    by (simp add: count_supported_ap_targets_def fold_count supported_aps_def)
  then show ?thesis
    using select_ap_target_from_nth [of acpi _ 0 i boot]
    by (simp add: select_ap_target_def supported_aps_def Let_def)
qed

end
