(* ===== verification/Acpi_Madt.thy ===== *)
theory Acpi_Madt
  imports Acpi_Bounds Bytes
begin

text \<open>
  Reading back a MADT: the layout of the table as the ACPI specification gives it, written as an
  encoder of a list of entries, and the proof that the kernel's parser inverts it.
\<close>

section \<open>Bytes in memory\<close>

definition holds_bytes :: "memory \<Rightarrow> u64 \<Rightarrow> u8 list \<Rightarrow> bool" where
  "holds_bytes mem p bs \<longleftrightarrow> (\<forall>k < length bs. mem (p + word_of_nat k) = Some (bs ! k))"

lemma holds_bytes_Nil [simp]: "holds_bytes mem p []"
  by (simp add: holds_bytes_def)

lemma holds_bytes_Cons [simp]: "holds_bytes mem p (b # bs) \<longleftrightarrow> mem p = Some b \<and> holds_bytes mem (p + 1) bs"
proof -
  have "(\<forall>k < Suc (length bs). mem (p + word_of_nat k) = Some ((b # bs) ! k)) \<longleftrightarrow>
      mem p = Some b \<and> (\<forall>k < length bs. mem (p + word_of_nat (Suc k)) = Some (bs ! k))"
    unfolding All_less_Suc2 by simp
  then show ?thesis by (simp add: holds_bytes_def add.assoc)
qed

lemma holds_bytes_append:
  "holds_bytes mem p (xs @ ys) \<longleftrightarrow> holds_bytes mem p xs \<and> holds_bytes mem (p + word_of_nat (length xs)) ys"
  by (induction xs arbitrary: p) (auto simp: add.assoc)

lemma read_le32_holds: "holds_bytes mem p (write_u32 w) \<Longrightarrow> read_le32 mem p = Some w"
  using le32_write [of w] by (simp add: read_le32_def write_u32_def le32_def add.assoc)

lemma read_le64_holds: "holds_bytes mem p (write_u64 w) \<Longrightarrow> read_le64 mem p = Some w"
  using le64_write [of w]
  by (auto simp: write_u64_def holds_bytes_append read_le64_def le64_def dest!: read_le32_holds)

lemma checksum_from_holds: "holds_bytes mem p bs \<Longrightarrow> checksum_from mem p (length bs) s = Some (s + sum_list bs)"
  by (induction bs arbitrary: p s) (auto simp: add.assoc)

section \<open>The layout of a MADT\<close>

datatype madt_entry =
    Local_Apic u8 u8 u32
  | Apic_Override u64
  | Local_X2apic u32 u32 u32
  | Other_Entry u8 "u8 list"

fun encode_entry :: "madt_entry \<Rightarrow> u8 list" where
  "encode_entry (Local_Apic uid apic flags) = [0, 8, uid, apic] @ write_u32 flags"
| "encode_entry (Apic_Override base) = [5, 12, 0, 0] @ write_u64 base"
| "encode_entry (Local_X2apic uid apic flags) = [9, 16, 0, 0] @ write_u32 apic @ write_u32 flags @ write_u32 uid"
| "encode_entry (Other_Entry type body) = [type, word_of_nat (length body + 2)] @ body"

fun entry_wf :: "madt_entry \<Rightarrow> bool" where
  "entry_wf (Other_Entry type body) \<longleftrightarrow> type \<notin> {0, 5, 9} \<and> length body \<le> 253"
| "entry_wf _ \<longleftrightarrow> True"

definition madt_layout :: "u8 list \<Rightarrow> u32 \<Rightarrow> u32 \<Rightarrow> u8 list \<Rightarrow> u8 list" where
  "madt_layout hdr base flags entries =
     [0x41, 0x50, 0x49, 0x43] @ write_u32 (word_of_nat (44 + length entries)) @ hdr @
       write_u32 base @ write_u32 flags @ entries"

definition madt_bytes :: "u8 list \<Rightarrow> u32 \<Rightarrow> u32 \<Rightarrow> madt_entry list \<Rightarrow> u8 list" where
  "madt_bytes hdr base flags es = madt_layout hdr base flags (concat (map encode_entry es))"

text \<open>What the kernel takes from an entry.\<close>

fun entry_effect :: "madt_entry \<Rightarrow> acpi_info_t \<Rightarrow> acpi_info_t" where
  "entry_effect (Local_Apic uid apic flags) info =
     (if flags AND 1 \<noteq> 0 then add_acpi_cpu info (ucast uid) (ucast apic) flags 0 else info)"
| "entry_effect (Apic_Override base) info = info\<lparr>ai_local_apic_base := base\<rparr>"
| "entry_effect (Local_X2apic uid apic flags) info =
     (if flags AND 1 \<noteq> 0 then add_acpi_cpu info uid apic flags 1 else info)"
| "entry_effect (Other_Entry type body) info = info"

lemma encode_entry_head:
  "entry_wf e \<Longrightarrow> \<exists>ty body. encode_entry e = [ty, word_of_nat (length (encode_entry e))] @ body"
  by (cases e) auto

lemma length_encode_entry: "entry_wf e \<Longrightarrow> 2 \<le> length (encode_entry e) \<and> length (encode_entry e) < 256"
  by (cases e) auto

lemma parse_madt_entry_holds:
  assumes "entry_wf e" "holds_bytes mem p (encode_entry e)"
  shows "parse_madt_entry mem p (encode_entry e ! 0) (word_of_nat (length (encode_entry e))) info =
    Some (entry_effect e info)"
proof (cases e)
  case (Local_Apic uid apic flags)
  then have "read_le32 mem (p + 4) = Some flags" "mem (p + 2) = Some uid" "mem (p + 3) = Some apic"
    using assms(2) by (auto simp: holds_bytes_append add.assoc intro: read_le32_holds)
  then show ?thesis using Local_Apic by (simp add: parse_madt_entry_def)
next
  case (Apic_Override base)
  then have "read_le64 mem (p + 4) = Some base"
    using assms(2) by (auto simp: holds_bytes_append add.assoc intro: read_le64_holds)
  then show ?thesis using Apic_Override by (simp add: parse_madt_entry_def)
next
  case (Local_X2apic uid apic flags)
  then have "read_le32 mem (p + 4) = Some apic" "read_le32 mem (p + 8) = Some flags"
    "read_le32 mem (p + 12) = Some uid"
    using assms(2) by (auto simp: holds_bytes_append add.assoc intro: read_le32_holds)
  then show ?thesis using Local_X2apic by (simp add: parse_madt_entry_def)
next
  case (Other_Entry type body)
  then show ?thesis using assms(1) by (simp add: parse_madt_entry_def)
qed

text \<open>The loop passes the well-formed entries it meets; what is behind them is read next.\<close>

lemma parse_madt_entries_prefix:
  assumes "list_all entry_wf es" "holds_bytes mem (madt + word_of_nat offset) (concat (map encode_entry es))"
    and "offset + length (concat (map encode_entry es)) \<le> table_len"
  shows "parse_madt_entries mem madt table_len offset info =
    parse_madt_entries mem madt table_len (offset + length (concat (map encode_entry es))) (fold entry_effect es info)"
  using assms
proof (induction es arbitrary: offset info)
  case (Cons e es)
  let ?p = "madt + word_of_nat offset" and ?n = "length (encode_entry e)"
  have e: "entry_wf e" "holds_bytes mem ?p (encode_entry e)"
    and rest: "holds_bytes mem (madt + word_of_nat (offset + ?n)) (concat (map encode_entry es))"
    using Cons.prems by (auto simp: holds_bytes_append add.assoc)
  obtain ty body where head: "encode_entry e = [ty, word_of_nat ?n] @ body" using encode_entry_head [OF e(1)] by blast
  have n: "2 \<le> ?n" "?n < 256" using length_encode_entry [OF e(1)] by auto
  then have un: "unat (word_of_nat ?n :: u8) = ?n" by (simp add: unat_of_nat)
  have "holds_bytes mem ?p ([ty, word_of_nat ?n] @ body)" using e(2) head by metis
  moreover have "encode_entry e ! 0 = ty" by (subst head) simp
  ultimately have bytes: "mem ?p = Some (encode_entry e ! 0)" "mem (?p + 1) = Some (word_of_nat ?n)" by simp_all
  have "\<not> (word_of_nat ?n < (2 :: u8) \<or> offset + unat (word_of_nat ?n :: u8) > table_len)"
    using n un Cons.prems(3) by (simp add: word_less_nat_alt)
  then have "parse_madt_entries mem madt table_len offset info =
      parse_madt_entries mem madt table_len (offset + ?n) (entry_effect e info)"
    using Cons.prems(3) bytes parse_madt_entry_holds [OF e] n un
    by (subst parse_madt_entries.simps) auto
  also have "\<dots> = parse_madt_entries mem madt table_len (offset + ?n + length (concat (map encode_entry es)))
      (fold entry_effect es (entry_effect e info))"
    using Cons.prems by (intro Cons.IH rest) simp_all
  finally show ?case by (simp add: add.assoc)
qed simp

lemma parse_madt_entries_holds:
  assumes "list_all entry_wf es" "holds_bytes mem (madt + word_of_nat offset) (concat (map encode_entry es))"
    and "table_len = offset + length (concat (map encode_entry es))"
  shows "parse_madt_entries mem madt table_len offset info = Some (fold entry_effect es info)"
  using parse_madt_entries_prefix [OF assms(1,2), of table_len info] assms(3)
  by (simp add: parse_madt_entries.simps)

section \<open>The processors a MADT lists\<close>

fun cpu_of_entry :: "madt_entry \<Rightarrow> acpi_cpu_t option" where
  "cpu_of_entry (Local_Apic uid apic flags) =
     (if flags AND 1 \<noteq> 0
      then Some \<lparr>ac_acpi_uid = ucast uid, ac_apic_id = ucast apic, ac_flags = flags, ac_x2apic = 0\<rparr> else None)"
| "cpu_of_entry (Local_X2apic uid apic flags) =
     (if flags AND 1 \<noteq> 0
      then Some \<lparr>ac_acpi_uid = uid, ac_apic_id = apic, ac_flags = flags, ac_x2apic = 1\<rparr> else None)"
| "cpu_of_entry _ = None"

definition enabled_cpus :: "madt_entry list \<Rightarrow> acpi_cpu_t list" where
  "enabled_cpus es = List.map_filter cpu_of_entry es"

fun lapic_base_of :: "u64 \<Rightarrow> madt_entry list \<Rightarrow> u64" where
  "lapic_base_of base [] = base"
| "lapic_base_of base (Apic_Override b # es) = lapic_base_of b es"
| "lapic_base_of base (_ # es) = lapic_base_of base es"

definition table_lists :: "acpi_cpu_t list \<Rightarrow> acpi_info_t \<Rightarrow> bool" where
  "table_lists cs info \<longleftrightarrow> acpi_table_ok info \<and> unat (ai_enabled_cpu_count info) = length cs \<and>
     take (unat (ai_stored_cpu_count info)) (ai_cpus info) = take ACPI_MAX_CPUS cs"

lemma table_lists_add:
  assumes "table_lists cs info" "length cs < 2 ^ 31"
  shows "table_lists (cs @ [\<lparr>ac_acpi_uid = uid, ac_apic_id = apic, ac_flags = flags, ac_x2apic = x2\<rparr>])
    (add_acpi_cpu info uid apic flags x2)"
proof -
  let ?cpu = "\<lparr>ac_acpi_uid = uid, ac_apic_id = apic, ac_flags = flags, ac_x2apic = x2\<rparr>"
  let ?n = "unat (ai_stored_cpu_count info)"
  have old: "acpi_table_ok info" "unat (ai_enabled_cpu_count info) = length cs"
    "take ?n (ai_cpus info) = take ACPI_MAX_CPUS cs" "length (ai_cpus info) = ACPI_MAX_CPUS"
    "?n = min ACPI_MAX_CPUS (length cs)"
    using assms(1) by (auto simp: table_lists_def acpi_table_ok_def)
  note ok = add_acpi_cpu_ok [OF old(1), of uid apic flags x2]
  have "take (unat (ai_stored_cpu_count (add_acpi_cpu info uid apic flags x2)))
      (ai_cpus (add_acpi_cpu info uid apic flags x2)) = take ACPI_MAX_CPUS (cs @ [?cpu])"
  proof (cases "?n \<ge> ACPI_MAX_CPUS")
    case True
    then show ?thesis using old by (simp add: add_acpi_cpu_def min_def split: if_splits)
  next
    case False
    then have "unat (ai_stored_cpu_count info + 1) = Suc ?n"
      by (intro unat_Suc_word [of _ 32]) (simp add: word_less_nat_alt ACPI_MAX_CPUS_def)
    then show ?thesis
      using False old by (simp add: add_acpi_cpu_def take_Suc_update min_def split: if_splits)
  qed
  then show ?thesis using ok assms(2) old by (simp add: table_lists_def)
qed

lemma table_lists_ignores [simp]:
  "table_lists cs (info\<lparr>ai_local_apic_base := b\<rparr>) = table_lists cs info"
  "table_lists cs (info\<lparr>ai_madt_flags := f\<rparr>) = table_lists cs info"
  "table_lists cs (info\<lparr>ai_madt := a\<rparr>) = table_lists cs info"
  by (simp_all add: table_lists_def)

lemma add_acpi_cpu_frame [simp]:
  "ai_local_apic_base (add_acpi_cpu info uid apic flags x2) = ai_local_apic_base info"
  "ai_madt_flags (add_acpi_cpu info uid apic flags x2) = ai_madt_flags info"
  "ai_error (add_acpi_cpu info uid apic flags x2) = ai_error info"
  "ai_bsp_apic_id (add_acpi_cpu info uid apic flags x2) = ai_bsp_apic_id info"
  by (simp_all add: add_acpi_cpu_def Let_def)

lemma enabled_cpus_Cons: "enabled_cpus (e # es) = enabled_cpus [e] @ enabled_cpus es"
  by (simp add: enabled_cpus_def List.map_filter_def)

lemma lapic_base_Cons: "lapic_base_of base (e # es) = lapic_base_of (lapic_base_of base [e]) es"
  by (cases e) auto

lemma entry_effect_step:
  assumes "table_lists cs info" "length cs < 2 ^ 31"
  shows "table_lists (cs @ enabled_cpus [e]) (entry_effect e info)" "length (enabled_cpus [e]) \<le> 1"
    "ai_local_apic_base (entry_effect e info) = lapic_base_of (ai_local_apic_base info) [e]"
    "ai_madt_flags (entry_effect e info) = ai_madt_flags info" "ai_error (entry_effect e info) = ai_error info"
    "ai_bsp_apic_id (entry_effect e info) = ai_bsp_apic_id info"
  using assms table_lists_add [OF assms]
  by (cases e; auto simp: enabled_cpus_def List.map_filter_def)+

lemma entry_effects:
  assumes "table_lists cs info" "length cs + length es < 2 ^ 31"
  shows "table_lists (cs @ enabled_cpus es) (fold entry_effect es info) \<and>
    ai_local_apic_base (fold entry_effect es info) = lapic_base_of (ai_local_apic_base info) es \<and>
    ai_madt_flags (fold entry_effect es info) = ai_madt_flags info \<and>
    ai_error (fold entry_effect es info) = ai_error info \<and>
    ai_bsp_apic_id (fold entry_effect es info) = ai_bsp_apic_id info"
  using assms
proof (induction es arbitrary: cs info)
  case (Cons e es)
  then have "length cs < 2 ^ 31" by simp
  note step = entry_effect_step [OF Cons.prems(1) this, of e]
  have "length (cs @ enabled_cpus [e]) + length es < 2 ^ 31" using step(2) Cons.prems(2) by simp
  from Cons.IH [OF step(1) this] show ?case
    by (simp add: step(3-6) enabled_cpus_Cons [of e es] lapic_base_Cons [of _ e es])
qed (simp add: enabled_cpus_def List.map_filter_def)

lemma length_madt_layout: "length hdr = 28 \<Longrightarrow> length (madt_layout hdr base flags entries) = 44 + length entries"
  by (simp add: madt_layout_def)

lemma entries_shorter: "list_all entry_wf es \<Longrightarrow> length es \<le> length (concat (map encode_entry es))"
proof (induction es)
  case (Cons e es)
  then show ?case using length_encode_entry [of e] by auto
qed simp

text \<open>A table with a correct checksum in described memory is parsed entry by entry.\<close>

lemma parse_madt_layout:
  assumes holds: "holds_bytes mem madt (madt_layout hdr base flags bs)" and hdr: "length hdr = 28"
    and sum0: "sum_list (madt_layout hdr base flags bs) = 0"
    and small: "length (madt_layout hdr base flags bs) \<le> 2 ^ 20"
    and range: "memory_map_contains_range mmap madt (word_of_nat (length (madt_layout hdr base flags bs)))"
  shows "parse_madt mem mmap madt info = parse_madt_entries mem madt (44 + length bs) 44
      (info\<lparr>ai_madt := madt, ai_local_apic_base := ucast base, ai_madt_flags := flags\<rparr>)"
    and "holds_bytes mem (madt + word_of_nat 44) bs"
proof -
  let ?len = "word_of_nat (44 + length bs) :: u32"
  note len = length_madt_layout [OF hdr, of base flags bs]
  have un: "unat ?len = 44 + length bs" using small len by (simp add: unat_of_nat del: of_nat_add)
  have parts: "read_le32 mem (madt + 4) = Some ?len" "read_le32 mem (madt + 36) = Some base"
      "read_le32 mem (madt + 40) = Some flags"
    using holds hdr by (auto simp: madt_layout_def holds_bytes_append add.assoc intro!: read_le32_holds)
  show "holds_bytes mem (madt + word_of_nat 44) bs"
    using holds hdr by (auto simp: madt_layout_def holds_bytes_append add.assoc)
  have "checksum_ok mem madt ?len = Some True"
    using checksum_from_holds [OF holds, of 0] sum0 len by (simp only: checksum_ok_def un) simp
  moreover have "ucast ?len = (word_of_nat (length (madt_layout hdr base flags bs)) :: u64)"
    using un len small by (simp add: word_unat_eq_iff unat_ucast_up unat_of_nat del: of_nat_add)
  moreover have "\<not> (?len < 44 \<or> ?len > 0x100000)" using un small len by (simp add: word_less_nat_alt)
  ultimately show "parse_madt mem mmap madt info = parse_madt_entries mem madt (44 + length bs) 44
      (info\<lparr>ai_madt := madt, ai_local_apic_base := ucast base, ai_madt_flags := flags\<rparr>)"
    using parts range un by (simp add: parse_madt_def Let_def c_const add.assoc)
qed

lemma parse_madt_reads_back:
  assumes holds: "holds_bytes mem madt (madt_bytes hdr base flags es)"
    and hdr: "length hdr = 28" and wf: "list_all entry_wf es"
    and sum0: "sum_list (madt_bytes hdr base flags es) = 0"
    and small: "length (madt_bytes hdr base flags es) \<le> 2 ^ 20"
    and range: "memory_map_contains_range mmap madt (word_of_nat (length (madt_bytes hdr base flags es)))"
    and fresh: "table_lists [] info"
  shows "\<exists>info'. parse_madt mem mmap madt info = Some info' \<and> ai_error info' = ai_error info \<and>
    table_lists (enabled_cpus es) info' \<and>
    ai_local_apic_base info' = lapic_base_of (ucast base) es \<and> ai_madt_flags info' = flags \<and>
    ai_bsp_apic_id info' = ai_bsp_apic_id info"
proof -
  let ?info = "info\<lparr>ai_madt := madt, ai_local_apic_base := ucast base, ai_madt_flags := flags\<rparr>"
  note layout = parse_madt_layout [OF holds [unfolded madt_bytes_def] hdr sum0 [unfolded madt_bytes_def]
      small [unfolded madt_bytes_def] range [unfolded madt_bytes_def]]
  have run: "parse_madt mem mmap madt info = Some (fold entry_effect es ?info)"
    unfolding layout(1) by (rule parse_madt_entries_holds [OF wf layout(2) refl])
  have "length es < 2 ^ 31"
    using entries_shorter [OF wf] small length_madt_layout [OF hdr] by (simp add: madt_bytes_def)
  then show ?thesis using entry_effects [of "[]" ?info es] run fresh by simp
qed

section \<open>From the RSDP to the MADT\<close>

definition rsdp_bytes :: "u8 list \<Rightarrow> u8 \<Rightarrow> u8 list \<Rightarrow> u64 \<Rightarrow> u8 list \<Rightarrow> u8 list" where
  "rsdp_bytes oem revision rsdt xsdt tail = [0x52, 0x53, 0x44, 0x20, 0x50, 0x54, 0x52, 0x20] @ oem @ [revision] @ rsdt @
     write_u32 36 @ write_u64 xsdt @ tail"

definition xsdt_bytes :: "u8 list \<Rightarrow> u64 list \<Rightarrow> u8 list" where
  "xsdt_bytes hdr tables = [0x58, 0x53, 0x44, 0x54] @ write_u32 (word_of_nat (36 + 8 * length tables)) @ hdr @
     concat (map write_u64 tables)"

lemma length_write_all: "length (concat (map write_u64 xs)) = 8 * length xs"
  by (induction xs) auto

lemma bytes_equal_holds: "holds_bytes mem p bs \<Longrightarrow> bytes_equal mem p bs = Some True"
  by (induction bs arbitrary: p) auto

text \<open>A table that is listed before the MADT: readable, and not a MADT.\<close>

definition other_table :: "memory \<Rightarrow> efi_memory_map_t \<Rightarrow> u64 \<Rightarrow> bool" where
  "other_table mem mmap a \<longleftrightarrow> a \<noteq> 0 \<and> memory_map_contains_range mmap a 36 \<and>
     bytes_equal mem a [0x41, 0x50, 0x49, 0x43] = Some False"

lemma find_madt_holds:
  assumes "holds_bytes mem entries (concat (map write_u64 (others @ madt # rest)))"
    and "list_all (other_table mem mmap) others"
    and "madt \<noteq> 0" "memory_map_contains_range mmap madt 36"
    and "bytes_equal mem madt [0x41, 0x50, 0x49, 0x43] = Some True"
  shows "find_madt mem mmap entries (length (others @ madt # rest)) info = parse_madt mem mmap madt info"
  using assms
proof (induction others arbitrary: entries)
  case Nil
  then have "read_le64 mem entries = Some madt" by (simp add: holds_bytes_append read_le64_holds)
  then show ?case using Nil by (simp add: sizeof_acpi_sdt_header_def)
next
  case (Cons a others)
  then have "read_le64 mem entries = Some a"
    "holds_bytes mem (entries + 8) (concat (map write_u64 (others @ madt # rest)))"
    by (simp_all add: holds_bytes_append read_le64_holds)
  then show ?case using Cons by (simp add: sizeof_acpi_sdt_header_def other_table_def)
qed

lemma parse_xsdt_holds:
  assumes holds: "holds_bytes mem xsdt (xsdt_bytes hdr tables)" and hdr: "length hdr = 28" and xsdt: "xsdt \<noteq> 0"
    and sum0: "sum_list (xsdt_bytes hdr tables) = 0" and small: "length (xsdt_bytes hdr tables) \<le> 2 ^ 20"
    and range: "memory_map_contains_range mmap xsdt 36"
      "memory_map_contains_range mmap xsdt (word_of_nat (length (xsdt_bytes hdr tables)))"
  shows "parse_xsdt mem mmap xsdt info = find_madt mem mmap (xsdt + 36) (length tables)
      (info\<lparr>ai_xsdt := xsdt, ai_xsdt_entries := word_of_nat (length tables)\<rparr>)"
    and "holds_bytes mem (xsdt + 36) (concat (map write_u64 tables))"
proof -
  let ?len = "word_of_nat (36 + 8 * length tables) :: u32"
  have len: "length (xsdt_bytes hdr tables) = 36 + 8 * length tables"
    using hdr by (simp add: xsdt_bytes_def length_write_all)
  have un: "unat ?len = 36 + 8 * length tables" using small len by (simp add: unat_of_nat del: of_nat_add)
  have parts: "bytes_equal mem xsdt [0x58, 0x53, 0x44, 0x54] = Some True" "read_le32 mem (xsdt + 4) = Some ?len"
    using holds by (auto simp: xsdt_bytes_def holds_bytes_append add.assoc intro!: read_le32_holds)
  show "holds_bytes mem (xsdt + 36) (concat (map write_u64 tables))"
    using holds hdr by (simp add: xsdt_bytes_def holds_bytes_append add.assoc)
  have "checksum_ok mem xsdt ?len = Some True"
    using checksum_from_holds [OF holds, of 0] sum0 len by (simp only: checksum_ok_def un) simp
  moreover have "ucast ?len = (word_of_nat (length (xsdt_bytes hdr tables)) :: u64)"
    using un len small by (simp add: word_unat_eq_iff unat_ucast_up unat_of_nat del: of_nat_add)
  moreover have "\<not> (?len < 36 \<or> ?len > 0x100000)" using un small len by (simp add: word_less_nat_alt)
  moreover have "unat ((l - 36) div 8) = length tables" if "unat l = 36 + 8 * length tables" for l :: u32
    using that by (simp add: unat_div unat_sub word_le_nat_alt)
  then have count: "unat ((?len - 36) div 8) = length tables" using un .
  moreover have "(?len - 36) div 8 = word_of_nat (length tables)" using count by (metis word_of_nat_unat)
  ultimately show "parse_xsdt mem mmap xsdt info = find_madt mem mmap (xsdt + 36) (length tables)
      (info\<lparr>ai_xsdt := xsdt, ai_xsdt_entries := word_of_nat (length tables)\<rparr>)"
    using parts range xsdt by (simp add: parse_xsdt_def Let_def c_const)
qed

lemma parse_acpi_holds:
  assumes holds: "holds_bytes mem rsdp (rsdp_bytes oem revision rsdt xsdt tail)"
    and len: "length oem = 7" "length rsdt = 4" "length tail = 4" and rsdp: "rsdp \<noteq> 0" "2 \<le> revision"
    and sum0: "sum_list (take 20 (rsdp_bytes oem revision rsdt xsdt tail)) = 0"
      "sum_list (rsdp_bytes oem revision rsdt xsdt tail) = 0"
    and range: "memory_map_contains_range mmap rsdp 20" "memory_map_contains_range mmap rsdp 24"
      "memory_map_contains_range mmap rsdp 36"
  shows "parse_acpi mem cpuid rsdp mmap = parse_xsdt mem mmap xsdt (zero_acpi_info\<lparr>
    ai_bsp_apic_id := read_bsp_apic_id cpuid, ai_rsdp := rsdp, ai_rsdp_revision := ucast revision\<rparr>)"
proof -
  let ?bs = "rsdp_bytes oem revision rsdt xsdt tail"
  have n: "length ?bs = 36" using len by (simp add: rsdp_bytes_def)
  have "holds_bytes mem rsdp (take 20 ?bs)"
    using holds holds_bytes_append [of mem rsdp "take 20 ?bs" "drop 20 ?bs"] by simp
  then have "checksum_ok mem rsdp 20 = Some True" "checksum_ok mem rsdp 36 = Some True"
    using checksum_from_holds [of mem rsdp "take 20 ?bs" 0] checksum_from_holds [OF holds, of 0] sum0 n
    by (simp_all add: checksum_ok_def)
  moreover have "mem (rsdp + 15) = Some revision" "read_le32 mem (rsdp + 20) = Some 36"
    "read_le64 mem (rsdp + 24) = Some xsdt"
    using holds len
    by (auto simp: rsdp_bytes_def holds_bytes_append add.assoc intro!: read_le32_holds read_le64_holds)
  moreover have "bytes_equal mem rsdp [0x52, 0x53, 0x44, 0x20, 0x50, 0x54, 0x52, 0x20] = Some True"
    using holds by (simp add: rsdp_bytes_def)
  moreover have "\<not> revision < 2" using rsdp(2) by (simp add: not_less)
  ultimately show ?thesis
    using range rsdp(1) by (simp add: parse_acpi_def Let_def c_const)
qed

text \<open>A memory that holds the given bytes from an address on and nothing else.\<close>

definition image :: "u64 \<Rightarrow> u8 list \<Rightarrow> memory" where
  "image base bs a = (if base \<le> a \<and> unat (a - base) < length bs then Some (bs ! unat (a - base)) else None)"

text \<open>One page of memory.\<close>

definition one_page_map :: efi_memory_map_t where
  "one_page_map = \<lparr>mm_descriptors = [\<lparr>md_Type = EfiConventionalMemory, md_Pad = 0,
     md_PhysicalStart = 0x1000, md_VirtualStart = 0, md_NumberOfPages = 1, md_Attribute = 15\<rparr>],
     mm_map_size = 48, mm_map_capacity = 4096, mm_descriptor_size = 48,
     mm_descriptor_version = 1, mm_descriptor_count = 1\<rparr>"

definition example_entries :: "madt_entry list" where
  "example_entries = [Local_Apic 0 0 1, Local_Apic 1 1 1, Local_Apic 2 2 0, Apic_Override 0xfee00000,
     Local_X2apic 7 300 1, Other_Entry 1 [1, 2, 3, 4]]"

definition example_madt :: "u8 list" where
  "example_madt = madt_bytes ([1, 79] @ replicate 26 0) 0xfec00000 1 example_entries"

text \<open>An RSDP at \<open>0x1000\<close>, an XSDT at \<open>0x1024\<close> and the MADT at \<open>0x1050\<close>.\<close>

definition example_acpi :: "u8 list" where
  "example_acpi = [0x52, 0x53, 0x44, 0x20, 0x50, 0x54, 0x52, 0x20, 223] @ replicate 6 0 @ [2, 0, 0, 0, 0] @
     write_u32 36 @ write_u64 0x1024 @ [168, 0, 0, 0] @
     [0x58, 0x53, 0x44, 0x54] @ write_u32 44 @ [1, 48] @ replicate 26 0 @ write_u64 0x1050 @ example_madt"

lemma image_holds:
  assumes "unat base + length bs < 2 ^ 64"
  shows "holds_bytes (image base bs) base bs"
  unfolding holds_bytes_def
proof (intro allI impI)
  fix k assume k: "k < length bs"
  then have u: "unat (word_of_nat k :: u64) = k" using assms by (simp add: unat_of_nat)
  then have "base \<le> base + word_of_nat k"
    using assms k by (simp add: word_le_nat_alt unat_word_ariths)
  then show "image base bs (base + word_of_nat k) = Some (bs ! k)" using k u by (simp add: image_def)
qed

text \<open>
  Memory with a complete set of ACPI tables: an RSDP of revision 2 or later, an XSDT that lists the
  MADT after some other tables, and the MADT, all with correct checksums and in described memory.
\<close>

definition acpi_tables_at ::
    "memory \<Rightarrow> efi_memory_map_t \<Rightarrow> u64 \<Rightarrow> u64 \<Rightarrow> u64 \<Rightarrow> u32 \<Rightarrow> u32 \<Rightarrow> madt_entry list \<Rightarrow> bool" where
  "acpi_tables_at mem mmap rsdp xsdt madt base flags es \<longleftrightarrow>
     rsdp \<noteq> 0 \<and> xsdt \<noteq> 0 \<and> madt \<noteq> 0 \<and> list_all entry_wf es \<and>
     (\<exists>oem revision rsdt tail. length oem = 7 \<and> length rsdt = 4 \<and> length tail = 4 \<and> 2 \<le> revision \<and>
        (let bs = rsdp_bytes oem revision rsdt xsdt tail in
         holds_bytes mem rsdp bs \<and> sum_list (take 20 bs) = 0 \<and> sum_list bs = 0)) \<and>
     (\<forall>n \<in> {20, 24, 36}. memory_map_contains_range mmap rsdp n) \<and>
     (\<exists>hdr others rest. length hdr = 28 \<and> list_all (other_table mem mmap) others \<and>
        (let bs = xsdt_bytes hdr (others @ madt # rest) in
         holds_bytes mem xsdt bs \<and> sum_list bs = 0 \<and> length bs \<le> 2 ^ 20 \<and>
         (\<forall>n \<in> {36, word_of_nat (length bs)}. memory_map_contains_range mmap xsdt n))) \<and>
     (\<exists>hdr. length hdr = 28 \<and>
        (let bs = madt_bytes hdr base flags es in
         holds_bytes mem madt bs \<and> sum_list bs = 0 \<and> length bs \<le> 2 ^ 20 \<and>
         (\<forall>n \<in> {36, word_of_nat (length bs)}. memory_map_contains_range mmap madt n)))"

lemma parse_acpi_tables:
  assumes "acpi_tables_at mem mmap rsdp xsdt madt base flags es"
  shows "\<exists>info. parse_acpi mem cpuid rsdp mmap = Some info \<and> ai_error info = ACPI_OK \<and>
    table_lists (enabled_cpus es) info \<and> ai_local_apic_base info = lapic_base_of (ucast base) es \<and>
    ai_madt_flags info = flags \<and> ai_bsp_apic_id info = read_bsp_apic_id cpuid"
proof -
  obtain oem revision rsdt tail where r: "length oem = 7" "length rsdt = 4" "length tail = 4" "2 \<le> revision"
      "holds_bytes mem rsdp (rsdp_bytes oem revision rsdt xsdt tail)"
      "sum_list (take 20 (rsdp_bytes oem revision rsdt xsdt tail)) = 0"
      "sum_list (rsdp_bytes oem revision rsdt xsdt tail) = 0"
    and rr: "memory_map_contains_range mmap rsdp 20" "memory_map_contains_range mmap rsdp 24"
      "memory_map_contains_range mmap rsdp 36"
    using assms unfolding acpi_tables_at_def Let_def by auto
  obtain xh others rest where x: "length xh = 28" "list_all (other_table mem mmap) others"
      "holds_bytes mem xsdt (xsdt_bytes xh (others @ madt # rest))"
      "sum_list (xsdt_bytes xh (others @ madt # rest)) = 0" "length (xsdt_bytes xh (others @ madt # rest)) \<le> 2 ^ 20"
    and xr: "memory_map_contains_range mmap xsdt 36"
      "memory_map_contains_range mmap xsdt (word_of_nat (length (xsdt_bytes xh (others @ madt # rest))))"
    using assms unfolding acpi_tables_at_def Let_def by auto
  obtain mh where m: "length mh = 28" "holds_bytes mem madt (madt_bytes mh base flags es)"
      "sum_list (madt_bytes mh base flags es) = 0" "length (madt_bytes mh base flags es) \<le> 2 ^ 20"
    and mr: "memory_map_contains_range mmap madt 36"
      "memory_map_contains_range mmap madt (word_of_nat (length (madt_bytes mh base flags es)))"
    using assms unfolding acpi_tables_at_def Let_def by auto
  have nz: "rsdp \<noteq> 0" "xsdt \<noteq> 0" "madt \<noteq> 0" "list_all entry_wf es" using assms by (auto simp: acpi_tables_at_def)
  define info where "info = zero_acpi_info\<lparr>ai_bsp_apic_id := read_bsp_apic_id cpuid, ai_rsdp := rsdp,
    ai_rsdp_revision := ucast revision, ai_xsdt := xsdt, ai_xsdt_entries := word_of_nat (length (others @ madt # rest))\<rparr>"
  have apic: "bytes_equal mem madt [0x41, 0x50, 0x49, 0x43] = Some True"
    using m(2) by (intro bytes_equal_holds) (simp add: madt_bytes_def madt_layout_def)
  note xs = parse_xsdt_holds [OF x(3,1) nz(2) x(4,5) xr]
  have run: "parse_acpi mem cpuid rsdp mmap = parse_madt mem mmap madt info"
    unfolding parse_acpi_holds [OF r(5,1-3) nz(1) r(4,6,7) rr] xs(1)
      find_madt_holds [OF xs(2) x(2) nz(3) mr(1) apic] info_def by simp
  have "table_lists [] info" "ai_error info = ACPI_OK" "ai_bsp_apic_id info = read_bsp_apic_id cpuid"
    using acpi_table_ok_zero by (auto simp: info_def table_lists_def) (auto simp: zero_acpi_info_def c_const)
  then show ?thesis
    using parse_madt_reads_back [OF m(2,1) nz(4) m(3,4) mr(2), of info]
    by (auto simp: run)
qed

text \<open>The APs that are listed and that the kernel can start.\<close>

definition startable_cpu :: "u32 \<Rightarrow> acpi_cpu_t \<Rightarrow> bool" where
  "startable_cpu bsp cpu \<longleftrightarrow> ac_x2apic cpu = 0 \<and> ac_apic_id cpu \<noteq> bsp \<and> ac_apic_id cpu < 256"

lemma supported_aps_listed:
  assumes "table_lists cs info"
  shows "supported_aps info = filter (startable_cpu (ai_bsp_apic_id info)) (take 32 cs)"
proof -
  have "map (\<lambda>i. ai_cpus info ! i) [0..<unat (ai_stored_cpu_count info)] = take (unat (ai_stored_cpu_count info)) (ai_cpus info)"
    using assms by (intro nth_equalityI) (auto simp: table_lists_def acpi_table_ok_def)
  then show ?thesis
    using assms by (simp add: supported_aps_def table_lists_def ACPI_MAX_CPUS_def startable_cpu_def [abs_def]
        acpi_cpu_is_supported_ap_def [abs_def])
qed

text \<open>
  C10. Reading the ACPI tables inverts writing them: on memory that holds a complete set of
  well-formed tables the parser succeeds, reports the addresses of the three tables, counts the enabled
  processors among the entries of the MADT, stores the first 32 of them in order with their
  identifiers and flags, and takes the address of the local APIC from the last override entry, or
  from the header of the MADT when there is none.
\<close>

theorem parse_acpi_reads_back:
  assumes "acpi_tables_at mem mmap rsdp xsdt madt base flags es"
  shows "\<exists>info. parse_acpi mem cpuid rsdp mmap = Some info \<and> ai_error info = ACPI_OK \<and>
    unat (ai_enabled_cpu_count info) = length (enabled_cpus es) \<and>
    take (unat (ai_stored_cpu_count info)) (ai_cpus info) = take 32 (enabled_cpus es) \<and>
    ai_local_apic_base info = lapic_base_of (ucast base) es \<and> ai_madt_flags info = flags"
  using parse_acpi_tables [OF assms, of cpuid] by (auto simp: table_lists_def acpi_table_ok_def ACPI_MAX_CPUS_def)

lemma example_acpi_parts:
  "holds_bytes (image 0x1000 example_acpi) 0x1000 (rsdp_bytes ([223] @ replicate 6 0) 2 [0, 0, 0, 0] 0x1024 [168, 0, 0, 0])"
  "holds_bytes (image 0x1000 example_acpi) 0x1024 (xsdt_bytes ([1, 48] @ replicate 26 0) [0x1050])"
  "holds_bytes (image 0x1000 example_acpi) 0x1050 example_madt"
proof -
  let ?r = "rsdp_bytes ([223] @ replicate 6 0) 2 [0, 0, 0, 0] 0x1024 [168, 0, 0, 0]"
  let ?x = "xsdt_bytes ([1, 48] @ replicate 26 0) [0x1050]"
  have "length example_acpi = 182" by code_simp
  then have "holds_bytes (image 0x1000 example_acpi) 0x1000 example_acpi" by (intro image_holds) simp
  moreover have "example_acpi = ?r @ ?x @ example_madt" by code_simp
  ultimately have all: "holds_bytes (image 0x1000 example_acpi) 0x1000 (?r @ ?x @ example_madt)" by metis
  have "length ?r = 36" "length ?x = 44" by code_simp+
  with all show "holds_bytes (image 0x1000 example_acpi) 0x1000 ?r"
    "holds_bytes (image 0x1000 example_acpi) 0x1024 ?x" "holds_bytes (image 0x1000 example_acpi) 0x1050 example_madt"
    unfolding holds_bytes_append by simp_all
qed

lemma example_acpi_tables:
  "acpi_tables_at (image 0x1000 example_acpi) one_page_map 0x1000 0x1024 0x1050 0xfec00000 1 example_entries"
proof -
  let ?r = "rsdp_bytes ([223] @ replicate 6 0) 2 [0, 0, 0, 0] 0x1024 [168, 0, 0, 0]"
  let ?x = "xsdt_bytes ([1, 48] @ replicate 26 0) ([] @ 0x1050 # [])"
  have sums: "sum_list (take 20 ?r) = 0" "sum_list ?r = 0" "sum_list ?x = 0" "sum_list example_madt = 0"
    "length ?x = 44" "length example_madt = 102" "list_all entry_wf example_entries" by code_simp+
  have ranges: "memory_map_contains_range one_page_map 0x1000 20" "memory_map_contains_range one_page_map 0x1000 24"
    "memory_map_contains_range one_page_map 0x1000 36" "memory_map_contains_range one_page_map 0x1024 36"
    "memory_map_contains_range one_page_map 0x1024 44" "memory_map_contains_range one_page_map 0x1050 36"
    "memory_map_contains_range one_page_map 0x1050 102" by code_simp+
  have "\<exists>oem revision rsdt tail. length oem = 7 \<and> length rsdt = 4 \<and> length tail = 4 \<and> 2 \<le> revision \<and>
      (let bs = rsdp_bytes oem revision rsdt 0x1024 tail in
       holds_bytes (image 0x1000 example_acpi) 0x1000 bs \<and> sum_list (take 20 bs) = 0 \<and> sum_list bs = 0)"
    unfolding Let_def using sums example_acpi_parts
    by (intro exI [of _ "[223] @ replicate 6 0"] exI [of _ 2] exI [of _ "[0, 0, 0, 0]"] exI [of _ "[168, 0, 0, 0]"]) simp
  moreover have "\<exists>hdr others rest. length hdr = 28 \<and>
      list_all (other_table (image 0x1000 example_acpi) one_page_map) others \<and>
      (let bs = xsdt_bytes hdr (others @ 0x1050 # rest) in
       holds_bytes (image 0x1000 example_acpi) 0x1024 bs \<and> sum_list bs = 0 \<and> length bs \<le> 2 ^ 20 \<and>
       (\<forall>n \<in> {36, word_of_nat (length bs)}. memory_map_contains_range one_page_map 0x1024 n))"
    unfolding Let_def using sums ranges example_acpi_parts
    by (intro exI [of _ "[1, 48] @ replicate 26 0"] exI [of _ "[]"]) simp
  moreover have "\<exists>hdr. length hdr = 28 \<and> (let bs = madt_bytes hdr 0xfec00000 1 example_entries in
       holds_bytes (image 0x1000 example_acpi) 0x1050 bs \<and> sum_list bs = 0 \<and> length bs \<le> 2 ^ 20 \<and>
       (\<forall>n \<in> {36, word_of_nat (length bs)}. memory_map_contains_range one_page_map 0x1050 n))"
    unfolding Let_def using sums ranges example_acpi_parts(3)
    by (intro exI [of _ "[1, 79] @ replicate 26 0"]) (simp add: example_madt_def)
  ultimately show ?thesis unfolding acpi_tables_at_def using sums(7) ranges by simp
qed

theorem parse_acpi_reads_back_witness:
  "\<exists>info. parse_acpi (image 0x1000 example_acpi) (\<lambda>_ _. (0, 0, 0, 0)) 0x1000 one_page_map = Some info \<and>
     ai_error info = ACPI_OK \<and> unat (ai_enabled_cpu_count info) = 3 \<and>
     map ac_apic_id (take (unat (ai_stored_cpu_count info)) (ai_cpus info)) = [0, 1, 300] \<and>
     ai_local_apic_base info = 0xfee00000"
proof -
  have "length (enabled_cpus example_entries) = 3"
    "map ac_apic_id (take 32 (enabled_cpus example_entries)) = [0, 1, 300]"
    "lapic_base_of (ucast (0xfec00000 :: u32)) example_entries = 0xfee00000" by code_simp+
  with parse_acpi_reads_back [OF example_acpi_tables, of "\<lambda>_ _. (0, 0, 0, 0)"] show ?thesis by auto
qed

text \<open>
  C33. The parser never overruns its table of 32 processors: whatever the tables of the firmware
  hold, the table keeps its size, the number of stored processors is the number of enabled ones cut
  off at 32, and the number of AP targets counted from it is at most 32.
\<close>

theorem parse_acpi_table_bounds:
  assumes "parse_acpi mem cpuid rsdp mmap = Some info"
  shows "length (ai_cpus info) = 32 \<and>
    unat (ai_stored_cpu_count info) = min 32 (unat (ai_enabled_cpu_count info)) \<and>
    count_supported_ap_targets info \<le> 32"
proof -
  have table: "length (ai_cpus info) = 32"
    "unat (ai_stored_cpu_count info) = min 32 (unat (ai_enabled_cpu_count info))"
    using parse_acpi_table [of mem cpuid rsdp mmap] assms by (simp_all add: acpi_table_ok_def ACPI_MAX_CPUS_def)
  have "length (supported_aps info) \<le> unat (ai_stored_cpu_count info)"
    unfolding supported_aps_def using length_filter_le by (rule le_trans) simp
  then show ?thesis
    using table by (simp add: count_supported_ap_targets_def fold_count supported_aps_def)
qed

theorem parse_acpi_table_bounds_witness:
  "parse_acpi (image 0x1000 []) (\<lambda>_ _. (0, 0, 0, 0)) 0 one_page_map = Some (zero_acpi_info\<lparr>ai_error := ACPI_ERR_NO_RSDP\<rparr>) \<and>
   count_supported_ap_targets (zero_acpi_info\<lparr>ai_error := ACPI_ERR_NO_RSDP\<rparr>) \<le> 32"
proof -
  have "parse_acpi (image 0x1000 []) (\<lambda>_ _. (0, 0, 0, 0)) 0 one_page_map = Some (zero_acpi_info\<lparr>ai_error := ACPI_ERR_NO_RSDP\<rparr>)"
    by code_simp
  with parse_acpi_table_bounds [OF this] show ?thesis by blast
qed

end
