(* ===== verification/Trampoline_Cpu.thy ===== *)
theory Trampoline_Cpu
  imports Trampoline
begin

text \<open>
  A processor that starts up: the part of the x86 architecture the trampoline uses, as the
  processor manuals describe it. The state holds the registers, the hidden part of the code and
  data segment registers (base address and code size), the control registers and memory. A step decodes
  the bytes at the instruction pointer in the current code size and is \<open>None\<close> for an instruction
  outside this part, for a fault and for a bad segment. Segment limits are not modelled; all the
  segments the trampoline loads are flat or in the trampoline page.
\<close>

section \<open>State\<close>

datatype code_size = C16 | C32 | C64

record cpu =
  cp_size :: code_size
  cp_ip :: u64
  cp_cs :: u16
  cp_cs_base :: u64
  cp_ds :: u16
  cp_ds_base :: u64
  cp_es :: u16
  cp_ss :: u16
  cp_rax :: u64
  cp_rcx :: u64
  cp_rdx :: u64
  cp_rsp :: u64
  cp_rdi :: u64
  cp_cr0 :: u64
  cp_cr3 :: u64
  cp_cr4 :: u64
  cp_efer :: u64
  cp_gdtr_base :: u64
  cp_gdtr_limit :: u16
  cp_halted :: bool
  cp_mem :: ram

text \<open>
  Address translation: none without paging, otherwise the translation of the tables at CR3, which
  is a parameter here.
\<close>

definition translate :: "(u64 \<Rightarrow> u64 \<Rightarrow> u64 option) \<Rightarrow> cpu \<Rightarrow> u64 \<Rightarrow> u64 option" where
  "translate tables c a = (if bit (cp_cr0 c) 31 then tables (cp_cr3 c) a else Some a)"

definition load8 :: "(u64 \<Rightarrow> u64 \<Rightarrow> u64 option) \<Rightarrow> cpu \<Rightarrow> u64 \<Rightarrow> u8 option" where
  "load8 tables c a = map_option (cp_mem c) (translate tables c a)"

definition load16 :: "(u64 \<Rightarrow> u64 \<Rightarrow> u64 option) \<Rightarrow> cpu \<Rightarrow> u64 \<Rightarrow> u16 option" where
  "load16 tables c a = do { b0 \<leftarrow> load8 tables c a; b1 \<leftarrow> load8 tables c (a + 1); Some (le16 b0 b1) }"

definition load32 :: "(u64 \<Rightarrow> u64 \<Rightarrow> u64 option) \<Rightarrow> cpu \<Rightarrow> u64 \<Rightarrow> u32 option" where
  "load32 tables c a =
     do { b0 \<leftarrow> load8 tables c a; b1 \<leftarrow> load8 tables c (a + 1); b2 \<leftarrow> load8 tables c (a + 2);
          b3 \<leftarrow> load8 tables c (a + 3); Some (le32 b0 b1 b2 b3) }"

definition load64 :: "(u64 \<Rightarrow> u64 \<Rightarrow> u64 option) \<Rightarrow> cpu \<Rightarrow> u64 \<Rightarrow> u64 option" where
  "load64 tables c a = do { lo \<leftarrow> load32 tables c a; hi \<leftarrow> load32 tables c (a + 4); Some (le64 lo hi) }"

section \<open>Segments\<close>

text \<open>A descriptor of the global descriptor table, if the selector is inside the table.\<close>

definition descriptor_at :: "(u64 \<Rightarrow> u64 \<Rightarrow> u64 option) \<Rightarrow> cpu \<Rightarrow> u16 \<Rightarrow> u64 option" where
  "descriptor_at tables c sel =
     (if unat sel + 7 \<le> unat (cp_gdtr_limit c) \<and> sel AND 7 = 0 then load64 tables c (cp_gdtr_base c + ucast sel)
      else None)"

definition seg_base :: "u64 \<Rightarrow> u64" where
  "seg_base d = (drop_bit 16 d AND 0xffffff) OR push_bit 24 (drop_bit 56 d)"

definition code_descriptor :: "u64 \<Rightarrow> bool" where
  "code_descriptor d \<longleftrightarrow> bit d 47 \<and> bit d 44 \<and> bit d 43"

definition data_descriptor :: "u64 \<Rightarrow> bool" where
  "data_descriptor d \<longleftrightarrow> bit d 47 \<and> bit d 44 \<and> \<not> bit d 43 \<and> bit d 41"

definition code_size_of :: "cpu \<Rightarrow> u64 \<Rightarrow> code_size" where
  "code_size_of c d = (if bit (cp_efer c) 10 \<and> bit d 53 then C64 else if bit d 54 then C32 else C16)"

text \<open>Loading a data segment register: the selector and the base it gets.\<close>

definition data_segment :: "(u64 \<Rightarrow> u64 \<Rightarrow> u64 option) \<Rightarrow> cpu \<Rightarrow> u16 \<Rightarrow> u64 option" where
  "data_segment tables c sel =
     (if \<not> bit (cp_cr0 c) 0 then Some (push_bit 4 (ucast sel))
      else do { d \<leftarrow> descriptor_at tables c sel; if data_descriptor d then Some (seg_base d) else None })"

definition far_jump :: "(u64 \<Rightarrow> u64 \<Rightarrow> u64 option) \<Rightarrow> u16 \<Rightarrow> u64 \<Rightarrow> cpu \<Rightarrow> cpu option" where
  "far_jump tables sel target c =
     (if \<not> bit (cp_cr0 c) 0 then Some (c\<lparr>cp_cs := sel, cp_cs_base := push_bit 4 (ucast sel), cp_ip := target\<rparr>)
      else do { d \<leftarrow> descriptor_at tables c sel;
                if code_descriptor d
                then Some (c\<lparr>cp_cs := sel, cp_cs_base := seg_base d, cp_size := code_size_of c d, cp_ip := target\<rparr>)
                else None })"

text \<open>
  Writing CR0: turning paging on needs protection and, with long mode enabled, PAE; it activates
  long mode.
\<close>

definition write_cr0 :: "u64 \<Rightarrow> cpu \<Rightarrow> cpu option" where
  "write_cr0 v c =
     (if bit v 31 \<and> \<not> bit v 0 then None
      else if bit v 31 \<and> bit (cp_efer c) 8
      then if bit (cp_cr4 c) 5 then Some (c\<lparr>cp_cr0 := v, cp_efer := set_bit 10 (cp_efer c)\<rparr>) else None
      else Some (c\<lparr>cp_cr0 := v\<rparr>))"

section \<open>Instructions\<close>

definition advance :: "u64 \<Rightarrow> cpu \<Rightarrow> cpu" where
  "advance n c = c\<lparr>cp_ip := cp_ip c + n\<rparr>"

definition low32 :: "u64 \<Rightarrow> u64" where "low32 v = v AND 0xffffffff"

text \<open>Writing part of a register keeps the rest, except that a 32-bit result clears the upper half.\<close>

definition set_ax :: "u16 \<Rightarrow> cpu \<Rightarrow> cpu" where
  "set_ax v c = c\<lparr>cp_rax := (cp_rax c AND NOT 0xffff) OR ucast v\<rparr>"

definition mov_sreg :: "(u64 \<Rightarrow> u64 \<Rightarrow> u64 option) \<Rightarrow> u8 \<Rightarrow> cpu \<Rightarrow> cpu option" where
  "mov_sreg tables modrm c =
     (let sel = ucast (cp_rax c) in
      do { base \<leftarrow> data_segment tables c sel;
           if modrm = 0xd8 then Some (c\<lparr>cp_ds := sel, cp_ds_base := base\<rparr>)
           else if modrm = 0xc0 then Some (c\<lparr>cp_es := sel\<rparr>)
           else if modrm = 0xd0 then Some (c\<lparr>cp_ss := sel\<rparr>)
           else None })"

definition mov_from_cr :: "u8 \<Rightarrow> cpu \<Rightarrow> cpu option" where
  "mov_from_cr modrm c =
     (if modrm = 0xc0 then Some (c\<lparr>cp_rax := low32 (cp_cr0 c)\<rparr>)
      else if modrm = 0xe0 then Some (c\<lparr>cp_rax := low32 (cp_cr4 c)\<rparr>)
      else None)"

definition mov_to_cr :: "u8 \<Rightarrow> cpu \<Rightarrow> cpu option" where
  "mov_to_cr modrm c =
     (if modrm = 0xc0 then write_cr0 (low32 (cp_rax c)) c
      else if modrm = 0xd8 then Some (c\<lparr>cp_cr3 := low32 (cp_rax c)\<rparr>)
      else if modrm = 0xe0 then Some (c\<lparr>cp_cr4 := low32 (cp_rax c)\<rparr>)
      else None)"

text \<open>The two-byte opcodes, with the second and third byte.\<close>

definition step_0f :: "(u64 \<Rightarrow> u64 \<Rightarrow> u64 option) \<Rightarrow> u64 \<Rightarrow> u8 \<Rightarrow> cpu \<Rightarrow> cpu option" where
  "step_0f tables pc b1 c =
     (if b1 = 0x20 then do { m \<leftarrow> load8 tables c (pc + 2); c \<leftarrow> mov_from_cr m c; Some (advance 3 c) }
      else if b1 = 0x22 then do { m \<leftarrow> load8 tables c (pc + 2); c \<leftarrow> mov_to_cr m c; Some (advance 3 c) }
      else if b1 = 0x32 then
        (if low32 (cp_rcx c) = 0xc0000080
         then Some (advance 2 (c\<lparr>cp_rax := low32 (cp_efer c), cp_rdx := drop_bit 32 (cp_efer c)\<rparr>)) else None)
      else if b1 = 0x30 then
        (if low32 (cp_rcx c) = 0xc0000080
         then Some (advance 2 (c\<lparr>cp_efer := low32 (cp_rax c) OR push_bit 32 (cp_rdx c)\<rparr>)) else None)
      else if b1 = 0x01 \<and> cp_size c = C16 then
        do { m \<leftarrow> load8 tables c (pc + 2);
             disp \<leftarrow> load16 tables c (pc + 3);
             limit \<leftarrow> load16 tables c (cp_ds_base c + ucast disp);
             base \<leftarrow> load32 tables c (cp_ds_base c + ucast disp + 2);
             if m = 0x16
             then Some (advance 5 (c\<lparr>cp_gdtr_limit := limit, cp_gdtr_base := ucast base AND 0xffffff\<rparr>))
             else None }
      else None)"

text \<open>The opcodes with an operand-size prefix.\<close>

definition step_66 :: "(u64 \<Rightarrow> u64 \<Rightarrow> u64 option) \<Rightarrow> u64 \<Rightarrow> u8 \<Rightarrow> cpu \<Rightarrow> cpu option" where
  "step_66 tables pc b1 c =
     (if cp_size c = C16 then
        (if b1 = 0x0d then
           do { v \<leftarrow> load32 tables c (pc + 2); Some (advance 6 (c\<lparr>cp_rax := low32 (cp_rax c) OR ucast v\<rparr>)) }
         else if b1 = 0xea then
           do { target \<leftarrow> load32 tables c (pc + 2); sel \<leftarrow> load16 tables c (pc + 6);
                far_jump tables sel (ucast target) c }
         else None)
      else if b1 = 0xb8 then do { v \<leftarrow> load16 tables c (pc + 2); Some (advance 4 (set_ax v c)) }
      else None)"

text \<open>The opcodes with a REX.W prefix.\<close>

definition step_48 :: "(u64 \<Rightarrow> u64 \<Rightarrow> u64 option) \<Rightarrow> u64 \<Rightarrow> u8 \<Rightarrow> cpu \<Rightarrow> cpu option" where
  "step_48 tables pc b1 c =
     (if b1 = 0xb8 then do { v \<leftarrow> load64 tables c (pc + 2); Some (advance 10 (c\<lparr>cp_rax := v\<rparr>)) }
      else if b1 = 0x89 then
        do { m \<leftarrow> load8 tables c (pc + 2);
             if m = 0xc4 then Some (advance 3 (c\<lparr>cp_rsp := cp_rax c\<rparr>))
             else if m = 0xc7 then Some (advance 3 (c\<lparr>cp_rdi := cp_rax c\<rparr>))
             else None }
      else None)"

definition call_rax :: "(u64 \<Rightarrow> u64 \<Rightarrow> u64 option) \<Rightarrow> cpu \<Rightarrow> cpu option" where
  "call_rax tables c =
     do { p \<leftarrow> translate tables c (cp_rsp c - 8);
          Some (c\<lparr>cp_mem := store_bytes (cp_mem c) p (write_u64 (cp_ip c + 2)), cp_rsp := cp_rsp c - 8,
             cp_ip := cp_rax c\<rparr>) }"

definition cpu_step :: "(u64 \<Rightarrow> u64 \<Rightarrow> u64 option) \<Rightarrow> cpu \<Rightarrow> cpu option" where
  "cpu_step tables c =
     (let pc = cp_cs_base c + cp_ip c in
      if cp_halted c then None
      else do { b0 \<leftarrow> load8 tables c pc;
        if b0 = 0xfa \<or> b0 = 0xfc then Some (advance 1 c)
        else if b0 = 0xf4 then Some (advance 1 (c\<lparr>cp_halted := True\<rparr>))
        else do { b1 \<leftarrow> load8 tables c (pc + 1);
          if b0 = 0x8c \<and> b1 = 0xc8 then Some (advance 2 (set_ax (cp_cs c) c))
          else if b0 = 0x8e then do { c \<leftarrow> mov_sreg tables b1 c; Some (advance 2 c) }
          else if b0 = 0xbc \<and> cp_size c = C16 then
            do { v \<leftarrow> load16 tables c (pc + 1);
                 Some (advance 3 (c\<lparr>cp_rsp := (cp_rsp c AND NOT 0xffff) OR ucast v\<rparr>)) }
          else if b0 = 0x0f then step_0f tables pc b1 c
          else if b0 = 0x66 then step_66 tables pc b1 c
          else if b0 = 0x48 \<and> cp_size c = C64 then step_48 tables pc b1 c
          else if b0 = 0xff \<and> b1 = 0xd0 \<and> cp_size c = C64 then call_rax tables c
          else if b0 = 0xeb then Some (c\<lparr>cp_ip := cp_ip c + 2 + signed b1\<rparr>)
          else if b0 = 0x0d \<and> cp_size c = C32 then
            do { v \<leftarrow> load32 tables c (pc + 1); Some (advance 5 (c\<lparr>cp_rax := low32 (cp_rax c) OR ucast v\<rparr>)) }
          else if b0 = 0xb8 \<and> cp_size c = C32 then
            do { v \<leftarrow> load32 tables c (pc + 1); Some (advance 5 (c\<lparr>cp_rax := ucast v\<rparr>)) }
          else if b0 = 0xb9 \<and> cp_size c = C32 then
            do { v \<leftarrow> load32 tables c (pc + 1); Some (advance 5 (c\<lparr>cp_rcx := ucast v\<rparr>)) }
          else if b0 = 0xea \<and> cp_size c = C32 then
            do { target \<leftarrow> load32 tables c (pc + 1); sel \<leftarrow> load16 tables c (pc + 5);
                 far_jump tables sel (ucast target) c }
          else None } })"

fun cpu_run :: "(u64 \<Rightarrow> u64 \<Rightarrow> u64 option) \<Rightarrow> nat \<Rightarrow> cpu \<Rightarrow> cpu option" where
  "cpu_run tables 0 c = Some c"
| "cpu_run tables (Suc n) c = do { c \<leftarrow> cpu_step tables c; cpu_run tables n c }"

text \<open>A processor that has received a start-up interrupt with the given vector.\<close>

definition sipi_start :: "u32 \<Rightarrow> cpu \<Rightarrow> cpu" where
  "sipi_start vector c = c\<lparr>cp_size := C16, cp_ip := 0, cp_cs := ucast (push_bit 8 vector),
     cp_cs_base := push_bit 12 (ucast vector), cp_halted := False\<rparr>"

end
