(* ===== verification/Trampoline_Exec.thy ===== *)
theory Trampoline_Exec
  imports Trampoline_Cpu
begin

text \<open>
  The trampoline works: a processor that starts in the assembled page reaches \<^verbatim>\<open>ap_entry_one\<close> in
  long mode, with the kernel's page tables, the stack of its context and a pointer to the context in
  the first argument register.
\<close>

section \<open>The bytes of the page\<close>

lemma store_bytes_nth:
  "length bs < 2 ^ 64 \<Longrightarrow>
   store_bytes mem p bs a = (if unat (a - p) < length bs then bs ! unat (a - p) else mem a)"
proof (induction bs arbitrary: mem p)
  case (Cons b bs)
  have IH: "store_bytes (mem(p := b)) (p + 1) bs a =
      (if unat (a - (p + 1)) < length bs then bs ! unat (a - (p + 1)) else (mem(p := b)) a)"
    using Cons by simp
  show ?case
  proof (cases "a = p")
    case True
    then show ?thesis using Cons.prems IH unsigned_minus_1_eq_mask [where 'a = nat and 'b = 64] by (simp add: mask_eq_exp_minus_1)
  next
    case False
    have "a - (p + 1) = (a - p) - 1" by simp
    then have "unat (a - (p + 1)) = unat (a - p) - 1"
      using False unat_minus_one [of "a - p"] by (simp only: right_minus_eq not_False_eq_True)
    moreover have "0 < unat (a - p)" using False by (simp add: unat_gt_0)
    ultimately show ?thesis using IH False by (auto simp: nth_Cons')
  qed
qed simp

lemma store_bytes_append:
  "store_bytes mem p (xs @ ys) = store_bytes (store_bytes mem p xs) (p + word_of_nat (length xs)) ys"
  by (induction xs arbitrary: mem p) (simp_all add: add.assoc)

definition emits :: "emitter \<Rightarrow> u8 list \<Rightarrow> bool" where
  "emits e bs \<longleftrightarrow> (\<forall>mem p. e (mem, p) = (store_bytes mem p bs, p + word_of_nat (length bs)))"

lemma emits_simps [simp]:
  "emits (emit8 a) [a]" "emits (emit16 b) (write_u16 b)" "emits (emit32 d) (write_u32 d)"
  "emits (emit_mov_rax_imm64 q) (0x48 # 0xb8 # write_u64 q)"
  by (simp_all add: emits_def emit8_def emit16_def emit32_def emit_mov_rax_imm64_def emit64_def add.assoc)

lemma emit_at_bytes: "list_all2 emits es bss \<Longrightarrow> emit_at p es mem = store_bytes mem p (concat bss)"
proof -
  have "fst (fold (\<lambda>e. e) es (mem, p)) = store_bytes mem p (concat bss)" if "list_all2 emits es bss"
    using that by (induction es bss arbitrary: mem p rule: list_all2_induct)
      (simp_all add: emits_def store_bytes_append)
  then show "list_all2 emits es bss \<Longrightarrow> emit_at p es mem = store_bytes mem p (concat bss)"
    by (simp add: emit_at_def)
qed

text \<open>The page at \<open>base\<close> holds a run of bytes from an offset on.\<close>

definition page_holds :: "u64 \<Rightarrow> ram \<Rightarrow> nat \<Rightarrow> u8 list \<Rightarrow> bool" where
  "page_holds base mem off bs \<longleftrightarrow> (\<forall>k < length bs. mem (base + word_of_nat (off + k)) = bs ! k)"

lemma page_holds_Cons:
  "page_holds base mem off (b # bs) \<longleftrightarrow> mem (base + word_of_nat off) = b \<and> page_holds base mem (Suc off) bs"
  unfolding page_holds_def by (simp add: All_less_Suc2 del: of_nat_add)

lemma page_holds_append:
  "page_holds base mem off (xs @ ys) \<longleftrightarrow> page_holds base mem off xs \<and> page_holds base mem (off + length xs) ys"
proof (induction xs arbitrary: off)
  case Nil
  then show ?case by (simp add: page_holds_def)
next
  case (Cons x xs)
  then show ?case by (simp add: page_holds_Cons)
qed

lemma offset_diff:
  assumes "off < 2 ^ 32" "x < 2 ^ 32"
  shows "unat (word_of_nat x - word_of_nat off :: u64) =
    (if off \<le> x then x - off else 2 ^ 64 - (off - x))"
proof -
  have u: "unat (word_of_nat x :: u64) = x" "unat (word_of_nat off :: u64) = off"
    using assms by (simp_all add: unat_of_nat)
  then show ?thesis using unat_sub_if' [of "word_of_nat x :: u64" "word_of_nat off"] u assms by auto
qed

lemma page_holds_store:
  assumes "length bs < 2 ^ 31" "off < 2 ^ 31"
  shows "page_holds base (store_bytes mem (base + word_of_nat off) bs) off bs"
  using assms by (simp add: page_holds_def store_bytes_nth offset_diff del: of_nat_add)

lemma page_holds_store_other:
  assumes "page_holds base mem off bs" "off' + length bs' \<le> off \<or> off + length bs \<le> off'"
    and "off + length bs < 2 ^ 31" "off' + length bs' < 2 ^ 31"
  shows "page_holds base (store_bytes mem (base + word_of_nat off') bs') off bs"
  using assms by (auto simp: page_holds_def store_bytes_nth offset_diff simp del: of_nat_add)

section \<open>The assembled page\<close>

definition real16_bytes :: "u64 \<Rightarrow> u8 list" where
  "real16_bytes base = [0xfa, 0xfc, 0x8c, 0xc8, 0x8e, 0xd8, 0x8e, 0xc0, 0x8e, 0xd0, 0xbc] @ write_u16 0x0ff0 @
     [0x0f, 0x01, 0x16] @ write_u16 0x180 @ [0x0f, 0x20, 0xc0, 0x66, 0x0d] @ write_u32 1 @
     [0x0f, 0x22, 0xc0, 0x66, 0xea] @ write_u32 (ucast (base + 0x60)) @ write_u16 0x18"

definition prot32_bytes :: "u64 \<Rightarrow> u64 \<Rightarrow> u8 list" where
  "prot32_bytes base cr3 = [0x66, 0xb8] @ write_u16 0x10 @ [0x8e, 0xd8, 0x8e, 0xc0, 0x8e, 0xd0, 0x0f, 0x20, 0xe0, 0x0d] @
     write_u32 0x20 @ [0x0f, 0x22, 0xe0, 0xb8] @ write_u32 (ucast cr3) @ [0x0f, 0x22, 0xd8, 0xb9] @
     write_u32 0xc0000080 @ [0x0f, 0x32, 0x0d] @ write_u32 0x100 @ [0x0f, 0x30, 0x0f, 0x20, 0xc0, 0x0d] @
     write_u32 0x80000000 @ [0x0f, 0x22, 0xc0, 0xea] @ write_u32 (ucast (base + 0xc0)) @ write_u16 8"

definition long_bytes :: "u64 \<Rightarrow> u64 \<Rightarrow> u64 \<Rightarrow> u8 list" where
  "long_bytes stack_top ctx entry = [0x66, 0xb8] @ write_u16 0x10 @ [0x8e, 0xd8, 0x8e, 0xc0, 0x8e, 0xd0, 0x48, 0xb8] @
     write_u64 stack_top @ [0x48, 0x89, 0xc4, 0x48, 0xb8] @ write_u64 ctx @ [0x48, 0x89, 0xc7, 0x48, 0xb8] @
     write_u64 entry @ [0xff, 0xd0, 0xfa, 0xf4, 0xeb, 0xfd]"

lemma code_bytes:
  "emit_at p (real16_code base) mem = store_bytes mem p (real16_bytes base)"
  "emit_at p (prot32_code base cr3) mem = store_bytes mem p (prot32_bytes base cr3)"
  "emit_at p (long_code stack_top ctx entry) mem = store_bytes mem p (long_bytes stack_top ctx entry)"
proof -
  have singles: "list_all2 emits es bss \<Longrightarrow> concat bss = bs \<Longrightarrow> emit_at p es mem = store_bytes mem p bs" for es bss bs
    using emit_at_bytes by blast
  show "emit_at p (real16_code base) mem = store_bytes mem p (real16_bytes base)"
    by (rule singles [where bss = "[[0xfa], [0xfc], [0x8c], [0xc8], [0x8e], [0xd8], [0x8e], [0xc0], [0x8e], [0xd0],
        [0xbc], write_u16 0x0ff0, [0x0f], [0x01], [0x16], write_u16 0x180, [0x0f], [0x20], [0xc0], [0x66], [0x0d],
        write_u32 1, [0x0f], [0x22], [0xc0], [0x66], [0xea], write_u32 (ucast (base + 0x60)), write_u16 0x18]"])
      (simp_all add: real16_code_def real16_bytes_def c_const)
  show "emit_at p (prot32_code base cr3) mem = store_bytes mem p (prot32_bytes base cr3)"
    by (rule singles [where bss = "[[0x66], [0xb8], write_u16 0x10, [0x8e], [0xd8], [0x8e], [0xc0], [0x8e], [0xd0],
        [0x0f], [0x20], [0xe0], [0x0d], write_u32 0x20, [0x0f], [0x22], [0xe0], [0xb8], write_u32 (ucast cr3),
        [0x0f], [0x22], [0xd8], [0xb9], write_u32 0xc0000080, [0x0f], [0x32], [0x0d], write_u32 0x100, [0x0f], [0x30],
        [0x0f], [0x20], [0xc0], [0x0d], write_u32 0x80000000, [0x0f], [0x22], [0xc0], [0xea],
        write_u32 (ucast (base + 0xc0)), write_u16 8]"])
      (simp_all add: prot32_code_def prot32_bytes_def c_const)
  show "emit_at p (long_code stack_top ctx entry) mem = store_bytes mem p (long_bytes stack_top ctx entry)"
    by (rule singles [where bss = "[[0x66], [0xb8], write_u16 0x10, [0x8e], [0xd8], [0x8e], [0xc0], [0x8e], [0xd0],
        [0x48, 0xb8] @ write_u64 stack_top, [0x48], [0x89], [0xc4], [0x48, 0xb8] @ write_u64 ctx, [0x48], [0x89], [0xc7],
        [0x48, 0xb8] @ write_u64 entry, [0xff], [0xd0], [0xfa], [0xf4], [0xeb], [0xfd]]"])
      (simp_all add: long_code_def long_bytes_def c_const)
qed

text \<open>What the page holds in the end.\<close>

definition trampoline_page :: "u64 \<Rightarrow> u64 \<Rightarrow> u64 \<Rightarrow> u64 \<Rightarrow> u64 \<Rightarrow> ram \<Rightarrow> bool" where
  "trampoline_page base cr3 stack_top ctx entry mem \<longleftrightarrow>
     page_holds base mem 0 (real16_bytes base) \<and> page_holds base mem 0x60 (prot32_bytes base cr3) \<and>
     page_holds base mem 0xc0 (long_bytes stack_top ctx entry) \<and>
     page_holds base mem 0x180 (write_u16 31) \<and> page_holds base mem 0x182 (write_u32 (ucast (base + 0x190))) \<and>
     page_holds base mem 0x190 (write_u64 0) \<and> page_holds base mem 0x198 (write_u64 0x00af9a000000ffff) \<and>
     page_holds base mem 0x1a0 (write_u64 0x00cf92000000ffff) \<and> page_holds base mem 0x1a8 (write_u64 0x00cf9a000000ffff)"

lemma length_code_bytes [simp]:
  "length (real16_bytes base) = 38" "length (prot32_bytes base cr3) = 61" "length (long_bytes stack_top ctx entry) = 52"
  by (simp_all add: real16_bytes_def prot32_bytes_def long_bytes_def)

lemmas page_holds_stores = page_holds_store page_holds_store_other

lemma build_ap_trampoline_page:
  assumes "build_ap_trampoline ad paging boot mem = (True, boot', mem')"
  shows "trampoline_page (bi_trampoline_base boot) (pi_loaded_cr3 paging)
      (ad_boot_stack ad + AP_BOOT_STACK_SIZE) (ad_ctx ad) (ad_ap_entry_one ad) mem'"
    and "boot' = boot\<lparr>bi_stack_top := ad_boot_stack ad + AP_BOOT_STACK_SIZE, bi_ap_state := AP_BOOT_STATE_READY\<rparr>"
    and "bi_trampoline_base boot \<noteq> 0" "bi_trampoline_base boot < 0x100000"
      "bi_trampoline_base boot AND 0xfff = 0" "pi_loaded_cr3 paging \<le> 0xffffffff" "bi_sipi_vector boot \<le> 0xff"
proof -
  let ?base = "bi_trampoline_base boot"
  note unfold = build_ap_trampoline_def [of ad paging boot mem] c_const
  show "boot' = boot\<lparr>bi_stack_top := ad_boot_stack ad + AP_BOOT_STACK_SIZE, bi_ap_state := AP_BOOT_STATE_READY\<rparr>"
    "?base \<noteq> 0" "?base < 0x100000" "?base AND 0xfff = 0" "pi_loaded_cr3 paging \<le> 0xffffffff" "bi_sipi_vector boot \<le> 0xff"
    using assms by (auto simp: unfold Let_def not_le not_less split: if_splits)
  define s where "s off bs m = store_bytes m (?base + word_of_nat off) bs" for off bs and m :: ram
  have mem': "mem' = s 0x1a8 (write_u64 0x00cf9a000000ffff) (s 0x1a0 (write_u64 0x00cf92000000ffff)
      (s 0x198 (write_u64 0x00af9a000000ffff) (s 0x190 (write_u64 0) (s 0x182 (write_u32 (ucast (?base + 0x190)))
      (s 0x180 (write_u16 31) (s 0xc0 (long_bytes (ad_boot_stack ad + AP_BOOT_STACK_SIZE) (ad_ctx ad) (ad_ap_entry_one ad))
      (s 0x60 (prot32_bytes ?base (pi_loaded_cr3 paging)) (s 0 (real16_bytes ?base)
      (store_bytes mem ?base (replicate 4096 0))))))))))"
    using assms by (auto simp: unfold Let_def s_def code_bytes add.assoc split: if_splits)
  have same: "page_holds ?base (s off bs m) off bs" if "length bs < 2 ^ 12" "off < 2 ^ 12" for off bs m
    using page_holds_store that by (simp add: s_def)
  have other: "page_holds ?base (s off' bs' m) off bs"
    if "page_holds ?base m off bs" "off' + length bs' \<le> off \<or> off + length bs \<le> off'" "off + length bs < 2 ^ 12"
      "off' + length bs' < 2 ^ 12" for off off' bs bs' m
    using page_holds_store_other that by (simp add: s_def)
  show "trampoline_page ?base (pi_loaded_cr3 paging)
      (ad_boot_stack ad + AP_BOOT_STACK_SIZE) (ad_ctx ad) (ad_ap_entry_one ad) mem'"
    unfolding mem' trampoline_page_def by (simp add: same other)
qed

section \<open>Loading from the page\<close>

text \<open>A state in which the addresses of the trampoline page are translated to themselves.\<close>

definition page_visible :: "(u64 \<Rightarrow> u64 \<Rightarrow> u64 option) \<Rightarrow> u64 \<Rightarrow> cpu \<Rightarrow> bool" where
  "page_visible tables base c \<longleftrightarrow> (\<forall>x < 4096. translate tables c (base + word_of_nat x) = Some (base + word_of_nat x))"

lemma load8_page:
  "page_visible tables base c \<Longrightarrow> off < 4096 \<Longrightarrow>
   load8 tables c (base + word_of_nat off) = Some (cp_mem c (base + word_of_nat off))"
  by (simp add: load8_def page_visible_def)

lemma load16_page:
  assumes "page_visible tables base c" "page_holds base (cp_mem c) off (write_u16 v)" "off < 4000"
  shows "load16 tables c (base + word_of_nat off) = Some v"
proof -
  have "cp_mem c (base + word_of_nat (off + k)) = write_u16 v ! k" if "k < 2" for k
    using assms(2) that by (simp add: page_holds_def del: of_nat_add)
  then have "load8 tables c (base + word_of_nat off + word_of_nat k) = Some (write_u16 v ! k)" if "k < 2" for k
    using load8_page [OF assms(1), of "off + k"] assms(3) that by (simp add: add.assoc)
  from this [of 0] this [of 1] show ?thesis using le16_write [of v] by (simp add: load16_def)
qed

lemma load32_page:
  assumes "page_visible tables base c" "page_holds base (cp_mem c) off (write_u32 v)" "off < 4000"
  shows "load32 tables c (base + word_of_nat off) = Some v"
proof -
  have "cp_mem c (base + word_of_nat (off + k)) = write_u32 v ! k" if "k < 4" for k
    using assms(2) that by (simp add: page_holds_def del: of_nat_add)
  then have "load8 tables c (base + word_of_nat off + word_of_nat k) = Some (write_u32 v ! k)" if "k < 4" for k
    using load8_page [OF assms(1), of "off + k"] assms(3) that by (simp add: add.assoc)
  from this [of 0] this [of 1] this [of 2] this [of 3] show ?thesis using le32_write [of v] by (simp add: load32_def)
qed

lemma load64_page:
  assumes "page_visible tables base c" "page_holds base (cp_mem c) off (write_u64 v)" "off < 3000"
  shows "load64 tables c (base + word_of_nat off) = Some v"
proof -
  have "page_holds base (cp_mem c) off (write_u32 (ucast (v AND 0xffffffff)))"
    "page_holds base (cp_mem c) (off + 4) (write_u32 (ucast (drop_bit 32 v)))"
    using assms(2) by (simp_all add: write_u64_def page_holds_append)
  then have "load32 tables c (base + word_of_nat off) = Some (ucast (v AND 0xffffffff))"
    "load32 tables c (base + word_of_nat (off + 4)) = Some (ucast (drop_bit 32 v))"
    using load32_page [OF assms(1)] assms(3) by (simp_all del: of_nat_add)
  then show ?thesis using le64_write [of v] by (simp add: load64_def add.assoc)
qed

end
