(* ===== verification/Ap_Bringup.thy ===== *)
theory Ap_Bringup
  imports Ap_Entry Acpi_Madt Trampoline_Exec
begin

text \<open>
  Starting an AP from the BSP (\<^verbatim>\<open>kernel/kernel.c\<close>, \<^verbatim>\<open>bring_up_one_ap\<close>): resetting the boot
  record, the checks before anything is sent, the INIT and start-up interrupts and the wait for the AP
  to report itself. The AP runs from the first start-up interrupt on; what it does to the global state
  is an arbitrary function \<open>env\<close> of the point the BSP has reached: 0 to 3 are the INIT interrupts
  with their delays, 4 is the first start-up interrupt, 5 the delay after it, 6 the second start-up
  interrupt and \<open>7 + i\<close> the \<open>i\<close>-th poll.
\<close>

definition AP_ONLINE_TIMEOUT_LOOPS :: nat where [c_const]: "AP_ONLINE_TIMEOUT_LOOPS = 100000000"

definition reset_boot_record :: "ap_boot_info_t \<Rightarrow> ap_boot_info_t" where
  "reset_boot_record b = b\<lparr>bi_online := 0, bi_ap_state := AP_BOOT_STATE_NONE,
     bi_entry_state := AP_ENTRY_STATE_NONE, bi_gdt_ok := 0, bi_tss_ok := 0, bi_idt_ok := 0,
     bi_ap_cs := 0, bi_ap_tr := 0, bi_ap_ist1 := 0, bi_ap_ist2 := 0,
     bi_fault_vector := 0, bi_fault_error_code := 0, bi_fault_rip := 0, bi_fault_cs := 0,
     bi_fault_rflags := 0, bi_fault_cr2 := 0, bi_fault_phase := AP_FAULT_PHASE_NONE,
     bi_fault_request_state := AP_REQUEST_STATUS_EMPTY, bi_fault_request_opcode := AP_REQUEST_OP_NONE,
     bi_fault_request_sequence := 0, bi_fault_request_service_id := 0,
     bi_fault_request_interface_id := 0, bi_fault_request_id_high := 0, bi_fault_request_id_low := 0,
     bi_target_acpi_uid := 0, bi_target_apic_id := 0, bi_wait_loops := 0, bi_icr_timeouts := 0\<rparr>"

text \<open>
  The checks, in the order of the code, on the boot record. \<open>apic_base\<close> is the value of the
  machine-specific register \<^verbatim>\<open>0x1b\<close>, \<open>ad\<close> the addresses of the context.
\<close>

definition prepare_ap_start ::
    "ap_addresses \<Rightarrow> u64 \<Rightarrow> acpi_info_t \<Rightarrow> efi_memory_map_t \<Rightarrow> paging_info_t \<Rightarrow> nat \<Rightarrow>
     ap_boot_info_t \<times> ram \<Rightarrow> bool \<times> ap_boot_info_t \<times> ram" where
  "prepare_ap_start ad apic_base acpi mmap paging target_index = (\<lambda>(boot, mem).
     (let boot = reset_boot_record boot in
      if bi_error boot \<noteq> AP_BOOT_OK then (False, boot, mem)
      else (case select_ap_target acpi target_index boot of
        (False, boot) \<Rightarrow> (False, boot\<lparr>bi_error := AP_BOOT_ERR_NO_TARGET\<rparr>, mem)
      | (True, boot) \<Rightarrow>
          if apic_base AND push_bit 10 1 \<noteq> 0 then (False, boot\<lparr>bi_error := AP_BOOT_ERR_X2APIC\<rparr>, mem)
          else if \<not> memory_map_contains_range mmap (ai_local_apic_base acpi) PAGE_SIZE_4K
          then (False, boot\<lparr>bi_error := AP_BOOT_ERR_LAPIC_RANGE\<rparr>, mem)
          else build_ap_trampoline ad paging boot mem)))"

text \<open>Sending one interrupt to the AP of context \<open>c\<close>; a failure ends the bring-up.\<close>

definition send_start_ipi :: "nat \<Rightarrow> u32 \<Rightarrow> kernel_state \<Rightarrow> bool \<times> kernel_state" where
  "send_start_ipi c command k =
     (case lapic_send_ipi (ks_bsp_lapic k) (bi_target_apic_id (boot_of k c)) command (boot_of k c) of
        (ok, l, boot) \<Rightarrow>
          (let k = upd_boot c (\<lambda>_. boot) (k\<lparr>ks_bsp_lapic := l\<rparr>)
           in if ok then (True, k) else (False, upd_boot c (\<lambda>b. b\<lparr>bi_error := AP_BOOT_ERR_ICR_TIMEOUT\<rparr>) k)))"

definition send_init_ipis :: "(nat \<Rightarrow> kernel_state \<Rightarrow> kernel_state) \<Rightarrow> nat \<Rightarrow> kernel_state \<Rightarrow> bool \<times> kernel_state" where
  "send_init_ipis env c k =
     (case send_start_ipi c 0x4500 k of
        (False, k) \<Rightarrow> (False, k)
      | (True, k) \<Rightarrow>
          (let k = env 1 (upd_boot c (\<lambda>b. b\<lparr>bi_ap_state := AP_BOOT_STATE_SENT_INIT\<rparr>) (env 0 k)) in
           case send_start_ipi c 0x8500 k of
             (False, k) \<Rightarrow> (False, k)
           | (True, k) \<Rightarrow> (True, env 3 (env 2 k))))"

definition send_sipis :: "(nat \<Rightarrow> kernel_state \<Rightarrow> kernel_state) \<Rightarrow> nat \<Rightarrow> kernel_state \<Rightarrow> bool \<times> kernel_state" where
  "send_sipis env c k =
     (let sipi = 0x600 OR (bi_sipi_vector (boot_of k c) AND 0xff) in
      case send_start_ipi c sipi k of
        (False, k) \<Rightarrow> (False, k)
      | (True, k) \<Rightarrow>
          (let k = env 5 (upd_boot c (\<lambda>b. b\<lparr>bi_ap_state := AP_BOOT_STATE_SENT_SIPI\<rparr>) (env 4 k)) in
           if bi_online (boot_of k c) = 0
           then (case send_start_ipi c sipi k of (False, k) \<Rightarrow> (False, k) | (True, k) \<Rightarrow> (True, env 6 k))
           else (True, k)))"

text \<open>The wait, with the number of polls made and the number left.\<close>

fun wait_online ::
    "(nat \<Rightarrow> kernel_state \<Rightarrow> kernel_state) \<Rightarrow> nat \<Rightarrow> nat \<Rightarrow> nat \<Rightarrow> kernel_state \<Rightarrow> kernel_state" where
  "wait_online env c i 0 k = upd_boot c (\<lambda>b. b\<lparr>bi_wait_loops := word_of_nat AP_ONLINE_TIMEOUT_LOOPS,
     bi_error := AP_BOOT_ERR_ONLINE_TIMEOUT\<rparr>) k"
| "wait_online env c i (Suc n) k =
     (if bi_online (boot_of k c) \<noteq> 0
      then
        (let k = (if bi_ap_state (boot_of k c) \<noteq> AP_BOOT_STATE_HALTED \<and>
               bi_ap_state (boot_of k c) \<noteq> AP_BOOT_STATE_FAULTED
             then upd_boot c (\<lambda>b. b\<lparr>bi_ap_state := AP_BOOT_STATE_ONLINE\<rparr>) k else k)
         in upd_boot c (\<lambda>b. b\<lparr>bi_error := AP_BOOT_OK, bi_wait_loops := word_of_nat i\<rparr>) k)
      else wait_online env c (Suc i) n (env (7 + i) k))"

definition bring_up_one_ap ::
    "ap_addresses \<Rightarrow> u64 \<Rightarrow> (nat \<Rightarrow> kernel_state \<Rightarrow> kernel_state) \<Rightarrow> acpi_info_t \<Rightarrow> efi_memory_map_t \<Rightarrow>
     paging_info_t \<Rightarrow> nat \<Rightarrow> nat \<Rightarrow> kernel_state \<times> ram \<Rightarrow> kernel_state \<times> ram" where
  "bring_up_one_ap ad apic_base env acpi mmap paging c target_index = (\<lambda>(k, mem).
     (case prepare_ap_start ad apic_base acpi mmap paging target_index (boot_of k c, mem) of
        (False, boot, mem) \<Rightarrow> (upd_boot c (\<lambda>_. boot) k, mem)
      | (True, boot, mem) \<Rightarrow>
          (let k = upd_boot c (\<lambda>_. boot) k;
               k = k\<lparr>ks_bsp_lapic := enable_lapic_if_needed (ks_bsp_lapic k)\<rparr>
           in case send_init_ipis env c k of
                (False, k) \<Rightarrow> (k, mem)
              | (True, k) \<Rightarrow>
                  (case send_sipis env c k of
                     (False, k) \<Rightarrow> (k, mem)
                   | (True, k) \<Rightarrow> (wait_online env c 0 AP_ONLINE_TIMEOUT_LOOPS k, mem)))))"

section \<open>Refusals\<close>

text \<open>The first reason not to start an AP, as a function of the inputs.\<close>

definition start_refusal ::
    "u64 \<Rightarrow> acpi_info_t \<Rightarrow> efi_memory_map_t \<Rightarrow> paging_info_t \<Rightarrow> nat \<Rightarrow> ap_boot_info_t \<Rightarrow> u32 option" where
  "start_refusal apic_base acpi mmap paging target_index b =
     (if bi_error b \<noteq> AP_BOOT_OK then Some (bi_error b)
      else if count_supported_ap_targets acpi \<le> target_index then Some AP_BOOT_ERR_NO_TARGET
      else if bit apic_base 10 then Some AP_BOOT_ERR_X2APIC
      else if \<not> memory_map_contains_range mmap (ai_local_apic_base acpi) PAGE_SIZE_4K then Some AP_BOOT_ERR_LAPIC_RANGE
      else if bi_trampoline_base b = 0 \<or> bi_trampoline_base b \<ge> 0x100000 \<or> bi_trampoline_base b AND 0xfff \<noteq> 0 \<or>
         bi_sipi_vector b = 0 \<or> bi_sipi_vector b > 0xff then Some AP_BOOT_ERR_BAD_TRAMPOLINE
      else if pi_loaded_cr3 paging > 0xffffffff then Some AP_BOOT_ERR_HIGH_CR3
      else None)"

lemma select_ap_target_effect:
  "select_ap_target acpi i boot =
     (if i < count_supported_ap_targets acpi
      then (True, boot\<lparr>bi_target_acpi_uid := ac_acpi_uid (supported_aps acpi ! i),
              bi_target_apic_id := ac_apic_id (supported_aps acpi ! i)\<rparr>)
      else (False, boot))"
proof -
  have "count_supported_ap_targets acpi = (if ai_error acpi = ACPI_OK then length (supported_aps acpi) else 0)"
    by (simp add: count_supported_ap_targets_def fold_count supported_aps_def)
  then show ?thesis
    using select_ap_target_from_nth [of acpi _ 0 i boot]
    by (simp add: select_ap_target_def supported_aps_def Let_def)
qed

lemma x2apic_bit: "(w AND 1024 = 0) = (\<not> bit (w :: u64) 10)"
  using and_exp_eq_0_iff_not_bit [of w 10] by simp

lemma prepare_ap_start_refuses:
  assumes "start_refusal apic_base acpi mmap paging target_index boot = Some e"
  shows "\<exists>boot'. prepare_ap_start ad apic_base acpi mmap paging target_index (boot, mem) = (False, boot', mem) \<and>
    bi_error boot' = e \<and> bi_online boot' = 0 \<and> bi_ap_state boot' = AP_BOOT_STATE_NONE"
proof -
  have reset: "bi_error (reset_boot_record boot) = bi_error boot" "bi_online (reset_boot_record boot) = 0"
    "bi_ap_state (reset_boot_record boot) = AP_BOOT_STATE_NONE"
    "bi_trampoline_base (reset_boot_record boot) = bi_trampoline_base boot"
    "bi_sipi_vector (reset_boot_record boot) = bi_sipi_vector boot"
    by (simp_all add: reset_boot_record_def)
  show ?thesis
    using assms
    by (auto simp: start_refusal_def prepare_ap_start_def Let_def reset select_ap_target_effect x2apic_bit
        build_ap_trampoline_def PAGE_SIZE_4K_def split: if_splits)
qed

lemma prepare_ap_start_accepts:
  assumes "start_refusal apic_base acpi mmap paging target_index boot = None"
  shows "\<exists>mem'. prepare_ap_start ad apic_base acpi mmap paging target_index (boot, mem) =
      (True, (reset_boot_record boot)\<lparr>bi_target_acpi_uid := ac_acpi_uid (supported_aps acpi ! target_index),
        bi_target_apic_id := ac_apic_id (supported_aps acpi ! target_index),
        bi_stack_top := ad_boot_stack ad + AP_BOOT_STACK_SIZE, bi_ap_state := AP_BOOT_STATE_READY\<rparr>, mem') \<and>
    trampoline_page (bi_trampoline_base boot) (pi_loaded_cr3 paging)
      (ad_boot_stack ad + AP_BOOT_STACK_SIZE) (ad_ctx ad) (ad_ap_entry_one ad) mem'"
proof -
  let ?b = "(reset_boot_record boot)\<lparr>bi_target_acpi_uid := ac_acpi_uid (supported_aps acpi ! target_index),
        bi_target_apic_id := ac_apic_id (supported_aps acpi ! target_index)\<rparr>"
  have reset: "bi_error (reset_boot_record boot) = bi_error boot"
    "bi_trampoline_base ?b = bi_trampoline_base boot" "bi_sipi_vector ?b = bi_sipi_vector boot"
    by (simp_all add: reset_boot_record_def)
  have run: "prepare_ap_start ad apic_base acpi mmap paging target_index (boot, mem) = build_ap_trampoline ad paging ?b mem"
    using assms reset(1)
    by (simp add: start_refusal_def prepare_ap_start_def Let_def select_ap_target_effect x2apic_bit split: if_splits)
  have "fst (build_ap_trampoline ad paging ?b mem)"
    using assms reset(2,3)
    by (auto simp: start_refusal_def build_ap_trampoline_def Let_def PAGE_SIZE_4K_def split: if_splits)
  then obtain boot' mem' where b: "build_ap_trampoline ad paging ?b mem = (True, boot', mem')"
    by (metis prod.collapse)
  from build_ap_trampoline_page(1,2) [OF b] run b reset(2) show ?thesis by auto
qed

section \<open>The interrupt sequence\<close>

text \<open>A command register whose delivery bit is never found set.\<close>

definition icr_idle :: "lapic \<Rightarrow> bool" where
  "icr_idle l \<longleftrightarrow> (\<forall>n. \<not> bit (la_icr l n) 12)"

definition ipi_writes :: "u32 \<Rightarrow> u32 list \<Rightarrow> (u32 \<times> u32) list" where
  "ipi_writes apic_id commands = concat (map (\<lambda>command. [(0x310, push_bit 24 apic_id), (0x300, command)]) commands)"

lemma icr_bit: "((w :: u32) AND 4096 = 0) = (\<not> bit w 12)"
  using and_exp_eq_0_iff_not_bit [of w 12] by simp

lemma lapic_wait_icr_idle_idle:
  assumes "icr_idle l"
  shows "\<exists>r. lapic_wait_icr_idle l boot = (True, l\<lparr>la_icr_reads := r\<rparr>, boot)"
proof -
  have "icr_becomes_idle l"
    unfolding icr_becomes_idle_def
    by (rule exI [of _ 0]) (use assms in \<open>simp add: icr_idle_def icr_idle_at_def icr_bit c_const\<close>)
  then show ?thesis using lapic_wait_icr_idle_cases [of l boot] by auto
qed

lemma lapic_send_ipi_idle:
  assumes "icr_idle l"
  shows "\<exists>l'. lapic_send_ipi l apic_id command boot = (True, l', boot) \<and> icr_idle l' \<and>
    la_writes l' = la_writes l @ ipi_writes apic_id [command]"
proof -
  obtain r where r: "lapic_wait_icr_idle l boot = (True, l\<lparr>la_icr_reads := r\<rparr>, boot)"
    using lapic_wait_icr_idle_idle [OF assms] by blast
  let ?l = "lapic_write32 (lapic_write32 (l\<lparr>la_icr_reads := r\<rparr>) 0x310 (push_bit 24 apic_id)) 0x300 command"
  have idle: "icr_idle ?l" using assms by (simp add: icr_idle_def lapic_write32_def)
  then obtain r' where "lapic_wait_icr_idle ?l boot = (True, ?l\<lparr>la_icr_reads := r'\<rparr>, boot)"
    using lapic_wait_icr_idle_idle by blast
  with r idle show ?thesis by (simp add: lapic_send_ipi_def icr_idle_def ipi_writes_def) (simp add: lapic_write32_def)
qed

lemma upd_boot_same: "upd_boot c (\<lambda>_. boot_of k c) (k\<lparr>ks_bsp_lapic := l\<rparr>) = k\<lparr>ks_bsp_lapic := l\<rparr>"
  by (simp add: upd_boot_def upd_ctx_def boot_of_def)

text \<open>The log of the BSP's APIC after some commands, and a step that only extends it.\<close>

definition sent :: "nat \<Rightarrow> u32 \<Rightarrow> u32 \<Rightarrow> (u32 \<times> u32) list \<Rightarrow> kernel_state \<Rightarrow> bool" where
  "sent c apic_id v ws k \<longleftrightarrow> ks_wf k \<and> icr_idle (ks_bsp_lapic k) \<and> la_writes (ks_bsp_lapic k) = ws \<and>
     bi_target_apic_id (boot_of k c) = apic_id \<and> bi_sipi_vector (boot_of k c) = v"

lemma send_start_ipi_sent:
  assumes "sent c apic_id v ws k"
  shows "\<exists>l. send_start_ipi c command k = (True, k\<lparr>ks_bsp_lapic := l\<rparr>) \<and>
    sent c apic_id v (ws @ ipi_writes apic_id [command]) (k\<lparr>ks_bsp_lapic := l\<rparr>)"
proof -
  have pre: "icr_idle (ks_bsp_lapic k)" "ks_wf k" "la_writes (ks_bsp_lapic k) = ws"
    "bi_target_apic_id (boot_of k c) = apic_id" "bi_sipi_vector (boot_of k c) = v"
    using assms by (simp_all add: sent_def)
  obtain l where l: "lapic_send_ipi (ks_bsp_lapic k) apic_id command (boot_of k c) = (True, l, boot_of k c)"
    "icr_idle l" "la_writes l = ws @ ipi_writes apic_id [command]"
    using lapic_send_ipi_idle [OF pre(1)] pre(3) by metis
  then show ?thesis
    using pre(2,4,5)
    by (intro exI [of _ l])
      (simp add: send_start_ipi_def sent_def upd_boot_same Let_def, simp add: ks_wf_def boot_of_def)
qed

text \<open>
  What the AP leaves alone while it is being started: the BSP's APIC, and the fields of its boot
  record that only the BSP writes.
\<close>

definition starting_rely :: "nat \<Rightarrow> (nat \<Rightarrow> kernel_state \<Rightarrow> kernel_state) \<Rightarrow> bool" where
  "starting_rely c env \<longleftrightarrow> (\<forall>i k. ks_wf k \<longrightarrow> ks_wf (env i k) \<and> ks_bsp_lapic (env i k) = ks_bsp_lapic k \<and>
     bi_target_apic_id (boot_of (env i k) c) = bi_target_apic_id (boot_of k c) \<and>
     bi_sipi_vector (boot_of (env i k) c) = bi_sipi_vector (boot_of k c))"

lemma sent_env: "starting_rely c env \<Longrightarrow> sent c apic_id v ws k \<Longrightarrow> sent c apic_id v ws (env i k)"
  by (simp add: starting_rely_def sent_def)

lemma sent_upd_boot:
  assumes "sent c apic_id v ws k" "c < 8" "\<And>b. bi_target_apic_id (f b) = bi_target_apic_id b"
    "\<And>b. bi_sipi_vector (f b) = bi_sipi_vector b"
  shows "sent c apic_id v ws (upd_boot c f k)"
  using assms by (auto simp: sent_def ks_view) (simp_all add: upd_boot_def ks_view)

lemma send_init_ipis_sent:
  assumes "starting_rely c env" "c < 8" "sent c apic_id v ws k"
  shows "\<exists>k'. send_init_ipis env c k = (True, k') \<and> sent c apic_id v (ws @ ipi_writes apic_id [0x4500, 0x8500]) k' \<and>
    (\<exists>l l'. k' = env 3 (env 2 ((env 1 (upd_boot c (\<lambda>b. b\<lparr>bi_ap_state := AP_BOOT_STATE_SENT_INIT\<rparr>)
       (env 0 (k\<lparr>ks_bsp_lapic := l\<rparr>))))\<lparr>ks_bsp_lapic := l'\<rparr>)))"
proof -
  obtain l where l: "send_start_ipi c 0x4500 k = (True, k\<lparr>ks_bsp_lapic := l\<rparr>)"
    "sent c apic_id v (ws @ ipi_writes apic_id [0x4500]) (k\<lparr>ks_bsp_lapic := l\<rparr>)"
    using send_start_ipi_sent [OF assms(3)] by blast
  let ?k = "env 1 (upd_boot c (\<lambda>b. b\<lparr>bi_ap_state := AP_BOOT_STATE_SENT_INIT\<rparr>) (env 0 (k\<lparr>ks_bsp_lapic := l\<rparr>)))"
  have "sent c apic_id v (ws @ ipi_writes apic_id [0x4500]) ?k"
    by (intro sent_env [OF assms(1)] sent_upd_boot assms(2) l(2)) simp_all
  then obtain l' where l': "send_start_ipi c 0x8500 ?k = (True, ?k\<lparr>ks_bsp_lapic := l'\<rparr>)"
    "sent c apic_id v ((ws @ ipi_writes apic_id [0x4500]) @ ipi_writes apic_id [0x8500]) (?k\<lparr>ks_bsp_lapic := l'\<rparr>)"
    using send_start_ipi_sent by blast
  have "sent c apic_id v ((ws @ ipi_writes apic_id [0x4500]) @ ipi_writes apic_id [0x8500])
      (env 3 (env 2 (?k\<lparr>ks_bsp_lapic := l'\<rparr>)))"
    by (intro sent_env [OF assms(1)] l'(2))
  with l l' show ?thesis by (auto simp: send_init_ipis_def Let_def ipi_writes_def)
qed

lemma send_sipis_sent:
  assumes "starting_rely c env" "c < 8" "sent c apic_id v ws k"
  defines "s \<equiv> 0x600 OR (v AND 0xff)"
  shows "\<exists>k' sipis. send_sipis env c k = (True, k') \<and> sipis \<in> {[s], [s, s]} \<and>
    sent c apic_id v (ws @ ipi_writes apic_id sipis) k' \<and>
    (\<exists>l l'. let k5 = env 5 (upd_boot c (\<lambda>b. b\<lparr>bi_ap_state := AP_BOOT_STATE_SENT_SIPI\<rparr>) (env 4 (k\<lparr>ks_bsp_lapic := l\<rparr>)))
       in k' = (if bi_online (boot_of k5 c) = 0 then env 6 (k5\<lparr>ks_bsp_lapic := l'\<rparr>) else k5))"
proof -
  have v: "bi_sipi_vector (boot_of k c) = v" using assms(3) by (simp add: sent_def)
  obtain l where l: "send_start_ipi c s k = (True, k\<lparr>ks_bsp_lapic := l\<rparr>)"
    "sent c apic_id v (ws @ ipi_writes apic_id [s]) (k\<lparr>ks_bsp_lapic := l\<rparr>)"
    using send_start_ipi_sent [OF assms(3)] by blast
  let ?k = "env 5 (upd_boot c (\<lambda>b. b\<lparr>bi_ap_state := AP_BOOT_STATE_SENT_SIPI\<rparr>) (env 4 (k\<lparr>ks_bsp_lapic := l\<rparr>)))"
  have k5: "sent c apic_id v (ws @ ipi_writes apic_id [s]) ?k"
    by (intro sent_env [OF assms(1)] sent_upd_boot assms(2) l(2)) simp_all
  show ?thesis
  proof (cases "bi_online (boot_of ?k c) = 0")
    case True
    obtain l' where l': "send_start_ipi c s ?k = (True, ?k\<lparr>ks_bsp_lapic := l'\<rparr>)"
      "sent c apic_id v ((ws @ ipi_writes apic_id [s]) @ ipi_writes apic_id [s]) (?k\<lparr>ks_bsp_lapic := l'\<rparr>)"
      using send_start_ipi_sent [OF k5] by blast
    then have "sent c apic_id v (ws @ ipi_writes apic_id [s, s]) (env 6 (?k\<lparr>ks_bsp_lapic := l'\<rparr>))"
      using sent_env [OF assms(1) l'(2)] by (simp add: ipi_writes_def)
    with True l l' v show ?thesis
      by (intro exI [of _ "env 6 (?k\<lparr>ks_bsp_lapic := l'\<rparr>)"] exI [of _ "[s, s]"])
        (simp add: send_sipis_def Let_def s_def, rule exI [of _ l], auto)
  next
    case False
    with l k5 v show ?thesis
      by (intro exI [of _ ?k] exI [of _ "[s]"])
        (auto simp: send_sipis_def Let_def s_def intro!: exI [of _ l])
  qed
qed

text \<open>How a wait may end: the AP is online or has stopped by itself, or the time is over.\<close>

definition start_outcome :: "ap_boot_info_t \<Rightarrow> bool" where
  "start_outcome b \<longleftrightarrow>
     bi_error b = AP_BOOT_OK \<and> bi_online b \<noteq> 0 \<and>
       bi_ap_state b \<in> {AP_BOOT_STATE_ONLINE, AP_BOOT_STATE_HALTED, AP_BOOT_STATE_FAULTED} \<or>
     bi_error b = AP_BOOT_ERR_ONLINE_TIMEOUT \<and> bi_wait_loops b = word_of_nat AP_ONLINE_TIMEOUT_LOOPS"

lemma wait_online_outcome:
  assumes "starting_rely c env" "c < 8" "sent c apic_id v ws k"
  shows "sent c apic_id v ws (wait_online env c i n k) \<and> start_outcome (boot_of (wait_online env c i n k) c)"
  using assms(3)
proof (induction n arbitrary: i k)
  case 0
  then show ?case
    using assms(2) sent_upd_boot [OF 0 assms(2)] by (simp add: start_outcome_def ks_view sent_def)
next
  case (Suc n)
  have wf: "ks_wf k" using Suc.prems by (simp add: sent_def)
  show ?case
  proof (cases "bi_online (boot_of k c) \<noteq> 0")
    case True
    then show ?thesis
      using assms(2) Suc.prems wf
      by (auto simp: Let_def start_outcome_def ks_view ks_wf_upd intro!: sent_upd_boot)
  next
    case False
    then show ?thesis using Suc.IH [OF sent_env [OF assms(1) Suc.prems]] by simp
  qed
qed

text \<open>The state in which an accepted AP is about to get its first interrupt.\<close>

definition ready_state :: "ap_addresses \<Rightarrow> acpi_info_t \<Rightarrow> nat \<Rightarrow> nat \<Rightarrow> kernel_state \<Rightarrow> kernel_state" where
  "ready_state ad acpi c target_index k = (upd_boot c (\<lambda>_. (reset_boot_record (boot_of k c))\<lparr>
       bi_target_acpi_uid := ac_acpi_uid (supported_aps acpi ! target_index),
       bi_target_apic_id := ac_apic_id (supported_aps acpi ! target_index),
       bi_stack_top := ad_boot_stack ad + AP_BOOT_STACK_SIZE, bi_ap_state := AP_BOOT_STATE_READY\<rparr>) k)
     \<lparr>ks_bsp_lapic := enable_lapic_if_needed (ks_bsp_lapic k)\<rparr>"

lemma bring_up_accepted:
  fixes ad :: ap_addresses
  assumes "c < 8" "ks_wf k" "icr_idle (ks_bsp_lapic k)"
    and "start_refusal apic_base acpi mmap paging target_index (boot_of k c) = None"
  defines "k0 \<equiv> ready_state ad acpi c target_index k"
  shows "\<exists>mem'. bring_up_one_ap ad apic_base env acpi mmap paging c target_index (k, mem) =
      (case send_init_ipis env c k0 of
         (False, k) \<Rightarrow> (k, mem')
       | (True, k) \<Rightarrow> (case send_sipis env c k of
           (False, k) \<Rightarrow> (k, mem')
         | (True, k) \<Rightarrow> (wait_online env c 0 AP_ONLINE_TIMEOUT_LOOPS k, mem'))) \<and>
      trampoline_page (bi_trampoline_base (boot_of k c)) (pi_loaded_cr3 paging)
        (ad_boot_stack ad + AP_BOOT_STACK_SIZE) (ad_ctx ad) (ad_ap_entry_one ad) mem'"
    and "sent c (ac_apic_id (supported_aps acpi ! target_index)) (bi_sipi_vector (boot_of k c))
      (la_writes (enable_lapic_if_needed (ks_bsp_lapic k))) k0"
    and "bi_online (boot_of k0 c) = 0"
proof -
  let ?b = "(reset_boot_record (boot_of k c))\<lparr>bi_target_acpi_uid := ac_acpi_uid (supported_aps acpi ! target_index),
        bi_target_apic_id := ac_apic_id (supported_aps acpi ! target_index),
        bi_stack_top := ad_boot_stack ad + AP_BOOT_STACK_SIZE, bi_ap_state := AP_BOOT_STATE_READY\<rparr>"
  have lap: "ks_bsp_lapic (upd_boot c (\<lambda>_. ?b) k) = ks_bsp_lapic k" by (simp add: upd_boot_def ks_view)
  show "\<exists>mem'. bring_up_one_ap ad apic_base env acpi mmap paging c target_index (k, mem) =
      (case send_init_ipis env c k0 of
         (False, k) \<Rightarrow> (k, mem')
       | (True, k) \<Rightarrow> (case send_sipis env c k of
           (False, k) \<Rightarrow> (k, mem')
         | (True, k) \<Rightarrow> (wait_online env c 0 AP_ONLINE_TIMEOUT_LOOPS k, mem'))) \<and>
      trampoline_page (bi_trampoline_base (boot_of k c)) (pi_loaded_cr3 paging)
        (ad_boot_stack ad + AP_BOOT_STACK_SIZE) (ad_ctx ad) (ad_ap_entry_one ad) mem'"
    using prepare_ap_start_accepts [OF assms(4), of ad mem]
    by (auto simp: bring_up_one_ap_def Let_def lap k0_def ready_state_def simp del: wait_online.simps)
  have idle: "icr_idle (enable_lapic_if_needed (ks_bsp_lapic k))"
    using assms(3) by (simp add: icr_idle_def enable_lapic_if_needed_def lapic_read32_def lapic_write32_def Let_def)
  have boot: "boot_of k0 c = ?b"
    using boot_view(1) [OF assms(2,1), of "\<lambda>_. ?b" c] by (simp add: boot_of_def k0_def ready_state_def)
  have "ks_wf k0" using ks_wf_upd(1) [OF assms(2,1)] by (simp add: ks_wf_def k0_def ready_state_def)
  then show "sent c (ac_apic_id (supported_aps acpi ! target_index)) (bi_sipi_vector (boot_of k c))
      (la_writes (enable_lapic_if_needed (ks_bsp_lapic k))) k0"
    unfolding sent_def boot using idle lap by (simp add: reset_boot_record_def k0_def ready_state_def)
  show "bi_online (boot_of k0 c) = 0" by (simp add: boot reset_boot_record_def)
qed

lemma bring_up_sequence:
  assumes "starting_rely c env" "c < 8" "ks_wf k" "icr_idle (ks_bsp_lapic k)"
    and "start_refusal apic_base acpi mmap paging target_index (boot_of k c) = None"
    and "bring_up_one_ap ad apic_base env acpi mmap paging c target_index (k, mem) = (k', mem')"
  defines "v \<equiv> bi_sipi_vector (boot_of k c)" and "apic_id \<equiv> ac_apic_id (supported_aps acpi ! target_index)"
  defines "s \<equiv> 0x600 OR (v AND 0xff)"
  shows "\<exists>sipis. sipis \<in> {[s], [s, s]} \<and>
      sent c apic_id v (la_writes (enable_lapic_if_needed (ks_bsp_lapic k)) @
        ipi_writes apic_id ([0x4500, 0x8500] @ sipis)) k' \<and> start_outcome (boot_of k' c) \<and>
      trampoline_page (bi_trampoline_base (boot_of k c)) (pi_loaded_cr3 paging)
        (ad_boot_stack ad + AP_BOOT_STACK_SIZE) (ad_ctx ad) (ad_ap_entry_one ad) mem'"
proof -
  let ?ws = "la_writes (enable_lapic_if_needed (ks_bsp_lapic k))"
  note start = bring_up_accepted [OF assms(2-5), folded v_def apic_id_def]
  obtain k1 where k1: "send_init_ipis env c (ready_state ad acpi c target_index k) = (True, k1)"
    "sent c apic_id v (?ws @ ipi_writes apic_id [0x4500, 0x8500]) k1"
    using send_init_ipis_sent [OF assms(1,2) start(2)] by blast
  then obtain k2 sipis where k2: "send_sipis env c k1 = (True, k2)" "sipis \<in> {[s], [s, s]}"
    "sent c apic_id v ((?ws @ ipi_writes apic_id [0x4500, 0x8500]) @ ipi_writes apic_id sipis) k2"
    using send_sipis_sent [OF assms(1,2) k1(2)] unfolding s_def by blast
  have k': "k' = wait_online env c 0 AP_ONLINE_TIMEOUT_LOOPS k2"
    "trampoline_page (bi_trampoline_base (boot_of k c)) (pi_loaded_cr3 paging)
      (ad_boot_stack ad + AP_BOOT_STACK_SIZE) (ad_ctx ad) (ad_ap_entry_one ad) mem'"
    using start(1) [of ad env mem] assms(6) by (auto simp: k1 k2)
  have w: "(ws @ ipi_writes i as) @ ipi_writes i bs = ws @ ipi_writes i (as @ bs)" for ws i as bs
    by (simp add: ipi_writes_def)
  have "sent c apic_id v (?ws @ ipi_writes apic_id ([0x4500, 0x8500] @ sipis)) k'" "start_outcome (boot_of k' c)"
    using wait_online_outcome [OF assms(1,2) k2(3)] unfolding k' w by blast+
  then show ?thesis using k2(2) k'(2) by blast
qed

text \<open>
  C13. Bringing up an AP that passes the checks assembles the trampoline and sends exactly the
  prescribed interrupts to the selected processor, in this order: INIT asserted, INIT deasserted and
  the start-up interrupt with the vector of the trampoline page, the last one a second time unless the
  AP has already reported itself. The wait then ends with an AP that is online or has stopped by itself
  and no error, or with the timeout error after the full number of polls. The AP may do anything in
  between except to use the APIC of the BSP or to change its target and vector. The command register of
  the BSP is taken to be idle at every look (\<^const>\<open>icr_idle\<close>), which leaves out the branches that end
  with \<^const>\<open>AP_BOOT_ERR_ICR_TIMEOUT\<close>.
\<close>

theorem bring_up_one_ap_sequence:
  assumes "starting_rely c env" "c < MAX_AP_CONTEXTS" "ks_wf k" "icr_idle (ks_bsp_lapic k)"
    and "start_refusal apic_base acpi mmap paging target_index (boot_of k c) = None"
    and "bring_up_one_ap ad apic_base env acpi mmap paging c target_index (k, mem) = (k', mem')"
  shows "\<exists>sipis. let s = 0x600 OR (bi_sipi_vector (boot_of k c) AND 0xff);
        apic_id = ac_apic_id (supported_aps acpi ! target_index) in
      sipis \<in> {[s], [s, s]} \<and>
      la_writes (ks_bsp_lapic k') = la_writes (enable_lapic_if_needed (ks_bsp_lapic k)) @
        ipi_writes apic_id ([0x4500, 0x8500] @ sipis) \<and>
      start_outcome (boot_of k' c) \<and>
      trampoline_page (bi_trampoline_base (boot_of k c)) (pi_loaded_cr3 paging)
        (ad_boot_stack ad + AP_BOOT_STACK_SIZE) (ad_ctx ad) (ad_ap_entry_one ad) mem'"
proof -
  have "c < 8" using assms(2) by (simp add: c_const)
  from bring_up_sequence [OF assms(1) this assms(3-6)] show ?thesis unfolding Let_def sent_def by blast
qed

text \<open>
  C36. An AP that cannot be started is refused with the first reason in the order of the checks: an
  error of the trampoline allocation, no target at this index, an APIC in x2APIC mode, a local APIC
  outside the memory map, an unusable trampoline page, page tables above 4 GiB. Then nothing has been
  sent, no memory and no other context has changed, and the AP does not count as online.
\<close>

theorem bring_up_one_ap_refuses:
  assumes "ks_wf k" "c < MAX_AP_CONTEXTS"
    and "start_refusal apic_base acpi mmap paging target_index (boot_of k c) = Some e"
    and "bring_up_one_ap ad apic_base env acpi mmap paging c target_index (k, mem) = (k', mem')"
  shows "bi_error (boot_of k' c) = e \<and> bi_online (boot_of k' c) = 0 \<and>
    bi_ap_state (boot_of k' c) = AP_BOOT_STATE_NONE \<and> mem' = mem \<and> ks_bsp_lapic k' = ks_bsp_lapic k \<and>
    (\<forall>d. d \<noteq> c \<longrightarrow> ks_contexts k' ! d = ks_contexts k ! d)"
proof -
  have c: "c < 8" using assms(2) by (simp add: c_const)
  obtain boot' where b: "prepare_ap_start ad apic_base acpi mmap paging target_index (boot_of k c, mem) = (False, boot', mem)"
    "bi_error boot' = e" "bi_online boot' = 0" "bi_ap_state boot' = AP_BOOT_STATE_NONE"
    using prepare_ap_start_refuses [OF assms(3)] by blast
  have k': "k' = upd_boot c (\<lambda>_. boot') k" "mem' = mem" using assms(4) by (simp_all add: bring_up_one_ap_def b(1))
  have len: "c < length (ks_contexts k)" using ks_wf_lengths(1) [OF assms(1)] c by simp
  show ?thesis
    using assms(1) c b(2-4) len by (auto simp: k' ks_view) (simp_all add: upd_boot_def ks_view)
qed

section \<open>An AP that starts\<close>

text \<open>The AP runs its entry point and enters the loop at point \<open>p\<close>, and does nothing else.\<close>

definition ap_starts ::
    "isr_addresses \<Rightarrow> (nat \<Rightarrow> u64) \<Rightarrow> (nat \<Rightarrow> u64) \<Rightarrow> cpu_registers \<Rightarrow> nat \<Rightarrow> nat \<Rightarrow> nat \<Rightarrow> kernel_state \<Rightarrow> kernel_state" where
  "ap_starts isr cpu_at idt_at regs c p i k =
     (if i = p then ap_loop_enter c (snd (ap_entry_tables isr cpu_at idt_at c regs k)) else k)"

definition started :: "nat \<Rightarrow> kernel_state \<Rightarrow> bool" where
  "started c k \<longleftrightarrow> (let b = boot_of k c in bi_online b = 1 \<and> bi_entry_state b = AP_ENTRY_STATE_LOOP \<and>
     bi_gdt_ok b = 1 \<and> bi_tss_ok b = 1 \<and> bi_idt_ok b = 1 \<and>
     bi_ap_state b \<notin> {AP_BOOT_STATE_HALTED, AP_BOOT_STATE_FAULTED})"

lemma ap_starts_view:
  assumes "context_layout cpu_at" "c < 8" "ks_wf k"
  shows "ks_wf (ap_starts isr cpu_at idt_at regs c p i k)"
    "ks_bsp_lapic (ap_starts isr cpu_at idt_at regs c p i k) = ks_bsp_lapic k"
    "started c (ap_starts isr cpu_at idt_at regs c p p k)"
    "bi_target_apic_id (boot_of (ap_starts isr cpu_at idt_at regs c p i k) c) = bi_target_apic_id (boot_of k c)"
    "bi_sipi_vector (boot_of (ap_starts isr cpu_at idt_at regs c p i k) c) = bi_sipi_vector (boot_of k c)"
proof -
  note stacks = context_layout_stacks(1,2) [OF assms(1,2)]
  let ?k = "snd (ap_entry_tables isr cpu_at idt_at c regs k)"
  have wf: "ks_wf ?k" "boot_of ?k c = checked_boot (cpu_at c) (boot_of k c)"
    using ap_entry_tables_view [where cpu_at = cpu_at, OF assms(3,2) stacks, of isr idt_at regs] by (metis snd_conv)+
  have lap: "ks_bsp_lapic ?k = ks_bsp_lapic k"
    using ap_entry_tables_run [where cpu_at = cpu_at, OF assms(3,2) stacks, of isr idt_at regs] by (auto simp: ks_view)
  have boot: "boot_of (ap_loop_enter c ?k) c = (checked_boot (cpu_at c) (boot_of k c))\<lparr>
      bi_ap_state := AP_BOOT_STATE_ONLINE, bi_entry_state := AP_ENTRY_STATE_LOOP, bi_online := 1\<rparr>"
    using wf assms(2) by (simp add: ap_loop_enter_def ks_view ks_wf_upd)
  show "ks_wf (ap_starts isr cpu_at idt_at regs c p i k)"
    using wf(1) assms(2,3) by (auto simp: ap_starts_def ap_loop_enter_def)
  show "ks_bsp_lapic (ap_starts isr cpu_at idt_at regs c p i k) = ks_bsp_lapic k"
    using lap by (simp add: ap_starts_def ap_loop_enter_def upd_boot_def ks_view)
  show "started c (ap_starts isr cpu_at idt_at regs c p p k)"
    by (simp add: started_def ap_starts_def boot Let_def checked_boot_def c_const)
  show "bi_target_apic_id (boot_of (ap_starts isr cpu_at idt_at regs c p i k) c) = bi_target_apic_id (boot_of k c)"
    "bi_sipi_vector (boot_of (ap_starts isr cpu_at idt_at regs c p i k) c) = bi_sipi_vector (boot_of k c)"
    by (simp_all add: ap_starts_def boot checked_boot_def)
qed

lemma ap_starts_rely:
  "context_layout cpu_at \<Longrightarrow> c < 8 \<Longrightarrow> starting_rely c (ap_starts isr cpu_at idt_at regs c p)"
  using ap_starts_view unfolding starting_rely_def by metis

lemma started_lapic [simp]: "started c (k\<lparr>ks_bsp_lapic := l\<rparr>) = started c k"
  by (simp add: started_def boot_of_def)

lemma boot_of_lapic [simp]: "boot_of (k\<lparr>ks_bsp_lapic := l\<rparr>) c = boot_of k c"
  by (simp add: boot_of_def)

lemma started_state:
  assumes "ks_wf k" "c < 8" "s \<notin> {AP_BOOT_STATE_HALTED, AP_BOOT_STATE_FAULTED}" "started c k"
  shows "started c (upd_boot c (\<lambda>b. b\<lparr>bi_ap_state := s\<rparr>) k)"
  using assms by (simp add: started_def ks_view Let_def)

text \<open>The boot record at the end of a successful start.\<close>

definition up :: "nat \<Rightarrow> kernel_state \<Rightarrow> bool" where
  "up c k \<longleftrightarrow> started c k \<and> bi_error (boot_of k c) = AP_BOOT_OK \<and> bi_ap_state (boot_of k c) = AP_BOOT_STATE_ONLINE"

lemma wait_online_accepts:
  assumes "ks_wf k" "c < 8" "bi_online (boot_of k c) \<noteq> 0" "0 < n"
  shows "boot_of (wait_online env c i n k) c = (boot_of k c)\<lparr>
     bi_ap_state := (if bi_ap_state (boot_of k c) \<in> {AP_BOOT_STATE_HALTED, AP_BOOT_STATE_FAULTED}
       then bi_ap_state (boot_of k c) else AP_BOOT_STATE_ONLINE),
     bi_error := AP_BOOT_OK, bi_wait_loops := word_of_nat i\<rparr>"
  using assms by (cases n) (auto simp: ks_view ks_wf_upd Let_def)

lemma wait_online_started:
  assumes "ks_wf k" "c < 8" "started c k" "0 < n"
  shows "up c (wait_online env c i n k)"
  using assms wait_online_accepts [OF assms(1,2) _ assms(4), of env i]
  by (auto simp: up_def started_def Let_def AP_BOOT_STATE_ONLINE_def
      AP_BOOT_STATE_HALTED_def AP_BOOT_STATE_FAULTED_def)

lemma wait_online_starts:
  assumes "context_layout cpu_at" "c < 8" "ks_wf k" "bi_online (boot_of k c) = 0" "7 + i \<le> p" "p + 1 < 7 + i + n"
  shows "up c (wait_online (ap_starts isr cpu_at idt_at regs c p) c i n k)"
  using assms(3-)
proof (induction n arbitrary: i k)
  case (Suc n)
  note view = ap_starts_view [OF assms(1,2) Suc.prems(1), of isr idt_at regs]
  show ?case
  proof (cases "p = 7 + i")
    case True
    then show ?thesis
      using Suc.prems wait_online_started [OF view(1) assms(2) view(3)] by simp
  next
    case False
    then have "ap_starts isr cpu_at idt_at regs c p (7 + i) k = k" by (simp add: ap_starts_def)
    then show ?thesis using Suc False by simp
  qed
qed simp

lemma send_sipis_starts:
  assumes "context_layout cpu_at" "c < 8" "sent c apic_id v ws k" "bi_online (boot_of k c) = 0" "4 \<le> p"
    and "env = ap_starts isr cpu_at idt_at regs c p"
  shows "\<exists>k'. send_sipis env c k = (True, k') \<and> ks_wf k' \<and>
    (if p < 7 then started c k' else bi_online (boot_of k' c) = 0)"
proof -
  note rely = ap_starts_rely [OF assms(1,2), of isr idt_at regs p, folded assms(6)]
  obtain k' ws' l l' where k': "send_sipis env c k = (True, k')" "sent c apic_id v ws' k'"
    "k' = (let k5 = env 5 (upd_boot c (\<lambda>b. b\<lparr>bi_ap_state := AP_BOOT_STATE_SENT_SIPI\<rparr>) (env 4 (k\<lparr>ks_bsp_lapic := l\<rparr>)))
       in if bi_online (boot_of k5 c) = 0 then env 6 (k5\<lparr>ks_bsp_lapic := l'\<rparr>) else k5)"
    using send_sipis_sent [OF rely assms(2,3)] unfolding Let_def by blast
  let ?k4 = "env 4 (k\<lparr>ks_bsp_lapic := l\<rparr>)"
  let ?k5 = "upd_boot c (\<lambda>b. b\<lparr>bi_ap_state := AP_BOOT_STATE_SENT_SIPI\<rparr>) ?k4"
  have wf: "ks_wf k'" "ks_wf k" using k'(2) assms(3) by (simp_all add: sent_def)
  have wfl: "ks_wf (k\<lparr>ks_bsp_lapic := l\<rparr>)" using wf(2) by (simp add: ks_wf_def)
  have wf4: "ks_wf ?k4" using rely wfl by (simp add: starting_rely_def)
  have wf5: "ks_wf ?k5" using ks_wf_upd(1) [OF wf4 assms(2)] .
  have wf6: "ks_wf (?k5\<lparr>ks_bsp_lapic := l'\<rparr>)" using wf5 by (simp add: ks_wf_def)
  have st: "started c (env p x)" if "ks_wf x" for x
    using ap_starts_view(3) [OF assms(1,2) that] by (simp add: assms(6))
  have other: "env i x = x" if "i \<noteq> p" for i x using that by (simp add: assms(6) ap_starts_def)
  have on: "bi_online (boot_of x c) \<noteq> 0" if "started c x" for x using that by (simp add: started_def Let_def)
  have nst: "AP_BOOT_STATE_SENT_SIPI \<notin> {AP_BOOT_STATE_HALTED, AP_BOOT_STATE_FAULTED}" by (simp add: c_const)
  consider "p = 4" | "p = 5" | "p = 6" | "7 \<le> p" using assms(5) by linarith
  then have "if p < 7 then started c k' else bi_online (boot_of k' c) = 0"
  proof cases
    case 1
    have "started c ?k5" using started_state [OF wf4 assms(2) nst] st [OF wfl] 1 by simp
    then show ?thesis using on 1 other [of 5] by (simp add: k'(3) Let_def)
  next
    case 2
    have "started c (env 5 ?k5)" using st [OF wf5] 2 by simp
    then show ?thesis using on 2 by (simp add: k'(3) Let_def)
  next
    case 3
    have "bi_online (boot_of ?k5 c) = 0"
      using assms(2,4) wfl 3 by (simp add: other ks_view)
    then show ?thesis using 3 other [of 5] st [OF wf6] by (simp add: k'(3) Let_def)
  next
    case 4
    have "bi_online (boot_of ?k5 c) = 0"
      using assms(2,4) wfl 4 by (simp add: other ks_view)
    then show ?thesis using 4 other [of 5] other [of 6] by (simp add: k'(3) Let_def)
  qed
  with k'(1) wf(1) show ?thesis by blast
qed

lemma ap_brought_up:
  assumes "context_layout cpu_at" "c < MAX_AP_CONTEXTS" "ks_wf k" "icr_idle (ks_bsp_lapic k)"
    and "start_refusal apic_base acpi mmap paging target_index (boot_of k c) = None"
    and "4 \<le> p" "p + 1 < 7 + AP_ONLINE_TIMEOUT_LOOPS"
  shows "up c (fst (bring_up_one_ap ad apic_base (ap_starts isr cpu_at idt_at regs c p) acpi mmap paging c
    target_index (k, mem)))"
proof -
  let ?env = "ap_starts isr cpu_at idt_at regs c p"
  have c: "c < 8" using assms(2) by (simp add: c_const)
  note rely = ap_starts_rely [OF assms(1) c, of isr idt_at regs p]
  note start = bring_up_accepted [OF c assms(3-5)]
  obtain k1 ws l l' where k1: "send_init_ipis ?env c (ready_state ad acpi c target_index k) = (True, k1)"
    "sent c (ac_apic_id (supported_aps acpi ! target_index)) (bi_sipi_vector (boot_of k c)) ws k1"
    "k1 = ?env 3 (?env 2 ((?env 1 (upd_boot c (\<lambda>b. b\<lparr>bi_ap_state := AP_BOOT_STATE_SENT_INIT\<rparr>)
       (?env 0 ((ready_state ad acpi c target_index k)\<lparr>ks_bsp_lapic := l\<rparr>))))\<lparr>ks_bsp_lapic := l'\<rparr>))"
    using send_init_ipis_sent [OF rely c start(2)] by blast
  have "ks_wf ((ready_state ad acpi c target_index k)\<lparr>ks_bsp_lapic := l\<rparr>)"
    using start(2) by (simp add: sent_def ks_wf_def)
  then have "bi_online (boot_of k1 c) = 0"
    using start(3) assms(6) c by (simp add: k1(3) ap_starts_def ks_view)
  from send_sipis_starts [OF assms(1) c k1(2) this assms(6) refl, of isr idt_at regs] obtain k2 where
    k2: "send_sipis ?env c k1 = (True, k2)" "ks_wf k2"
      "if p < 7 then started c k2 else bi_online (boot_of k2 c) = 0" by blast
  have "up c (wait_online ?env c 0 AP_ONLINE_TIMEOUT_LOOPS k2)"
  proof (cases "p < 7")
    case True
    then show ?thesis using wait_online_started [OF k2(2) c] k2(3) by (simp add: AP_ONLINE_TIMEOUT_LOOPS_def del: wait_online.simps)
  next
    case False
    then show ?thesis using wait_online_starts [OF assms(1) c k2(2)] k2(3) assms(7) by simp
  qed
  then show ?thesis using start(1) [of ad ?env mem] by (auto simp: k1(1) k2(1) simp del: wait_online.simps)
qed

text \<open>
  C7. An AP that starts is brought up: whenever the checks pass and the AP runs its entry point at
  any point from the first start-up interrupt to the last poll but one, the bring-up ends without an
  error, with the AP online in its request loop and all of its tables checked. The command register of
  the BSP is taken to be idle at every look, so no interrupt times out.
\<close>

theorem starting_ap_is_brought_up:
  assumes "context_layout cpu_at" "c < MAX_AP_CONTEXTS" "ks_wf k" "icr_idle (ks_bsp_lapic k)"
    and "start_refusal apic_base acpi mmap paging target_index (boot_of k c) = None"
    and "4 \<le> p" "p + 1 < 7 + AP_ONLINE_TIMEOUT_LOOPS"
  shows "up c (fst (bring_up_one_ap ad apic_base (ap_starts isr cpu_at idt_at regs c p) acpi mmap paging c
    target_index (k, mem)))"
  using assms by (rule ap_brought_up)

section \<open>A fault during the start-up interrupt\<close>

text \<open>
  An AP that is between its entry point and its loop and faults while the BSP is still sending the
  first start-up interrupt.
\<close>

definition ap_faults_early ::
    "(nat \<Rightarrow> u64) \<Rightarrow> fault_frame_t \<Rightarrow> u64 \<Rightarrow> nat \<Rightarrow> nat \<Rightarrow> kernel_state \<Rightarrow> kernel_state" where
  "ap_faults_early cpu_at frame cr2 c i k =
     (if i = 4 \<and> ctx_current_request_slot (ks_contexts k ! c) = AP_REQUEST_NO_SLOT
      then ap_fault_dispatch cpu_at c (cpu_at c + 160 + 0x4000 - 56) frame cr2 k else k)"

lemma ap_faults_early_view:
  fixes frame :: fault_frame_t and cr2 :: u64
  assumes "context_layout cpu_at" "c < 8" "ks_wf k"
    and "ctx_current_request_slot (ks_contexts k ! c) = AP_REQUEST_NO_SLOT"
  defines "k' \<equiv> ap_fault_dispatch cpu_at c (cpu_at c + 160 + 0x4000 - 56) frame cr2 k"
  shows "ks_wf k'" "ks_bsp_lapic k' = ks_bsp_lapic k"
    "bi_target_apic_id (boot_of k' c) = bi_target_apic_id (boot_of k c)"
    "bi_sipi_vector (boot_of k' c) = bi_sipi_vector (boot_of k c)"
    "bi_ap_state (boot_of k' c) = AP_BOOT_STATE_FAULTED" "bi_entry_state (boot_of k' c) = AP_ENTRY_STATE_FAULT"
    "bi_online (boot_of k' c) = 1" "bi_fault_vector (boot_of k' c) = ff_vector frame"
proof -
  have "\<not> unat (ctx_current_request_slot (ks_contexts k ! c)) < AP_REQUEST_SLOT_COUNT"
    using assms(4) by (simp add: c_const)
  note v = ap_fault_dispatch_no_slot [OF assms(3) context_layout_stacks(3) [OF assms(1,2)] this,
      where self = c and frame = frame and ?cr2.0 = cr2]
  show "ks_wf k'" "ks_bsp_lapic k' = ks_bsp_lapic k"
    "bi_target_apic_id (boot_of k' c) = bi_target_apic_id (boot_of k c)"
    "bi_sipi_vector (boot_of k' c) = bi_sipi_vector (boot_of k c)"
    "bi_ap_state (boot_of k' c) = AP_BOOT_STATE_FAULTED" "bi_entry_state (boot_of k' c) = AP_ENTRY_STATE_FAULT"
    "bi_online (boot_of k' c) = 1" "bi_fault_vector (boot_of k' c) = ff_vector frame"
    unfolding k'_def by (fact v)+
qed

lemma ap_faults_early_rely:
  "context_layout cpu_at \<Longrightarrow> c < 8 \<Longrightarrow> starting_rely c (ap_faults_early cpu_at frame cr2 c)"
  using ap_faults_early_view(1-4) [of cpu_at c _ frame cr2] by (simp add: starting_rely_def ap_faults_early_def)

text \<open>
  C37. A fault of the AP can be lost: when the AP faults while the BSP is still waiting for its first
  start-up interrupt to be accepted, the BSP then overwrites the fault state with the note that the
  interrupt has been sent, and the wait reports the AP as online. The AP has halted with its fault
  recorded, and the scheduler considers it usable. The command register of the BSP is taken to be idle
  at every look, so no interrupt times out.
\<close>

theorem early_fault_is_overwritten:
  assumes "context_layout cpu_at" "c < MAX_AP_CONTEXTS" "ks_wf k" "icr_idle (ks_bsp_lapic k)"
    and "ctx_current_request_slot (ks_contexts k ! c) = AP_REQUEST_NO_SLOT"
    and "start_refusal apic_base acpi mmap paging target_index (boot_of k c) = None"
    and "bring_up_one_ap ad apic_base (ap_faults_early cpu_at frame cr2 c) acpi mmap paging c target_index (k, mem) =
      (k', mem')"
  shows "bi_entry_state (boot_of k' c) = AP_ENTRY_STATE_FAULT \<and> bi_fault_vector (boot_of k' c) = ff_vector frame \<and>
    bi_ap_state (boot_of k' c) = AP_BOOT_STATE_ONLINE \<and> ap_context_is_schedulable (ks_contexts k' ! c)"
proof -
  let ?env = "ap_faults_early cpu_at frame cr2 c" and ?k0 = "ready_state ad acpi c target_index k"
  let ?none = "\<lambda>k. ctx_current_request_slot (ks_contexts k ! c) = AP_REQUEST_NO_SLOT"
  have c: "c < 8" using assms(2) by (simp add: c_const)
  note rely = ap_faults_early_rely [OF assms(1) c, of frame cr2] and start = bring_up_accepted [OF c assms(3,4,6)]
  obtain k1 ws l l' where k1: "send_init_ipis ?env c ?k0 = (True, k1)"
    "sent c (ac_apic_id (supported_aps acpi ! target_index)) (bi_sipi_vector (boot_of k c)) ws k1"
    "k1 = ?env 3 (?env 2 ((?env 1 (upd_boot c (\<lambda>b. b\<lparr>bi_ap_state := AP_BOOT_STATE_SENT_INIT\<rparr>)
       (?env 0 (?k0\<lparr>ks_bsp_lapic := l\<rparr>))))\<lparr>ks_bsp_lapic := l'\<rparr>))"
    using send_init_ipis_sent [OF rely c start(2)] by blast
  have len: "c < length (ks_contexts k)" using ks_wf_lengths(1) [OF assms(3)] c by simp
  have none: "?none k1"
    using len assms(5) by (simp add: k1(3) ap_faults_early_def ready_state_def upd_boot_def ks_view)
  have wf1: "ks_wf k1" using k1(2) by (simp add: sent_def)
  obtain k2 l l' where k2: "send_sipis ?env c k1 = (True, k2)"
    "k2 = (let k5 = ?env 5 (upd_boot c (\<lambda>b. b\<lparr>bi_ap_state := AP_BOOT_STATE_SENT_SIPI\<rparr>) (?env 4 (k1\<lparr>ks_bsp_lapic := l\<rparr>)))
       in if bi_online (boot_of k5 c) = 0 then ?env 6 (k5\<lparr>ks_bsp_lapic := l'\<rparr>) else k5)"
    using send_sipis_sent [OF rely c k1(2)] unfolding Let_def by blast
  let ?k4 = "?env 4 (k1\<lparr>ks_bsp_lapic := l\<rparr>)"
  have wfl: "ks_wf (k1\<lparr>ks_bsp_lapic := l\<rparr>)" using wf1 by (simp add: ks_wf_def)
  have nonel: "?none (k1\<lparr>ks_bsp_lapic := l\<rparr>)" using none by simp
  note view = ap_faults_early_view [OF assms(1) c wfl nonel, of frame cr2]
  have env4: "?k4 = ap_fault_dispatch cpu_at c (cpu_at c + 160 + 0x4000 - 56) frame cr2 (k1\<lparr>ks_bsp_lapic := l\<rparr>)"
    using nonel by (simp add: ap_faults_early_def)
  have k2': "k2 = upd_boot c (\<lambda>b. b\<lparr>bi_ap_state := AP_BOOT_STATE_SENT_SIPI\<rparr>) ?k4"
    using view(1,7) c by (simp add: k2(2) Let_def env4 ks_view ap_faults_early_def [of _ _ _ _ 5])
  have k': "k' = wait_online ?env c 0 AP_ONLINE_TIMEOUT_LOOPS k2"
    using start(1) [of ad ?env mem] assms(7) by (auto simp: k1(1) k2(1) simp del: wait_online.simps)
  have boot2: "boot_of k2 c = (boot_of ?k4 c)\<lparr>bi_ap_state := AP_BOOT_STATE_SENT_SIPI\<rparr>" "ks_wf k2"
    using view(1) c by (simp_all add: k2' env4 ks_view ks_wf_upd)
  then have "bi_online (boot_of k2 c) \<noteq> 0" using view(7) by (simp add: env4)
  from wait_online_accepts [OF boot2(2) c this, of AP_ONLINE_TIMEOUT_LOOPS ?env 0]
  have "boot_of k' c = (boot_of ?k4 c)\<lparr>bi_ap_state := AP_BOOT_STATE_ONLINE, bi_error := AP_BOOT_OK,
      bi_wait_loops := 0\<rparr>"
    unfolding k' boot2(1) by (simp add: AP_ONLINE_TIMEOUT_LOOPS_def AP_BOOT_STATE_SENT_SIPI_def
        AP_BOOT_STATE_HALTED_def AP_BOOT_STATE_FAULTED_def)
  then show ?thesis
    using view(6,7,8) by (simp add: env4 ap_context_is_schedulable_def boot_of_def [symmetric] c_const)
qed

section \<open>A machine with one AP\<close>

definition one_ap :: acpi_info_t where
  "one_ap = zero_acpi_info\<lparr>ai_local_apic_base := 0x1000, ai_stored_cpu_count := 2,
     ai_cpus := [\<lparr>ac_acpi_uid = 0, ac_apic_id = 0, ac_flags = 1, ac_x2apic = 0\<rparr>,
       \<lparr>ac_acpi_uid = 1, ac_apic_id = 4, ac_flags = 1, ac_x2apic = 0\<rparr>]\<rparr>"

definition one_ap_addresses :: ap_addresses where
  "one_ap_addresses = \<lparr>ad_ctx = 0x100000, ad_boot_stack = 0x110000, ad_ap_entry_one = 0x200000\<rparr>"

lemma one_ap_accepted:
  "start_refusal 0xfee00900 one_ap one_page_map zero_paging_info 0 (boot_of example_kernel 0) = None"
  "supported_aps one_ap ! 0 = \<lparr>ac_acpi_uid = 1, ac_apic_id = 4, ac_flags = 1, ac_x2apic = 0\<rparr>"
  by code_simp+

lemma one_ap_idle: "icr_idle (ks_bsp_lapic example_kernel)"
  by (simp add: icr_idle_def example_kernel_def idle_lapic_def)

lemma one_ap_no_slot: "ctx_current_request_slot (ks_contexts example_kernel ! 0) = AP_REQUEST_NO_SLOT"
  by (simp add: example_kernel_def context_with_def)

theorem bring_up_one_ap_sequence_witness:
  "\<exists>sipis. sipis \<in> {[0x608], [0x608, 0x608]} \<and>
     la_writes (ks_bsp_lapic (fst (bring_up_one_ap one_ap_addresses 0xfee00900 (\<lambda>_ k. k) one_ap one_page_map
       zero_paging_info 0 0 (example_kernel, \<lambda>_. 0)))) =
     la_writes (enable_lapic_if_needed (ks_bsp_lapic example_kernel)) @ ipi_writes 4 ([0x4500, 0x8500] @ sipis)"
proof -
  let ?r = "bring_up_one_ap one_ap_addresses 0xfee00900 (\<lambda>_ k. k) one_ap one_page_map zero_paging_info 0 0
    (example_kernel, \<lambda>_. 0)"
  have "starting_rely 0 (\<lambda>_ k. k)" by (simp add: starting_rely_def)
  moreover have "bi_sipi_vector (boot_of example_kernel 0) = 8"
    by (simp add: boot_of_def example_kernel_def context_with_def boot_with_def)
  ultimately show ?thesis
    using bring_up_one_ap_sequence [OF _ _ example_kernel_wf one_ap_idle one_ap_accepted(1),
        of "\<lambda>_ k. k" one_ap_addresses "\<lambda>_. 0" "fst ?r" "snd ?r"] one_ap_accepted(2)
    by (auto simp: Let_def c_const)
qed

theorem bring_up_one_ap_refuses_witness:
  "bi_error (boot_of (fst (bring_up_one_ap one_ap_addresses 0xfee00d00 (\<lambda>_ k. k) one_ap one_page_map
     zero_paging_info 0 0 (example_kernel, \<lambda>_. 0))) 0) = AP_BOOT_ERR_X2APIC"
proof -
  have "start_refusal 0xfee00d00 one_ap one_page_map zero_paging_info 0 (boot_of example_kernel 0) =
      Some AP_BOOT_ERR_X2APIC" by code_simp
  from bring_up_one_ap_refuses [OF example_kernel_wf _ this] show ?thesis
    by (metis MAX_AP_CONTEXTS_def prod.collapse zero_less_numeral)
qed

theorem starting_ap_is_brought_up_witness:
  "up 0 (fst (bring_up_one_ap one_ap_addresses 0xfee00900
     (ap_starts example_isr example_cpu_at (\<lambda>_. 0x5000) example_registers 0 1000) one_ap one_page_map
     zero_paging_info 0 0 (example_kernel, \<lambda>_. 0)))"
  by (rule starting_ap_is_brought_up [OF example_layout _ example_kernel_wf one_ap_idle one_ap_accepted(1)])
    (simp_all add: c_const)

theorem early_fault_is_overwritten_witness:
  "bi_ap_state (boot_of (fst (bring_up_one_ap one_ap_addresses 0xfee00900
     (ap_faults_early example_cpu_at \<lparr>ff_vector = 6, ff_error_code = 0, ff_rip = 0x2000, ff_cs = 8, ff_rflags = 2\<rparr> 0 0)
     one_ap one_page_map zero_paging_info 0 0 (example_kernel, \<lambda>_. 0))) 0) = AP_BOOT_STATE_ONLINE"
  using early_fault_is_overwritten [OF example_layout _ example_kernel_wf one_ap_idle one_ap_no_slot one_ap_accepted(1)
      prod.collapse [symmetric]] by (simp add: c_const)

end
