(* ===== verification/Ap_Bringup_All.thy ===== *)
theory Ap_Bringup_All
  imports Ap_Bringup Ap_Guarantee
begin

text \<open>
  Starting all APs, one after the other (\<^verbatim>\<open>kernel/kernel.c\<close>, the loop of \<^verbatim>\<open>efi_main\<close> around
  \<^verbatim>\<open>bring_up_one_ap\<close>): the bring-up of one AP leaves the others, and every request slot, as they
  are, so APs that run the code of the kernel all end in their request loop, the \<open>i\<close>-th context with the
  \<open>i\<close>-th processor the ACPI tables list.
\<close>

section \<open>What the bring-up of one AP leaves alone\<close>

definition start_frame :: "nat \<Rightarrow> kernel_state \<Rightarrow> kernel_state \<Rightarrow> bool" where
  "start_frame c k k' \<longleftrightarrow> ks_wf k' \<and> others_same c k k' \<and> (\<forall>d i. ap_inbox_slot k' d i = ap_inbox_slot k d i)"

lemma start_frame_refl: "ks_wf k \<Longrightarrow> start_frame c k k"
  by (simp add: start_frame_def)

lemma start_frame_trans [trans]: "start_frame c k k' \<Longrightarrow> start_frame c k' k'' \<Longrightarrow> start_frame c k k''"
  by (simp add: start_frame_def others_same_def)

lemma start_frame_wf: "start_frame c k k' \<Longrightarrow> ks_wf k'"
  by (simp add: start_frame_def)

lemma start_frame_boot: "ks_wf k \<Longrightarrow> c < 8 \<Longrightarrow> start_frame c k (upd_boot c f k)"
  by (simp add: start_frame_def ks_view ks_wf_upd)

lemma start_frame_lapic: "ks_wf k \<Longrightarrow> start_frame c k (k\<lparr>ks_bsp_lapic := l\<rparr>)"
  by (simp add: start_frame_def ks_wf_def others_same_def ap_inbox_slot_def)

lemmas start_frame_steps = start_frame_boot start_frame_lapic start_frame_refl

definition framed_start :: "nat \<Rightarrow> (nat \<Rightarrow> kernel_state \<Rightarrow> kernel_state) \<Rightarrow> bool" where
  "framed_start c env \<longleftrightarrow> (\<forall>i k. ks_wf k \<longrightarrow> start_frame c k (env i k))"

lemma framed_startD: "framed_start c env \<Longrightarrow> ks_wf k \<Longrightarrow> start_frame c k (env i k)"
  by (simp add: framed_start_def)

text \<open>A chain of such steps, each from a well-formed state.\<close>

lemma start_frame_then:
  "start_frame c k k' \<Longrightarrow> (ks_wf k' \<Longrightarrow> start_frame c k' k'') \<Longrightarrow> start_frame c k k''"
  using start_frame_trans start_frame_wf by blast

lemma send_start_ipi_frame:
  assumes "ks_wf k" "c < 8" "send_start_ipi c command k = (ok, k')"
  shows "start_frame c k k'"
proof -
  obtain ok' l boot where send: "lapic_send_ipi (ks_bsp_lapic k) (bi_target_apic_id (boot_of k c)) command (boot_of k c) =
      (ok', l, boot)" by (metis prod_cases3)
  have "start_frame c k (upd_boot c f (k\<lparr>ks_bsp_lapic := l\<rparr>))" for f
    by (rule start_frame_then [OF start_frame_lapic [OF assms(1)] start_frame_boot]) (use assms in auto)
  moreover from this have "start_frame c k (upd_boot c g (upd_boot c f (k\<lparr>ks_bsp_lapic := l\<rparr>)))" for f g
    by (rule start_frame_then [OF _ start_frame_boot]) (use assms in auto)
  ultimately show ?thesis using assms(3) by (auto simp: send_start_ipi_def send Let_def split: if_splits)
qed

lemma send_init_ipis_frame:
  assumes "framed_start c env" "ks_wf k" "c < 8" "send_init_ipis env c k = (ok, k')"
  shows "start_frame c k k'"
proof -
  obtain ok1 k1 where k1: "send_start_ipi c 0x4500 k = (ok1, k1)" by force
  let ?k = "env 1 (upd_boot c (\<lambda>b. b\<lparr>bi_ap_state := AP_BOOT_STATE_SENT_INIT\<rparr>) (env 0 k1))"
  obtain ok2 k2 where k2: "send_start_ipi c 0x8500 ?k = (ok2, k2)" by force
  note env = framed_startD [OF assms(1)]
  have f1: "start_frame c k k1" using send_start_ipi_frame [OF assms(2,3) k1] .
  have "start_frame c k ?k"
    by (rule start_frame_then [OF start_frame_then [OF start_frame_then [OF f1 env] start_frame_boot] env])
      (use assms(3) in auto)
  then have f2: "start_frame c k k2" by (rule start_frame_then) (rule send_start_ipi_frame [OF _ assms(3) k2])
  then have "start_frame c k (env 3 (env 2 k2))" by (rule start_frame_then [OF start_frame_then [OF _ env] env])
  then show ?thesis using f1 f2 assms(4) by (auto simp: send_init_ipis_def k1 k2 Let_def simp del: One_nat_def split: bool.splits)
qed

lemma send_sipis_frame:
  assumes "framed_start c env" "ks_wf k" "c < 8" "send_sipis env c k = (ok, k')"
  shows "start_frame c k k'"
proof -
  let ?s = "0x600 OR (bi_sipi_vector (boot_of k c) AND 0xff)"
  obtain ok1 k1 where k1: "send_start_ipi c ?s k = (ok1, k1)" by force
  let ?k = "env 5 (upd_boot c (\<lambda>b. b\<lparr>bi_ap_state := AP_BOOT_STATE_SENT_SIPI\<rparr>) (env 4 k1))"
  obtain ok2 k2 where k2: "send_start_ipi c ?s ?k = (ok2, k2)" by force
  note env = framed_startD [OF assms(1)]
  have f1: "start_frame c k k1" using send_start_ipi_frame [OF assms(2,3) k1] .
  have f: "start_frame c k ?k"
    by (rule start_frame_then [OF start_frame_then [OF start_frame_then [OF f1 env] start_frame_boot] env])
      (use assms(3) in auto)
  then have f2: "start_frame c k k2" by (rule start_frame_then) (rule send_start_ipi_frame [OF _ assms(3) k2])
  then have "start_frame c k (env 6 k2)" by (rule start_frame_then [OF _ env])
  then show ?thesis using f f1 f2 assms(4) by (auto simp: send_sipis_def k1 k2 Let_def split: bool.splits if_splits)
qed

lemma wait_online_frame:
  assumes "framed_start c env" "c < 8" "ks_wf k"
  shows "start_frame c k (wait_online env c i n k)"
  using assms(3)
proof (induction n arbitrary: i k)
  case 0
  then show ?case using assms(2) by (simp add: start_frame_boot)
next
  case (Suc n)
  note wf = Suc.prems
  have "start_frame c k (wait_online env c (Suc i) n (env (7 + i) k))"
    by (rule start_frame_then [OF framed_startD [OF assms(1) wf]]) (rule Suc.IH)
  moreover have "start_frame c k (upd_boot c g (upd_boot c f k))" "start_frame c k (upd_boot c g k)" for f g
    by (rule start_frame_then [OF start_frame_boot start_frame_boot] start_frame_boot; use wf assms(2) in simp)+
  ultimately show ?case by (simp add: Let_def)
qed

lemma bring_up_one_ap_frame:
  assumes "framed_start c env" "c < 8" "ks_wf k"
  shows "start_frame c k (fst (bring_up_one_ap ad apic_base env acpi mmap paging c i (k, mem)))"
proof -
  obtain ok boot mem' where prep: "prepare_ap_start ad apic_base acpi mmap paging i (boot_of k c, mem) = (ok, boot, mem')"
    by (metis prod_cases3)
  let ?k = "(upd_boot c (\<lambda>_. boot) k)\<lparr>ks_bsp_lapic := enable_lapic_if_needed (ks_bsp_lapic (upd_boot c (\<lambda>_. boot) k))\<rparr>"
  obtain ok1 k1 where k1: "send_init_ipis env c ?k = (ok1, k1)" by force
  obtain ok2 k2 where k2: "send_sipis env c k1 = (ok2, k2)" by force
  have f0: "start_frame c k (upd_boot c (\<lambda>_. boot) k)" by (rule start_frame_boot [OF assms(3,2)])
  have f1: "start_frame c k k1"
    by (rule start_frame_then [OF start_frame_then [OF f0 start_frame_lapic]])
      (simp, rule send_init_ipis_frame [OF assms(1) _ assms(2) k1])
  have f2: "start_frame c k k2" by (rule start_frame_then [OF f1]) (rule send_sipis_frame [OF assms(1) _ assms(2) k2])
  have "start_frame c k (wait_online env c 0 AP_ONLINE_TIMEOUT_LOOPS k2)"
    by (rule start_frame_then [OF f2]) (rule wait_online_frame [OF assms(1,2)])
  then show ?thesis
    using f0 f1 f2 by (cases ok; cases ok1; cases ok2) (simp_all add: bring_up_one_ap_def prep k1 k2 Let_def del: wait_online.simps)
qed

lemma ap_starts_framed:
  assumes "context_layout cpu_at" "c < 8"
  shows "framed_start c (ap_starts isr cpu_at idt_at regs c p)"
  unfolding framed_start_def
proof (intro allI impI)
  fix i k assume wf: "ks_wf k"
  note stacks = context_layout_stacks(1,2) [OF assms]
  let ?k = "snd (ap_entry_tables isr cpu_at idt_at c regs k)"
  obtain l f where run: "?k = upd_ctx c f (k\<lparr>ks_ap_lapics := (ks_ap_lapics k)[c := l]\<rparr>)"
    using ap_entry_tables_run [where cpu_at = cpu_at, OF wf assms(2) stacks, of isr idt_at regs] by fastforce
  have view: "ks_wf ?k \<and> (\<forall>d j. ap_inbox_slot ?k d j = ap_inbox_slot k d j)"
    by (rule ap_entry_tables_view [where cpu_at = cpu_at, OF wf assms(2) stacks, of isr idt_at regs]) simp
  have "others_same c k ?k" unfolding run by simp
  with view have "start_frame c k ?k" by (simp add: start_frame_def)
  then have "start_frame c k (ap_loop_enter c ?k)"
    unfolding ap_loop_enter_def using assms(2)
    by (intro start_frame_then [OF start_frame_then [OF _ start_frame_boot] start_frame_boot] ) auto
  then show "start_frame c k (ap_starts isr cpu_at idt_at regs c p i k)"
    using start_frame_refl [OF wf] by (simp add: ap_starts_def)
qed

section \<open>Starting the contexts one after the other\<close>

text \<open>
  The state after the first \<open>m\<close> bring-ups: those contexts are up and hold their processor, the other
  contexts are as they were initialised, and no slot holds a request.
\<close>

definition aps_up :: "acpi_info_t \<Rightarrow> ap_context_t \<Rightarrow> nat \<Rightarrow> kernel_state \<Rightarrow> bool" where
  "aps_up acpi x m k \<longleftrightarrow> ks_wf k \<and> icr_idle (ks_bsp_lapic k) \<and>
     (\<forall>i < m. up i k \<and> bi_target_apic_id (boot_of k i) = ac_apic_id (supported_aps acpi ! i)) \<and>
     (\<forall>i < 8. m \<le> i \<longrightarrow> ks_contexts k ! i = x) \<and>
     (\<forall>d < 8. \<forall>i < 4. slot_state (ap_inbox_slot k d i) = AP_REQUEST_STATUS_EMPTY)"

lemma up_ctx: "ks_contexts k' ! c = ks_contexts k ! c \<Longrightarrow> up c k' = up c k"
  by (simp add: up_def started_def boot_of_def)

lemma bring_up_next:
  fixes isr :: isr_addresses and cpu_at :: "nat \<Rightarrow> u64" and p :: nat
  assumes layout: "context_layout cpu_at" and m: "m < 8" and p: "4 \<le> p" "p + 1 < 7 + AP_ONLINE_TIMEOUT_LOOPS"
    and ok: "start_refusal apic_base acpi mmap paging m (ctx_boot x) = None"
    and "aps_up acpi x m k"
    and run: "bring_up_one_ap ad apic_base (ap_starts isr cpu_at idt_at regs m p) acpi mmap paging m m (k, mem) = (k', mem')"
  shows "aps_up acpi x (Suc m) k'"
proof -
  have wf: "ks_wf k" "icr_idle (ks_bsp_lapic k)" and boot: "boot_of k m = ctx_boot x"
    using assms(6) m by (simp_all add: aps_up_def boot_of_def)
  have ok': "start_refusal apic_base acpi mmap paging m (boot_of k m) = None" using ok boot by simp
  have "up m k'" using ap_brought_up [OF layout _ wf ok' p, of ad isr idt_at regs mem] m run by (simp add: c_const)
  moreover have "ks_wf k'" "icr_idle (ks_bsp_lapic k')"
    "bi_target_apic_id (boot_of k' m) = ac_apic_id (supported_aps acpi ! m)"
    using bring_up_sequence [OF ap_starts_rely [OF layout m] m wf ok' run] by (auto simp: sent_def)
  moreover have frame: "others_same m k k'" "ap_inbox_slot k' d i = ap_inbox_slot k d i" for d i
    using bring_up_one_ap_frame [OF ap_starts_framed [OF layout m] m wf(1), of ad apic_base isr idt_at regs p acpi mmap
        paging m mem] run by (simp_all add: start_frame_def)
  moreover have "up i k' = up i k" "boot_of k' i = boot_of k i" if "i < m" for i
    using frame(1) that by (auto simp: others_same_def boot_of_def intro!: up_ctx)
  moreover have "ks_contexts k' ! i = x" if "i < 8" "Suc m \<le> i" for i
    using frame(1) assms(6) that by (auto simp: others_same_def aps_up_def)
  ultimately show ?thesis using assms(6) unfolding aps_up_def by (auto simp: less_Suc_eq)
qed

lemma bring_up_all:
  fixes isr :: isr_addresses and cpu_at idt_at :: "nat \<Rightarrow> u64" and start :: "nat \<Rightarrow> nat"
    and ads :: "nat \<Rightarrow> ap_addresses" and regs :: cpu_registers
  assumes layout: "context_layout cpu_at" and n: "n \<le> 8"
    and start: "\<And>i. i < 8 \<Longrightarrow> 4 \<le> start i \<and> start i + 1 < 7 + AP_ONLINE_TIMEOUT_LOOPS"
    and ok: "\<And>i. i < n \<Longrightarrow> start_refusal apic_base acpi mmap paging i (ctx_boot x) = None"
    and init: "aps_up acpi x 0 k"
  defines "bring_up \<equiv> \<lambda>i. bring_up_one_ap (ads i) apic_base (ap_starts isr cpu_at idt_at regs i (start i)) acpi mmap paging i i"
  shows "aps_up acpi x n (fst (fold bring_up [0..<n] (k, mem)))"
  using n ok
proof (induction n)
  case 0
  then show ?case using init by simp
next
  case (Suc n)
  obtain k1 mem1 where k1: "fold bring_up [0..<n] (k, mem) = (k1, mem1)" by force
  obtain k2 mem2 where k2: "bring_up n (k1, mem1) = (k2, mem2)" by force
  have "aps_up acpi x n k1" using Suc k1 by simp
  moreover have "4 \<le> start n" "start n + 1 < 7 + AP_ONLINE_TIMEOUT_LOOPS" using start [of n] Suc.prems(1) by simp_all
  moreover have "n < 8" "n < Suc n" using Suc.prems(1) by simp_all
  ultimately have "aps_up acpi x (Suc n) k2"
    using bring_up_next [OF layout _ _ _ Suc.prems(2) _ k2 [unfolded bring_up_def]] by blast
  then show ?case by (simp add: k1 k2)
qed

end
