(* ===== verification/Ap_Stream_Live.thy ===== *)
theory Ap_Stream_Live
  imports Ap_Guarantee
begin

text \<open>
  A request stream succeeds when the AP works: with an AP that has been brought up and makes a pass of
  its request loop whenever the BSP looks, every request of a plan of known services is answered, none
  times out and the stream reports success. The interface of such an AP is a locale over the one of
  \<open>Ap_Stream_Run\<close>; the request loop of the kernel is an instance.
\<close>

section \<open>An AP that is up\<close>

definition ap_ready :: "nat \<Rightarrow> kernel_state \<Rightarrow> bool" where
  "ap_ready c k \<longleftrightarrow> bi_ap_state (boot_of k c) \<notin> {AP_BOOT_STATE_HALTED, AP_BOOT_STATE_FAULTED} \<and>
     bi_error (boot_of k c) = AP_BOOT_OK \<and> bi_online (boot_of k c) \<noteq> 0 \<and>
     bi_entry_state (boot_of k c) \<noteq> AP_ENTRY_STATE_REQUEST"

lemma ap_ready_boot: "boot_of k' c = boot_of k c \<Longrightarrow> ap_ready c k' = ap_ready c k"
  by (simp add: ap_ready_def)

lemma ap_ready_not_stop: "ap_ready c k \<Longrightarrow> \<not> ap_request_stream_should_stop k c"
  by (simp add: ap_ready_def ap_request_stream_should_stop_def)

lemma complete_done_boot:
  assumes wf: "ks_wf k" "c < 8" "i < 4" and run: "slot_state (ap_inbox_slot k c i) = AP_REQUEST_STATUS_RUNNING"
    and ob: "outbox_wf ob"
  shows "\<exists>n. boot_of (ap_complete_done c i ob k) c = (boot_of k c)\<lparr>bi_ap_state := AP_BOOT_STATE_ONLINE,
    bi_entry_state := AP_ENTRY_STATE_LOOP, bi_icr_timeouts := n\<rparr>"
proof -
  have "outbox_wf (copy_ap_request_outbox (ap_committed_outbox_for_slot k c i) ob)"
    using outbox.wf_commit ks_wf_outboxes(2) [OF wf] ob by blast
  then have wf1: "ks_wf (set_committed_outbox c i (copy_ap_request_outbox (ap_committed_outbox_for_slot k c i) ob)
          (upd_slot c i (\<lambda>s. (ap_inbox_slot k c i)\<lparr>slot_state := AP_REQUEST_STATUS_DONE\<rparr>)
            (upd_boot c (\<lambda>b. b\<lparr>bi_ap_state := AP_BOOT_STATE_ONLINE, bi_entry_state := AP_ENTRY_STATE_LOOP\<rparr>) k)))"
    (is "ks_wf ?k1") using wf by (intro ks_wf_set_outbox ks_wf_upd)
  let ?k2 = "upd_ctx c (\<lambda>x. x\<lparr>ctx_current_request_slot := AP_REQUEST_NO_SLOT\<rparr>)
      (ap_queue_note_slot_terminal c i AP_REQUEST_STATUS_DONE AP_QUEUE_STOP_NONE ?k1)"
  have "ks_wf ?k2" "boot_of ?k2 c = boot_of ?k1 c" using wf(2) wf1 by (simp_all add: ks_view)
  moreover have "boot_of ?k1 c = (boot_of k c)\<lparr>bi_ap_state := AP_BOOT_STATE_ONLINE, bi_entry_state := AP_ENTRY_STATE_LOOP\<rparr>"
    using wf by (simp add: ks_view ks_wf_upd)
  ultimately show ?thesis
    using ap_notify_view(3) [of ?k2 c c c] wf(2) unfolding ap_complete_done_run [OF wf run] by auto
qed

lemma store_context_frame:
  fixes s' :: ap_request_slot_t
  assumes wf: "ks_wf k" "c < 8" "i < 4" and ob: "outbox_wf ob" "outbox_wf (sc_outbox x')"
  defines "k1 \<equiv> ap_store_service_context c i x' s' (set_service_outbox c ob k)"
  shows "ks_wf k1" "boot_of k1 c = boot_of k c" "ap_inbox_slot k1 c i = s'"
proof -
  let ?k0 = "upd_ctx c (\<lambda>x. x\<lparr>ctx_request_handled_count := sc_request_handled_count x',
    ctx_counter_value := sc_counter_value x'\<rparr>) (set_service_outbox c ob k)"
  have wf0: "ks_wf ?k0" using wf ob by (intro ks_wf_upd_ctx ks_wf_set_outbox) (simp_all add: context_wf_def)
  show "ks_wf k1" unfolding k1_def ap_store_service_context_def using wf0 wf(2) ob by (auto intro!: ks_wf_set_outbox ks_wf_upd)
  have "boot_of ?k0 c = boot_of k c"
    using wf(2) ks_wf_lengths(1) [OF wf(1)] by (simp add: boot_of_def ks_view)
  then show "boot_of k1 c = boot_of k c" "ap_inbox_slot k1 c i = s'"
    unfolding k1_def ap_store_service_context_def using wf0 wf by (simp_all add: ks_view)
qed

text \<open>A handler that returns leaves an AP that has entered its loop ready.\<close>

lemma run_slot_ready:
  assumes wf: "ks_wf k" "c < 8" "i < 4" and run: "slot_state (ap_inbox_slot k c i) = AP_REQUEST_STATUS_RUNNING"
    and out: "ap_run_slot cfg sel c i k = Ap_Continues k'"
    and boot: "bi_error (boot_of k c) = AP_BOOT_OK" "bi_online (boot_of k c) \<noteq> 0"
  shows "ap_ready c k'"
proof -
  let ?ob = "reset_ap_request_outbox (ap_service_outbox_for_context k c)" and ?s = "ap_inbox_slot k c i"
  let ?x = "\<lparr>sc_request_handled_count = ctx_request_handled_count (ks_contexts k ! c),
    sc_counter_value = ctx_counter_value (ks_contexts k ! c), sc_outbox = ?ob\<rparr>"
  have ob: "outbox_wf ?ob" using outbox.wf_reset ks_wf_outboxes(1) [OF wf(1,2)] by blast
  obtain h x' s' where h: "find_ap_request_handler cfg sel (rq_service_id (slot_request ?s))
      (rq_interface_id (slot_request ?s)) = Some h" "h ?x ?s = Returns (x', s')"
    and k': "k' = ap_complete_done c i (sc_outbox x') (ap_store_service_context c i x' s' (set_service_outbox c ?ob k))"
    using out by (auto simp: ap_run_slot_def Let_def split: option.splits execution.splits)
  note law = registered_handler_contract [OF h(1)]
  have s': "slot_state s' = AP_REQUEST_STATUS_RUNNING" and ob': "outbox_wf (sc_outbox x')"
    using request_handler.keeps_state [OF law h(2)] request_handler.keeps_wf [OF law h(2)] run ob by simp_all
  note f = store_context_frame [OF wf ob ob', where s' = s']
  have "slot_state (ap_inbox_slot (ap_store_service_context c i x' s' (set_service_outbox c ?ob k)) c i) =
      AP_REQUEST_STATUS_RUNNING" using f(3) s' by simp
  from complete_done_boot [OF f(1) wf(2,3) this ob'] show ?thesis
    using boot f(2) by (auto simp: ap_ready_def k' c_const)
qed

lemma claim_slot_boot:
  assumes wf: "ks_wf k" "c < 8" "i < 4" and claim: "ap_claim_slot c i k = (True, k1)"
  shows "bi_error (boot_of k1 c) = bi_error (boot_of k c)" "bi_online (boot_of k1 c) = bi_online (boot_of k c)"
proof -
  have "slot_state (ap_inbox_slot k c i) = AP_REQUEST_STATUS_PENDING"
    using ap_claim_slot_current(1) [OF wf claim] .
  then show "bi_error (boot_of k1 c) = bi_error (boot_of k c)" "bi_online (boot_of k1 c) = bi_online (boot_of k c)"
    using ap_claim_slot_pending [OF wf] claim wf ks_wf_lengths(1) [OF wf(1)] by (auto simp: boot_of_def ks_view)
qed

lemma scan_slots_ready:
  assumes "ks_wf k" "c < 8" "\<forall>i \<in> set is. i < 4" "ap_ready c k"
    and "ap_scan_slots cfg sel c is (w, k) = (w', Ap_Continues k')"
  shows "ap_ready c k'"
  using assms
proof (induction "is" arbitrary: k w)
  case (Cons i "is")
  obtain hit k1 where claim: "ap_claim_slot c i k = (hit, k1)" by force
  have i: "i < 4" using Cons.prems by simp
  note r1 = ap_claim_rely [OF Cons.prems(1,2) i claim]
  have wf1: "ks_wf k1" using r1(1) by (simp add: ap_rely_def)
  show ?case
  proof (cases hit)
    case False
    with claim have "k1 = k" by (auto simp: ap_claim_slot_def Let_def split: if_splits prod.splits bool.splits)
    then show ?thesis using Cons claim False by simp
  next
    case True
    then obtain k2 where k2: "ap_run_slot cfg sel c i k1 = Ap_Continues k2"
      using Cons.prems(5) claim by (auto split: ap_outcome.splits)
    have "ks_wf k2" using ap_run_rely [OF wf1 Cons.prems(2) i r1(2) [OF True] k2] by (simp add: ap_rely_def)
    moreover have "ap_ready c k2"
      using run_slot_ready [OF wf1 Cons.prems(2) i r1(2) [OF True] k2]
        claim_slot_boot [OF Cons.prems(1,2) i] claim True Cons.prems(4) by (simp add: ap_ready_def)
    ultimately show ?thesis using Cons.IH [of k2 True] Cons.prems k2 claim True by simp
  qed
qed simp

section \<open>The interface of an AP that answers at once\<close>

text \<open>The AP is between two requests, and every request that waits for it names a known service.\<close>

definition ap_can_serve :: "nat \<Rightarrow> kernel_state \<Rightarrow> bool" where
  "ap_can_serve c k \<longleftrightarrow> ap_ready c k \<and> (\<forall>i < 4. let s = ap_inbox_slot k c i in
     slot_state s = AP_REQUEST_STATUS_PENDING \<and> known_request s \<or> \<not> in_flight (slot_state s))"

locale prompt_ap = ap_environment +
  assumes answers: "ks_wf k \<Longrightarrow> ap_can_serve c k \<Longrightarrow> ap_ready c (env t k) \<and>
    (\<forall>i < 4. in_flight (slot_state (ap_inbox_slot k c i)) \<longrightarrow>
       slot_state (ap_inbox_slot (env t k) c i) = AP_REQUEST_STATUS_DONE)"

text \<open>A stream that goes well: the AP is up, and every slot is done or waits with a known request.\<close>

definition going_well :: "nat \<Rightarrow> ap_request_plan_t list \<Rightarrow> stream_state \<Rightarrow> bool" where
  "going_well c plan st \<longleftrightarrow> stream_ok c plan st \<and> \<not> st_stopped st \<and> ap_ready c (st_kernel st) \<and>
     (\<forall>i < 4. slot_state (stream_slot st c i) = AP_REQUEST_STATUS_DONE \<or>
        i \<in> active_slots st \<and> slot_state (stream_slot st c i) = AP_REQUEST_STATUS_PENDING \<and>
        known_request (stream_slot st c i)) \<and>
     (st_next_plan st < length plan \<longrightarrow> active_slots st \<noteq> {})"

definition all_answered :: "nat \<Rightarrow> stream_state \<Rightarrow> bool" where
  "all_answered c st \<longleftrightarrow> (\<forall>i < 4. slot_state (stream_slot st c i) = AP_REQUEST_STATUS_DONE)"

lemma done_facts [simp]:
  "\<not> in_flight AP_REQUEST_STATUS_DONE" "ap_request_state_finished AP_REQUEST_STATUS_DONE"
  by (simp add: in_flight_def c_const) (rule state_facts(7))

lemma going_wellD:
  assumes "going_well c plan st"
  shows "stream_ok c plan st" "stream_inv c plan st" "ks_wf (st_kernel st)" "\<not> st_stopped st" "\<not> recorded_failure c st"
    "ap_ready c (st_kernel st)" "length (st_active st) = 4"
  using assms unfolding going_well_def stream_ok_def stream_inv_def by blast+

lemma going_well_can_serve: "going_well c plan st \<Longrightarrow> ap_can_serve c (st_kernel st)"
  unfolding going_well_def ap_can_serve_def Let_def using done_facts(1) by metis

text \<open>Publishing to an AP that is up.\<close>

lemma bsp_notify_ready:
  assumes "ks_wf k" "c < 8"
  shows "ap_ready c (bsp_notify_ap_request_pending c k) = ap_ready c k"
proof -
  let ?ctx = "ks_contexts k ! c"
  obtain sent l boot where send: "lapic_send_ipi (enable_lapic_if_needed (ks_bsp_lapic k))
      (bi_target_apic_id (ctx_boot ?ctx)) AP_REQUEST_KICK_IPI_VECTOR (ctx_boot ?ctx) = (sent, l, boot)"
    by (metis prod_cases3)
  obtain n where "boot = (ctx_boot ?ctx)\<lparr>bi_icr_timeouts := n\<rparr>" using lapic_send_ipi_boot send by (metis snd_conv)
  then show ?thesis
    using ks_wf_lengths(1) [OF assms(1)] assms(2)
    by (auto simp: bsp_notify_ap_request_pending_def Let_def send ap_ready_def boot_of_def)
qed

lemma publish_ready:
  assumes wf: "ks_wf k" "c < 8" "i < 4" and up: "ap_ready c k"
  shows "ap_ready c (publish_ap_inbox_request c i p True k)"
    and "slot_state (ap_inbox_slot (publish_ap_inbox_request c i p True k) c i) = AP_REQUEST_STATUS_PENDING"
proof -
  let ?k1 = "upd_slot c i (\<lambda>s. s\<lparr>slot_state := AP_REQUEST_STATUS_PENDING\<rparr>)
    (upd_slot c i (\<lambda>s. prepare_ap_request_slot_from_plan s (ap_context_index c + 1) p) (reset_ap_inbox_slot c i k))"
  have wf1: "ks_wf ?k1" "boot_of ?k1 c = boot_of k c"
    "slot_state (ap_inbox_slot ?k1 c i) = AP_REQUEST_STATUS_PENDING"
    using wf by (simp_all add: ks_view ks_wf_upd)
  have "publish_ap_inbox_request c i p True k = bsp_notify_ap_request_pending c ?k1"
    using up by (simp add: publish_ap_inbox_request_def Let_def ap_ready_def)
  then show "ap_ready c (publish_ap_inbox_request c i p True k)"
    "slot_state (ap_inbox_slot (publish_ap_inbox_request c i p True k) c i) = AP_REQUEST_STATUS_PENDING"
    using bsp_notify_ready [OF wf1(1) wf(2)] bsp_notify_view(2) [OF wf1(1) wf(2), of c i] wf1(3)
      ap_ready_boot [OF wf1(2)] up by simp_all
qed

lemma known_request_plan: "known_request s \<longleftrightarrow> (pl_service_id (plan_of_slot s), pl_interface_id (plan_of_slot s)) \<in>
    {(AP_REQUEST_SERVICE_PING, AP_REQUEST_INTERFACE_PING),
     (AP_REQUEST_SERVICE_COUNTER, AP_REQUEST_INTERFACE_COUNTER_INCREMENT)}"
  by (simp add: known_request_def plan_of_slot_def Let_def)

definition known_plan :: "ap_request_plan_t \<Rightarrow> bool" where
  "known_plan p \<longleftrightarrow> (pl_service_id p, pl_interface_id p) \<in>
    {(AP_REQUEST_SERVICE_PING, AP_REQUEST_INTERFACE_PING),
     (AP_REQUEST_SERVICE_COUNTER, AP_REQUEST_INTERFACE_COUNTER_INCREMENT)}"

lemma publish_next_ready:
  assumes wf: "ks_wf (st_kernel st)" "c < 8" "i < 4" and up: "ap_ready c (st_kernel st)"
    and plan: "list_all known_plan plan" "st_next_plan st < length plan"
  defines "st' \<equiv> stream_publish_next c plan i st"
  shows "ap_ready c (st_kernel st')" "slot_state (stream_slot st' c i) = AP_REQUEST_STATUS_PENDING"
    "known_request (stream_slot st' c i)" "j \<noteq> i \<Longrightarrow> stream_slot st' c j = stream_slot st c j"
    "st_completed_count st' = st_completed_count st"
proof -
  have st': "st_kernel st' = publish_ap_inbox_request c i (plan ! st_next_plan st) True (st_kernel st)"
    "st_completed_count st' = st_completed_count st"
    by (simp_all add: st'_def stream_publish_next_def publish_ap_stream_slot_def)
  show "ap_ready c (st_kernel st')" "slot_state (stream_slot st' c i) = AP_REQUEST_STATUS_PENDING"
    unfolding st' by (rule publish_ready [OF wf up])+
  show "known_request (stream_slot st' c i)"
    unfolding known_request_plan st' publish_view(4) [OF wf]
    using plan by (simp add: list_all_length known_plan_def)
  show "j \<noteq> i \<Longrightarrow> stream_slot st' c j = stream_slot st c j"
    unfolding st' by (rule publish_view(3) [OF wf])
  show "st_completed_count st' = st_completed_count st" by (rule st'(2))
qed

text \<open>Recording leaves the boot record alone.\<close>

lemma finish_boot:
  assumes "ks_wf (st_kernel st)" "c < 8" "i < 4" "st_completed_count st < 8"
    and "finish_ap_stream_slot c i w st = (ok, st')"
  shows "boot_of (st_kernel st') c = boot_of (st_kernel st) c"
proof -
  have "boot_of (st_kernel (record_ap_stream_slot c (st_completed_count st) i (st\<lparr>st_kernel :=
      upd_slot c i (\<lambda>s. s\<lparr>slot_metrics := (slot_metrics s)\<lparr>mt_wait_loops := w\<rparr>\<rparr>) (st_kernel st)\<rparr>))) c =
      boot_of (st_kernel st) c"
    using assms(1-4) by (simp add: record_ap_stream_slot_def Let_def record_history_view(4) ks_wf_upd ks_view)
  then show ?thesis
    using assms(5) by (auto simp: finish_ap_stream_slot_def Let_def split: if_splits)
qed

lemma advance_le:
  assumes "w < AP_REQUEST_TIMEOUT_LOOPS cfg"
  shows "unat (advance_ap_request_wait_loops cfg w n) \<le> unat w + unat n"
proof -
  have "unat (AP_REQUEST_TIMEOUT_LOOPS cfg - w) = unat (AP_REQUEST_TIMEOUT_LOOPS cfg) - unat w"
    using assms by (intro unat_sub) simp
  then show ?thesis
    by (auto simp: advance_ap_request_wait_loops_def word_le_nat_alt unat_word_ariths(1))
qed

context prompt_ap
begin

lemma tick_well:
  assumes well: "going_well c plan st"
  shows "going_well c plan (ap_tick env st)" "all_answered c (ap_tick env st)"
    "slot_state (stream_slot st c i) = AP_REQUEST_STATUS_DONE \<Longrightarrow> i < 4 \<Longrightarrow>
       stream_slot (ap_tick env st) c i = stream_slot st c i"
proof -
  note ok = going_wellD(1) [OF well] and wf = going_wellD(3) [OF well]
  have tick: "st_kernel (ap_tick env st) = env (st_time st) (st_kernel st)"
    "st_next_plan (ap_tick env st) = st_next_plan st"
    by (simp_all add: ap_tick_def)
  note ans = answers [OF wf going_well_can_serve [OF well], of "st_time st"]
  have rely: "slot_rely (stream_slot st c i) (stream_slot (ap_tick env st) c i)" if "i < 4" for i
    using rely [OF wf] that unfolding tick ap_rely_def by blast
  then show same: "stream_slot (ap_tick env st) c i = stream_slot st c i"
    if "slot_state (stream_slot st c i) = AP_REQUEST_STATUS_DONE" "i < 4" for i
    using that by (auto simp: slot_rely_def)
  show answered: "all_answered c (ap_tick env st)"
    unfolding all_answered_def
  proof (intro allI impI)
    fix i :: nat assume i: "i < 4"
    show "slot_state (stream_slot (ap_tick env st) c i) = AP_REQUEST_STATUS_DONE"
    proof (cases "slot_state (stream_slot st c i) = AP_REQUEST_STATUS_DONE")
      case True
      then show ?thesis using same i by simp
    next
      case False
      then have "in_flight (slot_state (stream_slot st c i))" using well i by (auto simp: going_well_def in_flight_def)
      then show ?thesis using ans i by (simp add: tick)
    qed
  qed
  show "going_well c plan (ap_tick env st)"
    using well answered ans stream_step_ok [OF tick_step(1) [OF ok]] tick_step(2,3) [OF ok]
    by (simp add: going_well_def all_answered_def tick)
qed

text \<open>A visit either passes over its slot or records it and publishes the next request in it.\<close>

lemma refill_well:
  assumes well: "going_well c plan st" and i: "i < 4" "st_active st ! i" "slot_state (stream_slot st c i) = AP_REQUEST_STATUS_DONE"
    and plan: "list_all known_plan plan" "length plan \<le> 8"
    and finish: "finish_ap_stream_slot c i w st = (ok, st2)"
    and v: "v = (if st_next_plan st2 < length plan then stream_publish_next c plan i st2 else st2)"
  shows "ok" "going_well c plan v" "st_wait_loops v = st_wait_loops st" "st_completed_count v = Suc (st_completed_count st)"
    "\<not> st_active st2 ! i" "\<not> st_stopped st2" "\<not> ap_request_stream_should_stop (st_kernel st2) c"
    "st_wait_loops st2 = st_wait_loops st"
proof -
  note inv = going_wellD(2) [OF well]
  from finish_inv [OF inv c8 i(1,2) _ plan(2), of w] i(3) finish
  have f: ok "stream_inv c plan st2" "active_slots st2 = active_slots st - {i}" "\<not> st_active st2 ! i"
    "st_next_plan st2 = st_next_plan st" "st_wait_loops st2 = st_wait_loops st" "st_stopped st2 = st_stopped st"
    "st_completed_count st2 = Suc (st_completed_count st)" "\<And>j. j \<noteq> i \<Longrightarrow> stream_slot st2 c j = stream_slot st c j"
    "slot_state (stream_slot st2 c i) = AP_REQUEST_STATUS_DONE" "\<not> recorded_failure c st2"
    using going_wellD(5) [OF well] by (metis done_facts(2) prod.inject)+
  have "i \<in> active_slots st" using i by (simp add: active_slots_def)
  then have il: "i < length plan" using inv i(1) by (meson not_le stream_inv_def)
  have "st_completed_count st < 8"
    using inv plan(2) card_gt_0_iff [of "active_slots st"] \<open>i \<in> active_slots st\<close> by (fastforce simp: stream_inv_def)
  then have ready2: "ap_ready c (st_kernel st2)"
    using finish_boot [OF going_wellD(3) [OF well] c8 i(1) _ finish] ap_ready_boot going_wellD(6) [OF well] by blast
  have wf2: "ks_wf (st_kernel st2)" using f(2) by (simp add: stream_inv_def)
  have slots: "\<forall>j < 4. slot_state (stream_slot st2 c j) = AP_REQUEST_STATUS_DONE \<or>
        j \<in> active_slots st2 \<and> slot_state (stream_slot st2 c j) = AP_REQUEST_STATUS_PENDING \<and>
        known_request (stream_slot st2 c j)"
    using well f(3,9,10) unfolding going_well_def by (metis Diff_iff singletonD)
  show ok "\<not> st_active st2 ! i" "\<not> st_stopped st2" "st_wait_loops st2 = st_wait_loops st"
    using f going_wellD(4) [OF well] by simp_all
  show "\<not> ap_request_stream_should_stop (st_kernel st2) c" by (rule ap_ready_not_stop [OF ready2])
  note ready = publish_next_ready [OF wf2 c8 i(1) ready2 plan(1)]
  have "i \<notin> active_slots st2" using f(3) by simp
  note pub = publish_inv [OF f(2) c8 i(1) this il _ f(11)]
  show "st_wait_loops v = st_wait_loops st" "st_completed_count v = Suc (st_completed_count st)"
    using pub(4) ready(5) f(6,8) by (auto simp: v)
  show "going_well c plan v"
  proof (cases "st_next_plan st2 < length plan")
    case True
    let ?p = "stream_publish_next c plan i st2"
    have "\<forall>j < 4. slot_state (stream_slot ?p c j) = AP_REQUEST_STATUS_DONE \<or>
        j \<in> insert i (active_slots st2) \<and> slot_state (stream_slot ?p c j) = AP_REQUEST_STATUS_PENDING \<and>
        known_request (stream_slot ?p c j)"
      using slots ready(2-4) [OF True] by (metis insertCI)
    then show ?thesis
      using pub [OF True] ready(1) [OF True] f(7) going_wellD(4) [OF well] True
      by (simp add: v going_well_def stream_ok_def)
  next
    case False
    then show ?thesis
      using f ready2 slots going_wellD(4) [OF well] by (simp add: v going_well_def stream_ok_def)
  qed
qed

lemma visit_well:
  assumes well: "going_well c plan st" and i: "i < 4" and plan: "list_all known_plan plan" "length plan \<le> 8"
    and time: "st_wait_loops st < AP_REQUEST_TIMEOUT_LOOPS cfg"
  defines "v \<equiv> stream_visit cfg env c plan 4 i st"
  shows "going_well c plan v" "st_wait_loops v = st_wait_loops st"
    "v = ap_tick env st \<and> (i \<in> active_slots st \<longrightarrow> ap_stream_has_earlier_finished_slot c 4 i (ap_tick env st)) \<or>
     st_completed_count v = Suc (st_completed_count st)"
proof -
  let ?st = "ap_tick env st"
  note t = tick_well [OF well]
  have tick: "st_wait_loops ?st = st_wait_loops st" "st_completed_count ?st = st_completed_count st"
    "st_active ?st = st_active st" by (simp_all add: ap_tick_def)
  have "(going_well c plan v \<and> st_wait_loops v = st_wait_loops st) \<and>
    (v = ?st \<and> (i \<in> active_slots st \<longrightarrow> ap_stream_has_earlier_finished_slot c 4 i ?st) \<or>
     st_completed_count v = Suc (st_completed_count st))"
  proof (cases "st_active ?st ! i \<and> \<not> ap_stream_has_earlier_finished_slot c 4 i ?st")
    case False
    then have "i \<notin> finished_slots c ?st \<or> ap_stream_has_earlier_finished_slot c 4 i ?st"
      by (auto simp: finished_slots_def active_slots_def)
    from visit_skips [OF i this, of cfg plan] show ?thesis
      using False t(1) tick by (auto simp: v_def active_slots_def)
  next
    case True
    have fin: "slot_state (stream_slot ?st c i) = AP_REQUEST_STATUS_DONE" using t(2) i by (simp add: all_answered_def)
    obtain ok st2 where finish: "finish_ap_stream_slot c i (st_wait_loops ?st) ?st = (ok, st2)" by force
    note r = refill_well [OF t(1) i _ fin plan finish refl]
    have "v = (if st_next_plan st2 < length plan then stream_publish_next c plan i st2 else st2)"
      unfolding v_def stream_visit_def Let_def
      using True fin finish r(1,5-8) time tick(1) by simp
    then show ?thesis using r(2-4) True tick by simp
  qed
  then show "going_well c plan v" "st_wait_loops v = st_wait_loops st"
    "v = ?st \<and> (i \<in> active_slots st \<longrightarrow> ap_stream_has_earlier_finished_slot c 4 i ?st) \<or>
     st_completed_count v = Suc (st_completed_count st)" by blast+
qed

lemma visits_well:
  assumes "going_well c plan st" "\<forall>i \<in> set is. i < 4" "list_all known_plan plan" "length plan \<le> 8"
    and "st_wait_loops st < AP_REQUEST_TIMEOUT_LOOPS cfg"
  defines "v \<equiv> fold (stream_visit cfg env c plan 4) is st"
  shows "going_well c plan v \<and> st_wait_loops v = st_wait_loops st \<and> st_completed_count st \<le> st_completed_count v"
  using assms(1,2,5) unfolding v_def
proof (induction "is" arbitrary: st)
  case (Cons i "is")
  have i: "i < 4" using Cons.prems by simp
  note v = visit_well [OF Cons.prems(1) i assms(3,4) Cons.prems(3)]
  have "st_completed_count st \<le> st_completed_count (stream_visit cfg env c plan 4 i st)"
    using v(3) by (auto simp: ap_tick_def)
  then show ?case using Cons.IH [OF v(1)] Cons.prems v(2) by fastforce
qed simp

text \<open>The slot that is first in the recording order is not passed over.\<close>

lemma visits_progress:
  assumes "going_well c plan st" "\<forall>i \<in> set is. i < 4" "list_all known_plan plan" "length plan \<le> 8"
    and "st_wait_loops st < AP_REQUEST_TIMEOUT_LOOPS cfg" "all_answered c st"
    and first: "j \<in> set is" "j \<in> active_slots st" "\<not> ap_stream_has_earlier_finished_slot c 4 j st"
  shows "st_completed_count st < st_completed_count (fold (stream_visit cfg env c plan 4) is st)"
  using assms(1,2,5-)
proof (induction "is" arbitrary: st)
  case (Cons i "is")
  let ?v = "stream_visit cfg env c plan 4 i st"
  have i: "i < 4" using Cons.prems by simp
  note v = visit_well [OF Cons.prems(1) i assms(3,4) Cons.prems(3)]
  have mono: "st_completed_count ?v \<le> st_completed_count (fold (stream_visit cfg env c plan 4) is ?v)"
    using visits_well [OF v(1) _ assms(3,4)] Cons.prems v(2) by simp
  have "stream_slot (ap_tick env st) c n = stream_slot st c n" if "n < 4" for n
    using tick_well(3) [OF Cons.prems(1)] Cons.prems(4) that by (simp add: all_answered_def)
  then have same: "ap_stream_has_earlier_finished_slot c 4 j (ap_tick env st) =
      ap_stream_has_earlier_finished_slot c 4 j st" "active_slots (ap_tick env st) = active_slots st"
    using Cons.prems(6) unfolding ap_stream_has_earlier_finished_slot_def
    by (auto simp: Let_def list_ex_iff active_slots_def ap_tick_def)
  show ?case
  proof (cases "st_completed_count ?v = Suc (st_completed_count st)")
    case True
    then show ?thesis using mono by simp
  next
    case False
    then have tick: "?v = ap_tick env st" "i \<noteq> j" using v(3) same(1) Cons.prems(6,7) by auto
    have "st_completed_count (ap_tick env st) < st_completed_count (fold (stream_visit cfg env c plan 4) is (ap_tick env st))"
      using Cons.prems tick(2) same tick_well(1,2) [OF Cons.prems(1)] by (intro Cons.IH) (auto simp: ap_tick_def)
    then show ?thesis by (simp add: tick(1)) (simp add: ap_tick_def)
  qed
qed simp

lemma pass_well:
  assumes well: "going_well c plan st" and plan: "list_all known_plan plan" "length plan \<le> 8"
    and time: "st_wait_loops st < AP_REQUEST_TIMEOUT_LOOPS cfg" and active: "active_slots st \<noteq> {}"
  defines "p \<equiv> stream_pass cfg env c plan 4 st"
  shows "going_well c plan p" "st_wait_loops p = st_wait_loops st" "st_completed_count st < st_completed_count p"
proof -
  let ?st = "ap_tick env st" and ?order = "\<lambda>i. ap_stream_finished_slot_order (stream_slot (ap_tick env st) c i) i"
  note t = tick_well [OF well]
  have tick: "active_slots ?st = active_slots st" "st_wait_loops ?st = st_wait_loops st"
    "st_completed_count ?st = st_completed_count st" by (simp_all add: ap_tick_def active_slots_def)
  have "active_slots ?st \<noteq> {}" using active tick(1) by simp
  note least = arg_min_if_finite [OF finite_active this, of ?order]
  then obtain j where j: "j \<in> active_slots ?st" "\<forall>i \<in> active_slots ?st. \<not> ?order i < ?order j"
    by blast
  then have first: "\<not> ap_stream_has_earlier_finished_slot c 4 j ?st"
    by (auto simp: ap_stream_has_earlier_finished_slot_def list_ex_iff Let_def active_slots_def)
  have visits: "\<forall>i \<in> set [0..<4]. i < 4" "j \<in> set [0..<4]" using j(1) by (auto simp: active_slots_def)
  note v = visits_well [OF t(1) visits(1) plan] visits_progress [OF t(1) visits(1) plan _ t(2) visits(2) j(1) first]
  have p: "p = fold (stream_visit cfg env c plan 4) [0..<4] ?st"
    using v(1) time tick(2) going_wellD(4) ap_ready_not_stop [OF going_wellD(6) [OF t(1)]]
    by (auto simp: p_def stream_pass_def Let_def)
  show "going_well c plan p" "st_wait_loops p = st_wait_loops st" "st_completed_count st < st_completed_count p"
    using v time tick(2,3) unfolding p by auto
qed

lemma going_well_local:
  assumes "going_well c plan st"
  shows "going_well c plan (st\<lparr>st_kernel := (st_kernel st)\<lparr>ks_bsp_lapic := l, ks_bsp_wait_observe := w\<rparr>\<rparr>)"
  using stream_ok_local [OF going_wellD(1) [OF assms], where l = l and w = w] assms
  by (simp add: going_well_def active_slots_def ap_inbox_slot_def ap_ready_def boot_of_def)

lemma going_well_time:
  "going_well c plan (st\<lparr>st_time := t\<rparr>) = going_well c plan st"
  "going_well c plan (st\<lparr>st_wait_loops := w\<rparr>) = going_well c plan st"
  by (simp_all add: going_well_def stream_ok_def stream_inv_ignores active_slots_def recorded_failure_def)

lemma wait_well:
  assumes well: "going_well c plan st" and step: "BSP_WAIT_TIMER_TIMEOUT_STEP cfg \<noteq> 0"
    and wait: "bsp_wait_for_ap_request_event cfg env (st_time st) (st_kernel st) = (n, k')"
  shows "going_well c plan (st\<lparr>st_kernel := k'\<rparr>)" "n \<noteq> 0" "n \<le> BSP_WAIT_TIMER_TIMEOUT_STEP cfg"
proof -
  have one: "1 \<le> BSP_WAIT_TIMER_TIMEOUT_STEP cfg" using step by (simp add: word_le_nat_alt unat_gt_0 Suc_leI)
  have tick: "going_well c plan (s\<lparr>st_kernel := env (st_time s) (st_kernel s)\<rparr>)" if "going_well c plan s" for s
    using tick_well(1) [OF that] going_well_time(1) [where st = "s\<lparr>st_kernel := env (st_time s) (st_kernel s)\<rparr>"]
    by (simp add: ap_tick_def)
  show "n \<noteq> 0" "n \<le> BSP_WAIT_TIMER_TIMEOUT_STEP cfg"
    using wait step one by (auto simp: bsp_wait_for_ap_request_event_def Let_def split: prod.splits bool.splits if_splits)
  obtain armed l where arm: "bsp_arm_wait_timer (ks_system_lapic_base (st_kernel st)) (ks_bsp_lapic (st_kernel st)) = (armed, l)"
    by force
  define s1 where "s1 = st\<lparr>st_kernel := (st_kernel st)\<lparr>ks_bsp_lapic := l, ks_bsp_wait_observe :=
    (ks_bsp_wait_observe (st_kernel st))\<lparr>wo_halt_count := wo_halt_count (ks_bsp_wait_observe (st_kernel st)) + 1\<rparr>\<rparr>\<rparr>"
  have "going_well c plan s1" unfolding s1_def by (rule going_well_local [OF well])
  note local = going_well_local [OF tick [OF this]]
  show "going_well c plan (st\<lparr>st_kernel := k'\<rparr>)"
    using wait tick [OF well] local
    by (cases armed) (auto simp: bsp_wait_for_ap_request_event_def Let_def arm s1_def)
qed

lemma loop_well:
  assumes well: "going_well c plan st" and plan: "list_all known_plan plan" "length plan \<le> 8"
    and step: "BSP_WAIT_TIMER_TIMEOUT_STEP cfg \<noteq> 0" and active: "active_slots st \<noteq> {}"
    and time: "unat (st_wait_loops st) + (length plan - st_completed_count st) * unat (BSP_WAIT_TIMER_TIMEOUT_STEP cfg)
      < unat (AP_REQUEST_TIMEOUT_LOOPS cfg)"
  shows "\<exists>s. stream_loop cfg env c plan 4 st = Some s \<and> going_well c plan s \<and> active_slots s = {} \<and>
    st_next_plan s = length plan"
  using well active time
proof (induction "length plan - st_completed_count st" arbitrary: st rule: less_induct)
  case less
  let ?T = "AP_REQUEST_TIMEOUT_LOOPS cfg" and ?S = "BSP_WAIT_TIMER_TIMEOUT_STEP cfg"
  define p where "p = stream_pass cfg env c plan 4 st"
  have w: "st_wait_loops st < ?T" using less.prems(3) by (simp add: word_less_nat_alt)
  note p = pass_well [OF less.prems(1) plan w less.prems(2), folded p_def]
  have count: "st_completed_count p + card (active_slots p) = st_next_plan p" "st_next_plan p \<le> length plan"
    using going_wellD(2) [OF p(1)] by (simp_all add: stream_inv_def)
  show ?case
  proof (cases "active_slots p = {}")
    case True
    then have "st_next_plan p = length plan" using p(1) count(2) by (auto simp: going_well_def)
    moreover from this have "stream_iteration cfg env c plan 4 st = (True, p)"
      using True by (simp add: stream_iteration_def Let_def p_def [symmetric] active_slot_count_eq)
    ultimately show ?thesis using True p(1) by (subst stream_loop.simps) simp
  next
    case False
    obtain n k' where wait: "bsp_wait_for_ap_request_event cfg env (st_time p) (st_kernel p) = (n, k')" by force
    note ww = wait_well [OF p(1) step wait]
    define st' where "st' = p\<lparr>st_kernel := k', st_time := Suc (st_time p),
      st_wait_loops := advance_ap_request_wait_loops cfg (st_wait_loops p) n\<rparr>"
    have "active_ap_request_slot_count (st_active p) 4 \<noteq> 0" using False by (simp add: active_slot_count_eq)
    then have it: "stream_iteration cfg env c plan 4 st = (False, st')"
      using going_wellD(4) [OF p(1)] w p(2) wait
      by (simp add: stream_iteration_def Let_def p_def [symmetric] st'_def not_le)
    have st': "going_well c plan st'" "active_slots st' \<noteq> {}" "st_completed_count st' = st_completed_count p"
      using ww(1) False going_well_time by (simp_all add: st'_def active_slots_def)
    have "unat (st_wait_loops st') \<le> unat (st_wait_loops st) + unat ?S"
      using advance_le [OF w, of n] ww(3) p(2) by (simp add: st'_def word_le_nat_alt)
    moreover have "Suc (length plan - st_completed_count p) \<le> length plan - st_completed_count st"
      using p(3) count by linarith
    then have "unat ?S + (length plan - st_completed_count p) * unat ?S \<le> (length plan - st_completed_count st) * unat ?S"
      by (metis mult_Suc mult_le_mono1)
    ultimately have "unat (st_wait_loops st') + (length plan - st_completed_count st') * unat ?S < unat ?T"
      unfolding st'(3) using less.prems(3) by linarith
    moreover have "length plan - st_completed_count st' < length plan - st_completed_count st"
      using p(3) count st'(3) by linarith
    ultimately have "\<exists>s. stream_loop cfg env c plan 4 st' = Some s \<and> going_well c plan s \<and> active_slots s = {} \<and>
        st_next_plan s = length plan"
      using less.hyps st'(1,2) by blast
    then show ?thesis by (subst stream_loop.simps) (simp add: it)
  qed
qed

text \<open>The start: four requests are published to an AP that is up.\<close>

lemma stream_reset_boot:
  assumes "ks_wf k"
  shows "boot_of (stream_reset c n k) c = boot_of k c"
proof -
  define k1 where "k1 = upd_queue c (\<lambda>q. q\<lparr>qs_planned_count := word_of_nat n\<rparr>)
    (reset_ap_request_history c (reset_ap_queue_summary c k))"
  have len: "length (ks_contexts k) = 8" using ks_wf_lengths(1) [OF assms] .
  have "boot_of k1 c = boot_of k c"
    using len c8
    by (simp add: k1_def reset_ap_request_history_def reset_ap_queue_summary_def boot_of_def upd_defs upd_ctx_def)
  moreover have "boot_of (reset_ap_inbox_slot c i k') c = boot_of k' c" for i k'
    by (cases "c < length (ks_contexts k')")
      (simp_all add: reset_ap_inbox_slot_def boot_of_def upd_defs upd_ctx_def set_committed_outbox_def Let_def not_less
        list_update_beyond split: option.split)
  then have "boot_of (fold (reset_ap_inbox_slot c) is k') c = boot_of k' c" for "is" k'
    by (induction "is" arbitrary: k') simp_all
  ultimately show ?thesis by (simp add: stream_reset_def Let_def k1_def)
qed

lemma publish_first_well:
  assumes start: "stream_ok c plan st" "st_next_plan st = 0" "active_slots st = {}" "\<not> st_stopped st"
    and up: "ap_ready c (st_kernel st)" and plan: "list_all known_plan plan" "4 \<le> length plan" and n: "n \<le> 4"
  defines "f \<equiv> \<lambda>i st. if st_next_plan st < length plan then stream_publish_next c plan i st else st"
  shows "ap_ready c (st_kernel (fold f [0..<n] st)) \<and> (\<forall>i < n. slot_state (stream_slot (fold f [0..<n] st) c i) =
    AP_REQUEST_STATUS_PENDING \<and> known_request (stream_slot (fold f [0..<n] st) c i))"
  using n
proof (induction n)
  case 0
  then show ?case using up by simp
next
  case (Suc n)
  let ?s = "fold f [0..<n] st"
  have "stream_ok c plan ?s \<and> st_next_plan ?s = n"
    using publish_first_ok [OF start, of n] plan(2) Suc.prems by (simp add: f_def)
  then have s: "ks_wf (st_kernel ?s)" "st_next_plan ?s < length plan"
    using plan(2) Suc.prems by (auto simp: stream_ok_def stream_inv_def)
  have "n < 4" using Suc.prems by simp
  note r = publish_next_ready [OF s(1) c8 this _ plan(1) s(2)]
  show ?case using Suc r s(2) by (auto simp: f_def less_Suc_eq)
qed

lemma start_well:
  assumes wf: "ks_wf k" and up: "ap_ready c k" and plan: "list_all known_plan plan" "4 \<le> length plan"
  defines "st \<equiv> \<lparr>st_kernel = stream_reset c (length plan) k, st_active = replicate 4 False, st_next_plan = 0,
    st_completed_count = 0, st_counter_base = ctx_counter_value (ks_contexts k ! c), st_wait_loops = 0,
    st_stopped = False, st_time = 0\<rparr>"
  shows "going_well c plan (stream_publish_first c plan 4 st)" "active_slots (stream_publish_first c plan 4 st) \<noteq> {}"
    "st_wait_loops (stream_publish_first c plan 4 st) = 0" "st_completed_count (stream_publish_first c plan 4 st) = 0"
    "\<not> ap_request_stream_should_stop (st_kernel st) c"
proof -
  have act: "active_slots st = {}" by (auto simp: active_slots_def st_def)
  have empty: "slot_state (stream_slot st c i) = AP_REQUEST_STATUS_EMPTY" if "i < 4" for i
    unfolding st_def stream_state.select_convs stream_reset_view(2) [OF wf that] by (simp add: zero_slot_def c_const)
  then have "\<forall>i < 4. \<not> in_flight (slot_state (stream_slot st c i))" by (simp add: in_flight_def c_const)
  moreover have "ks_wf (st_kernel st)" using stream_reset_view(1) [OF wf] by (simp add: st_def)
  moreover have "recorded_plans c st = {#}" "active_plans c st = {#}" "\<not> recorded_failure c st"
    by (simp_all add: recorded_plans_def active_plans_def recorded_failure_def act) (simp_all add: st_def)
  ultimately have ok: "stream_ok c plan st"
    using empty unfolding stream_ok_def stream_inv_def act by (simp add: st_def)
  have up': "ap_ready c (st_kernel st)"
    using up ap_ready_boot [OF stream_reset_boot [OF wf]] by (simp add: st_def)
  then show "\<not> ap_request_stream_should_stop (st_kernel st) c" by (rule ap_ready_not_stop)
  have st: "st_next_plan st = 0" "\<not> st_stopped st" "st_wait_loops st = 0" by (simp_all add: st_def)
  let ?s = "stream_publish_first c plan 4 st"
  have first: "stream_ok c plan ?s \<and> st_next_plan ?s = 4 \<and> active_slots ?s = {..<4} \<and> st_wait_loops ?s = 0 \<and> \<not> st_stopped ?s"
    using publish_first_ok [OF ok st(1) act st(2), of 4] plan(2) st(3) by (simp add: stream_publish_first_def)
  moreover have "(0 :: nat) \<in> {..<4}" by simp
  then have some: "{..<4 :: nat} \<noteq> {}" by blast
  ultimately show "active_slots ?s \<noteq> {}" "st_wait_loops ?s = 0" by simp_all
  have "st_completed_count ?s + card (active_slots ?s) = st_next_plan ?s"
    using first unfolding stream_ok_def stream_inv_def by blast
  then show "st_completed_count ?s = 0" using first by simp
  show "going_well c plan ?s"
    using publish_first_well [OF ok st(1) act st(2) up' plan, of 4] first some
    by (simp add: going_well_def stream_publish_first_def)
qed

lemma run_succeeds:
  assumes wf: "ks_wf k" and up: "ap_ready c k" and plan: "list_all known_plan plan" "4 \<le> length plan" "length plan \<le> 8"
    and step: "BSP_WAIT_TIMER_TIMEOUT_STEP cfg \<noteq> 0"
    and time: "length plan * unat (BSP_WAIT_TIMER_TIMEOUT_STEP cfg) < unat (AP_REQUEST_TIMEOUT_LOOPS cfg)"
  shows "\<exists>st. run_ap_request_stream cfg env c plan k = Some (True, st) \<and> ap_ready c (st_kernel st)"
proof -
  note start = start_well [OF wf up plan(1,2)]
  from loop_well [OF start(1) plan(1,3) step start(2)] time start(3,4)
  obtain s where s: "stream_loop cfg env c plan 4 (stream_publish_first c plan 4 \<lparr>st_kernel = stream_reset c (length plan) k,
      st_active = replicate 4 False, st_next_plan = 0, st_completed_count = 0,
      st_counter_base = ctx_counter_value (ks_contexts k ! c), st_wait_loops = 0, st_stopped = False, st_time = 0\<rparr>) = Some s"
    "going_well c plan s" "active_slots s = {}" "st_next_plan s = length plan"
    by auto
  define s1 where "s1 = ap_tick env (s\<lparr>st_kernel := (st_kernel s)\<lparr>ks_bsp_lapic :=
    bsp_disarm_wait_timer (ks_system_lapic_base (st_kernel s)) (ks_bsp_lapic (st_kernel s))\<rparr>\<rparr>)"
  note local = going_well_local [OF s(2), where w = "ks_bsp_wait_observe (st_kernel s)"]
  have s1: "all_answered c s1" "active_slots s1 = {}" "st_completed_count s1 = st_completed_count s"
    using tick_well(2) [OF local] s(3) by (simp_all add: s1_def active_slots_def ap_tick_def)
  have "ap_ready c (st_kernel s1)" using going_wellD(6) [OF tick_well(1) [OF local]] by (simp add: s1_def)
  have "finish_timed_out_ap_stream_slots cfg c 4 s1 = s1"
  proof -
    have "fold (finish_timed_out_slot cfg c) is s1 = s1" if "set is \<subseteq> {..<4}" for "is"
      using that s1(2) by (induction "is") (auto simp: finish_timed_out_slot_def active_slots_def)
    from this [of "[0..<4]"] show ?thesis by (simp add: finish_timed_out_ap_stream_slots_def atLeast0LessThan)
  qed
  moreover have "st_completed_count s1 = length plan"
    using going_wellD(2) [OF s(2)] s(3,4) s1(3) by (simp add: stream_inv_def)
  moreover have "ap_request_all_done (st_kernel s1) c 4"
    using s1(1) by (simp add: ap_request_all_done_def all_answered_def list_all_iff c_const)
  ultimately show ?thesis
    using s(1) start(5) \<open>ap_ready c (st_kernel s1)\<close> by (simp add: run_ap_request_stream_def Let_def ap_inbox_slot_limit_def AP_REQUEST_SLOT_COUNT_def
        drain_ap_request_ipis_def s1_def)
qed

end

section \<open>The request loop answers at once\<close>

lemma serve_slots_done:
  assumes "serve_slots sel is (inbox, h, n) = (inbox', h', n')"
    and "i \<in> set is \<and> slot_state (inbox i) = AP_REQUEST_STATUS_PENDING \<or> slot_state (inbox i) = AP_REQUEST_STATUS_DONE"
  shows "slot_state (inbox' i) = AP_REQUEST_STATUS_DONE"
  using assms
proof (induction "is" arbitrary: inbox h n)
  case (Cons j "is")
  then show ?case
    by (cases "slot_state (inbox j) = AP_REQUEST_STATUS_PENDING"; cases "i = j") (auto simp: served_def c_const)
qed auto

lemma ap_side_answers:
  assumes c: "c = ap_context_from_fault_frame (fs_cpu_at fs) (fs_frame_addr fs)" and wf: "ks_wf k"
    and cfg: "VIBE_AP_REQUEST_FAULT_TEST cfg = VIBE_AP_REQUEST_FAULT_TEST_NONE" and serve: "ap_can_serve c k"
  shows "ap_ready c (ap_side cfg sel fs c t k) \<and> (\<forall>i < 4. in_flight (slot_state (ap_inbox_slot k c i)) \<longrightarrow>
    slot_state (ap_inbox_slot (ap_side cfg sel fs c t k) c i) = AP_REQUEST_STATUS_DONE)"
proof -
  have c8: "c < 8" using c ap_context_from_fault_frame_bound by simp
  have up: "ap_ready c k" using serve by (simp add: ap_can_serve_def)
  have pending: "\<forall>i \<in> set [0..<4]. slot_state (ap_inbox_slot k c i) = AP_REQUEST_STATUS_PENDING \<longrightarrow>
      known_request (ap_inbox_slot k c i)"
    using serve by (auto simp: ap_can_serve_def Let_def in_flight_def)
  from ap_scan_slots_serves [OF wf c8 _ cfg this, where w = False and sel = sel] obtain w k' where
    scan: "ap_scan_slots cfg sel c [0..<4] (False, k) = (w, Ap_Continues k')" "server_of k' c = serve_slots sel [0..<4] (server_of k c)"
    by auto
  have side: "ap_side cfg sel fs c t k = k'"
    using up scan(1) ap_ready_not_stop [OF up] by (simp add: ap_side_def ap_ready_def AP_REQUEST_SLOT_COUNT_def)
  have "ap_ready c k'" using scan_slots_ready [OF wf c8 _ up scan(1)] by simp
  moreover have "slot_state (ap_inbox_slot k' c i) = AP_REQUEST_STATUS_DONE"
    if "i < 4" "in_flight (slot_state (ap_inbox_slot k c i))" for i
  proof -
    have "slot_state (ap_inbox_slot k c i) = AP_REQUEST_STATUS_PENDING"
      using serve that by (auto simp: ap_can_serve_def Let_def)
    then show ?thesis
      using serve_slots_done [OF scan(2) [symmetric, unfolded server_of_def], of i] that(1) by simp
  qed
  ultimately show ?thesis by (simp add: side)
qed

text \<open>The request loop of the kernel, in a build without request fault tests.\<close>

interpretation working_loop: prompt_ap
  "ap_side (cfg\<lparr>VIBE_AP_REQUEST_FAULT_TEST := VIBE_AP_REQUEST_FAULT_TEST_NONE\<rparr>) sel fs
     (ap_context_from_fault_frame (fs_cpu_at fs) (fs_frame_addr fs))"
  "ap_context_from_fault_frame (fs_cpu_at fs) (fs_frame_addr fs)"
  by unfold_locales (rule ap_side_answers, simp_all)

section \<open>Properties\<close>

text \<open>
  C3. A request stream to a working AP succeeds. In a build without request fault tests, when the AP has
  been brought up without an error and is in its loop, the plan has four to eight requests, all for known
  services, and the time-out is longer than one timer step per request, then the stream with the AP making
  a pass of its request loop whenever the BSP looks or waits returns success: the history holds
  exactly the requests of the plan, each once, and every one of them is done.
\<close>

theorem stream_to_working_ap_succeeds:
  assumes "ks_wf k" and c: "c = ap_context_from_fault_frame (fs_cpu_at fs) (fs_frame_addr fs)" and "ap_ready c k"
    and cfg: "VIBE_AP_REQUEST_FAULT_TEST cfg = VIBE_AP_REQUEST_FAULT_TEST_NONE" and "list_all known_plan plan"
    and size: "AP_REQUEST_SLOT_COUNT \<le> length plan" "length plan \<le> AP_REQUEST_HISTORY_COUNT"
    and step: "BSP_WAIT_TIMER_TIMEOUT_STEP cfg \<noteq> 0"
    and "length plan * unat (BSP_WAIT_TIMER_TIMEOUT_STEP cfg) < unat (AP_REQUEST_TIMEOUT_LOOPS cfg)"
  shows "\<exists>st. run_ap_request_stream cfg (ap_side cfg sel fs c) c plan k = Some (True, st) \<and>
    (let h = take (length plan) (history_of (st_kernel st) c) in
      mset (map (\<lambda>e. plan_of_slot (hi_request e)) h) = mset plan \<and>
      list_all (\<lambda>e. slot_state (hi_request e) = AP_REQUEST_STATUS_DONE) h)"
proof -
  have same: "cfg\<lparr>VIBE_AP_REQUEST_FAULT_TEST := VIBE_AP_REQUEST_FAULT_TEST_NONE\<rparr> = cfg" using cfg by simp
  obtain st where run: "run_ap_request_stream cfg (ap_side cfg sel fs c) c plan k = Some (True, st)"
    using working_loop.run_succeeds [where fs = fs and cfg = cfg and cfga = cfg and sel = sel and k = k and plan = plan,
        unfolded same, folded c] assms
    by (auto simp: AP_REQUEST_SLOT_COUNT_def AP_REQUEST_HISTORY_COUNT_def)
  have "c < MAX_AP_CONTEXTS" using c ap_context_from_fault_frame_bound by (simp add: c_const)
  from stream_accounts [where env = "ap_side cfg sel fs c", OF this ap_side_rely [OF c] assms(1) size(2) step]
  show ?thesis unfolding run by (auto simp: Let_def list_all_iff)
qed

text \<open>The third AP of the example kernel after its bring-up, and a plan of pings and counter requests.\<close>

definition working_kernel :: kernel_state where
  "working_kernel = upd_boot 2 (\<lambda>b. b\<lparr>bi_ap_state := AP_BOOT_STATE_ONLINE, bi_error := AP_BOOT_OK, bi_online := 1,
     bi_entry_state := AP_ENTRY_STATE_LOOP\<rparr>) example_kernel"

definition mixed_plan :: "ap_request_plan_t list" where
  "mixed_plan =
     [zero_plan\<lparr>pl_service_id := AP_REQUEST_SERVICE_PING, pl_interface_id := AP_REQUEST_INTERFACE_PING, pl_sequence := 1\<rparr>,
      zero_plan\<lparr>pl_service_id := AP_REQUEST_SERVICE_COUNTER, pl_interface_id := AP_REQUEST_INTERFACE_COUNTER_INCREMENT,
        pl_sequence := 2\<rparr>,
      zero_plan\<lparr>pl_service_id := AP_REQUEST_SERVICE_PING, pl_interface_id := AP_REQUEST_INTERFACE_PING, pl_sequence := 3\<rparr>,
      zero_plan\<lparr>pl_service_id := AP_REQUEST_SERVICE_COUNTER, pl_interface_id := AP_REQUEST_INTERFACE_COUNTER_INCREMENT,
        pl_sequence := 4\<rparr>,
      zero_plan\<lparr>pl_service_id := AP_REQUEST_SERVICE_COUNTER, pl_interface_id := AP_REQUEST_INTERFACE_COUNTER_INCREMENT,
        pl_sequence := 5\<rparr>]"

theorem stream_to_working_ap_succeeds_witness:
  "\<exists>st. run_ap_request_stream default_build (ap_side default_build \<lparr>sel_cs = 8, sel_tr = 24\<rparr> example_faults 2) 2
     mixed_plan working_kernel = Some (True, st)"
proof -
  have "ks_wf working_kernel" "ap_ready 2 working_kernel"
    unfolding working_kernel_def ap_ready_def using example_kernel_wf by (simp_all add: ks_view ks_wf_upd c_const)
  moreover have "list_all known_plan mixed_plan" "length mixed_plan = 5"
    by (simp_all add: mixed_plan_def known_plan_def)
  moreover have "VIBE_AP_REQUEST_FAULT_TEST default_build = VIBE_AP_REQUEST_FAULT_TEST_NONE"
    "BSP_WAIT_TIMER_TIMEOUT_STEP default_build = 100000" "AP_REQUEST_TIMEOUT_LOOPS default_build = 100000000"
    by (simp_all add: default_build_def c_const)
  ultimately show ?thesis
    using stream_to_working_ap_succeeds [where c = 2 and fs = example_faults and k = working_kernel and
        plan = mixed_plan and cfg = default_build and sel = "\<lparr>sel_cs = 8, sel_tr = 24\<rparr>"]
    by (auto simp: example_faults_context c_const)
qed

end
