(* ===== verification/Ap_Fleet_Live.thy ===== *)
theory Ap_Fleet_Live
  imports Ap_Broadcast Ap_Stream_Live
begin

text \<open>
  All APs at work: a broadcast ping leaves every AP that is up between two requests, so the request
  stream that follows finds its AP working, and the stream leaves the other APs alone. The interface of
  a set of APs that serve is a locale over the one of \<open>Ap_Broadcast\<close>; the request loops of the kernel
  are an instance.
\<close>

section \<open>A fleet that serves\<close>

text \<open>The first \<open>n\<close> contexts have an AP that can serve; nothing is pending in the others.\<close>

definition context_serves :: "nat \<Rightarrow> nat \<Rightarrow> kernel_state \<Rightarrow> bool" where
  "context_serves n d k \<longleftrightarrow> (if d < n then ap_can_serve d k
     else (\<forall>i < 4. slot_state (ap_inbox_slot k d i) \<noteq> AP_REQUEST_STATUS_PENDING))"

definition fleet_serving :: "nat \<Rightarrow> kernel_state \<Rightarrow> bool" where
  "fleet_serving n k \<longleftrightarrow> ks_wf k \<and> (\<forall>d < 8. context_serves n d k)"

lemma fleet_servingD:
  assumes "fleet_serving n k"
  shows "ks_wf k" "d < 8 \<Longrightarrow> context_serves n d k" "d < n \<Longrightarrow> d < 8 \<Longrightarrow> ap_can_serve d k"
  using assms by (auto simp: fleet_serving_def context_serves_def)

lemma context_serves_cong:
  assumes "ks_contexts k' ! d = ks_contexts k ! d"
  shows "context_serves n d k' = context_serves n d k" "ap_can_serve d k' = ap_can_serve d k"
  using assms by (simp_all add: context_serves_def ap_can_serve_def ap_ready_def boot_of_def ap_inbox_slot_def)

text \<open>A step on one context.\<close>

lemma fleet_serving_step:
  assumes "fleet_serving n k" "ks_wf k'" "others_same c k k'" "context_serves n c k'"
  shows "fleet_serving n k'"
  unfolding fleet_serving_def
proof (intro conjI allI impI)
  fix d :: nat assume d: "d < 8"
  show "context_serves n d k'"
  proof (cases "d = c")
    case False
    then have "ks_contexts k' ! d = ks_contexts k ! d" using assms(3) by (simp add: others_same_def)
    then show ?thesis using context_serves_cong(1) fleet_servingD(2) [OF assms(1) d] by blast
  qed (use assms(4) in simp)
qed (rule assms(2))

lemma fleet_serving_contexts:
  assumes "fleet_serving n k" "ks_wf k'" "ks_contexts k' = ks_contexts k"
  shows "fleet_serving n k'"
  using assms context_serves_cong(1) [of k' _ k n] by (simp add: fleet_serving_def)

lemma slot_step_serves:
  assumes serving: "fleet_serving n k" and wf: "c < 8" "i < 4" and c: "c < n"
    and f: "let s = f (ap_inbox_slot k c i) in slot_state s = AP_REQUEST_STATUS_PENDING \<and> known_request s \<or> \<not> in_flight (slot_state s)"
  shows "fleet_serving n (upd_slot c i f k)"
proof (rule fleet_serving_step [OF serving])
  have w: "ks_wf k" using fleet_servingD(1) [OF serving] .
  then show "ks_wf (upd_slot c i f k)" using wf by (simp add: ks_wf_upd)
  have "boot_of (upd_slot c i f k) c = boot_of k c" using w wf by (simp add: ks_view)
  from ap_ready_boot [OF this] have "ap_ready c (upd_slot c i f k)"
    using fleet_servingD(3) [OF serving c wf(1)] by (simp add: ap_can_serve_def)
  moreover have "ap_inbox_slot (upd_slot c i f k) c j = (if j = i then f (ap_inbox_slot k c i) else ap_inbox_slot k c j)" for j
    using w wf by (simp add: ks_view)
  ultimately show "context_serves n c (upd_slot c i f k)"
    using fleet_servingD(3) [OF serving c wf(1)] f c by (simp add: context_serves_def ap_can_serve_def Let_def)
qed simp

section \<open>A pass of one request loop\<close>

lemma idle_scan:
  "\<forall>i \<in> set is. slot_state (ap_inbox_slot k c i) \<noteq> AP_REQUEST_STATUS_PENDING \<Longrightarrow>
   ap_scan_slots cfg sel c is (w, k) = (w, Ap_Continues k)"
  by (induction "is") (simp_all add: ap_claim_slot_skip)

lemma ap_side_serving:
  assumes c: "c = ap_context_from_fault_frame (fs_cpu_at fs) (fs_frame_addr fs)"
    and cfg: "VIBE_AP_REQUEST_FAULT_TEST cfg = VIBE_AP_REQUEST_FAULT_TEST_NONE" and serving: "fleet_serving n k"
  shows "fleet_serving n (ap_side cfg sel fs c t k)"
proof -
  have c8: "c < 8" using c ap_context_from_fault_frame_bound by simp
  have wf: "ks_wf k" using fleet_servingD(1) [OF serving] .
  note rely = ap_side_rely [OF c wf, of cfg sel t, unfolded ap_rely_def]
  show ?thesis
  proof (cases "c < n")
    case True
    note serve = fleet_servingD(3) [OF serving True c8]
    note ans = ap_side_answers [OF c wf cfg serve, of sel t]
    have "\<not> in_flight (slot_state (ap_inbox_slot (ap_side cfg sel fs c t k) c i))" if "i < 4" for i
    proof (cases "in_flight (slot_state (ap_inbox_slot k c i))")
      case True
      then show ?thesis using ans that done_facts(1) by simp
    next
      case False
      then have "ap_inbox_slot (ap_side cfg sel fs c t k) c i = ap_inbox_slot k c i"
        using rely that by (simp add: slot_rely_def)
      then show ?thesis using False by simp
    qed
    then have "context_serves n c (ap_side cfg sel fs c t k)"
      using ans True by (simp add: context_serves_def ap_can_serve_def Let_def)
    then show ?thesis using fleet_serving_step [OF serving] rely by blast
  next
    case False
    then have "\<forall>i \<in> set [0..<4]. slot_state (ap_inbox_slot k c i) \<noteq> AP_REQUEST_STATUS_PENDING"
      using fleet_servingD(2) [OF serving c8] by (auto simp: context_serves_def)
    from idle_scan [OF this, of cfg sel False] have "ap_side cfg sel fs c t k = k"
      by (simp add: ap_side_def AP_REQUEST_SLOT_COUNT_def)
    then show ?thesis using serving by simp
  qed
qed

lemma fleet_side_serving:
  assumes "VIBE_AP_REQUEST_FAULT_TEST cfg = VIBE_AP_REQUEST_FAULT_TEST_NONE"
  shows "fleet_serving n k \<Longrightarrow> fleet_serving n (fleet_side cfg sel fss t k)"
  by (induction fss arbitrary: k) (simp_all add: fleet_side_def ap_side_serving [OF refl assms])

section \<open>The broadcast keeps the fleet serving\<close>

text \<open>Every one of the first \<open>n\<close> APs has its ping waiting, or has given a good answer.\<close>

definition ping_waiting :: "ap_request_slot_t \<Rightarrow> bool" where
  "ping_waiting s \<longleftrightarrow> slot_state s = AP_REQUEST_STATUS_PENDING \<and> rq_opcode (slot_request s) = AP_REQUEST_OP_PING \<and>
     rq_service_id (slot_request s) = AP_REQUEST_SERVICE_PING \<and> rq_interface_id (slot_request s) = AP_REQUEST_INTERFACE_PING"

definition pings_in :: "(ap_request_slot_t \<Rightarrow> bool) \<Rightarrow> nat \<Rightarrow> kernel_state \<Rightarrow> bool" where
  "pings_in P n k \<longleftrightarrow> fleet_serving n k \<and> (\<forall>d < n. P (ping_slot k d))"

abbreviation pings_out :: "nat \<Rightarrow> kernel_state \<Rightarrow> bool" where
  "pings_out \<equiv> pings_in (\<lambda>s. ping_waiting s \<or> ap_broadcast_ping_result_ok s)"

abbreviation pings_done :: "nat \<Rightarrow> kernel_state \<Rightarrow> bool" where
  "pings_done \<equiv> pings_in ap_broadcast_ping_result_ok"

lemma ping_result_state: "ap_broadcast_ping_result_ok s \<Longrightarrow> slot_state s = AP_REQUEST_STATUS_DONE"
  by (simp add: ap_broadcast_ping_result_ok_def)

lemma ping_result_metrics [simp]:
  "ap_broadcast_ping_result_ok (s\<lparr>slot_metrics := m\<rparr>) = ap_broadcast_ping_result_ok s"
  by (simp add: ap_broadcast_ping_result_ok_def)

lemma ping_waiting_plan:
  assumes "plan_of_slot s = broadcast_ping_plan i" "slot_state s = AP_REQUEST_STATUS_PENDING"
  shows "ping_waiting s"
  using assms by (simp add: ping_waiting_def plan_of_slot_def broadcast_ping_plan_def Let_def)

lemma served_ping: "ping_waiting s \<Longrightarrow> ap_broadcast_ping_result_ok (served sel h n s)"
  by (simp add: ping_waiting_def ap_broadcast_ping_result_ok_def served_def c_const)

lemma pings_done_out: "pings_done n k \<Longrightarrow> pings_out n k"
  by (simp add: pings_in_def)

lemma pings_in_contexts:
  assumes "pings_in S n k" "ks_wf k'" "ks_contexts k' = ks_contexts k"
  shows "pings_in S n k'"
  using assms fleet_serving_contexts [OF _ assms(2,3)] by (simp add: pings_in_def ping_slot_def ap_inbox_slot_def)

lemma pings_in_wf: "pings_in S n k \<Longrightarrow> ks_wf k"
  using fleet_servingD(1) by (auto simp: pings_in_def)

lemma pings_in_local:
  assumes "pings_in S n k"
  shows "pings_in S n (k\<lparr>ks_bsp_lapic := l, ks_bsp_wait_observe := w\<rparr>)" "pings_in S n (k\<lparr>ks_bsp_lapic := l\<rparr>)"
  by (rule pings_in_contexts [OF assms]; use pings_in_wf [OF assms] in \<open>simp add: ks_wf_def\<close>)+

lemma pings_in_record:
  assumes "pings_in S n k"
  shows "pings_in S n (record_ap_broadcast_ping_result i c s w k)"
proof (rule pings_in_contexts [OF assms])
  show "ks_wf (record_ap_broadcast_ping_result i c s w k)" using pings_in_wf [OF assms] by simp
  show "ks_contexts (record_ap_broadcast_ping_result i c s w k) = ks_contexts k"
    by (simp add: record_ap_broadcast_ping_result_def Let_def)
qed

text \<open>An answered ping stays answered when its metrics are set or its time is declared over.\<close>

lemma pings_done_slot:
  assumes "pings_done n k" "i < n" "n \<le> 8" "ap_broadcast_ping_result_ok (f (ping_slot k i))"
  shows "pings_done n (upd_slot i AP_BROADCAST_PING_SLOT_INDEX f k)"
proof -
  have "fleet_serving n (upd_slot i AP_BROADCAST_PING_SLOT_INDEX f k)"
    using assms ping_result_state [OF assms(4)]
    by (intro slot_step_serves) (auto simp: pings_in_def ping_slot_def AP_BROADCAST_PING_SLOT_INDEX_def Let_def)
  moreover have "ping_slot (upd_slot i AP_BROADCAST_PING_SLOT_INDEX f k) d = (if d = i then f (ping_slot k i) else ping_slot k d)" for d
    using pings_in_wf [OF assms(1)] assms(2,3) by (simp add: ping_slot_def AP_BROADCAST_PING_SLOT_INDEX_def ks_view)
  ultimately show ?thesis using assms(1,4) by (simp add: pings_in_def)
qed

locale serving_fleet = ap_fleet +
  fixes n :: nat
  assumes serves: "fleet_serving n k \<Longrightarrow> fleet_serving n (env t k)" and n8: "n \<le> 8"
    and answers: "fleet_serving n k \<Longrightarrow> d < n \<Longrightarrow> ping_waiting (ping_slot k d) \<Longrightarrow>
      ap_broadcast_ping_result_ok (ping_slot (env t k) d)"
begin

lemma env_pings:
  assumes "pings_out n k"
  shows "pings_done n (env t k)"
proof -
  have serving: "fleet_serving n k" using assms by (simp add: pings_in_def)
  have "ap_broadcast_ping_result_ok (ping_slot (env t k) d)" if "d < n" for d
  proof (cases "ping_waiting (ping_slot k d)")
    case True
    then show ?thesis using answers [OF serving that] by simp
  next
    case False
    then have fin: "ap_broadcast_ping_result_ok (ping_slot k d)" using assms that by (auto simp: pings_in_def)
    then have "ping_slot (env t k) d = ping_slot k d"
      using fleet [OF fleet_servingD(1) [OF serving], of t] ping_result_state [OF fin] that n8
      by (auto simp: fleet_rely_def slot_rely_def)
    then show ?thesis using fin by simp
  qed
  then show ?thesis using serves [OF serving] by (simp add: pings_in_def)
qed

lemma tick_pings: "pings_out n (pg_kernel st) \<Longrightarrow> pings_done n (pg_kernel (ping_tick env st))"
  by (simp add: ping_tick_def env_pings)

text \<open>Publishing a ping to a working AP.\<close>

lemma publish_serving:
  assumes "fleet_serving n (pg_kernel st)" "i < n"
  shows "fleet_serving n (pg_kernel (ping_publish i st))"
    "ping_waiting (ping_slot (pg_kernel (ping_publish i st)) i)"
    "j \<noteq> i \<Longrightarrow> ping_slot (pg_kernel (ping_publish i st)) j = ping_slot (pg_kernel st) j"
proof -
  let ?k = "pg_kernel st"
  let ?k1 = "publish_ap_inbox_request i AP_BROADCAST_PING_SLOT_INDEX (broadcast_ping_plan i) False ?k"
  have wf: "ks_wf ?k" "i < 8" "AP_BROADCAST_PING_SLOT_INDEX < 4"
    using fleet_servingD(1) [OF assms(1)] assms(2) n8 by (simp_all add: AP_BROADCAST_PING_SLOT_INDEX_def)
  note pub = publish_view [OF wf, where p = "broadcast_ping_plan i" and kick = False]
  have serve: "ap_can_serve i ?k" using fleet_servingD(3) [OF assms wf(2)] .
  then have up: "ap_ready i ?k" by (simp add: ap_can_serve_def)
  then have up1: "ap_ready i ?k1" using ap_ready_boot publish_quiet_boot [OF wf] by blast
  have "known_request (ap_inbox_slot ?k1 i AP_BROADCAST_PING_SLOT_INDEX)"
    unfolding known_request_plan pub(4) by (simp add: broadcast_ping_plan_def)
  moreover have pending: "slot_state (ap_inbox_slot ?k1 i AP_BROADCAST_PING_SLOT_INDEX) = AP_REQUEST_STATUS_PENDING"
    using up wf by (simp add: publish_ap_inbox_request_def Let_def ap_ready_def ks_view ks_wf_upd)
  ultimately have "ap_can_serve i ?k1"
    using serve up1 pub(3) unfolding ap_can_serve_def Let_def by metis
  then have "context_serves n i ?k1" using assms(2) by (simp add: context_serves_def)
  then have k1: "fleet_serving n ?k1" using fleet_serving_step [OF assms(1) pub(1), of i] by simp
  have acc: "ap_context_can_accept_broadcast_ping ?k i"
    using up by (simp add: ap_context_can_accept_broadcast_ping_def ap_ready_def)
  have kernel: "pg_kernel (ping_publish i st) = ?k1\<lparr>ks_broadcast_ping_summary := (ks_broadcast_ping_summary ?k1)\<lparr>
      ps_planned_count := ps_planned_count (ks_broadcast_ping_summary ?k1) + 1\<rparr>\<rparr>"
    using acc by (simp add: ping_publish_def Let_def)
  show "fleet_serving n (pg_kernel (ping_publish i st))"
    unfolding kernel by (rule fleet_serving_contexts [OF k1]) (use pub(1) in \<open>simp_all add: ks_wf_def\<close>)
  show "ping_waiting (ping_slot (pg_kernel (ping_publish i st)) i)"
    using ping_waiting_plan [OF pub(4) pending] by (simp add: kernel ping_slot_def ap_inbox_slot_def)
  have "others_same i ?k ?k1" by simp
  then show "ping_slot (pg_kernel (ping_publish i st)) j = ping_slot ?k j" if "j \<noteq> i"
    using that by (simp add: kernel ping_slot_def ap_inbox_slot_def others_same_def)
qed

lemma publish_all_serving:
  assumes "fleet_serving n (pg_kernel st)" "m \<le> n"
  shows "fleet_serving n (pg_kernel (fold ping_publish [0..<m] st)) \<and>
    (\<forall>d < m. ping_waiting (ping_slot (pg_kernel (fold ping_publish [0..<m] st)) d))"
  using assms(2)
proof (induction m)
  case (Suc m)
  let ?st = "fold ping_publish [0..<m] st"
  have "fleet_serving n (pg_kernel ?st)" "m < n" using Suc by simp_all
  note p = publish_serving [OF this]
  show ?case using Suc p by (auto simp: less_Suc_eq)
qed (use assms(1) in simp)

lemma collect_pings:
  assumes "pings_out n (pg_kernel st)" "i < n"
  shows "pings_out n (pg_kernel (ping_collect env i st))"
proof -
  let ?st = "ping_tick env st"
  note tick = tick_pings [OF assms(1)]
  have "pings_done n (upd_slot i AP_BROADCAST_PING_SLOT_INDEX (\<lambda>s. s\<lparr>slot_metrics := m s\<rparr>) (pg_kernel ?st))" for m
    using tick assms(2) n8 by (intro pings_done_slot) (simp_all add: pings_in_def)
  from pings_done_out [OF pings_in_record [OF this]] pings_done_out [OF tick] show ?thesis
    by (simp add: ping_collect_def Let_def)
qed

lemma give_up_pings:
  assumes "pings_out n (pg_kernel st)" "i < n"
  shows "pings_out n (pg_kernel (ping_give_up cfg env i st))"
proof -
  let ?st = "ping_tick env st"
  note tick = tick_pings [OF assms(1)]
  have fin: "ap_broadcast_ping_result_ok (ping_slot (pg_kernel ?st) i)" using tick assms(2) by (simp add: pings_in_def)
  with ping_result_state [OF fin] have "pings_done n (upd_slot i AP_BROADCAST_PING_SLOT_INDEX (timeout_ap_broadcast_ping_slot cfg) (pg_kernel ?st))"
    using tick assms(2) n8 by (intro pings_done_slot) (simp_all add: timeout_ap_broadcast_ping_slot_def Let_def)
  from pings_done_out [OF pings_in_record [OF this]] pings_done_out [OF tick] show ?thesis
    by (simp add: ping_give_up_def Let_def)
qed

lemma fold_pings:
  assumes "\<And>i st. i < n \<Longrightarrow> pings_out n (pg_kernel st) \<Longrightarrow> pings_out n (pg_kernel (f i st))"
  shows "\<forall>i \<in> set is. i < n \<Longrightarrow> pings_out n (pg_kernel st) \<Longrightarrow> pings_out n (pg_kernel (fold f is st))"
  by (induction "is" arbitrary: st) (simp_all add: assms)

lemma wait_pings:
  assumes "pings_out n k" "bsp_wait_for_ap_request_event cfg env t k = (s, k')"
  shows "pings_out n k'"
proof -
  have "pings_out n (env t k)" if "pings_out n k" for k using that env_pings pings_done_out by blast
  then show ?thesis
    using assms pings_in_local
    by (auto simp: bsp_wait_for_ap_request_event_def Let_def split: prod.splits bool.splits)
qed

lemma loop_pings:
  "ping_loop cfg env n st = Some st' \<Longrightarrow> pings_out n (pg_kernel st) \<Longrightarrow> pings_out n (pg_kernel st')"
proof (erule ping_loop.raw_induct [where P = "\<lambda>cfg' env' m st r. env' = env \<longrightarrow> m = n \<longrightarrow>
    pings_out n (pg_kernel st) \<longrightarrow> pings_out n (pg_kernel r)", rule_format, rotated])
  fix loop cfg env' m st r
  assume IH: "\<And>cfg env' m st y. loop cfg env' m st = Some y \<Longrightarrow> env' = env \<Longrightarrow> m = n \<Longrightarrow>
      pings_out n (pg_kernel st) \<Longrightarrow> pings_out n (pg_kernel y)"
    and eq: "env' = env" "m = n" and st: "pings_out n (pg_kernel st)"
    and run: "(if pg_active_count st > 0 \<and> pg_wait_loops st < AP_REQUEST_TIMEOUT_LOOPS cfg
      then
        (let st = fold (ping_collect env') [0..<m] st
         in if pg_active_count st = 0 then Some st
            else
              (let (step, k) = bsp_wait_for_ap_request_event cfg env' (pg_time st) (pg_kernel st)
               in loop cfg env' m (st\<lparr>pg_kernel := k, pg_time := Suc (pg_time st),
                    pg_wait_loops := advance_ap_request_wait_loops cfg (pg_wait_loops st) step\<rparr>)))
      else Some st) = Some r"
  let ?st = "fold (ping_collect env) [0..<n] st"
  obtain s k where wait: "bsp_wait_for_ap_request_event cfg env (pg_time ?st) (pg_kernel ?st) = (s, k)" by force
  have "pings_out n (pg_kernel ?st)" by (rule fold_pings) (use collect_pings st in auto)
  with wait_pings [OF this wait] show "pings_out n (pg_kernel r)"
    using run st IH by (auto simp: eq Let_def wait split: if_splits)
qed (simp_all)

lemma broadcast_serving:
  assumes "run_ap_broadcast_ping cfg env n (Some r) k = Some k'" "fleet_serving n k" "r < 8"
  shows "pings_done n k'"
proof -
  let ?st = "\<lparr>pg_kernel = reset_ap_broadcast_ping_summary k, pg_active = replicate MAX_AP_CONTEXTS False,
    pg_active_count = 0, pg_wait_loops = 0, pg_time = 0\<rparr>"
  have m: "(if n > MAX_AP_CONTEXTS then MAX_AP_CONTEXTS else n) = n" using n8 by (simp add: MAX_AP_CONTEXTS_def)
  obtain st1 where loop: "ping_loop cfg env n (fold ping_publish [0..<n] ?st) = Some st1"
    using assms(1) by (auto simp: run_ap_broadcast_ping_def Let_def m split: option.splits)
  define st2 where "st2 = (if pg_active_count st1 > 0 then fold (ping_give_up cfg env) [0..<n] st1 else st1)"
  define k1 where "k1 = env (pg_time st2) ((pg_kernel st2)\<lparr>ks_bsp_lapic :=
    bsp_disarm_wait_timer (ks_system_lapic_base (pg_kernel st2)) (ks_bsp_lapic (pg_kernel st2))\<rparr>)"
  have "fleet_serving n (pg_kernel ?st)"
    by (simp, rule fleet_serving_contexts [OF assms(2)])
      (use fleet_servingD(1) [OF assms(2)] in \<open>simp_all add: reset_ap_broadcast_ping_summary_def ks_wf_def\<close>)
  from publish_all_serving [OF this order_refl] have "pings_out n (pg_kernel (fold ping_publish [0..<n] ?st))"
    by (simp add: pings_in_def)
  then have st1: "pings_out n (pg_kernel st1)" by (rule loop_pings [OF loop])
  then have "pings_out n (pg_kernel (fold (ping_give_up cfg env) [0..<n] st1))"
    by (intro fold_pings) (use give_up_pings in auto)
  with st1 have "pings_out n (pg_kernel st2)" by (simp add: st2_def)
  then have fin: "pings_done n k1" unfolding k1_def by (intro env_pings pings_in_local)
  then have s1: "fleet_serving n k1" by (simp add: pings_in_def)
  have k': "k' = reset_ap_request_transport_observe r (upd_ctx r (\<lambda>x. x\<lparr>
      ctx_request_handled_count := ctx_request_handled_count (ks_contexts k ! r),
      ctx_counter_value := ctx_counter_value (ks_contexts k ! r)\<rparr>) k1)"
    using assms(1) loop unfolding run_ap_broadcast_ping_def m Let_def by (simp add: st2_def [symmetric] k1_def [symmetric])
  have wf: "ks_wf k1" "length (ks_contexts k1) = 8"
    using fleet_servingD(1) [OF s1] ks_wf_lengths(1) by blast+
  then have wf': "ks_wf k'"
    unfolding k' reset_ap_request_transport_observe_def using assms(3) by (intro ks_wf_upd_ctx) (auto simp: context_wf_def)
  have same: "boot_of k' r = boot_of k1 r" "ap_inbox_slot k' d i = ap_inbox_slot k1 d i" for d i
    unfolding k' using wf(2) assms(3)
    by (simp_all add: reset_ap_request_transport_observe_def boot_of_def ap_inbox_slot_def ks_view)
  have "ap_ready r k' = ap_ready r k1" by (rule ap_ready_boot [OF same(1)])
  then have "context_serves n r k' = context_serves n r k1"
    unfolding context_serves_def ap_can_serve_def same(2) by simp
  then have "context_serves n r k'" using fleet_servingD(2) [OF s1 assms(3)] by simp
  moreover have "others_same r k1 k'" unfolding k' reset_ap_request_transport_observe_def by simp
  ultimately have "fleet_serving n k'" using fleet_serving_step [OF s1 wf'] by blast
  then show ?thesis using fin by (simp add: pings_in_def ping_slot_def same(2))
qed

end

text \<open>
  The request loops of the kernel, in a build without request fault tests. A fleet answers for the
  contexts its request loops belong to.
\<close>

definition fleet_context :: "fault_setup \<Rightarrow> nat" where
  "fleet_context fs = ap_context_from_fault_frame (fs_cpu_at fs) (fs_frame_addr fs)"

lemma serve_slots_other: "i \<notin> set is \<Longrightarrow> fst (serve_slots sel is (inbox, h, n)) i = inbox i"
  by (induction "is" arbitrary: inbox h n) auto

lemma ap_side_ping:
  assumes cfg: "VIBE_AP_REQUEST_FAULT_TEST cfg = VIBE_AP_REQUEST_FAULT_TEST_NONE" and wf: "ks_wf k"
    and serve: "ap_can_serve (fleet_context fs) k" and ping: "ping_waiting (ping_slot k (fleet_context fs))"
  shows "ap_broadcast_ping_result_ok (ping_slot (ap_side cfg sel fs (fleet_context fs) t k) (fleet_context fs))"
proof -
  let ?c = "fleet_context fs"
  have c8: "?c < 8" using ap_context_from_fault_frame_bound by (simp add: fleet_context_def)
  have up: "ap_ready ?c k" using serve by (simp add: ap_can_serve_def)
  have "\<forall>i \<in> set [0..<4]. slot_state (ap_inbox_slot k ?c i) = AP_REQUEST_STATUS_PENDING \<longrightarrow> known_request (ap_inbox_slot k ?c i)"
    using serve by (auto simp: ap_can_serve_def Let_def in_flight_def)
  from ap_scan_slots_serves [OF wf c8 _ cfg this, where w = False and sel = sel] obtain w k' where
    scan: "ap_scan_slots cfg sel ?c [0..<4] (False, k) = (w, Ap_Continues k')" "server_of k' ?c = serve_slots sel [0..<4] (server_of k ?c)"
    by auto
  have side: "ap_side cfg sel fs ?c t k = k'"
    using up scan(1) ap_ready_not_stop [OF up] by (simp add: ap_side_def ap_ready_def AP_REQUEST_SLOT_COUNT_def)
  have pending: "slot_state (ap_inbox_slot k ?c 0) = AP_REQUEST_STATUS_PENDING"
    using ping by (simp add: ping_waiting_def ping_slot_def AP_BROADCAST_PING_SLOT_INDEX_def)
  have "serve_slots sel [0..<4] (server_of k ?c) = serve_slots sel [1, 2, 3]
      ((ap_inbox_slot k ?c)(0 := served sel (handled_of k ?c) (counter_of k ?c) (ap_inbox_slot k ?c 0)), handled_of k ?c + 1,
       next_counter (counter_of k ?c) (ap_inbox_slot k ?c 0))"
    using pending by (simp add: upt_rec [of _ 4] server_of_def numeral_eq_Suc)
  then have "ap_inbox_slot k' ?c 0 = served sel (handled_of k ?c) (counter_of k ?c) (ap_inbox_slot k ?c 0)"
    using arg_cong [OF scan(2), of "\<lambda>x. fst x 0"] serve_slots_other [of 0 "[1, 2, 3]" sel] by (simp add: server_of_def)
  then show ?thesis using served_ping [OF ping] by (simp add: side ping_slot_def AP_BROADCAST_PING_SLOT_INDEX_def)
qed

lemma fleet_side_pings:
  assumes cfg: "VIBE_AP_REQUEST_FAULT_TEST cfg = VIBE_AP_REQUEST_FAULT_TEST_NONE" and "d < n" "n \<le> 8"
  shows "fleet_serving n k \<Longrightarrow> ping_waiting (ping_slot k d) \<and> d \<in> fleet_context ` set fss \<or>
      ap_broadcast_ping_result_ok (ping_slot k d) \<Longrightarrow>
    ap_broadcast_ping_result_ok (ping_slot (fleet_side cfg sel fss t k) d)"
proof (induction fss arbitrary: k)
  case (Cons fs fss)
  let ?k = "ap_side cfg sel fs (fleet_context fs) t k"
  have d: "d < 8" using assms(2,3) by simp
  note wf = fleet_servingD(1) [OF Cons.prems(1)]
  have rely: "ap_rely (fleet_context fs) k ?k" using ap_side_rely [OF _ wf] by (simp add: fleet_context_def)
  have k1: "fleet_serving n ?k" using ap_side_serving [OF refl cfg Cons.prems(1)] by (simp add: fleet_context_def)
  have "ping_waiting (ping_slot ?k d) \<and> d \<in> fleet_context ` set fss \<or> ap_broadcast_ping_result_ok (ping_slot ?k d)"
  proof (cases "ap_broadcast_ping_result_ok (ping_slot k d)")
    case True
    then have "ping_slot ?k d = ping_slot k d"
      using ap_rely_fleet [OF rely] ping_result_state [OF True] d by (auto simp: fleet_rely_def slot_rely_def)
    then show ?thesis using True by simp
  next
    case False
    then have wait: "ping_waiting (ping_slot k d)" "d \<in> fleet_context ` set (fs # fss)" using Cons.prems(2) by blast+
    show ?thesis
    proof (cases "d = fleet_context fs")
      case True
      then show ?thesis
        using ap_side_ping [OF cfg wf, of fs sel t] fleet_servingD(3) [OF Cons.prems(1) assms(2) d] wait(1) by simp
    next
      case False
      then have "ping_slot ?k d = ping_slot k d"
        using rely by (simp add: ap_rely_def others_same_def ping_slot_def ap_inbox_slot_def)
      then show ?thesis using wait False by simp
    qed
  qed
  from Cons.IH [OF k1 this] show ?case by (simp add: fleet_side_def fleet_context_def)
qed (auto simp: fleet_side_def)

interpretation serving_loops: serving_fleet
  "fleet_side (cfg\<lparr>VIBE_AP_REQUEST_FAULT_TEST := VIBE_AP_REQUEST_FAULT_TEST_NONE\<rparr>) sel fss"
  "if {..<min n 8} \<subseteq> fleet_context ` set fss then min n 8 else 0"
proof unfold_locales
  let ?cfg = "cfg\<lparr>VIBE_AP_REQUEST_FAULT_TEST := VIBE_AP_REQUEST_FAULT_TEST_NONE\<rparr>"
  let ?n = "if {..<min n 8} \<subseteq> fleet_context ` set fss then min n 8 else 0"
  have cfg: "VIBE_AP_REQUEST_FAULT_TEST ?cfg = VIBE_AP_REQUEST_FAULT_TEST_NONE" and n8: "?n \<le> 8" by simp_all
  show "fleet_serving ?n (fleet_side ?cfg sel fss t k)" if "fleet_serving ?n k" for k t
    using that by (rule fleet_side_serving [OF cfg])
  show "?n \<le> 8" by (rule n8)
  show "ap_broadcast_ping_result_ok (ping_slot (fleet_side ?cfg sel fss t k) d)"
    if "fleet_serving ?n k" "d < ?n" "ping_waiting (ping_slot k d)" for k d t
  proof (rule fleet_side_pings [OF cfg that(2) n8 that(1)])
    have "d \<in> fleet_context ` set fss" using that(2) by (auto split: if_splits)
    then show "ping_waiting (ping_slot k d) \<and> d \<in> fleet_context ` set fss \<or>
      ap_broadcast_ping_result_ok (ping_slot k d)" using that(3) by simp
  qed
qed

section \<open>The other APs during a stream\<close>

lemma others_same_trans: "others_same c k k' \<Longrightarrow> others_same c k' k'' \<Longrightarrow> others_same c k k''"
  by (simp add: others_same_def)

text \<open>The BSP writes only to the context it streams to.\<close>

lemma others_same_bsp [simp]:
  "others_same c k (k'\<lparr>ks_bsp_lapic := l\<rparr>) = others_same c k k'"
  "others_same c k (k'\<lparr>ks_bsp_lapic := l, ks_bsp_wait_observe := w\<rparr>) = others_same c k k'"
  "others_same c k (reset_ap_inbox_slot c i k') = others_same c k k'"
  "others_same c k (reset_ap_queue_summary c k') = others_same c k k'"
  "others_same c k (reset_ap_request_history c k') = others_same c k k'"
  "others_same c k (record_ap_request_history c h i s v k') = others_same c k k'"
  "others_same c k (bsp_notify_ap_request_pending c k') = others_same c k k'"
  by (simp_all add: reset_ap_inbox_slot_def reset_ap_queue_summary_def reset_ap_request_history_def
      record_ap_request_history_def Let_def)
    (auto simp: others_same_def bsp_notify_ap_request_pending_def Let_def split: prod.split)

lemma others_same_publish_kick [simp]:
  "others_same c k (publish_ap_inbox_request c i p kick k') = others_same c k k'"
  by (simp add: publish_ap_inbox_request_def Let_def)

lemma others_same_reset [simp]: "others_same c k (stream_reset c n k') = others_same c k k'"
proof -
  have "others_same c k (fold (reset_ap_inbox_slot c) is k') = others_same c k k'" for "is" k'
    by (induction "is" arbitrary: k') simp_all
  then show ?thesis by (simp add: stream_reset_def Let_def)
qed

lemma others_finish:
  "finish_ap_stream_slot c i w st = (ok, st') \<Longrightarrow> others_same c k (st_kernel st') = others_same c k (st_kernel st)"
  by (auto simp: finish_ap_stream_slot_def record_ap_stream_slot_def Let_def split: if_splits)

lemma others_publish_next: "others_same c k (st_kernel (stream_publish_next c plan i st)) = others_same c k (st_kernel st)"
  by (simp add: stream_publish_next_def publish_ap_stream_slot_def)

lemma others_stop: "others_same c k (st_kernel (stop_ap_request_stream c n st)) = others_same c k (st_kernel st)"
proof -
  have "others_same c k (st_kernel (stop_ap_stream_slot c i st)) = others_same c k (st_kernel st)" for i st
    by (simp add: stop_ap_stream_slot_def Let_def)
  then have "others_same c k (st_kernel (fold (stop_ap_stream_slot c) is st)) = others_same c k (st_kernel st)" for "is"
    by (induction "is" arbitrary: st) simp_all
  then show ?thesis by (simp add: stop_ap_request_stream_def)
qed

text \<open>An AP that writes to its own context only.\<close>

locale private_ap =
  fixes env :: environment and c :: nat
  assumes env: "others_same c k (env t k)"
begin

lemma others_env: "others_same c k k' \<Longrightarrow> others_same c k (env t k')"
  using env others_same_trans by blast

lemma others_tick: "others_same c k (st_kernel st) \<Longrightarrow> others_same c k (st_kernel (ap_tick env st))"
  by (simp add: ap_tick_def others_env)

lemma others_fold:
  assumes "\<And>i st. others_same c k (st_kernel st) \<Longrightarrow> others_same c k (st_kernel (f i st))"
  shows "others_same c k (st_kernel st) \<Longrightarrow> others_same c k (st_kernel (fold f is st))"
  by (induction "is" arbitrary: st) (simp_all add: assms)

lemma others_visit:
  assumes "others_same c k (st_kernel st)"
  shows "others_same c k (st_kernel (stream_visit cfg env c plan n i st))"
proof -
  obtain ok st' where "finish_ap_stream_slot c i (st_wait_loops (ap_tick env st)) (ap_tick env st) = (ok, st')" by force
  note f = this others_finish [OF this, of k]
  show ?thesis
    using others_tick [OF assms] f(2) by (simp add: stream_visit_def Let_def f(1) others_publish_next)
qed

lemma others_iteration:
  assumes "others_same c k (st_kernel st)"
  shows "others_same c k (st_kernel (snd (stream_iteration cfg env c plan n st)))"
proof -
  let ?p = "stream_pass cfg env c plan n st"
  have "others_same c k (st_kernel ?p)"
    unfolding stream_pass_def Let_def using others_tick [OF assms]
    by (auto simp: others_stop intro!: others_fold others_visit)
  moreover obtain s k' where wait: "bsp_wait_for_ap_request_event cfg env (st_time ?p) (st_kernel ?p) = (s, k')" by force
  ultimately have "others_same c k (st_kernel ?p)" "others_same c k k'"
    by (auto simp: bsp_wait_for_ap_request_event_def Let_def others_env split: prod.splits bool.splits)
  then show ?thesis by (auto simp: stream_iteration_def Let_def wait intro!: others_tick)
qed

lemma others_loop:
  "stream_loop cfg env c plan n st = Some st' \<Longrightarrow> others_same c k (st_kernel st) \<Longrightarrow> others_same c k (st_kernel st')"
proof (erule stream_loop.raw_induct [where P = "\<lambda>cfg' env' c' plan' n' st r. env' = env \<longrightarrow> c' = c \<longrightarrow>
    others_same c k (st_kernel st) \<longrightarrow> others_same c k (st_kernel r)", rule_format, rotated])
  fix loop cfg env' c' plan n st r
  assume IH: "\<And>cfg env' c' plan n st y. loop cfg env' c' plan n st = Some y \<Longrightarrow> env' = env \<Longrightarrow> c' = c \<Longrightarrow>
      others_same c k (st_kernel st) \<Longrightarrow> others_same c k (st_kernel y)"
    and eq: "env' = env" "c' = c" and st: "others_same c k (st_kernel st)"
    and run: "(if fst (stream_iteration cfg env' c' plan n st) then Some (snd (stream_iteration cfg env' c' plan n st))
      else loop cfg env' c' plan n (snd (stream_iteration cfg env' c' plan n st))) = Some r"
  then show "others_same c k (st_kernel r)" using others_iteration [OF st] by (auto simp: eq split: if_splits)
qed simp_all

lemma others_stream:
  assumes "run_ap_request_stream cfg env c plan k = Some (ok, st)"
  shows "others_same c k (st_kernel st)"
proof -
  have timed: "others_same c k (st_kernel (finish_timed_out_slot cfg c i st))" if "others_same c k (st_kernel st)" for i st
  proof -
    define st1 where "st1 = (if ap_request_state_finished (slot_state (stream_slot st c i)) then st
      else st\<lparr>st_kernel := upd_slot c i (time_out_slot cfg) (st_kernel st)\<rparr>)"
    obtain ok st2 where f: "finish_ap_stream_slot c i (AP_REQUEST_TIMEOUT_LOOPS cfg) st1 = (ok, st2)" by force
    have "others_same c k (st_kernel st1)" using that by (simp add: st1_def)
    then have "others_same c k (st_kernel st2)" using others_finish [OF f] by simp
    then show ?thesis using that by (simp add: finish_timed_out_slot_def Let_def st1_def [symmetric] f)
  qed
  have first: "others_same c k (st_kernel (stream_publish_first c plan n st))" if "others_same c k (st_kernel st)" for n st
    unfolding stream_publish_first_def by (rule others_fold) (simp_all add: others_publish_next that)
  show ?thesis
    using assms unfolding run_ap_request_stream_def Let_def
    by (auto simp: finish_timed_out_ap_stream_slots_def drain_ap_request_ipis_def split: if_splits option.splits
        intro!: others_fold timed others_tick dest!: others_loop intro: first)
qed

end

lemma scan_others:
  "others_same c k0 k \<Longrightarrow> others_same c k0 (outcome_state (snd (ap_scan_slots cfg sel c is (w, k))))"
proof (induction "is" arbitrary: k w)
  case (Cons i "is")
  obtain hit k1 where claim: "ap_claim_slot c i k = (hit, k1)" by force
  then have k1: "others_same c k0 k1"
    using Cons.prems by (auto simp: ap_claim_slot_def ap_queue_note_slot_start_def Let_def split: if_splits prod.splits bool.splits)
  then have "others_same c k0 (outcome_state (ap_run_slot cfg sel c i k1))"
    by (auto simp: ap_run_slot_def ap_store_service_context_def ap_complete_done_def ap_complete_bad_op_def Let_def
        split: option.split execution.split prod.split)
  then show ?case using Cons.IH k1 claim by (cases hit; cases "ap_run_slot cfg sel c i k1") simp_all
qed simp

lemma ap_side_others:
  assumes "c = ap_context_from_fault_frame (fs_cpu_at fs) (fs_frame_addr fs)"
  shows "others_same c k (ap_side cfg sel fs c t k)"
proof -
  obtain w outcome where scan: "ap_scan_slots cfg sel c [0..<AP_REQUEST_SLOT_COUNT] (False, k) = (w, outcome)" by force
  then have "others_same c k (outcome_state outcome)"
    using scan_others [of c k k cfg sel "[0..<AP_REQUEST_SLOT_COUNT]" False] by simp
  moreover have "others_same c k (ap_fault_dispatch (fs_cpu_at fs) self (fs_frame_addr fs) f cr2 k')"
    if "others_same c k k'" for self f cr2 k'
    unfolding ap_fault_dispatch_def Let_def assms [symmetric] using that by simp
  ultimately show ?thesis by (cases outcome) (simp_all add: ap_side_def scan)
qed

interpretation private_loop: private_ap
  "ap_side cfg sel fs (ap_context_from_fault_frame (fs_cpu_at fs) (fs_frame_addr fs))"
  "ap_context_from_fault_frame (fs_cpu_at fs) (fs_frame_addr fs)"
  by unfold_locales (rule ap_side_others [OF refl])

end
