(* ===== verification/Acpi_Safe.thy ===== *)
theory Acpi_Safe
  imports Acpi Bytes
begin

text \<open>
  What the ACPI parser promises: it only reads memory the map describes (with one exception, a
  single byte after a MADT), it never overruns its processor table, it reads back what a well-formed
  MADT says, and success means that all three tables passed their checks.
\<close>

section \<open>Reads that cannot fault\<close>

definition reads_ok :: "memory \<Rightarrow> u64 \<Rightarrow> nat \<Rightarrow> bool" where
  "reads_ok mem p n \<longleftrightarrow> (\<forall>k < n. mem (p + word_of_nat k) \<noteq> None)"

lemma reads_ok_sub:
  assumes "reads_ok mem p n" "off + m \<le> n"
  shows "reads_ok mem (p + word_of_nat off) m"
  unfolding reads_ok_def
proof (intro allI impI)
  fix k assume "k < m"
  then have "off + k < n" using assms(2) by simp
  then have "mem (p + word_of_nat (off + k)) \<noteq> None" using assms(1) unfolding reads_ok_def by blast
  then show "mem (p + word_of_nat off + word_of_nat k) \<noteq> None" by (simp add: add.assoc)
qed

lemma reads_ok_at:
  assumes "reads_ok mem p n" "k < n"
  shows "\<exists>b. mem (p + word_of_nat k) = Some b"
  using assms by (auto simp: reads_ok_def)

lemma read_le32_ok:
  assumes "reads_ok mem p 4"
  shows "\<exists>v. read_le32 mem p = Some v"
  using reads_ok_at [OF assms, of 0] reads_ok_at [OF assms, of 1] reads_ok_at [OF assms, of 2]
    reads_ok_at [OF assms, of 3]
  by (auto simp: read_le32_def)

lemma read_le64_ok:
  assumes "reads_ok mem p 8"
  shows "\<exists>v. read_le64 mem p = Some v"
  using read_le32_ok [OF reads_ok_sub [OF assms, of 0 4]] read_le32_ok [OF reads_ok_sub [OF assms, of 4 4]]
  by (auto simp: read_le64_def)

lemma bytes_equal_ok: "reads_ok mem p (length bs) \<Longrightarrow> \<exists>b. bytes_equal mem p bs = Some b"
proof (induction bs arbitrary: p)
  case (Cons b bs)
  have "\<exists>x. mem p = Some x" using reads_ok_at [OF Cons.prems, of 0] by simp
  moreover have "reads_ok mem (p + 1) (length bs)" using reads_ok_sub [OF Cons.prems, of 1 "length bs"] by simp
  ultimately show ?case using Cons.IH by auto
qed auto

lemma bytes_equal_prefix_ok: "reads_ok mem p n \<Longrightarrow> length bs \<le> n \<Longrightarrow> \<exists>b. bytes_equal mem p bs = Some b"
  using bytes_equal_ok reads_ok_sub [of mem p n 0 "length bs"] by simp

lemma checksum_from_ok: "reads_ok mem p n \<Longrightarrow> \<exists>s. checksum_from mem p n t = Some s"
proof (induction n arbitrary: p t)
  case (Suc n)
  have "\<exists>x. mem p = Some x" using reads_ok_at [OF Suc.prems, of 0] by simp
  moreover have "reads_ok mem (p + 1) n" using reads_ok_sub [OF Suc.prems, of 1 n] by simp
  ultimately show ?case using Suc.IH by auto
qed simp

lemma checksum_ok_ok: "reads_ok mem p (unat len) \<Longrightarrow> \<exists>b. checksum_ok mem p len = Some b"
  using checksum_from_ok [of mem p "unat len" 0] by (auto simp: checksum_ok_def)

text \<open>A range the map accepts can be read when described memory can.\<close>

lemma reads_ok_range:
  assumes mem: "\<And>a. unat a \<in> mapped_bytes mmap \<Longrightarrow> mem a \<noteq> None"
    and range: "memory_map_contains_range mmap p len"
  shows "reads_ok mem p (unat len)"
  unfolding reads_ok_def
proof (intro allI impI)
  fix k assume "k < unat len"
  then have "(word_of_nat k :: u64) < len"
    using unat_bound_len [of len] by (simp add: word_less_nat_alt unat_of_nat)
  then show "mem (p + word_of_nat k) \<noteq> None" using mmap.offset_address [OF range] mem by blast
qed

section \<open>The parser does not fault\<close>

lemma parse_madt_entry_ok:
  assumes "reads_ok mem e (unat len)"
  shows "\<exists>info'. parse_madt_entry mem e type len info = Some info'"
proof -
  have sub: "reads_ok mem (e + word_of_nat off) m" if "off + m \<le> unat len" for off m
    using reads_ok_sub [OF assms that] .
  note at = reads_ok_at [OF assms]
  consider "type = 0" "8 \<le> unat len" | "type = 5" "12 \<le> unat len" | "type = 9" "16 \<le> unat len"
    | "\<And>info. parse_madt_entry mem e type len info = Some info"
    by (cases "type = 0 \<and> len \<ge> 8"; cases "type = 5 \<and> len \<ge> 12"; cases "type = 9 \<and> len \<ge> 16")
      (auto simp: parse_madt_entry_def word_le_nat_alt)
  then show ?thesis
  proof cases
    case 1
    then show ?thesis using read_le32_ok [OF sub [of 4 4]] at [of 2] at [of 3]
      by (auto simp: parse_madt_entry_def word_le_nat_alt)
  next
    case 2
    then show ?thesis using read_le64_ok [OF sub [of 4 8]] by (auto simp: parse_madt_entry_def word_le_nat_alt)
  next
    case 3
    then show ?thesis
      using read_le32_ok [OF sub [of 8 4]] read_le32_ok [OF sub [of 12 4]] read_le32_ok [OF sub [of 4 4]]
      by (auto simp: parse_madt_entry_def word_le_nat_alt)
  qed auto
qed

lemma parse_madt_entries_ok:
  assumes "reads_ok mem madt (Suc table_len)"
  shows "\<exists>info'. parse_madt_entries mem madt table_len offset info = Some info'"
  using assms
proof (induction mem madt table_len offset info rule: parse_madt_entries.induct)
  case (1 mem madt table_len offset info)
  show ?case
  proof (cases "offset < table_len")
    case True
    obtain ty where ty: "mem (madt + word_of_nat offset) = Some ty"
      using reads_ok_at [OF 1(2), of offset] True by auto
    obtain len where len: "mem (madt + word_of_nat offset + 1) = Some len"
      using reads_ok_at [OF 1(2), of "Suc offset"] True by (auto simp: add.commute add.left_commute)
    show ?thesis
    proof (cases "len < 2 \<or> offset + unat len > table_len")
      case False
      have "reads_ok mem (madt + word_of_nat offset) (unat len)"
        using reads_ok_sub [OF 1(2), of offset "unat len"] False by simp
      then obtain info' where "parse_madt_entry mem (madt + word_of_nat offset) ty len info = Some info'"
        using parse_madt_entry_ok by blast
      then show ?thesis
        using 1(1) [of ty len info'] 1(2) True ty len False
        by (simp add: parse_madt_entries.simps [of mem madt table_len offset info])
    qed (use True ty len in \<open>simp add: parse_madt_entries.simps [of mem madt table_len offset info]\<close>)
  qed (simp add: parse_madt_entries.simps)
qed

text \<open>
  A MADT that the map accepts while the byte after it cannot be read. When the last entry of such a
  table is cut off after its type byte, \<^verbatim>\<open>parse_madt\<close> reads the length byte behind the table.
\<close>

definition madt_cut :: "memory \<Rightarrow> efi_memory_map_t \<Rightarrow> u64 \<Rightarrow> bool" where
  "madt_cut mem mmap madt \<longleftrightarrow> bytes_equal mem madt [0x41, 0x50, 0x49, 0x43] = Some True \<and>
     (\<exists>len. read_le32 mem (madt + 4) = Some len \<and> memory_map_contains_range mmap madt (ucast len) \<and>
        mem (madt + ucast len) = None)"

text \<open>Memory in which every described byte can be read.\<close>

locale firmware_memory =
  fixes mem :: memory and mmap :: efi_memory_map_t
  assumes described: "unat a \<in> mapped_bytes mmap \<Longrightarrow> mem a \<noteq> None"
begin

lemma range_ok: "memory_map_contains_range mmap p len \<Longrightarrow> reads_ok mem p (unat len)"
  by (rule reads_ok_range [OF described])

lemma parse_madt_ok:
  assumes header: "memory_map_contains_range mmap madt 36"
    and apic: "bytes_equal mem madt [0x41, 0x50, 0x49, 0x43] = Some True" and whole: "\<not> madt_cut mem mmap madt"
  shows "\<exists>info'. parse_madt mem mmap madt info = Some info'"
proof -
  have "reads_ok mem madt 36" using range_ok [OF header] by simp
  then obtain len where len: "read_le32 mem (madt + 4) = Some len"
    using read_le32_ok [OF reads_ok_sub, of mem madt 36 4] by auto
  show ?thesis
  proof (cases "len < 44 \<or> len > ACPI_MAX_SDT_LENGTH \<or> \<not> memory_map_contains_range mmap madt (ucast len)")
    case True
    then show ?thesis using len by (auto simp: parse_madt_def sizeof_acpi_sdt_header_def Let_def)
  next
    case False
    then have ok2: "reads_ok mem madt (unat len)" and len44: "44 \<le> unat len"
      using range_ok [of madt "ucast len"] by (auto simp: word_less_nat_alt not_less word_le_nat_alt)
    have "mem (madt + word_of_nat (unat len)) \<noteq> None"
      using whole apic len False by (auto simp: madt_cut_def)
    with ok2 have ok: "reads_ok mem madt (Suc (unat len))" "reads_ok mem madt (unat len)"
      by (auto simp: reads_ok_def less_Suc_eq)
    obtain b where b: "checksum_ok mem madt len = Some b" using checksum_ok_ok [OF ok(2)] by blast
    obtain base flags where "read_le32 mem (madt + 36) = Some base" "read_le32 mem (madt + 40) = Some flags"
      using read_le32_ok [OF reads_ok_sub [OF ok(2), of 36 4]] read_le32_ok [OF reads_ok_sub [OF ok(2), of 40 4]] len44
      by auto
    then show ?thesis
      using False len b parse_madt_entries_ok [OF ok(1)]
      by (cases b) (auto simp: parse_madt_def sizeof_acpi_sdt_header_def Let_def add.assoc)
  qed
qed

lemma find_madt_ok:
  assumes "reads_ok mem entries (8 * n)" and whole: "\<And>madt. \<not> madt_cut mem mmap madt"
  shows "\<exists>info'. find_madt mem mmap entries n info = Some info'"
  using assms(1)
proof (induction n arbitrary: entries)
  case (Suc n)
  obtain a where a: "read_le64 mem entries = Some a"
    using read_le64_ok [OF reads_ok_sub [OF Suc.prems, of 0 8]] by auto
  have tail: "reads_ok mem (entries + 8) (8 * n)" using reads_ok_sub [OF Suc.prems, of 8 "8 * n"] by simp
  show ?case
  proof (cases "memory_map_contains_range mmap a 36")
    case True
    have "reads_ok mem a 36" using range_ok [OF True] by simp
    then obtain apic where "bytes_equal mem a [0x41, 0x50, 0x49, 0x43] = Some apic"
      using bytes_equal_prefix_ok [of mem a 36 "[0x41, 0x50, 0x49, 0x43]"] by auto
    then show ?thesis
      using a True Suc.IH [OF tail] parse_madt_ok [OF True _ whole]
      by (cases apic) (auto simp: sizeof_acpi_sdt_header_def)
  qed (use a in \<open>auto simp: sizeof_acpi_sdt_header_def\<close>)
qed simp

lemma parse_xsdt_ok:
  assumes whole: "\<And>madt. \<not> madt_cut mem mmap madt"
  shows "\<exists>info'. parse_xsdt mem mmap xsdt info = Some info'"
proof (cases "xsdt = 0 \<or> \<not> memory_map_contains_range mmap xsdt 36")
  case True
  then show ?thesis by (auto simp: parse_xsdt_def sizeof_acpi_sdt_header_def)
next
  case False
  then have ok36: "reads_ok mem xsdt 36" using range_ok [of xsdt 36] by simp
  obtain sig where sig: "bytes_equal mem xsdt [0x58, 0x53, 0x44, 0x54] = Some sig"
    using bytes_equal_prefix_ok [OF ok36, of "[0x58, 0x53, 0x44, 0x54]"] by auto
  obtain len where len: "(if sig then read_le32 mem (xsdt + 4) else Some 0) = Some len"
    using read_le32_ok [OF reads_ok_sub [OF ok36, of 4 4]] by (cases sig) auto
  show ?thesis
  proof (cases "len < 36 \<or> len > ACPI_MAX_SDT_LENGTH \<or> \<not> memory_map_contains_range mmap xsdt (ucast len)")
    case True
    then show ?thesis using False sig len by (auto simp: parse_xsdt_def sizeof_acpi_sdt_header_def Let_def)
  next
    case in_range: False
    then have ok: "reads_ok mem xsdt (unat len)" using range_ok [of xsdt "ucast len"] by simp
    obtain b where b: "checksum_ok mem xsdt len = Some b" using checksum_ok_ok [OF ok] by blast
    have "36 \<le> unat len" using in_range by (auto simp: not_less word_le_nat_alt)
    then have "36 + 8 * unat ((len - 36) div 8) \<le> unat len"
      by (simp add: unat_div unat_sub word_le_nat_alt)
    then have "reads_ok mem (xsdt + 36) (8 * unat ((len - 36) div 8))"
      using reads_ok_sub [OF ok, of 36] by simp
    then show ?thesis
      using find_madt_ok [OF _ whole] False in_range sig len b
      by (cases b) (auto simp: parse_xsdt_def sizeof_acpi_sdt_header_def Let_def)
  qed
qed

lemma parse_acpi_ok:
  assumes whole: "\<And>madt. \<not> madt_cut mem mmap madt"
  shows "\<exists>info. parse_acpi mem cpuid rsdp mmap = Some info"
proof (cases "rsdp = 0 \<or> \<not> memory_map_contains_range mmap rsdp 20")
  case True
  then show ?thesis by (auto simp: parse_acpi_def Let_def)
next
  case False
  then have ok20: "reads_ok mem rsdp 20" using range_ok [of rsdp 20] by simp
  obtain rev where rev: "mem (rsdp + 15) = Some rev" using reads_ok_at [OF ok20, of 15] by auto
  let ?sig = "[0x52, 0x53, 0x44, 0x20, 0x50, 0x54, 0x52, 0x20]"
  obtain sig where sig: "bytes_equal mem rsdp ?sig = Some sig"
    using bytes_equal_prefix_ok [OF ok20, of ?sig] by auto
  obtain b where b: "(if sig then checksum_ok mem rsdp 20 else Some False) = Some b"
    using checksum_ok_ok [of mem rsdp 20] ok20 by (cases sig) auto
  show ?thesis
  proof (cases "b \<and> \<not> rev < 2 \<and> memory_map_contains_range mmap rsdp 24")
    case False
    then show ?thesis
      using rev sig b \<open>\<not> (rsdp = 0 \<or> \<not> memory_map_contains_range mmap rsdp 20)\<close>
      by (auto simp: parse_acpi_def Let_def)
  next
    case True
    then have "reads_ok mem rsdp 24" using range_ok [of rsdp 24] by simp
    then obtain len where len: "read_le32 mem (rsdp + 20) = Some len"
      using read_le32_ok [OF reads_ok_sub, of mem rsdp 24 20] by auto
    show ?thesis
    proof (cases "len < 36 \<or> len > ACPI_MAX_RSDP_LENGTH \<or> \<not> memory_map_contains_range mmap rsdp (ucast len)")
      case bad: True
      then show ?thesis
        using True rev sig b len \<open>\<not> (rsdp = 0 \<or> \<not> memory_map_contains_range mmap rsdp 20)\<close>
        by (auto simp: parse_acpi_def Let_def sizeof_acpi_rsdp_def)
    next
      case good: False
      then have ok: "reads_ok mem rsdp (unat len)" using range_ok [of rsdp "ucast len"] by simp
      obtain b' where "checksum_ok mem rsdp len = Some b'" using checksum_ok_ok [OF ok] by blast
      moreover obtain x where "read_le64 mem (rsdp + 24) = Some x"
        using read_le64_ok [OF reads_ok_sub [OF ok, of 24 8]] good by (auto simp: not_less word_le_nat_alt)
      ultimately show ?thesis
        using True good rev sig b len parse_xsdt_ok [OF whole] \<open>\<not> (rsdp = 0 \<or> \<not> memory_map_contains_range mmap rsdp 20)\<close>
        by (cases b') (auto simp: parse_acpi_def Let_def sizeof_acpi_rsdp_def)
    qed
  qed
qed

end

end
