(* ===== verification/Paged_Memory.thy ===== *)
theory Paged_Memory
  imports Paging_Boot
begin

text \<open>
  What a program sees once the kernel has set up its page tables: every address the memory map
  describes is translated to itself. The ACPI parser and the start of the APs rely on it.
\<close>

section \<open>Address translation\<close>

text \<open>The physical address behind a virtual one, by the page walk of the processor over the tables at \<open>cr3\<close>.\<close>

definition page_translate :: "store \<Rightarrow> u64 \<Rightarrow> u64 \<Rightarrow> u64 option" where
  "page_translate tables cr3 a =
     map_option (\<lambda>pte. (pte AND PTE_ADDR_MASK) OR (a AND 0xfff)) (page_walk tables cr3 a)"

lemma frame_addr_page: "frame_addr (unat a div 4096) = push_bit 12 (drop_bit 12 a)"
proof -
  have "unat (drop_bit 12 a) = unat a div 4096" unfolding unat_drop_bit_eq by (simp add: drop_bit_eq_div)
  then have "word_of_nat (unat a div 4096) = drop_bit 12 a" by (metis word_of_nat_unat)
  moreover have "frame_addr k = push_bit 12 (word_of_nat k)" for k
    by (simp add: frame_addr_def push_bit_eq_mult)
  ultimately show ?thesis by metis
qed

lemma page_walk_page: "page_walk tables cr3 a = page_walk tables cr3 (frame_addr (unat a div 4096))"
proof -
  have "drop_bit n (push_bit 12 (drop_bit 12 a)) = drop_bit n a" if "12 \<le> n" for n
    using that by (intro bit_eqI) (auto simp: bit_simps dest: bit_imp_le_length)
  then have "drop_bit 39 (push_bit 12 (drop_bit 12 a)) = drop_bit 39 a" "drop_bit 30 (push_bit 12 (drop_bit 12 a)) = drop_bit 30 a"
    "drop_bit 21 (push_bit 12 (drop_bit 12 a)) = drop_bit 21 a" "drop_bit 12 (push_bit 12 (drop_bit 12 a)) = drop_bit 12 a" by simp_all
  then show ?thesis unfolding page_walk_def frame_addr_page by metis
qed

lemma frame_or_offset: "frame_addr (unat a div 4096) OR (a AND 0xfff) = a"
proof -
  have "a AND 0xfff = take_bit 12 a"
    unfolding take_bit_eq_mask by (simp add: mask_eq_exp_minus_1)
  then show ?thesis unfolding frame_addr_page by (intro bit_eqI) (auto simp: bit_simps)
qed

text \<open>The address in an entry that maps a page to itself, whatever its flags.\<close>

lemma identity_entry_address:
  assumes "identity_entry rs w = Some e" "w < 2 ^ 36" "\<forall>(S, f) \<in> set rs. flag_word f"
  shows "e AND PTE_ADDR_MASK = frame_addr w"
proof -
  have "fold (\<lambda>(S, f) e. if w \<in> S then e OR f else e) rs x AND PTE_ADDR_MASK = x AND PTE_ADDR_MASK" for x
    using assms(3) by (induction rs arbitrary: x) (auto simp: entry_with_flags(1))
  then show ?thesis using assms(1,2) by (auto simp: identity_entry_def split: if_splits)
qed

section \<open>Described memory is readable after the set-up\<close>

text \<open>The memory map and the address translation once paging is set up.\<close>

definition kernel_map :: "efi_memory_map_t \<Rightarrow> framebuffer_t \<Rightarrow> paging_machine \<Rightarrow> efi_memory_map_t" where
  "kernel_map mmap fb m = (case setup_kernel_paging mmap fb m of Some (_, mmap', _, _) \<Rightarrow> mmap' | None \<Rightarrow> mmap)"

definition kernel_translate :: "efi_memory_map_t \<Rightarrow> framebuffer_t \<Rightarrow> paging_machine \<Rightarrow> u64 \<Rightarrow> u64 option" where
  "kernel_translate mmap fb m =
     (case setup_kernel_paging mmap fb m of
        Some (_, _, _, m') \<Rightarrow> page_translate (pm_store m') (pm_cr3 m')
      | None \<Rightarrow> (\<lambda>_. None))"

lemma mapped_bytes_page:
  assumes "unat a \<in> mapped_bytes mmap"
  shows "covering_flags (map descriptor_range (live_descriptors mmap)) (unat a div 4096) \<noteq> {}"
proof -
  obtain d where d: "d \<in> set (live_descriptors mmap)" and a: "unat a \<in> descriptor_bytes d"
    using assms by (auto simp: mapped_bytes_def live_descriptors_def)
  let ?s = "unat (md_PhysicalStart d)" and ?n = "unat (md_NumberOfPages d) * 4096"
  have "?s div 4096 \<le> unat a div 4096" using a by (simp add: descriptor_bytes_def div_le_mono)
  moreover have "unat a div 4096 < (?s + ?n + 4095) div 4096"
    using a div_le_mono [of "unat a + 4096" "?s + ?n + 4095" 4096] by (simp add: descriptor_bytes_def)
  ultimately have "unat a div 4096 \<in> fst (descriptor_range d)"
    using a by (auto simp: descriptor_range_def range_pages_def descriptor_bytes_def)
  then show ?thesis using d by (auto simp: covering_flags_def descriptor_range_def)
qed

locale paged_kernel =
  fixes mmap :: efi_memory_map_t and fb :: framebuffer_t and m :: paging_machine
  assumes ready: "paging_ready mmap fb m"
begin

lemma mapped_page_identity:
  assumes e: "identity_entry (kernel_ranges mmap fb) (unat a div 4096) = Some e" and w: "unat a div 4096 < 2 ^ 36"
  shows "kernel_translate mmap fb m a = Some a"
proof -
  obtain mmap' info' m' N R where run: "setup_kernel_paging mmap fb m = Some (True, mmap', info', m')"
    "pm_cr3 m' = pi_cr3 info'" and tab: "tables_for N R (kernel_ranges mmap fb) (info', pm_store m')"
    using setup_kernel_paging_run [OF ready] by blast
  have "e AND PTE_ADDR_MASK = frame_addr (unat a div 4096)"
    using identity_entry_address [OF e w] by (auto simp: kernel_ranges_def descriptor_range_def)
  moreover have "page_walk (pm_store m') (pm_cr3 m') a = Some e"
    using tab w e by (simp add: page_walk_page [of _ _ a] tables_for_def st_entry_def run(2))
  ultimately show ?thesis by (simp add: kernel_translate_def run page_translate_def frame_or_offset)
qed

lemma covered_identity:
  assumes "covering_flags (map descriptor_range (mm_descriptors mmap)) (unat a div 4096) \<noteq> {}"
  shows "kernel_translate mmap fb m a = Some a"
proof -
  obtain mmap' where same: "describes_same (2 ^ 47) (mm_descriptors mmap) mmap'"
    using setup_kernel_paging_run [OF ready] by blast
  let ?w = "unat a div 4096"
  have "covering_flags (map descriptor_range (live_descriptors mmap')) ?w \<noteq> {}"
    using assms same by (simp add: describes_same_def)
  then obtain d where "d \<in> set (live_descriptors mmap')" "?w \<in> fst (descriptor_range d)"
    by (auto simp: covering_flags_def) (metis fst_conv)
  moreover then have "unat (md_PhysicalStart d) + unat (md_NumberOfPages d) * 4096 \<le> 2 ^ 47"
    using same by (simp add: describes_same_def)
  ultimately have w: "?w < 2 ^ 36" by (auto simp: descriptor_range_def range_pages_def split: if_splits)
  obtain e where "identity_entry (kernel_ranges mmap fb) ?w = Some e"
    using assms by (cases "identity_entry (kernel_ranges mmap fb) ?w")
      (auto simp: identity_entry_def kernel_ranges_def covering_flags_def split: if_splits)
  then show ?thesis using mapped_page_identity w by blast
qed

text \<open>Every byte of the framebuffer.\<close>

lemma framebuffer_identity:
  assumes "unat (fb_base fb) \<le> unat a" "unat a < unat (fb_base fb) + unat (framebuffer_size_bytes fb)"
  shows "kernel_translate mmap fb m a = Some a"
proof -
  obtain f where f: "framebuffer_end_checked fb = Some f"
    using ready by (auto simp: paging_ready_def identity_end_def split: option.splits)
  let ?w = "unat a div 4096"
  have "unat f div 4096 \<le> 2 ^ 47 div 4096" using framebuffer_end_Some(1) [OF f] by (rule div_le_mono)
  moreover have fend: "(unat (fb_base fb) + unat (framebuffer_size_bytes fb) + 4095) div 4096 = unat f div 4096"
    by (simp add: framebuffer_end_Some(2) [OF f, symmetric])
  moreover have "?w < (unat (fb_base fb) + unat (framebuffer_size_bytes fb) + 4095) div 4096"
    using assms(2) by linarith
  moreover have "unat (fb_base fb) div 4096 \<le> ?w" using assms(1) by (rule div_le_mono)
  ultimately have "?w \<in> range_pages (unat (fb_base fb)) (unat (framebuffer_size_bytes fb))" "?w < 2 ^ 36"
    using assms by (auto simp: range_pages_def)
  then show ?thesis
    using mapped_page_identity by (auto simp: identity_entry_def kernel_ranges_def)
qed

text \<open>The memory the firmware described, and the memory the map describes after the pool was taken from it.\<close>

lemma firmware_identity: "unat a \<in> mapped_bytes mmap \<Longrightarrow> kernel_translate mmap fb m a = Some a"
  using ready covered_identity [of a] mapped_bytes_page [of a mmap] live_descriptors_wf [of mmap]
  unfolding paging_ready_def by metis

lemma described_identity:
  assumes "unat a \<in> mapped_bytes (kernel_map mmap fb m)"
  shows "kernel_translate mmap fb m a = Some a"
proof -
  obtain mmap' info' m' N R where "setup_kernel_paging mmap fb m = Some (True, mmap', info', m')"
    and "describes_same (2 ^ 47) (mm_descriptors mmap) mmap'"
    using setup_kernel_paging_run [OF ready] by blast
  then show ?thesis
    using mapped_bytes_page [OF assms] by (intro covered_identity) (simp add: kernel_map_def describes_same_def)
qed

end

section \<open>Where the root table is\<close>

text \<open>Mapping never moves the root, so it stays where the pool started.\<close>

lemma ensure_next_table_root:
  "ensure_next_table st table index = (r, st') \<Longrightarrow> pi_cr3 (fst st') = pi_cr3 (fst st)"
  by (cases st) (auto simp: ensure_next_table_def alloc_page_table_page_def Let_def split: prod.splits if_splits)

lemma map_identity_page_root:
  "map_identity_page st addr flags = (ok, st') \<Longrightarrow> pi_cr3 (fst st') = pi_cr3 (fst st)"
  unfolding map_identity_page_def Let_def
  by (auto split: prod.splits option.splits if_splits dest!: ensure_next_table_root)

lemma map_identity_loop_root:
  "map_identity_loop st addr map_end flags = Some r \<Longrightarrow> pi_cr3 (fst (snd r)) = pi_cr3 (fst st)"
proof (erule map_identity_loop.raw_induct [where P = "\<lambda>st addr map_end flags r. pi_cr3 (fst (snd r)) = pi_cr3 (fst st)", rotated])
  fix loop st addr map_end flags r
  assume IH: "\<And>st addr map_end flags y. loop st addr map_end flags = Some y \<Longrightarrow> pi_cr3 (fst (snd y)) = pi_cr3 (fst st)"
    and run: "(if \<not> addr < map_end then Some (True, st)
         else if fst (map_identity_page st addr flags)
              then loop (snd (map_identity_page st addr flags)) (addr + PAGE_SIZE_4K) map_end flags
              else Some (False, snd (map_identity_page st addr flags))) = Some r"
  have "pi_cr3 (fst (snd (map_identity_page st addr flags))) = pi_cr3 (fst st)"
    by (metis map_identity_page_root prod.collapse)
  then show "pi_cr3 (fst (snd r)) = pi_cr3 (fst st)" using run IH by (auto split: if_splits)
qed

lemma map_identity_range_root:
  "map_identity_range_4k st start bytes flags = Some r \<Longrightarrow> pi_cr3 (fst (snd r)) = pi_cr3 (fst st)"
  by (cases st) (auto simp: map_identity_range_4k_def Let_def split: if_splits option.splits dest!: map_identity_loop_root)

lemma map_descriptors_root: "map_descriptors st ds = Some r \<Longrightarrow> pi_cr3 (fst (snd r)) = pi_cr3 (fst st)"
  by (induction st ds rule: map_descriptors.induct)
    (auto split: option.splits prod.splits bool.splits dest!: map_identity_range_root)

lemma root_below_end:
  assumes ready: "paging_ready mmap fb m" and e: "identity_end mmap fb = Some e"
    and run: "setup_kernel_paging mmap fb m = Some (True, mmap', info', m')"
  shows "unat (pi_loaded_cr3 info') < unat e"
proof -
  let ?R = "estimate_identity_page_table_pages e"
  let ?info = "zero_paging_info\<lparr>pi_max_identity_end := e\<rparr>"
  obtain mmap1 p where pool: "select_page_table_pool mmap ?R ?info =
      (True, mmap1, ?info\<lparr>pi_pool_end := frame_addr (p + unat ?R), pi_pool_start := frame_addr p,
         pi_pool_next := frame_addr p, pi_reserved_pages := ?R\<rparr>)"
    and p: "0 < p" "p + unat ?R \<le> 2 ^ 35" "4096 * (p + unat ?R) \<le> unat e"
    using select_pool_ready [OF ready e, of ?info] by blast
  obtain d f where df: "descriptors_max_end (mm_descriptors mmap) 0 = Some d" "framebuffer_end_checked fb = Some f"
    "e = (if f > d then f else d)" and lim: "unat e \<le> 2 ^ 47" using e by (rule identity_end_Some)
  have R: "0 < unat ?R" using lim by (simp add: unat_estimate)
  let ?info1 = "?info\<lparr>pi_pool_end := frame_addr (p + unat ?R), pi_pool_start := frame_addr p,
         pi_pool_next := frame_addr p, pi_reserved_pages := ?R\<rparr>"
  have "pool_ok p 0 (unat ?R) ?info1" using p by (simp add: pool_ok_def zero_paging_info_def)
  from alloc_page_table_page_ok(1) [OF this R] have alloc: "alloc_page_table_page (?info1, pm_store m) =
      (frame_addr p, ?info1\<lparr>pi_pool_next := frame_addr (Suc p), pi_allocated_pages := 1\<rparr>, zero_page_4k (frame_addr p) (pm_store m))"
    by (simp add: zero_paging_info_def)
  have wf: "live_descriptors mmap = mm_descriptors mmap" "pm_cr4 m AND push_bit 12 1 = 0"
    using ready by (simp_all add: paging_ready_def live_descriptors_wf)
  have "frame_addr p \<noteq> 0" using p by (simp add: frame_addr_0_iff)
  then have "pi_loaded_cr3 info' = frame_addr p"
    using run pool alloc df(1,2) wf unfolding setup_kernel_paging_def
    by (auto simp: Let_def simp flip: df(3) split: option.splits bool.splits
        dest!: map_descriptors_root map_identity_range_root)
  then show ?thesis using p R by (simp add: unat_frame_addr)
qed

interpretation example_boot: paged_kernel example_map example_fb example_machine
  by unfold_locales (rule example_ready)

end
