(* ===== verification/Acpi_Paged.thy ===== *)
theory Acpi_Paged
  imports Acpi_Safe Acpi_Madt Paged_Memory
begin

text \<open>
  The ACPI parser on the kernel's own page tables. \<^verbatim>\<open>efi_main\<close> parses the firmware tables
  after \<^const>\<open>setup_kernel_paging\<close>, so a byte can be read exactly when the page walk of the
  processor translates its address.
\<close>

section \<open>Memory behind the page tables\<close>

definition kernel_memory ::
    "efi_memory_map_t \<Rightarrow> framebuffer_t \<Rightarrow> paging_machine \<Rightarrow> (u64 \<Rightarrow> u8) \<Rightarrow> memory" where
  "kernel_memory mmap fb m ram a = map_option ram (kernel_translate mmap fb m a)"

sublocale paged_kernel \<subseteq> tables: firmware_memory "kernel_memory mmap fb m ram" "kernel_map mmap fb m" for ram
  by unfold_locales (simp add: kernel_memory_def described_identity)

section \<open>Properties\<close>

lemma parse_acpi_paged:
  assumes "paging_ready mmap fb m"
    and "\<And>madt. \<not> madt_cut (kernel_memory mmap fb m ram) (kernel_map mmap fb m) madt"
  shows "\<exists>info. parse_acpi (kernel_memory mmap fb m ram) cpuid rsdp (kernel_map mmap fb m) = Some info"
  using paged_kernel.described_identity [OF paged_kernel.intro [OF assms(1)]] assms(2)
  by (intro firmware_memory.parse_acpi_ok [OF firmware_memory.intro]) (auto simp: kernel_memory_def)

text \<open>
  C9. Once the kernel has set up its page tables, parsing the ACPI tables causes no page fault
  whatever the firmware left in memory, as long as no MADT that the memory map accepts is followed by
  an unmapped byte: every other read is checked against the memory map first, and every described
  address is translated to itself.
\<close>

theorem parse_acpi_on_kernel_tables:
  assumes "paging_ready mmap fb m"
    and "\<And>madt. \<not> madt_cut (kernel_memory mmap fb m ram) (kernel_map mmap fb m) madt"
  shows "\<exists>info. parse_acpi (kernel_memory mmap fb m ram) cpuid rsdp (kernel_map mmap fb m) = Some info"
  using assms by (rule parse_acpi_paged)

lemma blank_memory_not_cut: "\<not> madt_cut (kernel_memory mmap fb m (\<lambda>_. 0)) (kernel_map mmap fb m) madt"
proof -
  have "kernel_memory mmap fb m (\<lambda>_. 0) madt \<noteq> Some 0x41"
    by (auto simp: kernel_memory_def)
  then have "bytes_equal (kernel_memory mmap fb m (\<lambda>_. 0)) madt [0x41, 0x50, 0x49, 0x43] \<noteq> Some True"
    by (cases "kernel_memory mmap fb m (\<lambda>_. 0) madt") auto
  then show ?thesis by (simp add: madt_cut_def)
qed

theorem parse_acpi_on_kernel_tables_witness:
  "paging_ready example_map example_fb example_machine \<and>
   (\<exists>info. parse_acpi (kernel_memory example_map example_fb example_machine (\<lambda>_. 0)) (\<lambda>_ _. (0, 0, 0, 0)) 0x2000
      (kernel_map example_map example_fb example_machine) = Some info)"
  using parse_acpi_on_kernel_tables [OF example_ready blank_memory_not_cut] example_ready by blast

section \<open>A table with a cut-off entry\<close>

text \<open>
  C38. The one read the parser does not check. A MADT that is entirely inside described memory, has a correct
  checksum and ends, after any well-formed entries, in a single byte, makes \<^verbatim>\<open>parse_madt\<close> read the length
  of that last entry one byte behind the table. What happens depends on memory that is not part of
  the table: where nothing is mapped the kernel faults, and otherwise it reports a bad entry.
\<close>

theorem parse_madt_reads_past_table:
  assumes "length hdr = 28" "list_all entry_wf es"
    and "bs = madt_layout hdr base flags (concat (map encode_entry es) @ [ty])"
    and "sum_list bs = 0" "length bs \<le> 2 ^ 20"
    and "holds_bytes mem madt bs" "memory_map_contains_range mmap madt (word_of_nat (length bs))"
  shows "parse_madt mem mmap madt info =
    (case mem (madt + word_of_nat (length bs)) of
       None \<Rightarrow> None
     | Some _ \<Rightarrow> Some (fold entry_effect es (info\<lparr>ai_madt := madt, ai_local_apic_base := ucast base,
         ai_madt_flags := flags\<rparr>)\<lparr>ai_error := ACPI_ERR_BAD_ENTRY\<rparr>))"
proof -
  let ?es = "concat (map encode_entry es)"
  let ?info = "info\<lparr>ai_madt := madt, ai_local_apic_base := ucast base, ai_madt_flags := flags\<rparr>"
  note layout = parse_madt_layout [OF assms(6) [unfolded assms(3)] assms(1) assms(4) [unfolded assms(3)]
      assms(5) [unfolded assms(3)] assms(7) [unfolded assms(3)]]
  define off where "off = 44 + length ?es"
  have len: "length bs = off + 1" "44 + length (?es @ [ty]) = off + 1"
    unfolding assms(3) off_def using length_madt_layout [OF assms(1)] by simp_all
  have bytes: "holds_bytes mem (madt + word_of_nat 44) ?es" "mem (madt + word_of_nat off) = Some ty"
    using layout(2) by (simp_all add: holds_bytes_append add.assoc off_def)
  have "parse_madt mem mmap madt info = parse_madt_entries mem madt (off + 1) off (fold entry_effect es ?info)"
    unfolding layout(1) len(2) off_def
    by (rule parse_madt_entries_prefix [OF assms(2) bytes(1)]) simp
  moreover have "l < 2 \<or> off + unat l > off + 1" for l :: u8
    by (simp add: word_less_nat_alt) linarith
  moreover have "madt + word_of_nat off + 1 = madt + word_of_nat (length bs)" by (simp add: len(1) add.assoc)
  ultimately show ?thesis
    using bytes(2) by (subst (asm) parse_madt_entries.simps) (auto simp del: of_nat_add split: option.split)
qed

text \<open>A MADT of one processor and a type byte at the end of a page.\<close>

definition cut_madt :: "u8 list" where
  "cut_madt = madt_layout ([1, 164] @ replicate 26 0) 0 0 (concat (map encode_entry [Local_Apic 0 0 1]) @ [0])"

theorem parse_madt_reads_past_table_witness:
  "parse_madt (image 0x1fcb cut_madt) one_page_map 0x1fcb zero_acpi_info = None \<and>
   unat (0x1fcb + word_of_nat (length cut_madt) :: u64) \<notin> mapped_bytes one_page_map"
proof
  have cut: "sum_list cut_madt = 0" "length cut_madt = 53"
    "memory_map_contains_range one_page_map 0x1fcb 53" "image 0x1fcb cut_madt (0x1fcb + 53) = None" by code_simp+
  have "holds_bytes (image 0x1fcb cut_madt) 0x1fcb cut_madt" by (rule image_holds) (simp add: cut(2))
  with cut show "parse_madt (image 0x1fcb cut_madt) one_page_map 0x1fcb zero_acpi_info = None"
    using parse_madt_reads_past_table [OF _ _ cut_madt_def, of "image 0x1fcb cut_madt" "0x1fcb" one_page_map zero_acpi_info]
    by simp
  show "unat (0x1fcb + word_of_nat (length cut_madt) :: u64) \<notin> mapped_bytes one_page_map"
    by (simp add: cut(2) mapped_bytes_def one_page_map_def descriptor_bytes_def)
qed

end
