(* ===== verification/Kernel_Main.thy ===== *)
theory Kernel_Main
  imports Boot_Services Fault_Report Ap_Bringup_All Ap_Fleet_Live Acpi_Paged
begin

text \<open>
  The boot of the kernel (\<^verbatim>\<open>kernel/kernel.c\<close>, \<^verbatim>\<open>efi_main\<close>), the composition of all other
  components: the firmware phase, the descriptor and page tables, ACPI, the start of the APs, the
  requests, the report and the fault test. The hardware, the link-time addresses and the other
  processors are one record of parameters, the firmware another. A boot ends in a halt, and the result
  tells where; it is undefined only where a loop would not end. After the page tables are set up, the
  reads of the ACPI tables and the accesses to the registers of the local APIC can fault, and both
  faults are results of their own. The lemmas show that a boot on a machine whose APs run the kernel's
  own code starts all of them, has every ping answered and every request of the plan carried out, and
  reports it, and that a machine whose local APIC is not described by the memory map faults instead.
\<close>

section \<open>Parameters\<close>

text \<open>The mode of the graphics output; \<^term>\<open>None\<close> where a pointer on the way to it is null.\<close>

record gop_mode =
  gm_FrameBufferBase :: u64
  gm_HorizontalResolution :: u32
  gm_VerticalResolution :: u32
  gm_PixelsPerScanLine :: u32
  gm_FrameBufferSize :: u64
  gm_PixelFormat :: u32

record 'w firmware =
  fw_services :: "'w boot_services"
  fw_SetWatchdogTimer :: "('w \<Rightarrow> 'w) option"
  fw_LocateProtocol :: "'w \<Rightarrow> (u64 \<times> gop_mode option) \<times> 'w"
  fw_AllocatePages :: "u64 \<Rightarrow> u64 \<Rightarrow> 'w \<Rightarrow> (u64 \<times> u64) \<times> 'w"
  fw_OutputString :: "(string \<Rightarrow> 'w \<Rightarrow> 'w) option"
  fw_ConfigurationTable :: "efi_configuration_table_t list option"

record platform =
  hw_cpuid :: cpuid_fun
  hw_paging :: paging_machine
  hw_ram :: ram
  hw_isr :: isr_addresses
  hw_bsp_cpu :: u64
  hw_bsp_idt :: u64
  hw_registers :: cpu_registers
  hw_isr_machine :: machine
  hw_breakpoint :: int_frame
  hw_apic_base :: u64
  hw_ap_addresses :: "nat \<Rightarrow> ap_addresses"
  hw_starting :: "nat \<Rightarrow> environment"
  hw_pinged :: environment
  hw_serving :: "nat \<Rightarrow> environment"

section \<open>Colours and the request plan\<close>

definition boot_palette :: "framebuffer_t \<Rightarrow> palette" where
  "boot_palette fb = \<lparr>pal_bg = color fb 0x05 0x07 0x0b, pal_fg = color fb 0xf2 0xf2 0xf2,
     pal_accent = color fb 0x5c 0xd6 0x91, pal_muted = color fb 0xa8 0xb0 0xb8, pal_warn = color fb 0xff 0xc8 0x5c\<rparr>"

definition fault_display :: "framebuffer_t \<Rightarrow> bsp_fault_display_t" where
  "fault_display fb = \<lparr>bd_framebuffer = fb, bd_bg = pal_bg (boot_palette fb), bd_fg = pal_fg (boot_palette fb),
     bd_accent = pal_accent (boot_palette fb), bd_warn = pal_warn (boot_palette fb)\<rparr>"

definition ap_request_plan :: "build_config \<Rightarrow> ap_request_plan_t list" where
  "ap_request_plan cfg =
     map (\<lambda>(m, i). zero_plan\<lparr>pl_opcode := REQUEST_OPCODE m, pl_service_id := REQUEST_SERVICE_ID m,
            pl_interface_id := REQUEST_INTERFACE_ID m, pl_sequence := i\<rparr>)
       (zip (VIBE_AP_REQUESTS cfg) [1, 2, 3, 4, 5, 6, 7, 8])"

definition framebuffer_of :: "gop_mode \<Rightarrow> framebuffer_t" where
  "framebuffer_of g = \<lparr>fb_base = gm_FrameBufferBase g, fb_width = gm_HorizontalResolution g,
     fb_height = gm_VerticalResolution g, fb_stride = gm_PixelsPerScanLine g, fb_size = gm_FrameBufferSize g,
     fb_format = gm_PixelFormat g\<rparr>"

section \<open>The firmware phase\<close>

definition crlf :: string where
  "crlf = [CHR 0x0D, CHR 0x0A]"

definition say :: "'w firmware \<Rightarrow> string \<Rightarrow> 'w \<Rightarrow> 'w" where
  "say fw msg w = (case fw_OutputString fw of None \<Rightarrow> w | Some out \<Rightarrow> out msg w)"

definition empty_memory_map :: efi_memory_map_t where
  "empty_memory_map = \<lparr>mm_descriptors = [], mm_map_size = 0, mm_map_capacity = 0, mm_descriptor_size = 0,
     mm_descriptor_version = 0, mm_descriptor_count = 0\<rparr>"

datatype 'w firmware_phase =
    No_Framebuffer 'w
  | Exit_Failed u64 'w
  | Left_Firmware framebuffer_t u64 ap_boot_info_t efi_memory_map_t 'w

definition enter_kernel :: "'w firmware \<Rightarrow> 'w \<Rightarrow> 'w firmware_phase" where
  "enter_kernel fw w =
     (let w = (case fw_SetWatchdogTimer fw of None \<Rightarrow> w | Some f \<Rightarrow> f w)
      in case fw_LocateProtocol fw w of ((status, gop), w) \<Rightarrow>
        (case (if status \<noteq> EFI_SUCCESS then None else gop) of
           None \<Rightarrow> No_Framebuffer (say fw (''no GOP framebuffer'' @ crlf) w)
         | Some g \<Rightarrow>
             let fb = framebuffer_of g;
                 acpi_rsdp = find_acpi_rsdp (fw_ConfigurationTable fw);
                 trampoline_boot = snd (allocate_ap_trampoline (\<lambda>pages max_address. fst (fw_AllocatePages fw pages max_address w)));
                 w = snd (fw_AllocatePages fw AP_TRAMPOLINE_PAGES AP_TRAMPOLINE_MAX_ADDRESS w)
             in case exit_boot_services (fw_services fw) empty_memory_map w of ((status, mmap), w) \<Rightarrow>
               if status \<noteq> EFI_SUCCESS then Exit_Failed status (say fw (''ExitBootServices failed'' @ crlf) w)
               else Left_Firmware fb acpi_rsdp trampoline_boot mmap w))"

section \<open>The processors\<close>

definition install_bsp_tables :: "platform \<Rightarrow> cpu_local_t \<times> idt_entry_t list \<times> cpu_registers" where
  "install_bsp_tables hw =
     (let cpu = init_cpu_local (hw_bsp_cpu hw) 0;
          (cpu, regs) = load_cpu_tables (hw_bsp_cpu hw) cpu (hw_registers hw);
          (idt, regs) = install_bsp_idt (hw_isr hw) (hw_bsp_idt hw) blank_idt regs
      in (cpu, idt, regs))"

definition bring_up_aps ::
    "platform \<Rightarrow> acpi_info_t \<Rightarrow> efi_memory_map_t \<Rightarrow> paging_info_t \<Rightarrow> nat \<Rightarrow> kernel_state \<times> ram \<Rightarrow> kernel_state \<times> ram" where
  "bring_up_aps hw acpi mmap paging n =
     (let bring_up = (\<lambda>i. bring_up_one_ap (hw_ap_addresses hw i) (hw_apic_base hw) (hw_starting hw i) acpi mmap paging i i)
      in if n = 0 then bring_up ap0_context else fold bring_up [0..<n])"

definition zero_scheduler :: ap_scheduler_t where
  "zero_scheduler = \<lparr>sch_online = replicate MAX_AP_CONTEXTS None, sch_online_count = 0, sch_next_index = 0,
     sch_selected_context_index = 0, sch_selected_apic_id = 0, sch_explicit_target = 0\<rparr>"

definition zero_route :: ap_request_route_t where
  "zero_route = \<lparr>rt_mode = 0, rt_target_context_index = 0, rt_target_apic_id = 0, rt_owner_context_index = 0\<rparr>"

text \<open>
  The first address that the two writes of \<^verbatim>\<open>bsp_disarm_wait_timer\<close> hit outside the kernel's page tables:
  the register page comes from the ACPI tables and is mapped only where the memory map describes it.
\<close>

definition lapic_fault :: "(u64 \<Rightarrow> bool) \<Rightarrow> u64 \<Rightarrow> u64 option" where
  "lapic_fault mapped base =
     (if base = 0 then None
      else find (\<lambda>a. \<not> mapped a) (concat (map (\<lambda>reg. map (\<lambda>i. base + reg + word_of_nat i) [0..<4]) [0x380, 0x320])))"

text \<open>
  Scheduling, the broadcast and the stream; the result is the target, and what is reported. \<open>fault\<close> is where
  an access to the APIC faults. No AP is started then (\<^const>\<open>prepare_ap_start\<close> refuses), so the BSP
  sends no request interrupt and never waits, and the first access is the one that disarms the
  timer, at the end of the broadcast or else of the stream.
\<close>

datatype request_end =
    Requests_Faulted u64
  | Requests_Done nat bool nat report_state

definition run_requests ::
    "build_config \<Rightarrow> platform \<Rightarrow> cpu_selectors \<Rightarrow> u64 option \<Rightarrow> nat \<Rightarrow> kernel_state \<Rightarrow> request_end option" where
  "run_requests cfg hw sel fault n k =
     (let plan = ap_request_plan cfg;
          scheduler = build_online_ap_registry zero_scheduler (ks_contexts k) n;
          selected = select_ap_request_target_context cfg scheduler (ks_contexts k) n;
          scheduler = (case selected of None \<Rightarrow> scheduler | Some (_, s) \<Rightarrow> s);
          (target, route) = select_ap_request_route_context cfg sel zero_route scheduler (map_option fst selected)
            plan (ks_contexts k) n;
          k = set_ap_request_target_context target k
      in if \<not> ap_request_fault_test_enabled cfg \<and> fault \<noteq> None then Some (Requests_Faulted (the fault))
         else case (if ap_request_fault_test_enabled cfg then Some (reset_ap_broadcast_ping_summary k)
               else run_ap_broadcast_ping cfg (hw_pinged hw) n (Some target) k) of
           None \<Rightarrow> None
         | Some k \<Rightarrow>
             if fault \<noteq> None \<and> \<not> ap_request_stream_should_stop (stream_reset target (length plan) k) target
             then Some (Requests_Faulted (the fault))
             else (case run_ap_request_stream cfg (hw_serving hw target) target plan k of
                None \<Rightarrow> None
              | Some (ok, st) \<Rightarrow> Some (Requests_Done target ok (st_completed_count st)
                  \<lparr>rs_kernel = st_kernel st, rs_scheduler = scheduler, rs_route = route, rs_context_count = n\<rparr>)))"

definition run_fault_test_if_enabled :: "build_config \<Rightarrow> (u64 \<Rightarrow> bool) \<Rightarrow> unit execution" where
  "run_fault_test_if_enabled cfg mapped =
     (if VIBE_FAULT_TEST cfg = VIBE_FAULT_TEST_UD2 then Faults 6
      else if VIBE_FAULT_TEST cfg = VIBE_FAULT_TEST_PF
      then (if mapped (LOW_CANONICAL_LIMIT - PAGE_SIZE_4K) then Returns () else Faults 14)
      else Returns ())"

section \<open>The boot\<close>

text \<open>
  Where the BSP halts: after an error, at a fault of its own, or after the report. The address of
  \<open>Lapic_Faulted\<close> is the one that is not mapped.
\<close>

datatype 'w boot_end =
    Halted_In_Firmware 'w
  | Paging_Failed screen
  | Acpi_Faulted
  | Lapic_Faulted u64
  | Fault_Test u64 screen
  | Reported nat bool nat report_state screen

text \<open>
  From the empty interrupt table to the report. \<open>k\<close> is the state of the kernel's variables, of which
  only the sizes of the arrays matter, \<open>s\<close> the screen.
\<close>

definition kernel_phase ::
    "build_config \<Rightarrow> platform \<Rightarrow> framebuffer_t \<Rightarrow> u64 \<Rightarrow> ap_boot_info_t \<Rightarrow> efi_memory_map_t \<Rightarrow>
     kernel_state \<Rightarrow> screen \<Rightarrow> 'w boot_end option" where
  "kernel_phase cfg hw fb acpi_rsdp trampoline_boot mmap k s =
     (let pal = boot_palette fb;
          (cpu, idt, regs) = install_bsp_tables hw
      in case setup_kernel_paging mmap fb (hw_paging hw) of
           None \<Rightarrow> None
         | Some (False, _, paging, _) \<Rightarrow> Some (Paging_Failed (draw_paging_failure fb pal paging s))
         | Some (True, mmap', paging, _) \<Rightarrow>
            (case run_idt_self_test (hw_isr hw) idt (hw_breakpoint hw) (hw_isr_machine hw) of
               None \<Rightarrow> None
             | Some (self_test, _) \<Rightarrow>
                let paging = paging\<lparr>pi_idt_self_test_ok := (if self_test then 1 else 0)\<rparr>
                in case parse_acpi (kernel_memory mmap fb (hw_paging hw) (hw_ram hw)) (hw_cpuid hw) acpi_rsdp mmap' of
                     None \<Rightarrow> Some Acpi_Faulted
                   | Some acpi \<Rightarrow>
                       let k = init_ap_contexts trampoline_boot (ai_bsp_apic_id acpi) k;
                           n = count_supported_ap_targets acpi;
                           n = (if n > MAX_AP_CONTEXTS then MAX_AP_CONTEXTS else n);
                           k = k\<lparr>ks_system_lapic_base := ai_local_apic_base acpi,
                                 ks_bsp_wait_observe := \<lparr>wo_halt_count = 0, wo_wake_count = 0, wo_timer_count = 0\<rparr>,
                                 ks_spurious := zero_trace\<rparr>;
                           k = fst (bring_up_aps hw acpi mmap' paging n (k, hw_ram hw));
                           sel = \<lparr>sel_cs = cr_cs regs, sel_tr = cr_tr regs\<rparr>
                       in case run_requests cfg hw sel (lapic_fault (\<lambda>a. kernel_translate mmap fb (hw_paging hw) a \<noteq> None)
                              (ai_local_apic_base acpi)) n k of
                            None \<Rightarrow> None
                          | Some (Requests_Faulted a) \<Rightarrow> Some (Lapic_Faulted a)
                          | Some (Requests_Done target ok handed_out rs) \<Rightarrow>
                              let s = draw_memory_map fb pal mmap' (Some paging) (Some acpi) (Some target) rs
                                    (clear_screen fb (pal_bg pal) s)
                              in Some (case run_fault_test_if_enabled cfg
                                         (\<lambda>a. kernel_translate mmap fb (hw_paging hw) a \<noteq> None) of
                                   Faults vector \<Rightarrow> Fault_Test vector s
                                 | _ \<Rightarrow> Reported target ok handed_out rs s)))"

definition efi_main ::
    "build_config \<Rightarrow> 'w firmware \<Rightarrow> platform \<Rightarrow> kernel_state \<Rightarrow> screen \<Rightarrow> 'w \<Rightarrow> 'w boot_end option" where
  "efi_main cfg fw hw k s w =
     (case enter_kernel fw w of
        No_Framebuffer w \<Rightarrow> Some (Halted_In_Firmware w)
      | Exit_Failed _ w \<Rightarrow> Some (Halted_In_Firmware w)
      | Left_Firmware fb acpi_rsdp trampoline_boot mmap _ \<Rightarrow>
          kernel_phase cfg hw fb acpi_rsdp trampoline_boot mmap k s)"

section \<open>The request phase\<close>

text \<open>
  APs that run the kernel's own code: AP \<open>i\<close> arrives at its entry point at time \<open>start i\<close> of its bring-up and
  then makes a pass of its request loop between any two looks of the BSP; a fault is delivered on its
  fault stack.
\<close>

definition fault_setup_at :: "(nat \<Rightarrow> u64) \<Rightarrow> (u64 \<Rightarrow> fault_frame_t) \<Rightarrow> u64 \<Rightarrow> nat \<Rightarrow> fault_setup" where
  "fault_setup_at cpu_at frame cr2 c = \<lparr>fs_cpu_at = cpu_at, fs_frame_addr = cpu_at c + 160 + 0x4000 - 56,
     fs_frame = frame, fs_cr2 = cr2\<rparr>"

definition kernel_aps ::
    "build_config \<Rightarrow> cpu_selectors \<Rightarrow> (nat \<Rightarrow> u64) \<Rightarrow> (nat \<Rightarrow> u64) \<Rightarrow> (u64 \<Rightarrow> fault_frame_t) \<Rightarrow> u64 \<Rightarrow>
     (nat \<Rightarrow> nat) \<Rightarrow> platform \<Rightarrow> platform" where
  "kernel_aps cfg sel cpu_at idt_at frame cr2 start hw =
     hw\<lparr>hw_starting := (\<lambda>i. ap_starts (hw_isr hw) cpu_at idt_at (hw_registers hw) i (start i)),
        hw_pinged := fleet_side cfg sel (map (fault_setup_at cpu_at frame cr2) [0..<MAX_AP_CONTEXTS]),
        hw_serving := (\<lambda>c. ap_side cfg sel (fault_setup_at cpu_at frame cr2 c) c)\<rparr>"

lemma fault_setup_context:
  assumes "context_layout cpu_at" "c < 8"
  shows "ap_context_from_fault_frame (fs_cpu_at (fault_setup_at cpu_at frame cr2 c))
    (fs_frame_addr (fault_setup_at cpu_at frame cr2 c)) = c"
  using context_layout_stacks(3) [OF assms] by (simp add: fault_setup_at_def)

text \<open>APs that have been brought up are ready, and nothing waits for them yet.\<close>

lemma up_ready: "up c k \<Longrightarrow> ap_ready c k"
  by (simp add: up_def started_def Let_def ap_ready_def c_const)

lemma ready_schedulable: "ap_ready c k \<Longrightarrow> ap_context_is_schedulable (ks_contexts k ! c)"
  by (simp add: ap_ready_def ap_context_is_schedulable_def boot_of_def Let_def)

lemma aps_up_serving:
  assumes "aps_up acpi x n k" "n \<le> 8"
  shows "fleet_serving n k"
proof -
  have empty: "slot_state (ap_inbox_slot k d i) = AP_REQUEST_STATUS_EMPTY" if "d < 8" "i < 4" for d i
    using assms(1) that by (simp add: aps_up_def)
  have "ap_can_serve d k" if "d < n" for d
    using empty [of d] assms that up_ready [of d k] by (simp add: ap_can_serve_def Let_def aps_up_def in_flight_def c_const)
  moreover have "ks_wf k" using assms(1) by (simp add: aps_up_def)
  ultimately show ?thesis using empty by (simp add: fleet_serving_def context_serves_def c_const)
qed

text \<open>
  What the report shows of \<open>n\<close> working APs and a plan that has been carried out by one of them: all are
  online, all have answered their ping well, and the history of the target holds the whole plan, all of it done.
\<close>

definition all_online :: "nat \<Rightarrow> report_state \<Rightarrow> bool" where
  "all_online n rs \<longleftrightarrow> rs_context_count rs = n \<and>
     (\<forall>i < n. ap_context_is_schedulable (ks_contexts (rs_kernel rs) ! i))"

definition all_pinged :: "nat \<Rightarrow> report_state \<Rightarrow> bool" where
  "all_pinged n rs \<longleftrightarrow> (let s = ks_broadcast_ping_summary (rs_kernel rs) in
     ps_planned_count s = word_of_nat n \<and> ps_completed_count s = word_of_nat n \<and>
     ps_ok_count s = word_of_nat n \<and> ps_fail_count s = 0 \<and>
     (\<forall>i < n. pe_valid (ps_entries s ! i) = 1 \<and> pe_state (ps_entries s ! i) = AP_REQUEST_STATUS_DONE))"

definition plan_served :: "ap_request_plan_t list \<Rightarrow> nat \<Rightarrow> report_state \<Rightarrow> bool" where
  "plan_served plan target rs \<longleftrightarrow> (let h = take (length plan) (history_of (rs_kernel rs) target) in
     length h = length plan \<and> mset (map (\<lambda>e. plan_of_slot (hi_request e)) h) = mset plan \<and>
     list_all (\<lambda>e. slot_state (hi_request e) = AP_REQUEST_STATUS_DONE) h)"

lemma broadcast_to_working_aps:
  fixes frame :: "u64 \<Rightarrow> fault_frame_t" and cr2 :: u64 and sel :: cpu_selectors
  assumes "fleet_serving n k" "n \<le> 8" "r < 8" "context_layout cpu_at"
    and cfg: "VIBE_AP_REQUEST_FAULT_TEST cfg = VIBE_AP_REQUEST_FAULT_TEST_NONE" "BSP_WAIT_TIMER_TIMEOUT_STEP cfg \<noteq> 0"
  defines "fss \<equiv> map (fault_setup_at cpu_at frame cr2) [0..<MAX_AP_CONTEXTS]"
  shows "\<exists>k'. run_ap_broadcast_ping cfg (fleet_side cfg sel fss) n (Some r) k = Some k' \<and> fleet_serving n k' \<and>
    (\<forall>rs. rs_kernel rs = k' \<longrightarrow> all_pinged n rs)"
proof -
  have same: "cfg\<lparr>VIBE_AP_REQUEST_FAULT_TEST := VIBE_AP_REQUEST_FAULT_TEST_NONE\<rparr> = cfg" using cfg(1) by simp
  have "fleet_context ` set fss = {..<8}"
    using fault_setup_context [OF assms(4)]
    by (auto simp: fss_def fleet_context_def MAX_AP_CONTEXTS_def image_image intro!: image_eqI)
  then have n: "(if {..<min n 8} \<subseteq> fleet_context ` set fss then min n 8 else 0) = n" "min n MAX_AP_CONTEXTS = n"
    using assms(2) by (simp_all add: MAX_AP_CONTEXTS_def)
  have "ap_ready i k" if "i < n" for i
    using fleet_servingD(3) [OF assms(1) that] that assms(2) by (simp add: ap_can_serve_def)
  then have all: "ping_targets k n = {..<n}"
    by (auto simp: ping_targets_def ap_context_can_accept_broadcast_ping_def ap_ready_def)
  obtain k' where run: "run_ap_broadcast_ping cfg (fleet_side cfg sel fss) n (Some r) k = Some k'"
    and sum: "let s = ks_broadcast_ping_summary k'; good = {i \<in> {..<n}. ap_broadcast_ping_result_ok (ping_slot k' i)} in
      ps_planned_count s = word_of_nat (card {..<n}) \<and> ps_completed_count s = word_of_nat (card {..<n}) \<and>
      ps_ok_count s = word_of_nat (card good) \<and> ps_fail_count s = word_of_nat (card ({..<n} - good)) \<and>
      (\<forall>i < MAX_AP_CONTEXTS. if i \<in> {..<n}
        then pe_valid (ps_entries s ! i) = 1 \<and> pe_state (ps_entries s ! i) = slot_state (ping_slot k' i) \<and>
          ap_request_state_finished (slot_state (ping_slot k' i))
        else pe_valid (ps_entries s ! i) = 0)"
    using broadcast_ping_run [of k "fleet_side cfg sel fss" cfg "Some r" n] fleet_servingD(1) [OF assms(1)]
      fleet_side_rely cfg(2) assms(2,3) unfolding n(2) all by (auto simp: Let_def MAX_AP_CONTEXTS_def)
  have pings: "pings_done n k'"
    using serving_loops.broadcast_serving [where cfg = cfg and cfga = cfg and n = n and fss = fss, unfolded same n(1), OF run assms(1,3)] .
  then have good: "{i \<in> {..<n}. ap_broadcast_ping_result_ok (ping_slot k' i)} = {..<n}"
    and "\<And>i. i < n \<Longrightarrow> slot_state (ping_slot k' i) = AP_REQUEST_STATUS_DONE"
    using ping_result_state by (auto simp: pings_in_def)
  then have "all_pinged n rs" if "rs_kernel rs = k'" for rs
    using sum assms(2) unfolding good Let_def by (simp add: all_pinged_def that Let_def MAX_AP_CONTEXTS_def)
  then show ?thesis using run pings by (auto simp: pings_in_def)
qed

lemma stream_to_working_fleet:
  fixes frame :: "u64 \<Rightarrow> fault_frame_t" and cr2 :: u64 and sel :: cpu_selectors
  assumes "fleet_serving n k" "n \<le> 8" "c < n" "context_layout cpu_at"
    and cfg: "VIBE_AP_REQUEST_FAULT_TEST cfg = VIBE_AP_REQUEST_FAULT_TEST_NONE" "list_all known_plan plan" "length plan = 8"
      "BSP_WAIT_TIMER_TIMEOUT_STEP cfg \<noteq> 0" "8 * unat (BSP_WAIT_TIMER_TIMEOUT_STEP cfg) < unat (AP_REQUEST_TIMEOUT_LOOPS cfg)"
  defines "env \<equiv> ap_side cfg sel (fault_setup_at cpu_at frame cr2 c) c"
  shows "\<exists>st. run_ap_request_stream cfg env c plan k = Some (True, st) \<and> st_completed_count st = 8 \<and>
    (\<forall>i < n. ap_ready i (st_kernel st)) \<and> ks_broadcast_ping_summary (st_kernel st) = ks_broadcast_ping_summary k \<and>
    (let h = take 8 (history_of (st_kernel st) c) in length h = 8 \<and> mset (map (\<lambda>e. plan_of_slot (hi_request e)) h) = mset plan \<and>
      list_all (\<lambda>e. slot_state (hi_request e) = AP_REQUEST_STATUS_DONE) h)"
proof -
  have c: "c < 8" "c < MAX_AP_CONTEXTS" using assms(2,3) by (simp_all add: MAX_AP_CONTEXTS_def)
  let ?fs = "fault_setup_at cpu_at frame cr2 c"
  note ctx = fault_setup_context [OF assms(4) c(1), of frame cr2]
  have same: "cfg\<lparr>VIBE_AP_REQUEST_FAULT_TEST := VIBE_AP_REQUEST_FAULT_TEST_NONE\<rparr> = cfg" using cfg(1) by simp
  note wf = fleet_servingD(1) [OF assms(1)]
  have ready: "ap_ready i k" if "i < n" for i
    using fleet_servingD(3) [OF assms(1) that] that assms(2) by (simp add: ap_can_serve_def)
  obtain st where run: "run_ap_request_stream cfg env c plan k = Some (True, st)" "ap_ready c (st_kernel st)"
    using working_loop.run_succeeds [where fs = ?fs and cfg = cfg and cfga = cfg and sel = sel and k = k and plan = plan,
        unfolded same ctx] wf ready [OF assms(3)] cfg by (auto simp: env_def)
  have others: "others_same c k (st_kernel st)"
    using private_loop.others_stream [where fs = ?fs and sel = sel and cfg = cfg and cfga = cfg, unfolded ctx] run(1)
    unfolding env_def by blast
  have "ap_ready i (st_kernel st)" if "i < n" for i
  proof (cases "i = c")
    case False
    then have "boot_of (st_kernel st) i = boot_of k i" using others by (simp add: others_same_def boot_of_def)
    from ap_ready_boot [OF this] show ?thesis using ready [OF that] by simp
  qed (use run(2) in simp)
  moreover have rely: "ap_rely c k (env t k)" if "ks_wf k" for t k
    using ap_side_rely [OF ctx [symmetric] that, of cfg sel t] by (simp add: env_def)
  have "length plan \<le> AP_REQUEST_HISTORY_COUNT" using cfg(3) by (simp add: AP_REQUEST_HISTORY_COUNT_def)
  from stream_accounts [where env = env, OF c(2) rely wf this cfg(4)]
  have "st_completed_count st = 8 \<and> (let h = take 8 (history_of (st_kernel st) c) in length h = 8 \<and>
      mset (map (\<lambda>e. plan_of_slot (hi_request e)) h) = mset plan \<and>
      list_all (\<lambda>e. slot_state (hi_request e) = AP_REQUEST_STATUS_DONE) h)"
    using run(1) cfg(3) by (auto simp: Let_def list_all_iff)
  ultimately show ?thesis using run(1) others by (simp add: others_same_def Let_def)
qed

lemma requests_served:
  assumes "fleet_serving n k" "n \<le> 8" "0 < n" "context_layout cpu_at"
    and cfg: "VIBE_AP_REQUEST_FAULT_TEST cfg = VIBE_AP_REQUEST_FAULT_TEST_NONE" "list_all known_plan (ap_request_plan cfg)"
      "length (VIBE_AP_REQUESTS cfg) = 8" "BSP_WAIT_TIMER_TIMEOUT_STEP cfg \<noteq> 0"
      "8 * unat (BSP_WAIT_TIMER_TIMEOUT_STEP cfg) < unat (AP_REQUEST_TIMEOUT_LOOPS cfg)"
    and hw: "hw = kernel_aps cfg apsel cpu_at idt_at frame cr2 start hw0"
  shows "\<exists>target rs. run_requests cfg hw sel None n k = Some (Requests_Done target True 8 rs) \<and> target < n \<and>
    all_online n rs \<and> all_pinged n rs \<and> plan_served (ap_request_plan cfg) target rs \<and>
    rt_target_apic_id (rs_route rs) = bi_target_apic_id (boot_of k target)"
proof -
  let ?plan = "ap_request_plan cfg" and ?xs = "ks_contexts k"
  have plan: "length ?plan = 8" using cfg(3) by (simp add: ap_request_plan_def)
  have "ap_ready 0 k" using fleet_servingD(3) [OF assms(1,3)] by (simp add: ap_can_serve_def)
  then have "0 \<in> set (online_aps ?xs n)"
    using ready_schedulable assms(3) by (simp add: online_aps_facts(3) MAX_AP_CONTEXTS_def)
  then have some: "online_aps ?xs n \<noteq> []" by auto
  have "length (sch_online zero_scheduler) = MAX_AP_CONTEXTS" by (simp add: zero_scheduler_def)
  from route_selects [OF this some, where cfg = cfg and sel = sel and route = zero_route and plan = ?plan]
  obtain t s' c route where sel: "select_ap_request_target_context cfg (build_online_ap_registry zero_scheduler ?xs n) ?xs n = Some (t, s')"
    "select_ap_request_route_context cfg sel zero_route s' (Some t) ?plan ?xs n = (c, route)" "c < n"
    "rt_target_apic_id route = bi_target_apic_id (ctx_boot (?xs ! c))" by blast
  define k1 where "k1 = set_ap_request_target_context c k"
  have k1: "fleet_serving n k1"
    unfolding k1_def set_ap_request_target_context_def
    by (rule fleet_serving_contexts [OF assms(1)]) (use fleet_servingD(1) [OF assms(1)] in \<open>simp_all add: ks_wf_def\<close>)
  have c: "c < 8" using sel(3) assms(2) by simp
  have pinged: "hw_pinged hw = fleet_side cfg apsel (map (fault_setup_at cpu_at frame cr2) [0..<MAX_AP_CONTEXTS])"
    by (simp add: hw kernel_aps_def)
  obtain k2 where k2: "run_ap_broadcast_ping cfg (hw_pinged hw) n (Some c) k1 = Some k2" "fleet_serving n k2"
    and sum: "\<forall>rs. rs_kernel rs = k2 \<longrightarrow> all_pinged n rs"
    using broadcast_to_working_aps [OF k1 assms(2) c assms(4) cfg(1,4), of apsel frame cr2] unfolding pinged by blast
  have serving: "hw_serving hw c = ap_side cfg apsel (fault_setup_at cpu_at frame cr2 c) c" by (simp add: hw kernel_aps_def)
  obtain st where st: "run_ap_request_stream cfg (hw_serving hw c) c ?plan k2 = Some (True, st)" "st_completed_count st = 8"
      "\<forall>i < n. ap_ready i (st_kernel st)" "ks_broadcast_ping_summary (st_kernel st) = ks_broadcast_ping_summary k2"
    and h: "let h = take 8 (history_of (st_kernel st) c) in length h = 8 \<and>
      mset (map (\<lambda>e. plan_of_slot (hi_request e)) h) = mset ?plan \<and>
      list_all (\<lambda>e. slot_state (hi_request e) = AP_REQUEST_STATUS_DONE) h"
    using stream_to_working_fleet [OF k2(2) assms(2) sel(3) assms(4) cfg(1,2) plan cfg(4,5), of apsel frame cr2]
    unfolding serving by blast
  have run: "run_requests cfg hw sel None n k = Some (Requests_Done c True 8
      \<lparr>rs_kernel = st_kernel st, rs_scheduler = s', rs_route = route, rs_context_count = n\<rparr>)"
    using cfg(1) by (simp add: run_requests_def Let_def sel(1,2) k1_def [symmetric] k2(1) st(1,2)
        ap_request_fault_test_enabled_def)
  have "all_pinged n \<lparr>rs_kernel = k2, rs_scheduler = s', rs_route = route, rs_context_count = n\<rparr>" using sum by simp
  then have "all_pinged n \<lparr>rs_kernel = st_kernel st, rs_scheduler = s', rs_route = route, rs_context_count = n\<rparr>"
    by (simp add: all_pinged_def st(4))
  note pinged_all = this
  show ?thesis
    by (intro exI conjI, rule run)
      (use pinged_all sel(3,4) st(3) h plan ready_schedulable in \<open>auto simp: all_online_def plan_served_def boot_of_def\<close>)
qed

section \<open>The kernel phase\<close>

lemma install_bsp_tables_self_test:
  assumes "install_bsp_tables hw = (cpu, idt, regs)"
  shows "\<exists>m'. run_idt_self_test (hw_isr hw) idt f m = Some (True, m')"
proof -
  obtain regs' where "install_bsp_idt (hw_isr hw) (hw_bsp_idt hw) blank_idt regs' = (idt, regs)"
    using assms by (auto simp: install_bsp_tables_def Let_def split: prod.splits)
  then show ?thesis
    using idt_self_test_passes [of blank_idt] by (fastforce simp: blank_idt_def)
qed

lemma init_ap_contexts_wf:
  assumes "ks_shape k"
  shows "ks_wf (init_ap_contexts boot apic_id k)"
proof -
  have "context_wf (fresh_context boot apic_id)"
    by (simp add: fresh_context_def zero_context_def context_wf_def c_const)
  then show ?thesis
    using assms empty_outbox_wf by (simp add: init_ap_contexts_run [OF assms] ks_wf_def ks_shape_def c_const)
qed

text \<open>The registers of an APIC whose page the memory map describes can be accessed, and those of another one fault.\<close>

lemma mapped_lapic_no_fault:
  assumes "paging_ready mmap fb m" "memory_map_contains_range (kernel_map mmap fb m) base PAGE_SIZE_4K"
  shows "lapic_fault (\<lambda>a. kernel_translate mmap fb m a \<noteq> None) base = None"
proof -
  have "kernel_translate mmap fb m (base + d) \<noteq> None" if "d < PAGE_SIZE_4K" for d
  proof -
    have "unat (base + d) \<in> mapped_bytes (kernel_map mmap fb m)" using mmap.offset_address [OF assms(2) that] by blast
    from paged_kernel.described_identity [OF paged_kernel.intro [OF assms(1)] this] show ?thesis by simp
  qed
  then have "kernel_translate mmap fb m (base + reg + word_of_nat i) \<noteq> None"
    if "reg \<in> {0x380, 0x320}" "i \<in> set [0..<4]" for reg i
    using that by (auto simp: upt_small add.assoc PAGE_SIZE_4K_def)
  from this [of "0x380"] this [of "0x320"] show ?thesis by (simp add: lapic_fault_def find_None_iff) fastforce
qed

text \<open>The state in which the first AP is started.\<close>

definition before_aps :: "ap_boot_info_t \<Rightarrow> acpi_info_t \<Rightarrow> kernel_state \<Rightarrow> kernel_state" where
  "before_aps boot acpi k = (init_ap_contexts boot (ai_bsp_apic_id acpi) k)\<lparr>ks_system_lapic_base := ai_local_apic_base acpi,
     ks_bsp_wait_observe := \<lparr>wo_halt_count = 0, wo_wake_count = 0, wo_timer_count = 0\<rparr>, ks_spurious := zero_trace\<rparr>"

lemma before_aps_up:
  assumes "ks_shape k" "icr_idle (ks_bsp_lapic k)"
  shows "aps_up acpi (fresh_context boot (ai_bsp_apic_id acpi)) 0 (before_aps boot acpi k)"
proof -
  let ?x = "fresh_context boot (ai_bsp_apic_id acpi)"
  have x: "ctx_request_slots ?x = replicate 4 zero_slot" by (simp add: fresh_context_def zero_context_def c_const)
  have "slot_state zero_slot = AP_REQUEST_STATUS_EMPTY" by (simp add: zero_slot_def c_const)
  moreover have "ks_wf (before_aps boot acpi k)"
    using init_ap_contexts_wf [OF assms(1)] by (simp add: before_aps_def ks_wf_def)
  ultimately show ?thesis
    using assms(2) x by (simp add: aps_up_def before_aps_def init_ap_contexts_run [OF assms(1)] ap_inbox_slot_def)
qed

text \<open>The trampoline page of a successful allocation passes the checks of every start.\<close>

lemma allocated_trampoline:
  assumes "boot = snd (allocate_ap_trampoline f)" "bi_error boot = AP_BOOT_OK"
  shows "bi_trampoline_base boot \<noteq> 0" "bi_trampoline_base boot < 0x100000" "bi_trampoline_base boot AND 0xfff = 0"
    "bi_sipi_vector boot \<noteq> 0" "bi_sipi_vector boot \<le> 0xff"
proof -
  obtain status base where f: "f AP_TRAMPOLINE_PAGES AP_TRAMPOLINE_MAX_ADDRESS = (status, base)" by force
  have "boot = (if status \<noteq> EFI_SUCCESS \<or> base = 0 \<or> base \<ge> 0x100000 \<or> base AND (PAGE_SIZE_4K - 1) \<noteq> 0
      then zero_boot\<lparr>bi_error := AP_BOOT_ERR_NO_TRAMPOLINE\<rparr>
      else zero_boot\<lparr>bi_trampoline_base := base, bi_sipi_vector := ucast (drop_bit 12 base), bi_error := AP_BOOT_OK\<rparr>)"
    using assms(1) by (simp add: allocate_ap_trampoline_def f)
  then have base: "base \<noteq> 0" "base < 0x100000" "base AND 0xfff = 0" and boot: "bi_trampoline_base boot = base"
    "bi_sipi_vector boot = ucast (drop_bit 12 base)"
    using assms(2) by (auto simp: not_le c_const split: if_splits)
  show "bi_trampoline_base boot \<noteq> 0" "bi_trampoline_base boot < 0x100000" "bi_trampoline_base boot AND 0xfff = 0"
    using base by (simp_all add: boot)
  from base have b: "base \<noteq> 0" "unat base < 2 ^ 20" "base AND mask 12 = 0"
    by (simp_all add: word_less_nat_alt mask_eq_exp_minus_1)
  have "unat base mod 2 ^ 12 = 0"
    using arg_cong [OF b(3), of unat] by (simp add: unat_mod take_bit_eq_mod flip: take_bit_eq_mask)
  then obtain q where q: "unat base = 2 ^ 12 * q" by (metis dvdE mod_eq_0_iff_dvd)
  have q': "0 < q" "q < 256" using q b(1,2) by (auto simp: unat_eq_0 intro: ccontr)
  moreover have "unat (bi_sipi_vector boot) = q"
    using q q'(2) by (simp add: boot unsigned_ucast_eq unat_div drop_bit_eq_div take_bit_eq_mod)
  ultimately show "bi_sipi_vector boot \<noteq> 0" "bi_sipi_vector boot \<le> 0xff"
    by (auto simp: word_le_nat_alt)
qed

lemma fresh_start_allowed:
  assumes "boot = snd (allocate_ap_trampoline f)" "bi_error boot = AP_BOOT_OK" "i < count_supported_ap_targets acpi"
    and "\<not> bit apic_base 10" "memory_map_contains_range mmap (ai_local_apic_base acpi) PAGE_SIZE_4K"
    and "pi_loaded_cr3 paging \<le> 0xffffffff"
  shows "start_refusal apic_base acpi mmap paging i (ctx_boot (fresh_context boot apic_id)) = None"
proof -
  have "ctx_boot (fresh_context boot apic_id) = zero_boot\<lparr>bi_trampoline_base := bi_trampoline_base boot,
        bi_sipi_vector := bi_sipi_vector boot, bi_error := bi_error boot\<rparr>" by (simp add: fresh_context_def)
  then show ?thesis
    using assms(2-) allocated_trampoline [OF assms(1,2)] by (simp add: start_refusal_def not_le not_less)
qed

text \<open>The boot as a sequence of its phases, once the page tables are set up and the ACPI tables are read.\<close>

lemma kernel_phase_requests:
  assumes ready: "paging_ready mmap fb (hw_paging hw)"
    and run: "setup_kernel_paging mmap fb (hw_paging hw) = Some (True, mmap', info, m')"
    and acpi: "parse_acpi (kernel_memory mmap fb (hw_paging hw) (hw_ram hw)) (hw_cpuid hw) rsdp mmap' = Some acpi"
    and test: "VIBE_FAULT_TEST cfg \<notin> {VIBE_FAULT_TEST_UD2, VIBE_FAULT_TEST_PF}"
  defines "n \<equiv> min MAX_AP_CONTEXTS (count_supported_ap_targets acpi)" and "paging \<equiv> info\<lparr>pi_idt_self_test_ok := 1\<rparr>"
  shows "\<exists>sel. kernel_phase cfg hw fb rsdp boot mmap k s =
    (case run_requests cfg hw sel (lapic_fault (\<lambda>a. kernel_translate mmap fb (hw_paging hw) a \<noteq> None) (ai_local_apic_base acpi))
       n (fst (bring_up_aps hw acpi mmap' paging n (before_aps boot acpi k, hw_ram hw))) of
       None \<Rightarrow> None
     | Some (Requests_Faulted a) \<Rightarrow> Some (Lapic_Faulted a)
     | Some (Requests_Done target ok handed_out rs) \<Rightarrow> Some (Reported target ok handed_out rs
         (draw_memory_map fb (boot_palette fb) mmap' (Some paging) (Some acpi) (Some target) rs
            (clear_screen fb (pal_bg (boot_palette fb)) s))))"
proof -
  obtain cpu idt regs where tables: "install_bsp_tables hw = (cpu, idt, regs)" by (cases "install_bsp_tables hw")
  obtain mm where self_test: "run_idt_self_test (hw_isr hw) idt (hw_breakpoint hw) (hw_isr_machine hw) = Some (True, mm)"
    using install_bsp_tables_self_test [OF tables] by blast
  have n: "(if count_supported_ap_targets acpi > MAX_AP_CONTEXTS then MAX_AP_CONTEXTS else count_supported_ap_targets acpi) = n"
    by (simp add: n_def min_def)
  have no_test: "run_fault_test_if_enabled cfg mapped = Returns ()" for mapped
    using test by (simp add: run_fault_test_if_enabled_def)
  show ?thesis
    unfolding kernel_phase_def tables prod.case run option.case bool.case self_test acpi Let_def before_aps_def paging_def n no_test
      execution.case by (rule exI, simp)
qed

lemma kernel_phase_serves:
  assumes hw: "hw = kernel_aps cfg apsel cpu_at idt_at frame cr2 start hw0" and layout: "context_layout cpu_at"
    and start: "\<And>c. c < MAX_AP_CONTEXTS \<Longrightarrow> 4 \<le> start c \<and> start c + 1 < 7 + AP_ONLINE_TIMEOUT_LOOPS"
    and boot: "boot = snd (allocate_ap_trampoline f)" "bi_error boot = AP_BOOT_OK"
    and ready: "paging_ready mmap fb (hw_paging hw)"
    and run: "setup_kernel_paging mmap fb (hw_paging hw) = Some (True, mmap', info, m')" "pi_loaded_cr3 info \<le> 0xffffffff"
    and acpi: "parse_acpi (kernel_memory mmap fb (hw_paging hw) (hw_ram hw)) (hw_cpuid hw) rsdp mmap' = Some acpi"
      "count_supported_ap_targets acpi = length (supported_aps acpi)" "supported_aps acpi \<noteq> []"
    and lapic: "memory_map_contains_range mmap' (ai_local_apic_base acpi) PAGE_SIZE_4K" "\<not> bit (hw_apic_base hw) 10"
      "icr_idle (ks_bsp_lapic k)" and shape: "ks_shape k"
    and cfg: "VIBE_AP_REQUEST_FAULT_TEST cfg = VIBE_AP_REQUEST_FAULT_TEST_NONE" "list_all known_plan (ap_request_plan cfg)"
      "length (VIBE_AP_REQUESTS cfg) = 8" "BSP_WAIT_TIMER_TIMEOUT_STEP cfg \<noteq> 0"
      "8 * unat (BSP_WAIT_TIMER_TIMEOUT_STEP cfg) < unat (AP_REQUEST_TIMEOUT_LOOPS cfg)"
      "VIBE_FAULT_TEST cfg \<notin> {VIBE_FAULT_TEST_UD2, VIBE_FAULT_TEST_PF}"
  defines "n \<equiv> min MAX_AP_CONTEXTS (length (supported_aps acpi))"
  shows "\<exists>target rs. (kernel_phase cfg hw fb rsdp boot mmap k s :: 'w boot_end option) = Some (Reported target True 8 rs
      (draw_memory_map fb (boot_palette fb) mmap' (Some (info\<lparr>pi_idt_self_test_ok := 1\<rparr>)) (Some acpi) (Some target) rs
        (clear_screen fb (pal_bg (boot_palette fb)) s))) \<and> target < n \<and>
    all_online n rs \<and> all_pinged n rs \<and> plan_served (ap_request_plan cfg) target rs \<and>
    rt_target_apic_id (rs_route rs) = ac_apic_id (supported_aps acpi ! target)"
proof -
  let ?x = "fresh_context boot (ai_bsp_apic_id acpi)" and ?paging = "info\<lparr>pi_idt_self_test_ok := 1\<rparr>"
  have n: "n \<le> 8" "0 < n" "n \<le> count_supported_ap_targets acpi" using acpi(2,3) by (auto simp: n_def MAX_AP_CONTEXTS_def)
  define k2 where "k2 = fst (bring_up_aps hw acpi mmap' ?paging n (before_aps boot acpi k, hw_ram hw))"
  have ok: "start_refusal (hw_apic_base hw) acpi mmap' ?paging i (ctx_boot ?x) = None" if "i < n" for i
    by (rule fresh_start_allowed [OF boot _ lapic(2,1)]) (use that n(3) run(2) in simp_all)
  have "aps_up acpi ?x n k2"
    using bring_up_all [OF layout n(1) _ ok before_aps_up [OF shape lapic(3)], of start "hw_ap_addresses hw" "hw_isr hw" idt_at
        "hw_registers hw" "hw_ram hw"] start n(2)
    by (simp add: k2_def bring_up_aps_def Let_def hw kernel_aps_def MAX_AP_CONTEXTS_def)
  then have serving: "fleet_serving n k2"
    and ids: "\<And>i. i < n \<Longrightarrow> bi_target_apic_id (boot_of k2 i) = ac_apic_id (supported_aps acpi ! i)"
    using aps_up_serving [OF _ n(1)] by (auto simp: aps_up_def)
  obtain sel where phase: "(kernel_phase cfg hw fb rsdp boot mmap k s :: 'w boot_end option) =
    (case run_requests cfg hw sel (lapic_fault (\<lambda>a. kernel_translate mmap fb (hw_paging hw) a \<noteq> None) (ai_local_apic_base acpi))
       n k2 of
       None \<Rightarrow> None
     | Some (Requests_Faulted a) \<Rightarrow> Some (Lapic_Faulted a)
     | Some (Requests_Done target ok handed_out rs) \<Rightarrow> Some (Reported target ok handed_out rs
         (draw_memory_map fb (boot_palette fb) mmap' (Some ?paging) (Some acpi) (Some target) rs
            (clear_screen fb (pal_bg (boot_palette fb)) s))))"
    using kernel_phase_requests [where boot = boot and k = k and s = s, OF ready run(1) acpi(1) cfg(6)]
    by (auto simp: k2_def n_def acpi(2))
  have "kernel_map mmap fb (hw_paging hw) = mmap'" by (simp add: kernel_map_def run(1))
  then have fault: "lapic_fault (\<lambda>a. kernel_translate mmap fb (hw_paging hw) a \<noteq> None) (ai_local_apic_base acpi) = None"
    using mapped_lapic_no_fault [OF ready] lapic(1) by simp
  obtain target rs where req: "run_requests cfg hw sel None n k2 = Some (Requests_Done target True 8 rs)" "target < n"
    "all_online n rs" "all_pinged n rs" "plan_served (ap_request_plan cfg) target rs"
    "rt_target_apic_id (rs_route rs) = bi_target_apic_id (boot_of k2 target)"
    using requests_served [OF serving n(1,2) layout cfg(1-5) hw] by blast
  show ?thesis unfolding phase fault req(1) using req(2-) ids by auto
qed

text \<open>
  The address of the APIC is not checked before it is used: with intact ACPI tables that name a page the memory
  map does not describe, no AP can be started, and the boot ends in a fault where the broadcast disarms
  the wait timer.
\<close>

lemma undescribed_lapic_faults:
  assumes ready: "paging_ready mmap fb (hw_paging hw)"
    and tables: "acpi_tables_at (kernel_memory mmap fb (hw_paging hw) (hw_ram hw)) (kernel_map mmap fb (hw_paging hw))
      rsdp xsdt madt base flags es"
    and lapic: "lapic_base_of (ucast base) es = a" "a \<noteq> 0" "kernel_translate mmap fb (hw_paging hw) (a + 0x380) = None"
    and cfg: "VIBE_AP_REQUEST_FAULT_TEST cfg = VIBE_AP_REQUEST_FAULT_TEST_NONE"
      "VIBE_FAULT_TEST cfg \<notin> {VIBE_FAULT_TEST_UD2, VIBE_FAULT_TEST_PF}"
  shows "kernel_phase cfg hw fb rsdp boot mmap k s = Some (Lapic_Faulted (a + 0x380))"
proof -
  obtain mmap' info m' where run: "setup_kernel_paging mmap fb (hw_paging hw) = Some (True, mmap', info, m')"
    using setup_kernel_paging_run [OF ready] by blast
  have map: "kernel_map mmap fb (hw_paging hw) = mmap'" by (simp add: kernel_map_def run)
  obtain acpi where acpi: "parse_acpi (kernel_memory mmap fb (hw_paging hw) (hw_ram hw)) (hw_cpuid hw) rsdp mmap' = Some acpi"
    "ai_local_apic_base acpi = a"
    using parse_acpi_tables [OF tables, of "hw_cpuid hw"] lapic(1) by (auto simp: map)
  have "lapic_fault (\<lambda>x. kernel_translate mmap fb (hw_paging hw) x \<noteq> None) a = Some (a + 0x380)"
    using lapic(2,3) by (simp add: lapic_fault_def upt_small)
  then have "run_requests cfg hw sel (lapic_fault (\<lambda>x. kernel_translate mmap fb (hw_paging hw) x \<noteq> None) a) n k' =
      Some (Requests_Faulted (a + 0x380))" for sel n k'
    using cfg(1) by (simp add: run_requests_def Let_def ap_request_fault_test_enabled_def split: prod.split)
  then show ?thesis
    using kernel_phase_requests [where boot = boot and k = k and s = s, OF ready run acpi(1) cfg(2)] by (auto simp: acpi(2))
qed

text \<open>The trampoline record the firmware phase hands on, and the root of the page tables.\<close>

lemma entered_boot:
  assumes "enter_kernel fw w = Left_Firmware fb rsdp boot mmap w'"
  shows "\<exists>f. boot = snd (allocate_ap_trampoline f)"
  using assms by (auto simp: enter_kernel_def Let_def split: prod.splits option.splits if_splits)

definition kernel_root :: "efi_memory_map_t \<Rightarrow> framebuffer_t \<Rightarrow> paging_machine \<Rightarrow> u64" where
  "kernel_root mmap fb m = (case setup_kernel_paging mmap fb m of Some (_, _, info, _) \<Rightarrow> pi_loaded_cr3 info | None \<Rightarrow> 0)"

lemma parsed_aps:
  assumes "acpi_tables_at mem mmap rsdp xsdt madt base flags es"
  shows "\<exists>acpi. parse_acpi mem cpuid rsdp mmap = Some acpi \<and>
    supported_aps acpi = filter (startable_cpu (read_bsp_apic_id cpuid)) (take 32 (enabled_cpus es)) \<and>
    count_supported_ap_targets acpi = length (filter (startable_cpu (read_bsp_apic_id cpuid)) (take 32 (enabled_cpus es))) \<and>
    ai_local_apic_base acpi = lapic_base_of (ucast base) es"
proof -
  obtain acpi where acpi: "parse_acpi mem cpuid rsdp mmap = Some acpi" "ai_error acpi = ACPI_OK"
    "table_lists (enabled_cpus es) acpi" "ai_local_apic_base acpi = lapic_base_of (ucast base) es"
    "ai_bsp_apic_id acpi = read_bsp_apic_id cpuid"
    using parse_acpi_tables [OF assms] by blast
  have "count_supported_ap_targets acpi = length (supported_aps acpi)"
    using acpi(2) by (simp add: count_supported_ap_targets_def fold_count supported_aps_def)
  then show ?thesis using acpi supported_aps_listed [OF acpi(3)] by auto
qed

section \<open>The screen\<close>

text \<open>The text colours differ from the background in both pixel formats.\<close>

lemma boot_palette_distinct:
  "pal_bg (boot_palette fb) \<notin> {pal_fg (boot_palette fb), pal_accent (boot_palette fb), pal_muted (boot_palette fb),
     pal_warn (boot_palette fb)}"
  by (simp add: boot_palette_def color_def)

lemma drawn_pixels_mapped:
  assumes "paging_ready mmap fb m" "fb_width fb \<le> fb_stride fb"
    and "4 * unat (fb_stride fb) * unat (fb_height fb) \<le> unat (framebuffer_size_bytes fb)"
    and "kept_off_screen fb s s'" "scr_pixels s' i \<noteq> scr_pixels s i" "j < 4"
  shows "kernel_translate mmap fb m (fb_base fb + 4 * i + j) = Some (fb_base fb + 4 * i + j)"
proof -
  obtain X Y where "on_screen fb X Y" "i = pixel_index fb X Y"
    using assms(4,5) unfolding kept_off_screen_def off_screen_def by metis
  then have i: "Suc (unat i) \<le> unat (fb_stride fb) * unat (fb_height fb)"
    using pixel_index_bound [OF _ assms(2)] by (simp add: Suc_leI)
  have j: "unat j < 4" using assms(6) by (simp add: word_less_nat_alt)
  obtain f where f: "framebuffer_end_checked fb = Some f"
    using assms(1) by (auto simp: paging_ready_def identity_end_def split: option.splits)
  have "unat (fb_base fb) + unat (framebuffer_size_bytes fb) \<le> unat f"
    using framebuffer_end_Some(2) [OF f] by linarith
  then have "unat (fb_base fb) + unat (framebuffer_size_bytes fb) \<le> 2 ^ 47"
    using framebuffer_end_Some(1) [OF f] by linarith
  moreover have in_fb: "4 * unat i + unat j < unat (framebuffer_size_bytes fb)"
    using i j assms(3) by (simp add: mult.assoc)
  ultimately have "unat (fb_base fb) + (4 * unat i + unat j) < 2 ^ 64" by simp
  then have "unat (fb_base fb + 4 * i + j) = unat (fb_base fb) + (4 * unat i + unat j)"
    by (simp add: unat_word_ariths)
  then show ?thesis
    using in_fb by (intro paged_kernel.framebuffer_identity [OF paged_kernel.intro [OF assms(1)]]) simp_all
qed

section \<open>The properties\<close>

text \<open>
  C1. The boot starts every AP it can and serves the whole plan. When the firmware leaves a memory map the page
  tables can be built from and a trampoline page, the tables lie below 4 GiB, the ACPI tables are intact and list
  at least one processor that can be started, the memory map describes the page of the local APIC, the APIC is not in x2APIC mode and its
  command register is idle, the APs run the code of the kernel and each arrives at its entry point in time, and the build
  has no fault tests and asks for eight requests to known services within the time limit, then the boot
  ends with its report. The report shows the first eight of the listed processors at most, all of them
  online in their request loop, each with an answered ping; the stream went to one of
  them, the route names its processor, and its history holds the eight requests of the plan, each once
  and all done. The screen is the drawing of that report on the cleared screen.
\<close>

theorem efi_main_serves_plan:
  assumes "enter_kernel fw w = Left_Firmware fb rsdp boot mmap w'" "bi_error boot = AP_BOOT_OK"
    and "hw = kernel_aps cfg sel cpu_at idt_at frame cr2 start hw0" "context_layout cpu_at"
    and "\<And>c. c < MAX_AP_CONTEXTS \<Longrightarrow> 4 \<le> start c \<and> start c + 1 < 7 + AP_ONLINE_TIMEOUT_LOOPS"
    and "paging_ready mmap fb (hw_paging hw)" "kernel_root mmap fb (hw_paging hw) \<le> 0xffffffff"
    and "acpi_tables_at (kernel_memory mmap fb (hw_paging hw) (hw_ram hw)) (kernel_map mmap fb (hw_paging hw))
      rsdp xsdt madt base flags es"
    and "memory_map_contains_range (kernel_map mmap fb (hw_paging hw)) (lapic_base_of (ucast base) es) PAGE_SIZE_4K"
    and "\<not> bit (hw_apic_base hw) 10" "icr_idle (ks_bsp_lapic k)" "ks_shape k"
    and "aps = filter (startable_cpu (read_bsp_apic_id (hw_cpuid hw))) (take 32 (enabled_cpus es))" "aps \<noteq> []"
    and "VIBE_AP_REQUEST_FAULT_TEST cfg = VIBE_AP_REQUEST_FAULT_TEST_NONE"
    and "VIBE_FAULT_TEST cfg \<notin> {VIBE_FAULT_TEST_UD2, VIBE_FAULT_TEST_PF}"
    and "list_all known_plan (ap_request_plan cfg)" "length (VIBE_AP_REQUESTS cfg) = 8"
    and "BSP_WAIT_TIMER_TIMEOUT_STEP cfg \<noteq> 0"
    and "8 * unat (BSP_WAIT_TIMER_TIMEOUT_STEP cfg) < unat (AP_REQUEST_TIMEOUT_LOOPS cfg)"
  defines "n \<equiv> min MAX_AP_CONTEXTS (length aps)"
  shows "\<exists>mmap' info m' acpi target rs. efi_main cfg fw hw k s w =
      Some (Reported target True 8 rs (draw_memory_map fb (boot_palette fb) mmap' (Some (info\<lparr>pi_idt_self_test_ok := 1\<rparr>))
        (Some acpi) (Some target) rs (clear_screen fb (pal_bg (boot_palette fb)) s)))
    \<and> setup_kernel_paging mmap fb (hw_paging hw) = Some (True, mmap', info, m')
    \<and> parse_acpi (kernel_memory mmap fb (hw_paging hw) (hw_ram hw)) (hw_cpuid hw) rsdp mmap' = Some acpi
    \<and> target < n \<and> all_online n rs \<and> all_pinged n rs \<and> plan_served (ap_request_plan cfg) target rs
    \<and> rt_target_apic_id (rs_route rs) = ac_apic_id (aps ! target)"
proof -
  obtain mmap' info m' where run: "setup_kernel_paging mmap fb (hw_paging hw) = Some (True, mmap', info, m')"
    using setup_kernel_paging_run [OF assms(6)] by blast
  have map: "kernel_map mmap fb (hw_paging hw) = mmap'" and root: "pi_loaded_cr3 info \<le> 0xffffffff"
    using assms(7) by (simp_all add: kernel_map_def kernel_root_def run)
  obtain acpi where acpi: "parse_acpi (kernel_memory mmap fb (hw_paging hw) (hw_ram hw)) (hw_cpuid hw) rsdp mmap' = Some acpi"
    "supported_aps acpi = aps" "count_supported_ap_targets acpi = length aps" "ai_local_apic_base acpi = lapic_base_of (ucast base) es"
    using parsed_aps [OF assms(8)] unfolding map assms(13) by blast
  obtain f where "boot = snd (allocate_ap_trampoline f)" using entered_boot [OF assms(1)] by blast
  from kernel_phase_serves [OF assms(3,4,5) this assms(2,6) run root acpi(1) _ _ _ assms(10-12,15,17-20,16), where s = s]
  show ?thesis
    unfolding acpi(2-4) n_def [symmetric] efi_main_def assms(1) firmware_phase.case
    using run acpi(1) assms(9,14) by (fastforce simp: map)
qed

text \<open>
  C14. Everything the kernel draws lands in mapped memory: with the page tables set up for a framebuffer
  that holds its scan lines, every byte of every pixel that the report on the cleared screen, the report
  of a paging failure or the fault screen changes is translated by the kernel's page tables to itself.
  On such a machine the set-up of the page tables succeeds, so the kernel itself does not show the report of a failure;
  the statement covers the drawing of it all the same.
\<close>

theorem drawing_hits_mapped_framebuffer:
  assumes "paging_ready mmap fb m" "fb_width fb \<le> fb_stride fb"
    and "4 * unat (fb_stride fb) * unat (fb_height fb) \<le> unat (framebuffer_size_bytes fb)"
    and "s' \<in> {draw_memory_map fb pal mmap' paging acpi target rs (clear_screen fb bg s),
      draw_paging_failure fb pal paging' s, fault_dispatch (fault_display fb) regs cpu frame s}"
    and "scr_pixels s' i \<noteq> scr_pixels s i" "j < 4"
  shows "kernel_translate mmap fb m (fb_base fb + 4 * i + j) = Some (fb_base fb + 4 * i + j)"
proof -
  have "bd_framebuffer (fault_display fb) = fb" by (simp add: fault_display_def)
  then have "kept_off_screen fb s (fault_dispatch (fault_display fb) regs cpu frame s)"
    by (metis kept_fault_dispatch)
  moreover have "kept_off_screen fb s (draw_memory_map fb pal mmap' paging acpi target rs (clear_screen fb bg s))"
    by (rule kept_trans [OF kept_clear_screen kept_draw_memory_map])
  ultimately have "kept_off_screen fb s s'"
    using assms(4) kept_draw_paging_failure by auto
  then show ?thesis using drawn_pixels_mapped [OF assms(1-3)] assms(5,6) by blast
qed

text \<open>A machine with 16 MiB of memory and a wide screen.\<close>

definition wide_map :: efi_memory_map_t where
  "wide_map = example_map\<lparr>mm_descriptors := [example_descriptor\<lparr>md_NumberOfPages := 4096\<rparr>], mm_map_capacity := 816\<rparr>"

lemma wide_ready: "paging_ready wide_map wide_fb example_machine"
proof -
  have e: "identity_end wide_map wide_fb = Some 0xC09E4000" by code_simp
  have R: "estimate_identity_page_table_pages 0xC09E4000 = 1563" by code_simp
  show ?thesis
    unfolding paging_ready_def e option.case Let_def R
    by (simp add: wide_map_def example_map_def example_descriptor_def example_machine_def mmap_wf_def pool_candidate_def)
qed

lemma paging_failure_corner:
  "scr_pixels (draw_paging_failure wide_fb (boot_palette wide_fb) paging s) 0 = pal_bg (boot_palette wide_fb)"
proof -
  let ?pal = "boot_palette wide_fb"
  define c where "c = clear_screen wide_fb (pal_bg ?pal) s"
  define t where "t = draw_text wide_fb 48 48 ''PAGING FAILED'' (pal_warn ?pal) (pal_bg ?pal) 4 c"
  have z: "pixel_index wide_fb 0 0 = 0" "on_screen wide_fb 0 0"
    by (simp_all add: pixel_index_def on_screen_def wide_fb_def)
  have "report_fits wide_fb 112 (paging_failure_report ?pal paging)"
    by (rule report_fits_wide [OF paging_failure_report_fits]) (simp add: paging_failure_report_def)
  then have "scr_pixels (draw_paging_failure wide_fb ?pal paging s) 0 = scr_pixels t 0"
    using draw_report_above [of wide_fb 112 _ 0 0 "pal_bg ?pal" t] z
    by (simp add: draw_paging_failure_def Let_def t_def c_def)
  also have "fits wide_fb 48 48 4 (length ''PAGING FAILED'')" by code_simp
  then have "scr_pixels t 0 = scr_pixels c 0"
    unfolding t_def using draw_text_outside [of wide_fb 48 48 4 "''PAGING FAILED''" 0 0] z by simp
  also have "\<dots> = pal_bg ?pal" unfolding c_def clear_screen_pixels using z by metis
  finally show ?thesis .
qed

theorem drawing_hits_mapped_framebuffer_witness:
  "kernel_translate wide_map wide_fb example_machine (0xC0000000 + 4 * 0 + 3) = Some (0xC0000000 + 4 * 0 + 3)"
proof -
  let ?s' = "draw_paging_failure wide_fb (boot_palette wide_fb) zero_paging_info blank_screen"
  have change: "scr_pixels ?s' 0 \<noteq> scr_pixels blank_screen 0"
  proof -
    have "pal_bg (boot_palette wide_fb) \<noteq> 0" by (simp add: boot_palette_def color_def)
    then show ?thesis unfolding paging_failure_corner by (simp add: blank_screen_def)
  qed
  have fb: "fb_width wide_fb \<le> fb_stride wide_fb" "fb_base wide_fb = 0xC0000000"
    "4 * unat (fb_stride wide_fb) * unat (fb_height wide_fb) \<le> unat (framebuffer_size_bytes wide_fb)"
    by (simp_all add: wide_fb_def framebuffer_size_bytes_def)
  show ?thesis
    using drawing_hits_mapped_framebuffer [OF wide_ready fb(1,3) insertI2 [OF insertI1] change, of 3]
    unfolding fb(2) by simp
qed

section \<open>A machine with one AP\<close>

text \<open>
  The same machine with low memory that holds the ACPI tables and the trampoline page, with a described
  local APIC, and with the ACPI tables of \<^const>\<open>example_acpi\<close>, which list one AP beside the BSP.
\<close>

lemma kernel_map_pool:
  assumes ready: "paging_ready mmap fb m" and e: "identity_end mmap fb = Some e"
  shows "fst (snd (select_page_table_pool mmap (estimate_identity_page_table_pages e) (zero_paging_info\<lparr>pi_max_identity_end := e\<rparr>)))
    = kernel_map mmap fb m"
proof -
  obtain mmap' info' m' where run: "setup_kernel_paging mmap fb m = Some (True, mmap', info', m')"
    using setup_kernel_paging_run [OF ready] by blast
  obtain d f where df: "descriptors_max_end (mm_descriptors mmap) 0 = Some d" "framebuffer_end_checked fb = Some f"
    "e = (if f > d then f else d)" using e by (rule identity_end_Some)
  have wf: "live_descriptors mmap = mm_descriptors mmap" "pm_cr4 m AND push_bit 12 1 = 0"
    using ready by (simp_all add: paging_ready_def live_descriptors_wf)
  obtain mmap1 i1 where pool: "select_page_table_pool mmap (estimate_identity_page_table_pages e)
      (zero_paging_info\<lparr>pi_max_identity_end := e\<rparr>) = (True, mmap1, i1)"
    using select_pool_ready [OF ready e] by blast
  have "mmap' = mmap1"
    using run pool df(1,2) wf unfolding setup_kernel_paging_def
    by (auto simp: Let_def simp flip: df(3) split: option.splits bool.splits prod.splits if_splits)
  then show ?thesis by (simp add: kernel_map_def run pool)
qed

definition served_map :: efi_memory_map_t where
  "served_map = example_map\<lparr>mm_descriptors :=
     [example_descriptor\<lparr>md_Type := EfiLoaderData, md_PhysicalStart := 0x1000, md_NumberOfPages := 15\<rparr>,
      example_descriptor\<lparr>md_NumberOfPages := 4096\<rparr>,
      example_descriptor\<lparr>md_Type := 11, md_PhysicalStart := 0xfee00000, md_NumberOfPages := 1\<rparr>],
     mm_map_size := 144, mm_descriptor_count := 3, mm_map_capacity := 912\<rparr>"

lemma served_end: "identity_end served_map wide_fb = Some 0xfee01000"
  by code_simp

lemma served_ready: "paging_ready served_map wide_fb example_machine"
proof -
  have R: "estimate_identity_page_table_pages 0xfee01000 = 2062" by code_simp
  show ?thesis
    unfolding paging_ready_def served_end option.case Let_def R
    by (simp add: served_map_def example_map_def example_descriptor_def example_machine_def mmap_wf_def pool_candidate_def)
qed

definition served_ram :: ram where
  "served_ram a = (case image 0x1000 example_acpi a of None \<Rightarrow> 0 | Some b \<Rightarrow> b)"

definition served_platform :: platform where
  "served_platform = kernel_aps default_build \<lparr>sel_cs = 8, sel_tr = 24\<rparr> example_cpu_at (\<lambda>_. 0x5000)
     (fs_frame example_faults) 0 (\<lambda>_. 1000) \<lparr>hw_cpuid = (\<lambda>_ _. (0, 0, 0, 0)), hw_paging = example_machine, hw_ram = served_ram,
     hw_isr = example_isr, hw_bsp_cpu = 0x5000, hw_bsp_idt = 0x6000, hw_registers = example_registers,
     hw_isr_machine = example_isr_machine,
     hw_breakpoint = \<lparr>if_ss = 16, if_rsp = 0x7000, if_rflags = 2, if_cs = 8, if_rip = 0x2000\<rparr>,
     hw_apic_base = 0xfee00900, hw_ap_addresses = (\<lambda>_. one_ap_addresses),
     hw_starting = (\<lambda>_ _ k. k), hw_pinged = (\<lambda>_ k. k), hw_serving = (\<lambda>_ _ k. k)\<rparr>"

definition served_firmware :: "(nat \<times> bool) firmware" where
  "served_firmware = \<lparr>fw_services = example_services\<lparr>bs_GetMemoryMap := (\<lambda>cap w.
        (\<lparr>mr_status = (if 144 \<le> cap then EFI_SUCCESS else EFI_BUFFER_TOO_SMALL),
          mr_map_size = 144, mr_map_key = 7, mr_descriptor_size = 48, mr_descriptor_version = 1,
          mr_descriptors = (if 144 \<le> cap then mm_descriptors served_map else [])\<rparr>, w))\<rparr>,
     fw_SetWatchdogTimer = None,
     fw_LocateProtocol = (\<lambda>w. ((EFI_SUCCESS, Some \<lparr>gm_FrameBufferBase = 0xC0000000, gm_HorizontalResolution = 2400,
        gm_VerticalResolution = 1080, gm_PixelsPerScanLine = 2400, gm_FrameBufferSize = 10368000,
        gm_PixelFormat = 1\<rparr>), w)),
     fw_AllocatePages = (\<lambda>pages max_address w. ((EFI_SUCCESS, 0x8000), w)),
     fw_OutputString = None,
     fw_ConfigurationTable = Some [\<lparr>ct_VendorGuid = acpi_20_guid, ct_VendorTable = 0x1000\<rparr>]\<rparr>"

lemma served_boot_enters:
  "\<exists>boot. enter_kernel served_firmware (0, True) = Left_Firmware wide_fb 0x1000 boot served_map (0, False) \<and>
     bi_error boot = AP_BOOT_OK"
proof -
  let ?boot = "snd (allocate_ap_trampoline (\<lambda>p a. fst (fw_AllocatePages served_firmware p a (0, True))))"
  have "exit_boot_services (fw_services served_firmware) empty_memory_map (0, True) = ((EFI_SUCCESS, served_map), (0, False))"
    "find_acpi_rsdp (fw_ConfigurationTable served_firmware) = 0x1000" "bi_error ?boot = AP_BOOT_OK"
    by code_simp+
  moreover have "fw_LocateProtocol served_firmware w = ((EFI_SUCCESS, Some \<lparr>gm_FrameBufferBase = 0xC0000000,
      gm_HorizontalResolution = 2400, gm_VerticalResolution = 1080, gm_PixelsPerScanLine = 2400,
      gm_FrameBufferSize = 10368000, gm_PixelFormat = 1\<rparr>), w)"
    and "snd (fw_AllocatePages served_firmware pages a w) = w" "fw_SetWatchdogTimer served_firmware = None" for w pages a
    by (simp_all add: served_firmware_def)
  ultimately show ?thesis
    by (intro exI [of _ ?boot]) (simp add: enter_kernel_def Let_def framebuffer_of_def wide_fb_def)
qed

text \<open>What is true of a small memory and map is true of larger ones.\<close>

lemma bytes_equal_mono:
  assumes "\<And>a b. mem a = Some b \<Longrightarrow> mem' a = Some b"
  shows "bytes_equal mem p bs = Some x \<Longrightarrow> bytes_equal mem' p bs = Some x"
  using assms by (induction bs arbitrary: p) (auto simp: bind_eq_Some_conv split: if_splits)

lemma acpi_tables_at_mono:
  assumes mem: "\<And>a b. mem a = Some b \<Longrightarrow> mem' a = Some b"
    and ranges: "\<And>a n. memory_map_contains_range mmap a n \<Longrightarrow> memory_map_contains_range mmap' a n"
    and tables: "acpi_tables_at mem mmap rsdp xsdt madt base flags es"
  shows "acpi_tables_at mem' mmap' rsdp xsdt madt base flags es"
proof -
  have holds: "holds_bytes mem a bs \<Longrightarrow> holds_bytes mem' a bs" for a bs
    using mem by (auto simp: holds_bytes_def)
  have "other_table mem mmap a \<Longrightarrow> other_table mem' mmap' a" for a
    unfolding other_table_def using ranges bytes_equal_mono [where mem = mem and mem' = mem', OF mem] by blast
  then have others: "list_all (other_table mem mmap) xs \<Longrightarrow> list_all (other_table mem' mmap') xs" for xs
    by (simp add: list_all_iff)
  show ?thesis
    using tables unfolding acpi_tables_at_def Let_def by (meson holds others ranges)
qed

lemma served_tables:
  defines "mmap \<equiv> kernel_map served_map wide_fb example_machine"
  shows "acpi_tables_at (kernel_memory served_map wide_fb example_machine served_ram) mmap 0x1000 0x1024 0x1050 0xfec00000 1
      example_entries"
    and "memory_map_contains_range mmap 0xfee00000 PAGE_SIZE_4K"
proof -
  note pool = kernel_map_pool [OF served_ready served_end, folded mmap_def]
  have first: "take 1 (take (unat (mm_descriptor_count mmap)) (mm_descriptors mmap)) =
      [example_descriptor\<lparr>md_Type := EfiLoaderData, md_PhysicalStart := 0x1000, md_NumberOfPages := 15\<rparr>]"
    unfolding pool [symmetric] by code_simp
  show "memory_map_contains_range mmap 0xfee00000 PAGE_SIZE_4K" unfolding pool [symmetric] by code_simp
  have low: "range_in_descriptors (take (unat (mm_descriptor_count mmap)) (mm_descriptors mmap)) a e"
    if "0x1000 \<le> a" "e \<le> 0x10000" for a e
  proof -
    let ?d = "example_descriptor\<lparr>md_Type := EfiLoaderData, md_PhysicalStart := 0x1000, md_NumberOfPages := 15\<rparr>"
    have d: "descriptor_end_checked ?d = Some 0x10000" "md_PhysicalStart ?d = 0x1000" by code_simp+
    have "?d \<in> set (take (unat (mm_descriptor_count mmap)) (mm_descriptors mmap))"
      using set_take_subset [of 1 "take (unat (mm_descriptor_count mmap)) (mm_descriptors mmap)"] unfolding first by simp
    then show ?thesis
      unfolding range_in_descriptors_iff
      by (rule bexI [of _ ?d, rotated]) (rule exI [of _ "0x10000"], use d that in simp)
  qed
  have ranges: "memory_map_contains_range mmap a n" if "memory_map_contains_range one_page_map a n" for a n
  proof (cases "n = 0")
    case False
    have "descriptor_end_checked (hd (mm_descriptors one_page_map)) = Some 0x2000" by code_simp
    then have "0x1000 \<le> a" "a + n \<le> 0x2000" "\<not> NOT 0 - n < a"
      using that False by (auto simp: memory_map_contains_range_def one_page_map_def split: if_splits)
    moreover from this(2) have "a + n \<le> 0x10000" by (rule order_trans) simp
    ultimately show ?thesis using low False by (simp add: memory_map_contains_range_def)
  qed (simp add: memory_map_contains_range_def)
  have mem: "kernel_memory served_map wide_fb example_machine served_ram a = Some b" if "image 0x1000 example_acpi a = Some b" for a b
  proof -
    have "length example_acpi = 182" by code_simp
    then have a: "0x1000 \<le> a" "unat (a - 0x1000) < 182" using that by (auto simp: image_def split: if_splits)
    then have "unat a < 0x10b6" "0x1000 \<le> unat a" by (simp_all add: unat_sub word_le_nat_alt)
    then have "a + 1 \<le> 0x10000" "\<not> NOT 0 - 1 < a" by (simp_all add: word_le_nat_alt word_less_nat_alt unat_word_ariths)
    then have "memory_map_contains_range mmap a 1" using low [OF a(1)] by (simp add: memory_map_contains_range_def)
    then have "unat a \<in> mapped_bytes mmap" using mmap.offset_address [of mmap a 1 0] by simp
    then have "kernel_translate served_map wide_fb example_machine a = Some a"
      unfolding mmap_def by (rule paged_kernel.described_identity [OF paged_kernel.intro [OF served_ready]])
    then show ?thesis using that by (simp add: kernel_memory_def served_ram_def)
  qed
  show "acpi_tables_at (kernel_memory served_map wide_fb example_machine served_ram) mmap 0x1000 0x1024 0x1050 0xfec00000 1
      example_entries"
    by (rule acpi_tables_at_mono [OF mem ranges example_acpi_tables])
qed

theorem efi_main_serves_plan_witness:
  "\<exists>rs s. efi_main default_build served_firmware served_platform example_kernel blank_screen (0, True)
      = Some (Reported 0 True 8 rs s) \<and> all_online 1 rs \<and> all_pinged 1 rs \<and>
    plan_served (ap_request_plan default_build) 0 rs \<and> rt_target_apic_id (rs_route rs) = 1"
proof -
  obtain boot where enter: "enter_kernel served_firmware (0, True) = Left_Firmware wide_fb 0x1000 boot served_map (0, False)"
    and boot: "bi_error boot = AP_BOOT_OK" using served_boot_enters by blast
  have hw: "hw_paging served_platform = example_machine" "hw_ram served_platform = served_ram"
    "hw_cpuid served_platform = (\<lambda>_ _. (0, 0, 0, 0))" "hw_apic_base served_platform = 0xfee00900"
    by (simp_all add: served_platform_def kernel_aps_def)
  have root: "kernel_root served_map wide_fb example_machine \<le> 0xffffffff"
  proof -
    obtain mmap' info m' where run: "setup_kernel_paging served_map wide_fb example_machine = Some (True, mmap', info, m')"
      using setup_kernel_paging_run [OF served_ready] by blast
    from root_below_end [OF served_ready served_end this] show ?thesis by (simp add: kernel_root_def run word_le_nat_alt)
  qed
  have shape: "ks_shape example_kernel"
    by (simp add: ks_shape_def example_kernel_def outbox_shape_def empty_outbox_def list_all_length c_const)
  have aps: "lapic_base_of (ucast (0xfec00000 :: u32)) example_entries = 0xfee00000"
    "filter (startable_cpu (read_bsp_apic_id (\<lambda>_ _. (0, 0, 0, 0)))) (take 32 (enabled_cpus example_entries)) =
      [\<lparr>ac_acpi_uid = 1, ac_apic_id = 1, ac_flags = 1, ac_x2apic = 0\<rparr>]" "\<not> bit (0xfee00900 :: u64) 10" by code_simp+
  have cfg: "VIBE_AP_REQUEST_FAULT_TEST default_build = VIBE_AP_REQUEST_FAULT_TEST_NONE"
    "VIBE_FAULT_TEST default_build \<notin> {VIBE_FAULT_TEST_UD2, VIBE_FAULT_TEST_PF}"
    "length (VIBE_AP_REQUESTS default_build) = 8" "BSP_WAIT_TIMER_TIMEOUT_STEP default_build \<noteq> 0"
    "8 * unat (BSP_WAIT_TIMER_TIMEOUT_STEP default_build) < unat (AP_REQUEST_TIMEOUT_LOOPS default_build)"
    by (simp_all add: default_build_def default_requests_def c_const)
  have known: "list_all known_plan (ap_request_plan default_build)" by code_simp
  have start: "4 \<le> (1000 :: nat) \<and> 1000 + 1 < 7 + AP_ONLINE_TIMEOUT_LOOPS" by (simp add: AP_ONLINE_TIMEOUT_LOOPS_def)
  show ?thesis
    using efi_main_serves_plan [OF enter boot served_platform_def example_layout start _ _ _ _ _ one_ap_idle shape refl _
        cfg(1,2) known cfg(3-5), unfolded hw, OF served_ready root served_tables(1), unfolded aps, OF served_tables(2) aps(3), where s = blank_screen]
    by (auto simp: min_def MAX_AP_CONTEXTS_def)
qed

end
