(* ===== verification/Cpu_Info.thy ===== *)
theory Cpu_Info
  imports Format_Text
begin

text \<open>
  Identification of the processor (\<^verbatim>\<open>kernel/kernel.c\<close>, \<^verbatim>\<open>cpu_info_t\<close>, \<^verbatim>\<open>collect_cpu_info\<close> and the
  two functions that print it; the file keeps them though nothing calls them at present). The
  \<^verbatim>\<open>cpuid\<close> instruction is a parameter: a function from leaf and subleaf to the four registers.
  The loop that removes the leading blanks of the brand string is a partial function; the lemmas show
  that it ends, because the string is terminated, and what it leaves.
\<close>

record cpu_info_t =
  ci_vendor :: string
  ci_brand :: string
  ci_family :: u32
  ci_model :: u32
  ci_stepping :: u32
  ci_logical_processors :: u32
  ci_cores_per_package :: u32
  ci_physical_address_bits :: u32
  ci_virtual_address_bits :: u32
  ci_max_basic_leaf :: u32
  ci_max_extended_leaf :: u32
  ci_leaf1_ecx :: u32
  ci_leaf1_edx :: u32
  ci_leaf7_ebx :: u32
  ci_ext_edx :: u32

type_synonym cpuid_fn = "u32 \<Rightarrow> u32 \<Rightarrow> u32 \<times> u32 \<times> u32 \<times> u32"

definition put_u32_chars :: "u32 \<Rightarrow> string" where
  "put_u32_chars v =
     [char_of (unat (v AND 0xff)), char_of (unat (drop_bit 8 v AND 0xff)),
      char_of (unat (drop_bit 16 v AND 0xff)), char_of (unat (drop_bit 24 v AND 0xff))]"

definition zero_cpu_info :: cpu_info_t where
  "zero_cpu_info =
     \<lparr>ci_vendor = replicate 13 (CHR 0x00), ci_brand = replicate 49 (CHR 0x00),
      ci_family = 0, ci_model = 0, ci_stepping = 0, ci_logical_processors = 0, ci_cores_per_package = 0,
      ci_physical_address_bits = 0, ci_virtual_address_bits = 0, ci_max_basic_leaf = 0,
      ci_max_extended_leaf = 0, ci_leaf1_ecx = 0, ci_leaf1_edx = 0, ci_leaf7_ebx = 0, ci_ext_edx = 0\<rparr>"

text \<open>One round of the loop moves the characters \<open>1\<close> to \<open>48\<close> down by one place; the last one stays.\<close>

definition shift_brand :: "string \<Rightarrow> string" where
  "shift_brand b = map (\<lambda>i. b ! (i + 1)) [0..<48] @ [b ! 48]"

partial_function (option) trim_brand :: "string \<Rightarrow> string option" where
  "trim_brand b = (if b ! 0 = CHR '' '' then trim_brand (shift_brand b) else Some b)"

text \<open>Writing the literal \<^verbatim>\<open>UNKNOWN\<close> and its terminator over the zeroed brand.\<close>

definition unknown_brand :: string where
  "unknown_brand = append_str [] ''UNKNOWN'' @ replicate 42 (CHR 0x00)"

definition brand_chars :: "cpuid_fn \<Rightarrow> u32 \<Rightarrow> string" where
  "brand_chars cpuid leaf =
     (case cpuid (0x80000002 + leaf) 0 of (a, b, c, d) \<Rightarrow>
        put_u32_chars a @ put_u32_chars b @ put_u32_chars c @ put_u32_chars d)"

definition collect_leaf1 :: "cpuid_fn \<Rightarrow> cpu_info_t \<Rightarrow> cpu_info_t" where
  "collect_leaf1 cpuid cpu =
     (case cpuid 1 0 of (a, b, c, d) \<Rightarrow>
        let base_family = drop_bit 8 a AND 0xf;
            base_model = drop_bit 4 a AND 0xf;
            ext_family = drop_bit 20 a AND 0xff;
            ext_model = drop_bit 16 a AND 0xf
        in cpu\<lparr>ci_stepping := a AND 0xf,
               ci_family := (if base_family = 0xf then base_family + ext_family else base_family),
               ci_model := (if base_family = 0x6 \<or> base_family = 0xf
                            then base_model + push_bit 4 ext_model else base_model),
               ci_logical_processors := drop_bit 16 b AND 0xff,
               ci_leaf1_ecx := c, ci_leaf1_edx := d\<rparr>)"

text \<open>The leaves up to the brand string, the brand string, and the address widths.\<close>

definition collect_vendor :: "cpuid_fn \<Rightarrow> cpu_info_t \<Rightarrow> cpu_info_t" where
  "collect_vendor cpuid cpu =
     (case cpuid 0 0 of (a, b, c, d) \<Rightarrow>
        cpu\<lparr>ci_max_basic_leaf := a,
            ci_vendor := put_u32_chars b @ put_u32_chars d @ put_u32_chars c @ [CHR 0x00],
            ci_max_extended_leaf := fst (cpuid 0x80000000 0)\<rparr>)"

definition collect_leaves :: "cpuid_fn \<Rightarrow> cpu_info_t \<Rightarrow> cpu_info_t" where
  "collect_leaves cpuid cpu =
     (let cpu = (if 1 \<le> ci_max_basic_leaf cpu then collect_leaf1 cpuid cpu else cpu);
          cpu = (if 4 \<le> ci_max_basic_leaf cpu
                 then cpu\<lparr>ci_cores_per_package := (drop_bit 26 (fst (cpuid 4 0)) AND 0x3f) + 1\<rparr> else cpu);
          cpu = (if 7 \<le> ci_max_basic_leaf cpu
                 then cpu\<lparr>ci_leaf7_ebx := fst (snd (cpuid 7 0))\<rparr> else cpu)
      in if 0x80000001 \<le> ci_max_extended_leaf cpu
         then cpu\<lparr>ci_ext_edx := snd (snd (snd (cpuid 0x80000001 0)))\<rparr> else cpu)"

definition collect_brand :: "cpuid_fn \<Rightarrow> cpu_info_t \<Rightarrow> string option" where
  "collect_brand cpuid cpu =
     (if 0x80000004 \<le> ci_max_extended_leaf cpu
      then trim_brand (concat (map (brand_chars cpuid) [0, 1, 2]) @ [CHR 0x00])
      else Some unknown_brand)"

definition collect_cpu_info :: "cpuid_fn \<Rightarrow> cpu_info_t option" where
  "collect_cpu_info cpuid =
     (let cpu = collect_leaves cpuid (collect_vendor cpuid zero_cpu_info)
      in case collect_brand cpuid cpu of
        None \<Rightarrow> None
      | Some brand \<Rightarrow>
          let cpu = cpu\<lparr>ci_brand := brand\<rparr>
          in Some (if 0x80000008 \<le> ci_max_extended_leaf cpu
                   then let a = fst (cpuid 0x80000008 0)
                        in cpu\<lparr>ci_physical_address_bits := a AND 0xff,
                               ci_virtual_address_bits := drop_bit 8 a AND 0xff\<rparr>
                   else cpu))"

definition append_feature :: "string \<Rightarrow> bool \<Rightarrow> bool \<Rightarrow> string \<Rightarrow> string \<times> bool" where
  "append_feature p enabled first name =
     (if \<not> enabled then (p, first)
      else (append_str (if \<not> first then append_char p CHR '' '' else p) name, False))"

definition make_cpu_line :: "string \<Rightarrow> u32 \<Rightarrow> string" where
  "make_cpu_line label v = append_dec (append_str [] label) v"

section \<open>The brand string\<close>

lemma length_put_u32_chars [simp]: "length (put_u32_chars v) = 4"
  by (simp add: put_u32_chars_def)

lemma length_brand_chars [simp]: "length (brand_chars cpuid leaf) = 16"
  by (simp add: brand_chars_def split: prod.split)

lemma shift_brand_eq:
  assumes "length b = 49"
  shows "shift_brand b = tl b @ [last b]"
proof -
  have "b \<noteq> []" using assms by auto
  then have "last b = b ! 48" using assms by (simp add: last_conv_nth)
  then show ?thesis
    by (intro nth_equalityI) (use assms in \<open>auto simp: shift_brand_def nth_append nth_tl\<close>)
qed

text \<open>The terminator bounds the number of rounds.\<close>

lemma trim_brand_ends:
  assumes "length b = 49" "last b = CHR 0x00"
  shows "trim_brand b = Some (dropWhile (\<lambda>c. c = CHR '' '') b
    @ replicate (length (takeWhile (\<lambda>c. c = CHR '' '') b)) (CHR 0x00))"
  using assms
proof (induction "length (takeWhile (\<lambda>c. c = CHR '' '') b)" arbitrary: b)
  case 0
  then obtain c cs where b: "b = c # cs" by (cases b) auto
  then have "c \<noteq> CHR '' ''" using 0 by (auto split: if_splits)
  then show ?case using b by (simp add: trim_brand.simps)
next
  case (Suc n)
  then obtain cs where b: "b = CHR '' '' # cs" by (cases b) (auto split: if_splits)
  then have cs: "cs \<noteq> []" "last cs = CHR 0x00" "length cs = 48" using Suc.prems by (auto split: if_splits)
  then have stop: "CHR 0x00 \<in> set cs" by (metis last_in_set)
  have shift: "shift_brand b = cs @ [CHR 0x00]"
    using shift_brand_eq [OF Suc.prems(1)] b cs by simp
  have tw: "takeWhile (\<lambda>c. c = CHR '' '') (cs @ [CHR 0x00]) = takeWhile (\<lambda>c. c = CHR '' '') cs"
    and dw: "dropWhile (\<lambda>c. c = CHR '' '') (cs @ [CHR 0x00]) = dropWhile (\<lambda>c. c = CHR '' '') cs @ [CHR 0x00]"
    using stop by (simp_all add: takeWhile_append1 [OF stop] dropWhile_append1 [OF stop])
  have "trim_brand (cs @ [CHR 0x00]) = Some (dropWhile (\<lambda>c. c = CHR '' '') (cs @ [CHR 0x00])
      @ replicate (length (takeWhile (\<lambda>c. c = CHR '' '') (cs @ [CHR 0x00]))) (CHR 0x00))"
    using Suc.hyps b cs tw by (intro Suc.hyps(1)) auto
  then show ?case
    using b by (subst trim_brand.simps) (simp add: shift [unfolded b] tw dw replicate_append_same)
qed

text \<open>Collecting the processor information always ends, with terminated vendor and brand strings.\<close>

lemma collect_brand_ends:
  "\<exists>b. collect_brand cpuid cpu = Some b \<and> length b = 49 \<and> last b = CHR 0x00 \<and> b ! 0 \<noteq> CHR '' ''"
proof -
  define b where "b = concat (map (brand_chars cpuid) [0, 1, 2]) @ [CHR 0x00]"
  have b: "length b = 49" "last b = CHR 0x00" by (simp_all add: b_def)
  define t where "t = dropWhile (\<lambda>c. c = CHR '' '') b
    @ replicate (length (takeWhile (\<lambda>c. c = CHR '' '') b)) (CHR 0x00)"
  have trim: "trim_brand b = Some t" using trim_brand_ends [OF b] by (simp add: t_def)
  have "CHR 0x00 \<in> set b" by (simp add: b_def)
  then have nz: "dropWhile (\<lambda>c. c = CHR '' '') b \<noteq> []" by (auto simp: dropWhile_eq_Nil_conv)
  have "length t = 49"
    using b(1) unfolding t_def by (metis length_append length_replicate add.commute takeWhile_dropWhile_id)
  moreover have "last (dropWhile (\<lambda>c. c = CHR '' '') b) = CHR 0x00"
    using nz b(2) by (metis last_appendR takeWhile_dropWhile_id)
  then have "last t = CHR 0x00" by (auto simp: t_def last_append last_replicate)
  moreover have "t ! 0 \<noteq> CHR '' ''"
    using nz hd_dropWhile [OF nz] by (simp add: t_def nth_append hd_conv_nth [symmetric])
  moreover have "length unknown_brand = 49" "last unknown_brand = CHR 0x00" "unknown_brand ! 0 \<noteq> CHR '' ''"
    by code_simp+
  ultimately show ?thesis
    unfolding collect_brand_def b_def [symmetric] trim by auto
qed

lemma collect_leaves_vendor [simp]: "ci_vendor (collect_leaves cpuid cpu) = ci_vendor cpu"
  by (simp add: collect_leaves_def collect_leaf1_def Let_def split: prod.split)

lemma collect_cpu_info_ends:
  "\<exists>cpu. collect_cpu_info cpuid = Some cpu \<and> length (ci_brand cpu) = 49 \<and> last (ci_brand cpu) = CHR 0x00
     \<and> length (ci_vendor cpu) = 13 \<and> last (ci_vendor cpu) = CHR 0x00 \<and> ci_brand cpu ! 0 \<noteq> CHR '' ''"
proof -
  let ?cpu = "collect_leaves cpuid (collect_vendor cpuid zero_cpu_info)"
  obtain b where "collect_brand cpuid ?cpu = Some b" "length b = 49" "last b = CHR 0x00" "b ! 0 \<noteq> CHR '' ''"
    using collect_brand_ends by blast
  moreover have "length (ci_vendor ?cpu) = 13 \<and> last (ci_vendor ?cpu) = CHR 0x00"
    by (simp add: collect_vendor_def split: prod.split)
  ultimately show ?thesis by (simp add: collect_cpu_info_def Let_def)
qed

end
