(* ===== verification/Trampoline_Run.thy ===== *)
theory Trampoline_Run
  imports Trampoline_Exec Paged_Memory
begin

text \<open>
  Running the trampoline, one processor mode after the other. The proofs execute the model of the
  processor symbolically.
\<close>

lemma page_holds_Nil [simp]: "page_holds base mem off []"
  by (simp add: page_holds_def)

lemma load_unpaged:
  assumes "\<not> bit (cp_cr0 d) 31"
  shows "load8 tables d a = Some (cp_mem d a)" "page_visible tables base d"
  using assms by (simp_all add: load8_def translate_def page_visible_def)

lemmas step_defs = cpu_step_def step_0f_def step_66_def step_48_def mov_sreg_def mov_from_cr_def mov_to_cr_def
  write_cr0_def advance_def set_ax_def call_rax_def

lemma cpu_run_numeral:
  "cpu_run tables (numeral k) c = Option.bind (cpu_step tables c) (cpu_run tables (pred_numeral k))"
  by (simp add: numeral_eq_Suc)

lemma page_holds_Cons1:
  "page_holds base mem off (b # bs) \<longleftrightarrow> mem (base + word_of_nat off) = b \<and> page_holds base mem (off + 1) bs"
  by (simp add: page_holds_Cons)

lemma real16_selector:
  assumes "base < 0x100000" "base AND 0xfff = (0 :: u64)"
  shows "(push_bit 4 (ucast (ucast (drop_bit 4 base) :: u16)) :: u64) = base"
proof (rule bit_word_eqI)
  fix n assume n: "n < LENGTH(64)"
  have low: "\<not> bit base n" if "n < 12"
  proof -
    have "bit (base AND 0xfff) n \<longleftrightarrow> bit base n \<and> bit (0xfff :: u64) n" by (rule bit_and_iff)
    moreover have "bit (0xfff :: u64) n"
      using bit_mask_iff [where 'a = u64, of 12 n] that n by (simp add: mask_eq_exp_minus_1)
    ultimately show ?thesis using assms(2) by simp
  qed
  have "take_bit 20 base = base" using assms(1) by (simp add: take_bit_word_eq_self word_less_nat_alt take_bit_eq_mod word_unat_eq_iff unat_word_ariths)
  then have high: "\<not> bit base n" if "20 \<le> n" by (metis bit_take_bit_iff not_less that)
  have "12 \<le> n \<and> n < 20" if "bit base n" using low high that by (meson not_less)
  then show "bit (push_bit 4 (ucast (ucast (drop_bit 4 base) :: u16)) :: u64) n = bit base n"
    using n by (cases "bit base n") (auto simp: bit_simps)
qed

lemma two_nat: "Suc (Suc 0) = 2"
  by simp

lemma low_ax [simp]: "ucast (((x :: u64) AND - 65536) OR ucast (v :: u16)) = v"
proof (rule bit_word_eqI)
  fix n assume n: "n < LENGTH(16)"
  have "\<not> bit (- 65536 :: u64) n"
    using n bit_not_iff [of "0xffff :: u64" n] bit_mask_iff [where 'a = u64, of 16 n] by (simp add: mask_eq_exp_minus_1)
  then show "bit (ucast ((x AND - 65536) OR ucast v) :: u16) n = bit v n" using n by (auto simp: bit_simps)
qed

lemma low32_simps [simp]:
  "low32 (low32 x) = low32 x" "low32 (x OR y) = low32 x OR low32 y" "low32 1 = 1" "low32 0x20 = 0x20"
  "low32 0x100 = 0x100" "low32 0x80000000 = 0x80000000" "low32 0xc0000080 = 0xc0000080"
  by (simp_all add: low32_def and.assoc bit.conj_disj_distrib2)

lemma small_address:
  assumes "base < 0x100000" "k < 0x1000"
  shows "ucast (ucast (base + k) :: u32) = base + (k :: u64)" "(base + k) AND 0xffffff = base + k"
proof -
  have sum: "unat (base + k) = unat base + unat k" using assms by (simp add: word_less_nat_alt unat_word_ariths)
  then have "unat (base + k) < 2 ^ 24" using assms by (simp add: word_less_nat_alt)
  then have small: "take_bit 24 (base + k) = base + k" "take_bit 32 (base + k) = base + k"
    by (simp_all add: word_unat_eq_iff take_bit_eq_mod unat_mod)
  show "ucast (ucast (base + k) :: u32) = base + k" using small(2) by (simp add: unsigned_ucast_eq word_unat_eq_iff)
  show "(base + k) AND 0xffffff = base + k"
    using small(1) by (simp add: take_bit_eq_mask mask_eq_exp_minus_1)
qed

lemmas segment_defs = data_segment_def far_jump_def descriptor_at_def code_descriptor_def data_descriptor_def
  seg_base_def code_size_of_def

lemma load16_unpaged:
  assumes "cp_mem d = cp_mem c" "page_holds base (cp_mem c) off (write_u16 v)" "\<not> bit (cp_cr0 d) 31" "off < 4000"
  shows "load16 tables d (base + word_of_nat off) = Some v"
  using load16_page [OF load_unpaged(2)] assms by metis

lemma load32_unpaged:
  assumes "cp_mem d = cp_mem c" "page_holds base (cp_mem c) off (write_u32 v)" "\<not> bit (cp_cr0 d) 31" "off < 4000"
  shows "load32 tables d (base + word_of_nat off) = Some v"
  using load32_page [OF load_unpaged(2)] assms by metis

lemma load64_unpaged:
  assumes "cp_mem d = cp_mem c" "page_holds base (cp_mem c) off (write_u64 v)" "\<not> bit (cp_cr0 d) 31" "off < 3000"
  shows "load64 tables d (base + word_of_nat off) = Some v"
  using load64_page [OF load_unpaged(2)] assms by metis

section \<open>Real mode\<close>

lemma real16_phase:
  assumes page: "page_holds base (cp_mem c) 0 (real16_bytes base)"
      "page_holds base (cp_mem c) 0x180 (write_u16 31)" "page_holds base (cp_mem c) 0x182 (write_u32 (ucast (base + 0x190)))"
      "page_holds base (cp_mem c) 0x1a8 (write_u64 0x00cf9a000000ffff)"
    and base: "base < 0x100000" "base AND 0xfff = 0"
    and start: "cp_size c = C16" "cp_ip c = 0" "cp_cs_base c = base" "cp_cs c = ucast (drop_bit 4 base)" "\<not> cp_halted c"
      "\<not> bit (cp_cr0 c) 31" "\<not> bit (cp_cr0 c) 0" "low32 (cp_cr0 c) = cp_cr0 c"
  shows "\<exists>c'. cpu_run tables 12 c = Some c' \<and> cp_size c' = C32 \<and> cp_ip c' = base + 0x60 \<and> cp_cs_base c' = 0 \<and>
    \<not> cp_halted c' \<and> cp_cr0 c' = cp_cr0 c OR 1 \<and> cp_cr4 c' = cp_cr4 c \<and> cp_efer c' = cp_efer c \<and>
    cp_gdtr_base c' = base + 0x190 \<and> cp_gdtr_limit c' = 31 \<and> cp_mem c' = cp_mem c"
proof -
  note held = page(1) [unfolded real16_bytes_def, simplified page_holds_append page_holds_Cons1, simplified, simplified two_nat, simplified]
  have comm: "numeral n + base = base + numeral n" for n by (rule add.commute)
  note r16 = load16_unpaged [of _ c base _ _ tables] and r32 = load32_unpaged [of _ c base _ _ tables]
    and r64 = load64_unpaged [of _ c base _ _ tables]
  note loads = r16 [of _ 11 "0x0ff0", simplified] r16 [of _ 16 "0x180", simplified] r16 [of _ 36 "0x18", simplified]
    r16 [of _ "0x180" 31, simplified] r32 [of _ 23 1, simplified] r32 [of _ 32 "ucast (base + 0x60)", simplified]
    r32 [of _ "0x182" "ucast (base + 0x190)", simplified] r64 [of _ "0x1a8" "0x00cf9a000000ffff", simplified]
  have bits: "\<not> bit (cp_cr0 c OR 1) 31" "bit (cp_cr0 c OR 1) 0" using start by (simp_all add: bit_or_iff)
  show ?thesis
    using held start real16_selector [OF base]
    by (simp add: bits cpu_run_numeral step_defs load_unpaged segment_defs Let_def comm loads page small_address base)
qed

lemma efer_lme:
  "(low32 e OR 0x100) OR push_bit 32 (drop_bit 32 e) = e OR 0x100"
proof -
  have "bit (low32 e OR push_bit 32 (drop_bit 32 e)) n = bit e n" if "n < 64" for n
    using that unfolding low32_def and_byte_mask by (cases "n < 32") (auto simp: bit_simps)
  then have "low32 e OR push_bit 32 (drop_bit 32 e) = e" by (intro bit_word_eqI) simp
  moreover have "(a OR b) OR c = (a OR c) OR b" for a b c :: u64
    by (rule bit_word_eqI) (auto simp: bit_or_iff)
  ultimately show ?thesis by metis
qed

lemma data_selector_ax [simp]: "ucast (((x :: u64) AND - 65536) OR 16) = (16 :: u16)"
  using low_ax [of x 16] by simp

lemma low_address: "a \<le> 0xffffffff \<Longrightarrow> ucast (ucast a :: u32) = (a :: u64)"
  by (simp add: word_unat_eq_iff unsigned_ucast_eq take_bit_eq_mod word_le_nat_alt unat_mod)

lemma low32_id: "a \<le> 0xffffffff \<Longrightarrow> low32 a = a"
  unfolding low32_def and_byte_mask by (simp add: word_unat_eq_iff take_bit_eq_mod word_le_nat_alt unat_mod)

section \<open>Protected mode\<close>

lemma prot32_phase:
  assumes page: "page_holds base (cp_mem c) 0x60 (prot32_bytes base cr3)"
      "page_holds base (cp_mem c) 0x1a0 (write_u64 0x00cf92000000ffff)"
    and cr3: "cr3 \<le> 0xffffffff"
    and start: "cp_size c = C32" "cp_ip c = base + 0x60" "cp_cs_base c = 0" "\<not> cp_halted c"
      "\<not> bit (cp_cr0 c) 31" "bit (cp_cr0 c) 0" "low32 (cp_cr0 c) = cp_cr0 c" "low32 (cp_cr4 c) = cp_cr4 c"
      "cp_gdtr_base c = base + 0x190" "cp_gdtr_limit c = 31"
  shows "\<exists>c'. cpu_run tables 16 c = Some c' \<and> cp_size c' = C32 \<and> cp_ip c' = base + 150 \<and> cp_cs_base c' = 0 \<and>
    \<not> cp_halted c' \<and> cp_cr0 c' = cp_cr0 c OR 0x80000000 \<and> cp_cr4 c' = cp_cr4 c OR 0x20 \<and> cp_cr3 c' = cr3 \<and>
    cp_efer c' = set_bit 10 (cp_efer c OR 0x100) \<and>
    cp_gdtr_base c' = base + 0x190 \<and> cp_gdtr_limit c' = 31 \<and> cp_mem c' = cp_mem c"
proof -
  note held = page(1) [unfolded prot32_bytes_def, simplified page_holds_append page_holds_Cons1, simplified, simplified two_nat, simplified]
  have comm: "numeral n + base = base + numeral n" for n by (rule add.commute)
  note r16 = load16_unpaged [of _ c base _ _ tables] and r32 = load32_unpaged [of _ c base _ _ tables]
    and r64 = load64_unpaged [of _ c base _ _ tables]
  note loads = r16 [of _ 98 "0x10", simplified] r32 [of _ 110 "0x20", simplified] r32 [of _ 118 "ucast cr3", simplified]
    r32 [of _ 126 "0xc0000080", simplified] r32 [of _ 133 "0x100", simplified] r32 [of _ 143 "0x80000000", simplified]
    r64 [of _ "0x1a0" "0x00cf92000000ffff", simplified]
  have bits: "bit (cp_cr0 c OR 0x80000000) 31" "bit (cp_cr0 c OR 0x80000000) 0" "bit (cp_cr4 c OR 0x20) 5"
    "bit (cp_efer c OR 0x100) 8" using start by (simp_all add: bit_or_iff)
  show ?thesis
    using held start
    by (simp add: bits cpu_run_numeral step_defs load_unpaged segment_defs Let_def comm page loads efer_lme low_address [OF cr3] low32_id [OF cr3])
qed

section \<open>Long mode\<close>

lemma long_phase:
  assumes page: "page_holds base (cp_mem c) 0x60 (prot32_bytes base cr3)"
      "page_holds base (cp_mem c) 0xc0 (long_bytes stack_top ctx entry)"
      "page_holds base (cp_mem c) 0x198 (write_u64 0x00af9a000000ffff)"
      "page_holds base (cp_mem c) 0x1a0 (write_u64 0x00cf92000000ffff)"
    and base: "base < 0x100000"
    and mapped: "\<And>x. x < 4096 \<Longrightarrow> tables cr3 (base + word_of_nat x) = Some (base + word_of_nat x)"
      "tables cr3 (stack_top - 8) = Some p"
    and start: "cp_size c = C32" "cp_ip c = base + 150" "cp_cs_base c = 0" "\<not> cp_halted c"
      "bit (cp_cr0 c) 31" "bit (cp_cr0 c) 0" "bit (cp_efer c) 10" "cp_cr3 c = cr3"
      "cp_gdtr_base c = base + 0x190" "cp_gdtr_limit c = 31"
  shows "\<exists>c'. cpu_run tables 11 c = Some c' \<and> cp_size c' = C64 \<and> cp_ip c' = entry \<and> cp_cs c' = 8 \<and>
    cp_ds c' = 0x10 \<and> cp_es c' = 0x10 \<and> cp_ss c' = 0x10 \<and> \<not> cp_halted c' \<and>
    cp_rdi c' = ctx \<and> cp_rsp c' = stack_top - 8 \<and> cp_cr0 c' = cp_cr0 c \<and> cp_cr3 c' = cr3 \<and>
    cp_cr4 c' = cp_cr4 c \<and> cp_efer c' = cp_efer c \<and>
    cp_mem c' = store_bytes (cp_mem c) p (write_u64 (base + 240))"
proof -
  note held = page(1) [unfolded prot32_bytes_def, simplified page_holds_append page_holds_Cons1, simplified, simplified two_nat, simplified]
    page(2) [unfolded long_bytes_def, simplified page_holds_append page_holds_Cons1, simplified, simplified two_nat, simplified]
  have comm: "numeral n + base = base + numeral n" for n by (rule add.commute)
  have vis: "page_visible tables base d" if "bit (cp_cr0 d) 31" "cp_cr3 d = cr3" for d
    using that mapped(1) by (simp add: page_visible_def translate_def)
  have l8: "load8 tables d (base + numeral k) = Some (cp_mem d (base + numeral k))"
    if "bit (cp_cr0 d) 31" "cp_cr3 d = cr3" "numeral k < (4096 :: nat)" for d k
    using load8_page [OF vis [OF that(1,2)] that(3)] by simp
  have r16: "load16 tables d (base + word_of_nat off) = Some v"
    if "bit (cp_cr0 d) 31" "cp_cr3 d = cr3" "cp_mem d = cp_mem c" "page_holds base (cp_mem c) off (write_u16 v)" "off < 4000" for d off v
    using load16_page [OF vis [OF that(1,2)]] that(3-5) by simp
  have r32: "load32 tables d (base + word_of_nat off) = Some v"
    if "bit (cp_cr0 d) 31" "cp_cr3 d = cr3" "cp_mem d = cp_mem c" "page_holds base (cp_mem c) off (write_u32 v)" "off < 4000" for d off v
    using load32_page [OF vis [OF that(1,2)]] that(3-5) by simp
  have r64: "load64 tables d (base + word_of_nat off) = Some v"
    if "bit (cp_cr0 d) 31" "cp_cr3 d = cr3" "cp_mem d = cp_mem c" "page_holds base (cp_mem c) off (write_u64 v)" "off < 3000" for d off v
    using load64_page [OF vis [OF that(1,2)]] that(3-5) by simp
  note loads = r32 [of _ 151 "ucast (base + 0xc0)", simplified] r16 [of _ 155 8, simplified]
    r64 [of _ "0x198" "0x00af9a000000ffff", simplified] r64 [of _ "0x1a0" "0x00cf92000000ffff", simplified]
    r16 [of _ 194 "0x10", simplified] r64 [of _ 204 stack_top, simplified] r64 [of _ 217 ctx, simplified]
    r64 [of _ 230 entry, simplified]
  show ?thesis
    using held start mapped(2)
    by (simp add: cpu_run_numeral step_defs l8 segment_defs Let_def comm loads page small_address base translate_def)
qed

section \<open>The whole start\<close>

lemma cpu_run_add: "cpu_run tables (n + k) c = Option.bind (cpu_run tables n c) (cpu_run tables k)"
proof (induction n arbitrary: c)
  case (Suc n)
  then show ?case by (cases "cpu_step tables c") simp_all
qed simp

lemma sipi_selector:
  assumes "v \<le> 0xff" "push_bit 12 (ucast v) = base"
  shows "ucast (push_bit 8 (v :: u32)) = (ucast (drop_bit 4 (base :: u64)) :: u16)"
proof (rule bit_word_eqI)
  fix n assume n: "n < LENGTH(16)"
  then show "bit (ucast (push_bit 8 v) :: u16) n = bit (ucast (drop_bit 4 base) :: u16) n"
    unfolding assms(2) [symmetric] by (auto simp: bit_simps)
qed

text \<open>The state of a processor after INIT: protection and paging are off, the upper half of the control registers is zero.\<close>

definition after_init :: "cpu \<Rightarrow> bool" where
  "after_init c \<longleftrightarrow> \<not> bit (cp_cr0 c) 0 \<and> \<not> bit (cp_cr0 c) 31 \<and> low32 (cp_cr0 c) = cp_cr0 c \<and> low32 (cp_cr4 c) = cp_cr4 c"

text \<open>
  C5. The trampoline starts an AP. When the kernel's page tables are set up and the trampoline has
  been built with them, a processor in the state after INIT that receives the start-up interrupt
  executes the assembled page without a fault and arrives at \<^verbatim>\<open>ap_entry_one\<close> in 64-bit mode with flat
  kernel segments, protection, paging, PAE and long mode on, the kernel's page tables in CR3, the
  context in the register of the first argument and the top of the context's boot stack, below which
  the return address is, in the stack pointer. The page of the trampoline and the stack have to lie in
  memory the memory map describes.
\<close>

theorem trampoline_starts_ap:
  assumes ready: "paging_ready mmap fb m" and paging: "setup_kernel_paging mmap fb m = Some (True, mmap', info', m')"
    and build: "build_ap_trampoline ad info' boot mem = (True, boot', mem')"
    and vector: "push_bit 12 (ucast (bi_sipi_vector boot)) = bi_trampoline_base boot"
    and described: "\<And>x. x < 4096 \<Longrightarrow> unat (bi_trampoline_base boot + word_of_nat x) \<in> mapped_bytes mmap"
      "unat (bi_stack_top boot' - 8) \<in> mapped_bytes mmap"
    and cpu: "cp_mem c = mem'" "after_init c"
  shows "\<exists>n c'. cpu_run (page_translate (pm_store m')) n (sipi_start (bi_sipi_vector boot) c) = Some c' \<and>
    cp_size c' = C64 \<and> cp_ip c' = ad_ap_entry_one ad \<and> cp_cs c' = 8 \<and> cp_ds c' = 0x10 \<and> cp_ss c' = 0x10 \<and>
    cp_rdi c' = ad_ctx ad \<and> cp_rsp c' = bi_stack_top boot' - 8 \<and> cp_cr3 c' = pi_loaded_cr3 info' \<and>
    cp_cr0 c' = (cp_cr0 c OR 1) OR 0x80000000 \<and> cp_cr4 c' = cp_cr4 c OR 0x20 \<and>
    cp_efer c' = set_bit 10 (cp_efer c OR 0x100)"
proof -
  let ?t = "page_translate (pm_store m')" and ?b = "bi_trampoline_base boot" and ?c = "sipi_start (bi_sipi_vector boot) c"
  note tp = build_ap_trampoline_page [OF build]
  have cr3: "pm_cr3 m' = pi_loaded_cr3 info'" using setup_kernel_paging_run [OF ready] paging by auto
  have id: "?t (pi_loaded_cr3 info') a = Some a" if "unat a \<in> mapped_bytes mmap" for a
    using paged_kernel.firmware_identity [OF paged_kernel.intro [OF ready] that]
    by (simp add: kernel_translate_def paging cr3)
  have page: "trampoline_page ?b (pi_loaded_cr3 info') (bi_stack_top boot') (ad_ctx ad) (ad_ap_entry_one ad) (cp_mem ?c)"
    using tp(1,2) cpu(1) by (simp add: sipi_start_def)
  have start: "cp_size ?c = C16" "cp_ip ?c = 0" "cp_cs_base ?c = ?b" "cp_cs ?c = ucast (drop_bit 4 ?b)" "\<not> cp_halted ?c"
    "\<not> bit (cp_cr0 ?c) 31" "\<not> bit (cp_cr0 ?c) 0" "low32 (cp_cr0 ?c) = cp_cr0 ?c"
    using vector cpu(2) sipi_selector [OF tp(7) vector] by (simp_all add: sipi_start_def after_init_def)
  from real16_phase [OF _ _ _ _ tp(4,5) start, of ?t] page obtain c1 where
    c1: "cpu_run ?t 12 ?c = Some c1" "cp_size c1 = C32" "cp_ip c1 = ?b + 0x60" "cp_cs_base c1 = 0" "\<not> cp_halted c1"
      "cp_cr0 c1 = cp_cr0 ?c OR 1" "cp_cr4 c1 = cp_cr4 ?c" "cp_efer c1 = cp_efer ?c"
      "cp_gdtr_base c1 = ?b + 0x190" "cp_gdtr_limit c1 = 31" "cp_mem c1 = cp_mem ?c"
    by (auto simp: trampoline_page_def)
  have cr: "\<not> bit (cp_cr0 c1) 31" "bit (cp_cr0 c1) 0" "low32 (cp_cr0 c1) = cp_cr0 c1" "low32 (cp_cr4 c1) = cp_cr4 c1"
    using c1(6,7) cpu(2) by (simp_all add: sipi_start_def after_init_def bit_or_iff)
  from prot32_phase [OF _ _ tp(6) c1(2-5) cr c1(9,10), of ?t] page c1(11) obtain c2 where
    c2: "cpu_run ?t 16 c1 = Some c2" "cp_size c2 = C32" "cp_ip c2 = ?b + 150" "cp_cs_base c2 = 0" "\<not> cp_halted c2"
      "cp_cr0 c2 = cp_cr0 c1 OR 0x80000000" "cp_cr4 c2 = cp_cr4 c1 OR 0x20" "cp_cr3 c2 = pi_loaded_cr3 info'"
      "cp_efer c2 = set_bit 10 (cp_efer c1 OR 0x100)" "cp_gdtr_base c2 = ?b + 0x190" "cp_gdtr_limit c2 = 31"
      "cp_mem c2 = cp_mem c1"
    by (auto simp: trampoline_page_def)
  have on: "bit (cp_cr0 c2) 31" "bit (cp_cr0 c2) 0" "bit (cp_efer c2) 10"
    using c2(6,9) cr(2) by (simp_all add: bit_or_iff bit_set_bit_iff)
  from long_phase [where tables = ?t and ?cr3.0 = "pi_loaded_cr3 info'" and stack_top = "bi_stack_top boot'",
      OF _ _ _ _ tp(4) id [OF described(1)] id [OF described(2)] c2(2-5) on c2(8,10,11)]
    page c1(11) c2(12) obtain c3 where c3: "cpu_run ?t 11 c2 = Some c3" "cp_size c3 = C64" "cp_ip c3 = ad_ap_entry_one ad" "cp_cs c3 = 8"
      "cp_ds c3 = 0x10" "cp_ss c3 = 0x10" "cp_rdi c3 = ad_ctx ad" "cp_rsp c3 = bi_stack_top boot' - 8" "cp_cr0 c3 = cp_cr0 c2"
      "cp_cr3 c3 = pi_loaded_cr3 info'" "cp_cr4 c3 = cp_cr4 c2" "cp_efer c3 = cp_efer c2"
    by (auto simp: trampoline_page_def)
  have "cpu_run ?t 39 ?c = Some c3"
    using cpu_run_add [of ?t 12 27 ?c] cpu_run_add [of ?t 16 11 c1] c1(1) c2(1) c3(1) by simp
  then show ?thesis using c3 c2 c1 by (intro exI [of _ 39] exI [of _ c3]) (simp add: sipi_start_def)
qed

text \<open>A machine with memory below one mebibyte.\<close>

definition low_memory_map :: efi_memory_map_t where
  "low_memory_map = example_map\<lparr>mm_descriptors := [\<lparr>md_Type = EfiConventionalMemory, md_Pad = 0,
     md_PhysicalStart = 0x1000, md_VirtualStart = 0, md_NumberOfPages = 64, md_Attribute = 15\<rparr>]\<rparr>"

definition example_addresses :: ap_addresses where
  "example_addresses = \<lparr>ad_ctx = 0x30000, ad_boot_stack = 0x20000, ad_ap_entry_one = 0x10000\<rparr>"

definition allocated_boot :: ap_boot_info_t where
  "allocated_boot = zero_boot\<lparr>bi_trampoline_base := 0x8000, bi_sipi_vector := 8\<rparr>"

definition reset_cpu :: "ram \<Rightarrow> cpu" where
  "reset_cpu mem = \<lparr>cp_size = C16, cp_ip = 0xfff0, cp_cs = 0xf000, cp_cs_base = 0xffff0000, cp_ds = 0, cp_ds_base = 0,
     cp_es = 0, cp_ss = 0, cp_rax = 0, cp_rcx = 0, cp_rdx = 0, cp_rsp = 0, cp_rdi = 0, cp_cr0 = 0x60000010, cp_cr3 = 0,
     cp_cr4 = 0, cp_efer = 0, cp_gdtr_base = 0, cp_gdtr_limit = 0xffff, cp_halted = True, cp_mem = mem\<rparr>"

lemma low_memory_end: "identity_end low_memory_map example_fb = Some 0x32C000"
  by code_simp

lemma low_memory_ready: "paging_ready low_memory_map example_fb example_machine"
proof -
  have R: "estimate_identity_page_table_pages 0x32C000 = 21" by code_simp
  show ?thesis
    unfolding paging_ready_def low_memory_end option.case Let_def R
    by (simp add: low_memory_map_def example_map_def example_machine_def mmap_wf_def pool_candidate_def)
qed

lemma low_memory_bytes: "x \<in> mapped_bytes low_memory_map \<longleftrightarrow> 0x1000 \<le> x \<and> x < 0x41000"
  by (auto simp: mapped_bytes_def low_memory_map_def example_map_def descriptor_bytes_def)

theorem trampoline_starts_ap_witness:
  "\<exists>mmap' info' m' boot' mem' n c'.
     setup_kernel_paging low_memory_map example_fb example_machine = Some (True, mmap', info', m') \<and>
     build_ap_trampoline example_addresses info' allocated_boot (\<lambda>_. 0) = (True, boot', mem') \<and>
     cpu_run (page_translate (pm_store m')) n (sipi_start 8 (reset_cpu mem')) = Some c' \<and>
     cp_size c' = C64 \<and> cp_ip c' = 0x10000 \<and> cp_rdi c' = 0x30000 \<and> cp_rsp c' = 0x23ff8 \<and> cp_cr0 c' = 0xe0000011"
proof -
  obtain mmap' info' m' where run: "setup_kernel_paging low_memory_map example_fb example_machine = Some (True, mmap', info', m')"
    using setup_kernel_paging_run [OF low_memory_ready] by blast
  have cr3: "\<not> pi_loaded_cr3 info' > 0xffffffff"
    using root_below_end [OF low_memory_ready low_memory_end run] by (simp add: word_less_nat_alt)
  obtain boot' mem' where build: "build_ap_trampoline example_addresses info' allocated_boot (\<lambda>_. 0) = (True, boot', mem')"
    and boot': "boot' = allocated_boot\<lparr>bi_stack_top := 0x24000, bi_ap_state := AP_BOOT_STATE_READY\<rparr>"
    using cr3 by (simp add: build_ap_trampoline_def allocated_boot_def zero_boot_def c_const Let_def example_addresses_def)
  have v: "push_bit 12 (ucast (bi_sipi_vector allocated_boot)) = bi_trampoline_base allocated_boot"
    by (simp add: allocated_boot_def)
  have page: "unat (bi_trampoline_base allocated_boot + word_of_nat x) \<in> mapped_bytes low_memory_map" if "x < 4096" for x
    using that by (simp add: allocated_boot_def low_memory_bytes unat_word_ariths unat_of_nat)
  have "cp_mem (reset_cpu mem') = mem'" "after_init (reset_cpu mem')"
    by (simp_all add: reset_cpu_def after_init_def low32_def)
  from trampoline_starts_ap [OF low_memory_ready run build v page _ this] show ?thesis
    using run build by (auto simp: boot' low_memory_bytes allocated_boot_def example_addresses_def reset_cpu_def)
qed

end
