(* ===== verification/Hello.thy ===== *)
theory Hello
  imports Vibe_Prelude
begin

text \<open>
  The test program for network boot (\<^verbatim>\<open>pxenode1/hello-efi/hello.c\<close>). The firmware's console is a
  parameter: what clearing the screen and writing a string do to its state. The program ends in a loop
  that never leaves, so the result is the state of the console that stays on display.
\<close>

record 'w text_output =
  to_OutputString :: "string \<Rightarrow> 'w \<Rightarrow> 'w"
  to_ClearScreen :: "'w \<Rightarrow> 'w"

text \<open>A system table is the console it points to; both pointers may be null.\<close>

definition hello_main :: "'w text_output option option \<Rightarrow> 'w \<Rightarrow> 'w" where
  "hello_main st w =
     (case st of
        Some (Some con) \<Rightarrow>
          let w = to_ClearScreen con w;
              w = to_OutputString con ([CHR 0x0D, CHR 0x0A] @ ''hello from pxenode1 PXE'' @ [CHR 0x0D, CHR 0x0A]) w
          in to_OutputString con ([CHR 0x0D, CHR 0x0A] @ ''Tiny UEFI program loaded over PXE/iPXE.'' @ [CHR 0x0D, CHR 0x0A]) w
      | _ \<Rightarrow> w)"

text \<open>A console as a list of lines, after the conventions of the UEFI text output.\<close>

fun type_char :: "char \<Rightarrow> string list \<Rightarrow> string list" where
  "type_char c [] = [if c = CHR 0x0A \<or> c = CHR 0x0D then [] else [c]]"
| "type_char c (l # ls) =
     (if c = CHR 0x0A then [] # l # ls else if c = CHR 0x0D then l # ls else (l @ [c]) # ls)"

definition line_console :: "string list text_output" where
  "line_console = \<lparr>to_OutputString = fold type_char, to_ClearScreen = (\<lambda>_. [[]])\<rparr>"

text \<open>Whatever was on the screen, the two messages are what remains; without a console nothing changes.\<close>

lemma hello_main_shows:
  "rev (hello_main (Some (Some line_console)) w) =
     [[], ''hello from pxenode1 PXE'', [], ''Tiny UEFI program loaded over PXE/iPXE.'', []]"
  by (simp add: hello_main_def line_console_def Let_def)

lemma hello_main_silent: "hello_main (Some None) w = w" "hello_main None w = w"
  by (simp_all add: hello_main_def)

end
