(* ===== verification/Spec2Isabelle.thy ===== *)
theory Spec2Isabelle
  imports Kernel_Main Ap_Stream_Live Cpu_Info Trampoline_Run Ap_Services Hello
begin

text \<open>
  Verification of \<^verbatim>\<open>vibe\<close>, a bare x86-64 kernel that the UEFI firmware loads, and of the small test
  program beside it.

  \<^bold>\<open>The program.\<close> \<^verbatim>\<open>kernel/kernel.c\<close> is one file with a single entry, \<^verbatim>\<open>efi_main\<close>. The boot processor
  (BSP) takes the framebuffer, the ACPI root pointer and a page below one mebibyte from the firmware and
  leaves the boot services with the final memory map. It installs its GDT, TSS and interrupt table,
  builds identity page tables out of a pool cut from the memory map, tests its interrupt table, parses
  the ACPI tables and starts up to eight application processors (APs) through a trampoline it assembles.
  The APs serve requests (\<^verbatim>\<open>kernel/ap_request.c\<close>, \<^verbatim>\<open>kernel/ap_services.c\<close>): the BSP publishes them in the
  four slots of an AP's inbox, the AP claims a slot by compare-and-exchange, runs the handler of the
  service and answers; inter-processor interrupts and timers only wake the two sides up. The BSP pings
  all APs, streams the eight requests of its plan to one of them, draws a report of everything on the
  screen and halts. A processor exception on the BSP ends in a fault screen, one on an AP is reported
  to the BSP through the slot the AP was working on.

  \<^bold>\<open>Modelling.\<close> A C structure is a record with its fields in their order, an enumeration or a macro is a
  constant of the width it has in C, and every integer is a machine word, so that all arithmetic wraps
  as in C. An operation takes the state it reads and returns the state it leaves; failing operations
  return an option or a status, as in the code. A loop that is bounded is a recursion on its bound, one that is not is a
  partial function into an option, and that it returns is proved. The firmware, the instructions
  \<^verbatim>\<open>cpuid\<close> and \<^verbatim>\<open>rdmsr\<close>, the initial contents of memory and registers, the link-time addresses and what
  the other processors do between two steps are parameters. Where the code is machine code, it is executed: the interrupt entries
  instruction by instruction, the trampoline byte by byte on a model of the processor that follows the
  manuals.

  \<^bold>\<open>Theories.\<close>
  \<^item> \<open>Vibe_Prelude\<close>, \<open>Bytes\<close>, \<open>Build_Config\<close>: word types, shared lemmas and proof collections;
    little-endian encodings; the macros a build may override.
  \<^item> \<open>Ap_Request\<close>, \<open>Ap_Services\<close> (\<^verbatim>\<open>ap_request.c\<close>, \<^verbatim>\<open>ap_services.c\<close>): slots, plans, outboxes; handlers,
    registry, lookups. An outbox refines a bounded queue; an outbox is committed exactly with its request; the four lookups agree.
  \<^item> \<open>Memory_Map\<close>, \<open>Paging\<close>, \<open>Paging_Words\<close>, \<open>Paging_Invariant\<close>, \<open>Paging_Map\<close>, \<open>Paging_Setup\<close>,
    \<open>Paging_Boot\<close>, \<open>Paged_Memory\<close> (\<^verbatim>\<open>setup_kernel_paging\<close> and its callees): the range test is exact; the
    set-up always returns; on a machine that is ready for it, it succeeds and the page walk of the processor is the
    identity on exactly the described pages, with the flags their types ask for.
  \<^item> \<open>Cpu_Tables\<close>, \<open>Isr\<close>, \<open>Lapic\<close>: descriptor tables, interrupt tables, the assembly of the entries, the local
    APIC. Every gate leads to its entry, every interrupt entry restores the interrupted state and records what
    it should, every fault entry calls its handler with the right frame.
  \<^item> \<open>Acpi\<close>, \<open>Acpi_Safe\<close>, \<open>Acpi_Bounds\<close>, \<open>Acpi_Madt\<close>, \<open>Acpi_Paged\<close> (\<^verbatim>\<open>parse_acpi\<close>): the parser reads back
    what well-formed tables list, never overruns its own table, and causes no page fault on the kernel's page
    tables except for one unchecked byte.
  \<^item> \<open>Ap_Types\<close>, \<open>Ap_Context\<close>, \<open>Ap_Scheduler\<close>, \<open>Ap_Loop\<close>: the shared state, fault reporting, choice of
    the target, the loop of an AP, which refines a server that answers the pending slots in order.
  \<^item> \<open>Ap_Stream\<close>, \<open>Ap_Stream_Inv\<close>, \<open>Ap_Stream_Run\<close>, \<open>Ap_Guarantee\<close>, \<open>Ap_Stream_Live\<close>, \<open>Ap_Broadcast\<close>: the
    BSP side of the protocol in rely-guarantee style. A stream and a broadcast return and account for every
    request, for any interleaving with APs that keep their side; the loop of \<open>Ap_Loop\<close> is shown to keep it,
    and a stream to an AP that works succeeds.
  \<^item> \<open>Ap_Fleet_Live\<close>: a broadcast to APs that work gets an answer from every one of them and leaves them
    ready; a stream to one AP leaves the others alone.
  \<^item> \<open>Trampoline\<close>, \<open>Trampoline_Cpu\<close>, \<open>Trampoline_Run\<close>, \<open>Trampoline_Exec\<close>, \<open>Ap_Entry\<close>, \<open>Ap_Bringup\<close>: from
    the start-up interrupt to the request loop of an AP.
  \<^item> \<open>Ap_Bringup_All\<close>: starting one AP leaves those that are up alone, so that after the loop of
    \<^verbatim>\<open>efi_main\<close> over the contexts all of them are up.
  \<^item> \<open>Format_Text\<close>, \<open>Framebuffer\<close>, \<open>Report_Lines\<close>, \<open>Ap_Report\<close>, \<open>Memory_Report\<close>, \<open>Fault_Report\<close>,
    \<open>Cpu_Info\<close>: numbers, the font and the pixels, and every line the kernel draws. Printed numbers and drawn text can be
    read back, no line overruns its array, the memory table is sorted, the fault screen shows the fault.
  \<^item> \<open>Boot_Services\<close>, \<open>Kernel_Main\<close>: leaving the firmware, and \<^verbatim>\<open>efi_main\<close> as the composition of all
    components. A boot on a suitable machine starts all its APs, has every ping answered and every
    request of the plan carried out, and reports it; a boot on a machine whose local APIC the memory map does not
    describe faults; what the kernel draws lies in mapped memory.
  \<^item> \<open>Hello\<close>: \<^verbatim>\<open>pxenode1/hello-efi/hello.c\<close>.

  \<^bold>\<open>Interfaces.\<close> The locales are what one component assumes of another: \<open>bounded_outbox\<close> and
  \<open>committed_outbox\<close> (outboxes, for the completion of requests), \<open>request_handler\<close> and \<open>service_directory\<close> (services, for the
  loop), \<open>range_check\<close> (memory map, for the parser), \<open>page_mapper\<close> (mapping of one page, for the range loop),
  \<open>paged_kernel\<close> and \<open>firmware_memory\<close> (page tables, for ACPI, the APs and the screen), \<open>ap_environment\<close>,
  its extension \<open>prompt_ap\<close>, \<open>ap_fleet\<close>, its extension \<open>serving_fleet\<close>, and \<open>private_ap\<close> (APs, for the stream and the broadcast). Each is interpreted on the model of the code that provides it.

  \<^bold>\<open>Bounds.\<close> The bounds are those of the code: eight contexts, four slots, eight attempts to leave the
  firmware, 32 processors, 512 printed descriptors, the loop limits of the APIC and of the wait for an
  AP. Two runs of machine code have a bound of their own: an interrupt entry runs for at most 40 instructions
  and the trampoline for 39; the theorems show that this is enough. The
  waiting loops of the BSP end because their timer step is not zero, which is a hypothesis on the build where it is used.

  \<^bold>\<open>Not modelled.\<close> The firmware, the processor and the network boot scripts are outside the sources; what the code needs of
  them is a parameter with named hypotheses. Endless halts (\<^verbatim>\<open>halt_forever\<close>) are the end of a run, and the tail of
  a fault handler likewise. One-instruction wrappers of inline assembly (\<^verbatim>\<open>read_cr3\<close>, \<^verbatim>\<open>lidt\<close>,
  \<^verbatim>\<open>pause\<close>) appear as reads and writes of the registers in the state; fences and cache effects do not appear:
  the memory of the model is sequentially consistent. Which accesses can fault is modelled where the
  address comes from outside: the bytes of the ACPI tables and the registers of the local APIC are accessed
  through the page tables of the kernel, and a fault there is a result of the boot. The image of the
  kernel with its variables and stacks and the trampoline page are taken to be described by the memory map,
  since the firmware has allocated them.
  Steps of the other processors happen between the polls of a wait, not inside a single C statement.
\<close>

end
